(* ===== verification/Py_Prelude.thy ===== *)
theory Py_Prelude
  imports Complex_Main "HOL-Library.AList" "HOL-Library.Sublist"
begin

text \<open>
  Shared vocabulary of the development: the Python dictionaries, strings, integers and clocks
  the components use, with the lemmas their proofs rely on.

  \<^item> A \<^verbatim>\<open>dict\<close> is an association list in insertion order: \<open>dict_set\<close> overwrites in place or
    appends, \<open>dict_pop\<close> deletes, \<open>map_of\<close> is \<^verbatim>\<open>dict.get\<close>. \<open>dict_wf\<close> says that no key repeats, which
    every operation keeps.
  \<^item> A \<^verbatim>\<open>str\<close> is an Isabelle string; the text the service compares (API paths, VM names, error
    messages) is taken to be ASCII, on which \<^verbatim>\<open>lower\<close>, \<^verbatim>\<open>casefold\<close>, \<^verbatim>\<open>strip\<close> and \<^verbatim>\<open>isdigit\<close> are the
    functions below.
  \<^item> An \<^verbatim>\<open>int\<close> is \<open>int\<close>. Clock readings and delays (\<^verbatim>\<open>time.monotonic\<close>, \<^verbatim>\<open>time.time\<close>) are \<open>real\<close>:
    rounding of floating-point seconds is not modelled.
\<close>

named_theorems py_dict \<open>laws of insertion-ordered dictionaries\<close>
named_theorems py_text \<open>laws of the text functions\<close>

type_synonym ('k, 'v) pydict = "('k \<times> 'v) list"
type_synonym seconds = real


subsection \<open>Insertion-ordered dictionaries\<close>

abbreviation dict_set :: "'k \<Rightarrow> 'v \<Rightarrow> ('k, 'v) pydict \<Rightarrow> ('k, 'v) pydict" where
  "dict_set \<equiv> AList.update"

abbreviation dict_pop :: "'k \<Rightarrow> ('k, 'v) pydict \<Rightarrow> ('k, 'v) pydict" where
  "dict_pop \<equiv> AList.delete"

definition dict_wf :: "('k, 'v) pydict \<Rightarrow> bool" where
  "dict_wf d = distinct (map fst d)"

text \<open>\<^verbatim>\<open>d.setdefault(k, v)\<close> as a statement: keep an existing binding, else add one.\<close>

definition dict_setdefault :: "'k \<Rightarrow> 'v \<Rightarrow> ('k, 'v) pydict \<Rightarrow> ('k, 'v) pydict" where
  "dict_setdefault k v d = (if map_of d k = None then d @ [(k, v)] else d)"

text \<open>\<^verbatim>\<open>d.setdefault(k, []).append(v)\<close>.\<close>

definition dict_append :: "'k \<Rightarrow> 'v \<Rightarrow> ('k, 'v list) pydict \<Rightarrow> ('k, 'v list) pydict" where
  "dict_append k v d =
     (case map_of d k of None \<Rightarrow> d @ [(k, [v])] | Some vs \<Rightarrow> dict_set k (vs @ [v]) d)"

text \<open>\<^verbatim>\<open>{k: v for k, v in d.items() if p(k, v)}\<close>.\<close>

definition dict_filter :: "('k \<Rightarrow> 'v \<Rightarrow> bool) \<Rightarrow> ('k, 'v) pydict \<Rightarrow> ('k, 'v) pydict" where
  "dict_filter p d = filter (\<lambda>(k, v). p k v) d"

lemma dict_wf_Nil [simp]: "dict_wf []"
  by (simp add: dict_wf_def)

lemma dict_wf_set [simp, intro]: "dict_wf d \<Longrightarrow> dict_wf (dict_set k v d)"
  by (simp add: dict_wf_def distinct_update)

lemma dict_wf_pop [simp, intro]: "dict_wf d \<Longrightarrow> dict_wf (dict_pop k d)"
  by (simp add: dict_wf_def distinct_delete)

lemma dict_wf_filter_list [simp, intro]: "dict_wf d \<Longrightarrow> dict_wf (filter p d)"
  by (simp add: dict_wf_def distinct_map_filter)

lemma dict_wf_filter [simp, intro]: "dict_wf d \<Longrightarrow> dict_wf (dict_filter p d)"
  by (simp add: dict_filter_def)

lemma dict_wf_setdefault [simp, intro]: "dict_wf d \<Longrightarrow> dict_wf (dict_setdefault k v d)"
  by (auto simp: dict_setdefault_def dict_wf_def map_of_eq_None_iff)

lemma dict_wf_append [simp, intro]: "dict_wf d \<Longrightarrow> dict_wf (dict_append k v d)"
  by (auto simp: dict_append_def dict_wf_def map_of_eq_None_iff distinct_update
      split: option.splits)

lemma map_of_dict_set [simp]: "map_of (dict_set k v d) k' = (if k' = k then Some v else map_of d k')"
  by (simp add: update_conv')

lemma map_of_dict_pop [simp]: "map_of (dict_pop k d) k' = (if k' = k then None else map_of d k')"
  by (simp add: delete_conv')

lemma map_of_dict_setdefault [py_dict]:
  "map_of (dict_setdefault k v d) k' =
     (if k' = k \<and> map_of d k = None then Some v else map_of d k')"
  by (auto simp: dict_setdefault_def map_add_def split: option.splits)

lemma map_of_dict_append [py_dict]:
  "map_of (dict_append k v d) k' =
     (if k' = k then Some ((case map_of d k of None \<Rightarrow> [] | Some vs \<Rightarrow> vs) @ [v]) else map_of d k')"
  by (auto simp: dict_append_def map_add_def split: option.splits)

lemma map_of_filter_wf [py_dict]:
  assumes "dict_wf d"
  shows "map_of (filter (\<lambda>(k, v). p k v) d) k =
           (case map_of d k of None \<Rightarrow> None | Some v \<Rightarrow> if p k v then Some v else None)"
  using assms
proof (induction d)
  case Nil
  then show ?case by simp
next
  case (Cons x d)
  obtain a b where x: "x = (a, b)" by (cases x)
  from Cons.prems x have wf: "dict_wf d" and a: "a \<notin> fst ` set d"
    by (auto simp: dict_wf_def)
  from a have "map_of d a = None" by (simp add: map_of_eq_None_iff)
  with Cons.IH [OF wf] x show ?case by auto
qed

lemma map_of_dict_filter [py_dict]:
  "dict_wf d \<Longrightarrow> map_of (dict_filter p d) k =
     (case map_of d k of None \<Rightarrow> None | Some v \<Rightarrow> if p k v then Some v else None)"
  unfolding dict_filter_def by (rule map_of_filter_wf)

lemma map_of_mem_wf: "dict_wf d \<Longrightarrow> (k, v) \<in> set d \<longleftrightarrow> map_of d k = Some v"
  by (auto simp: dict_wf_def)

lemma length_dict_pop: "dict_wf d \<Longrightarrow> map_of d k = Some v \<Longrightarrow> length (dict_pop k d) = length d - 1"
proof (induction d)
  case Nil
  then show ?case by simp
next
  case (Cons x d)
  have len: "length (dict_pop k d) = (if k \<in> fst ` set d then length d - 1 else length d)" if "k \<notin> fst ` set d"
    using that by simp
  show ?case
  proof (cases "fst x = k")
    case True
    with Cons.prems have "k \<notin> fst ` set d" by (auto simp: dict_wf_def)
    with len True show ?thesis by (cases x) simp
  next
    case False
    with Cons.prems have "dict_wf d" "map_of d k = Some v"
      by (auto simp: dict_wf_def split: if_splits)
    with Cons.IH have "length (dict_pop k d) = length d - 1" by simp
    moreover from \<open>map_of d k = Some v\<close> have "0 < length d" by (cases d) auto
    ultimately show ?thesis using False by (cases x) simp
  qed
qed

lemma sum_list_dict_pop:
  fixes f :: "'k \<times> 'v \<Rightarrow> int"
  assumes "dict_wf d" and "map_of d k = Some v"
  shows "sum_list (map f (dict_pop k d)) = sum_list (map f d) - f (k, v)"
  using assms
proof (induction d)
  case Nil
  then show ?case by simp
next
  case (Cons x d)
  show ?case
  proof (cases "fst x = k")
    case True
    with Cons.prems have "k \<notin> fst ` set d" by (auto simp: dict_wf_def)
    with True Cons.prems show ?thesis by (cases x) simp
  next
    case False
    with Cons show ?thesis by (cases x) (auto simp: dict_wf_def split: if_splits)
  qed
qed


subsection \<open>Text\<close>

text \<open>\<^verbatim>\<open>str.isspace\<close> on one ASCII character: tab to carriage return, the separators, space.\<close>

definition py_space :: "char \<Rightarrow> bool" where
  "py_space c = (let n = (of_char c :: nat) in (9 \<le> n \<and> n \<le> 13) \<or> (28 \<le> n \<and> n \<le> 32))"

definition py_lstrip :: "string \<Rightarrow> string" where
  "py_lstrip s = dropWhile py_space s"

definition py_strip :: "string \<Rightarrow> string" where
  "py_strip s = rev (dropWhile py_space (rev (dropWhile py_space s)))"

text \<open>\<^verbatim>\<open>s.strip("/")\<close> and its like: strip one given character.\<close>

definition py_strip_char :: "char \<Rightarrow> string \<Rightarrow> string" where
  "py_strip_char c s = rev (dropWhile (\<lambda>x. x = c) (rev (dropWhile (\<lambda>x. x = c) s)))"

definition lower_char :: "char \<Rightarrow> char" where
  "lower_char c = (let n = (of_char c :: nat) in if 65 \<le> n \<and> n \<le> 90 then char_of (n + 32) else c)"

definition py_lower :: "string \<Rightarrow> string" where
  "py_lower s = map lower_char s"

text \<open>On ASCII text \<^verbatim>\<open>str.casefold\<close> is \<^verbatim>\<open>str.lower\<close>.\<close>

abbreviation py_casefold :: "string \<Rightarrow> string" where
  "py_casefold \<equiv> py_lower"

definition py_digit :: "char \<Rightarrow> bool" where
  "py_digit c = (let n = (of_char c :: nat) in 48 \<le> n \<and> n \<le> 57)"

definition py_isdigit :: "string \<Rightarrow> bool" where
  "py_isdigit s = (s \<noteq> [] \<and> list_all py_digit s)"

text \<open>The classes \<^verbatim>\<open>[A-Za-z0-9]\<close> and \<^verbatim>\<open>\w\<close> of regular expressions, on ASCII.\<close>

definition alnum :: "char \<Rightarrow> bool" where
  "alnum c = (let n = (of_char c :: nat) in
     (48 \<le> n \<and> n \<le> 57) \<or> (65 \<le> n \<and> n \<le> 90) \<or> (97 \<le> n \<and> n \<le> 122))"

definition word_char :: "char \<Rightarrow> bool" where
  "word_char c = (alnum c \<or> c = CHR ''_'')"

definition py_startswith :: "'a list \<Rightarrow> 'a list \<Rightarrow> bool" where
  "py_startswith p s = (take (length p) s = p)"

definition py_endswith :: "'a list \<Rightarrow> 'a list \<Rightarrow> bool" where
  "py_endswith p s = py_startswith (rev p) (rev s)"

text \<open>\<^verbatim>\<open>p in s\<close> for strings.\<close>

fun py_contains :: "'a list \<Rightarrow> 'a list \<Rightarrow> bool" where
  "py_contains p [] = (p = [])"
| "py_contains p (x # xs) = (py_startswith p (x # xs) \<or> py_contains p xs)"

text \<open>\<^verbatim>\<open>s.split(c)\<close> for a one-character separator: always at least one part.\<close>

fun py_split :: "'a \<Rightarrow> 'a list \<Rightarrow> 'a list list" where
  "py_split c [] = [[]]"
| "py_split c (x # xs) =
     (if x = c then [] # py_split c xs
      else (case py_split c xs of [] \<Rightarrow> [[x]] | w # ws \<Rightarrow> (x # w) # ws))"

fun py_join :: "'a list \<Rightarrow> 'a list list \<Rightarrow> 'a list" where
  "py_join sep [] = []"
| "py_join sep [w] = w"
| "py_join sep (w # v # ws) = w @ sep @ py_join sep (v # ws)"

lemma py_startswith_prefix [py_text]: "py_startswith p s \<longleftrightarrow> prefix p s"
  by (metis append_eq_conv_conj prefix_def py_startswith_def)

lemma py_contains_sublist [py_text]: "py_contains p s \<longleftrightarrow> (\<exists>u v. s = u @ p @ v)"
proof (induction s)
  case Nil
  then show ?case by auto
next
  case (Cons x s)
  show ?case
  proof
    assume "py_contains p (x # s)"
    then consider "prefix p (x # s)" | "py_contains p s" by (auto simp: py_startswith_prefix)
    then show "\<exists>u v. x # s = u @ p @ v"
    proof cases
      case 1
      then show ?thesis by (metis append_Nil prefixE)
    next
      case 2
      with Cons.IH obtain u v where "s = u @ p @ v" by blast
      then have "x # s = (x # u) @ p @ v" by simp
      then show ?thesis by blast
    qed
  next
    assume "\<exists>u v. x # s = u @ p @ v"
    then obtain u v where e: "x # s = u @ p @ v" by blast
    show "py_contains p (x # s)"
    proof (cases u)
      case Nil
      with e have "prefix p (x # s)" by (simp add: prefix_def)
      then show ?thesis by (simp add: py_startswith_prefix)
    next
      case (Cons y u')
      with e have "s = u' @ p @ v" by simp
      with Cons.IH show ?thesis by auto
    qed
  qed
qed

lemma py_split_ne [simp]: "py_split c s \<noteq> []"
  by (induction s) (auto split: list.splits)

lemma py_join_split: "py_join [c] (py_split c s) = s"
proof (induction s)
  case Nil
  then show ?case by simp
next
  case (Cons x s)
  then show ?case
    by (cases "py_split c s"; cases "tl (py_split c s)") auto
qed

lemma py_startswith_single: "py_startswith [c] s \<longleftrightarrow> s \<noteq> [] \<and> hd s = c"
  by (cases s) (auto simp: py_startswith_def)

lemma py_endswith_single: "py_endswith [c] s \<longleftrightarrow> s \<noteq> [] \<and> last s = c"
  by (simp add: py_endswith_def py_startswith_single hd_rev)

lemma py_strip_ends: "s \<noteq> [] \<Longrightarrow> \<not> py_space (hd s) \<Longrightarrow> \<not> py_space (last s) \<Longrightarrow> py_strip s = s"
proof -
  assume a: "s \<noteq> []" "\<not> py_space (hd s)" "\<not> py_space (last s)"
  have d: "t \<noteq> [] \<Longrightarrow> \<not> py_space (hd t) \<Longrightarrow> dropWhile py_space t = t" for t by (cases t) auto
  show ?thesis using d [of s] d [of "rev s"] a by (simp add: py_strip_def hd_rev)
qed

lemma py_strip_Nil [simp]: "py_strip [] = []"
  by (simp add: py_strip_def)

lemma py_lower_Nil [simp]: "py_lower [] = []"
  by (simp add: py_lower_def)

lemma py_lower_append [py_text]: "py_lower (s @ t) = py_lower s @ py_lower t"
  by (simp add: py_lower_def)

lemma lower_char_idem [simp]: "lower_char (lower_char c) = lower_char c"
  by (simp add: lower_char_def Let_def)

lemma py_lower_idem [simp]: "py_lower (py_lower s) = py_lower s"
  by (simp add: py_lower_def)


subsection \<open>Integers and their decimal text\<close>

definition digit_char :: "nat \<Rightarrow> char" where
  "digit_char n = char_of (48 + n)"

definition digit_val :: "char \<Rightarrow> nat" where
  "digit_val c = (of_char c :: nat) - 48"

fun nat_str :: "nat \<Rightarrow> string" where
  "nat_str n = (if n < 10 then [digit_char n] else nat_str (n div 10) @ [digit_char (n mod 10)])"

declare nat_str.simps [simp del]

definition int_str :: "int \<Rightarrow> string" where
  "int_str i = (if i < 0 then ''-'' @ nat_str (nat (- i)) else nat_str (nat i))"

definition digits_val :: "string \<Rightarrow> nat" where
  "digits_val s = foldl (\<lambda>n c. 10 * n + digit_val c) 0 s"

text \<open>
  \<^verbatim>\<open>int(s)\<close> on text: surrounding white space, one optional sign, decimal digits with single
  underscores between digits; \<open>None\<close> is the \<^verbatim>\<open>ValueError\<close>. (The interpreter's 4300-digit limit is
  not modelled.)
\<close>

fun underscores_ok :: "string \<Rightarrow> bool" where
  "underscores_ok [] = False"
| "underscores_ok [c] = py_digit c"
| "underscores_ok (c # d # s) =
     (py_digit c \<and> (if d = CHR ''_'' then underscores_ok s else underscores_ok (d # s)))"

definition py_int_digits :: "string \<Rightarrow> nat option" where
  "py_int_digits s =
     (if underscores_ok s then Some (digits_val (filter (\<lambda>c. c \<noteq> CHR ''_'') s)) else None)"

definition py_int :: "string \<Rightarrow> int option" where
  "py_int s =
     (case py_strip s of
        [] \<Rightarrow> None
      | c # r \<Rightarrow>
          if c = CHR ''-'' then map_option (\<lambda>n. - int n) (py_int_digits r)
          else if c = CHR ''+'' then map_option int (py_int_digits r)
          else map_option int (py_int_digits (c # r)))"

lemma of_char_digit_char [simp]: "n < 10 \<Longrightarrow> (of_char (digit_char n) :: nat) = 48 + n"
  by (simp add: digit_char_def)

lemma digit_char_neq:
  assumes "n < 10" and "(of_char c :: nat) < 48 \<or> 57 < (of_char c :: nat)"
  shows "digit_char n \<noteq> c"
  using assms of_char_digit_char [OF assms(1)] by auto

lemma digit_char_facts [simp]:
  assumes "n < 10"
  shows "py_digit (digit_char n)" and "digit_val (digit_char n) = n"
    and "\<not> py_space (digit_char n)" and "lower_char (digit_char n) = digit_char n"
    and "digit_char n \<noteq> CHR ''_''" and "digit_char n \<noteq> CHR ''-''" and "digit_char n \<noteq> CHR ''+''"
  using assms
  by (simp_all add: digit_val_def py_digit_def py_space_def lower_char_def digit_char_neq)

lemma nat_str_ne [simp]: "nat_str n \<noteq> []"
  by (subst nat_str.simps) simp

lemma nat_str_chars: "c \<in> set (nat_str n) \<Longrightarrow> \<exists>k < 10. c = digit_char k"
proof (induction n rule: nat_str.induct)
  case (1 n)
  show ?case
  proof (cases "n < 10")
    case True
    with "1.prems" show ?thesis by (auto simp: nat_str.simps [of n])
  next
    case False
    with "1.prems" have "c \<in> set (nat_str (n div 10)) \<or> c = digit_char (n mod 10)"
      by (auto simp: nat_str.simps [of n])
    with False "1.IH" show ?thesis by (metis mod_less_divisor zero_less_numeral)
  qed
qed

lemma nat_str_list_all:
  assumes "\<And>k. k < 10 \<Longrightarrow> P (digit_char k)"
  shows "list_all P (nat_str n)"
  using nat_str_chars assms by (auto simp: list_all_iff)

lemma nat_str_digits [simp]: "list_all py_digit (nat_str n)"
  by (rule nat_str_list_all) simp

lemma py_isdigit_nat_str [simp]: "py_isdigit (nat_str n)"
  by (simp add: py_isdigit_def)

lemma digits_val_append: "digits_val (s @ [c]) = 10 * digits_val s + digit_val c"
  by (simp add: digits_val_def)

lemma digits_val_nat_str [simp]: "digits_val (nat_str n) = n"
proof (induction n rule: nat_str.induct)
  case (1 n)
  show ?case
  proof (cases "n < 10")
    case True
    then show ?thesis by (simp add: nat_str.simps [of n] digits_val_def)
  next
    case False
    with "1.IH" show ?thesis by (simp add: nat_str.simps [of n] digits_val_append)
  qed
qed

lemma nat_str_inj: "nat_str m = nat_str n \<longleftrightarrow> m = n"
  by (metis digits_val_nat_str)

lemma underscores_ok_digits: "s \<noteq> [] \<Longrightarrow> list_all py_digit s \<Longrightarrow> underscores_ok s"
proof (induction s rule: underscores_ok.induct)
  case (3 c d s)
  then have "d \<noteq> CHR ''_''" by (auto simp: py_digit_def Let_def)
  with 3 show ?case by simp
qed auto

lemma py_int_digits_nat_str [simp]: "py_int_digits (nat_str n) = Some n"
proof -
  have "filter (\<lambda>c. c \<noteq> CHR ''_'') (nat_str n) = nat_str n"
    using nat_str_list_all [of "\<lambda>c. c \<noteq> CHR ''_''" n] by (simp add: filter_id_conv list_all_iff)
  then show ?thesis by (simp add: py_int_digits_def underscores_ok_digits)
qed

lemma py_strip_no_space: "list_all (\<lambda>c. \<not> py_space c) s \<Longrightarrow> py_strip s = s"
proof -
  assume a: "list_all (\<lambda>c. \<not> py_space c) s"
  have d: "dropWhile py_space t = t" if "list_all (\<lambda>c. \<not> py_space c) t" for t
    using that by (cases t) auto
  from a have "list_all (\<lambda>c. \<not> py_space c) (rev s)" by simp
  with a show ?thesis by (simp add: py_strip_def d)
qed

lemma py_strip_nat_str [simp]: "py_strip (nat_str n) = nat_str n"
  by (rule py_strip_no_space, rule nat_str_list_all) simp

text \<open>Printing and reading back: \<^verbatim>\<open>int(str(i)) == i\<close>.\<close>

lemma py_int_int_str [simp]: "py_int (int_str i) = Some i"
proof (cases "i < 0")
  case True
  have "list_all (\<lambda>c. \<not> py_space c) (nat_str (nat (- i)))"
    by (rule nat_str_list_all) simp
  then have "py_strip (''-'' @ nat_str (nat (- i))) = ''-'' @ nat_str (nat (- i))"
    by (intro py_strip_no_space) (simp add: py_space_def)
  with True show ?thesis by (simp add: int_str_def py_int_def)
next
  case False
  obtain c r where cr: "nat_str (nat i) = c # r" by (cases "nat_str (nat i)") auto
  then have "\<exists>k < 10. c = digit_char k" using nat_str_chars [of c "nat i"] by simp
  then have "c \<noteq> CHR ''-''" "c \<noteq> CHR ''+''" by auto
  moreover have "py_int_digits (c # r) = Some (nat i)" by (metis cr py_int_digits_nat_str)
  moreover have "py_strip (c # r) = c # r" by (metis cr py_strip_nat_str)
  ultimately show ?thesis using False cr by (simp add: int_str_def py_int_def)
qed

lemma int_str_inj: "int_str i = int_str j \<longleftrightarrow> i = j"
  by (metis option.inject py_int_int_str)

lemma py_lower_nat_str [simp]: "py_lower (nat_str n) = nat_str n"
proof -
  have "list_all (\<lambda>c. lower_char c = c) (nat_str n)" by (rule nat_str_list_all) simp
  then show ?thesis by (simp add: py_lower_def list_all_iff map_idI)
qed

end
