(* ===== verification/Py_Values.thy ===== *)
theory Py_Values
  imports Py_Prelude "HOL-Library.List_Lexorder" "HOL-Library.Char_ord"
begin

text \<open>
  The dynamically typed values that cross the service's interfaces: JSON documents of the NetBox
  and Proxmox REST APIs and the payload dictionaries built from them. The operations are the ones
  the modelled code applies to such values: \<^verbatim>\<open>==\<close>, truth testing, \<^verbatim>\<open>int(v)\<close>, \<^verbatim>\<open>str(v)\<close>, \<^verbatim>\<open>repr(v)\<close> and
  \<^verbatim>\<open>json.dumps\<close>.

  A float is a finite decimal: \<open>PFloat n k\<close> is \<open>n / 10 ^ k\<close>, printed without an exponent, which is
  Python's notation for magnitudes from \<open>10 ^ -4\<close> up to \<open>10 ^ 16\<close> with at most 15 digits (NetBox
  sends two-decimal values). Tuples are lists; dictionary keys are strings, as in JSON.
\<close>

datatype pyval =
    PNone
  | PBool bool
  | PInt int
  | PFloat int nat
  | PStr string
  | PList "pyval list"
  | PDict "(string \<times> pyval) list"

type_synonym pyobj = "(string, pyval) pydict"

text \<open>\<^verbatim>\<open>d.get(k)\<close>: a missing key reads as \<^verbatim>\<open>None\<close>.\<close>

definition obj_get :: "pyobj \<Rightarrow> string \<Rightarrow> pyval" where
  "obj_get d k = (case map_of d k of None \<Rightarrow> PNone | Some v \<Rightarrow> v)"

fun truthy :: "pyval \<Rightarrow> bool" where
  "truthy PNone = False"
| "truthy (PBool b) = b"
| "truthy (PInt i) = (i \<noteq> 0)"
| "truthy (PFloat n k) = (n \<noteq> 0)"
| "truthy (PStr s) = (s \<noteq> [])"
| "truthy (PList xs) = (xs \<noteq> [])"
| "truthy (PDict d) = (d \<noteq> [])"

text \<open>\<^verbatim>\<open>a or b\<close>.\<close>

definition py_or :: "pyval \<Rightarrow> pyval \<Rightarrow> pyval" where
  "py_or a b = (if truthy a then a else b)"


subsection \<open>Equality\<close>

text \<open>Numbers compare by value across \<^verbatim>\<open>bool\<close>, \<^verbatim>\<open>int\<close> and \<^verbatim>\<open>float\<close>.\<close>

fun py_num :: "pyval \<Rightarrow> (int \<times> nat) option" where
  "py_num (PBool b) = Some (of_bool b, 0)"
| "py_num (PInt i) = Some (i, 0)"
| "py_num (PFloat n k) = Some (n, k)"
| "py_num _ = None"

definition num_eq :: "int \<times> nat \<Rightarrow> int \<times> nat \<Rightarrow> bool" where
  "num_eq a b = (fst a * 10 ^ snd b = fst b * 10 ^ snd a)"

text \<open>
  \<^verbatim>\<open>a == b\<close>. Dictionaries are equal when they bind the same keys to equal values, whatever the
  insertion order.
\<close>

fun py_eq :: "pyval \<Rightarrow> pyval \<Rightarrow> bool" where
  "py_eq (PStr s) w = (w = PStr s)"
| "py_eq (PList xs) w =
     (case w of PList ys \<Rightarrow> list_all2 py_eq xs ys | _ \<Rightarrow> False)"
| "py_eq (PDict d) w =
     (case w of
        PDict e \<Rightarrow>
          length d = length e \<and>
          list_all (\<lambda>(k, v). case map_of e k of None \<Rightarrow> False | Some u \<Rightarrow> py_eq v u) d
      | _ \<Rightarrow> False)"
| "py_eq PNone w = (w = PNone)"
| "py_eq v w =
     (case (py_num v, py_num w) of (Some a, Some b) \<Rightarrow> num_eq a b | _ \<Rightarrow> False)"

text \<open>Well-formed values: no dictionary repeats a key.\<close>

fun val_wf :: "pyval \<Rightarrow> bool" where
  "val_wf (PList xs) = list_all val_wf xs"
| "val_wf (PDict d) = (dict_wf d \<and> list_all (\<lambda>(k, v). val_wf v) d)"
| "val_wf _ = True"

definition obj_wf :: "pyobj \<Rightarrow> bool" where
  "obj_wf d = (dict_wf d \<and> list_all (\<lambda>(k, v). val_wf v) d)"

lemma obj_wf_dict_wf [simp]: "obj_wf d \<Longrightarrow> dict_wf d"
  by (simp add: obj_wf_def)

lemma obj_wf_get: "obj_wf d \<Longrightarrow> val_wf (obj_get d k)"
  by (auto simp: obj_wf_def obj_get_def list_all_iff dest: map_of_SomeD split: option.splits)

lemma num_eq_refl [simp]: "num_eq a a"
  by (simp add: num_eq_def)

lemma num_eq_sym: "num_eq a b \<Longrightarrow> num_eq b a"
  by (simp add: num_eq_def)

lemma num_eq_trans: "num_eq a b \<Longrightarrow> num_eq b c \<Longrightarrow> num_eq a c"
proof -
  assume ab: "num_eq a b" and bc: "num_eq b c"
  have "(fst a * 10 ^ snd c) * 10 ^ snd b = (fst a * 10 ^ snd b) * 10 ^ snd c"
    by (simp add: algebra_simps)
  also have "\<dots> = (fst b * 10 ^ snd c) * 10 ^ snd a"
    using ab by (simp add: num_eq_def algebra_simps)
  also have "\<dots> = (fst c * 10 ^ snd a) * 10 ^ snd b"
    using bc by (simp add: num_eq_def algebra_simps)
  finally show "num_eq a c" by (simp add: num_eq_def)
qed

lemma py_eq_refl [simp]: "val_wf v \<Longrightarrow> py_eq v v"
proof (induction v rule: val_wf.induct)
  case (1 xs)
  then show ?case by (auto simp: list_all_iff list_all2_same)
next
  case (2 d)
  have "case map_of d k of None \<Rightarrow> False | Some u \<Rightarrow> py_eq v u" if kv: "(k, v) \<in> set d" for k v
  proof -
    from "2.prems" kv have "map_of d k = Some v" by (simp add: map_of_mem_wf)
    moreover from "2.prems" kv have "val_wf v" by (auto simp: list_all_iff)
    ultimately show ?thesis using "2.IH" [OF kv refl] by simp
  qed
  then show ?case by (auto simp: list_all_iff)
qed (auto simp: num_eq_def)


subsection \<open>Conversions\<close>

text \<open>
  \<^verbatim>\<open>int(v)\<close>; \<open>None\<close> is the \<^verbatim>\<open>TypeError\<close> or \<^verbatim>\<open>ValueError\<close> the callers catch together. A float
  truncates towards zero.
\<close>

fun py_int_of :: "pyval \<Rightarrow> int option" where
  "py_int_of (PBool b) = Some (of_bool b)"
| "py_int_of (PInt i) = Some i"
| "py_int_of (PFloat n k) = Some (sgn n * (\<bar>n\<bar> div 10 ^ k))"
| "py_int_of (PStr s) = py_int s"
| "py_int_of _ = None"

fun pad_zeros :: "nat \<Rightarrow> string \<Rightarrow> string" where
  "pad_zeros k s = replicate (k - length s) (CHR ''0'') @ s"

definition float_str :: "int \<Rightarrow> nat \<Rightarrow> string" where
  "float_str n k =
     (let m = nat \<bar>n\<bar>;
          frac = rev (dropWhile (\<lambda>c. c = CHR ''0'') (rev (pad_zeros k (nat_str (m mod 10 ^ k)))))
      in (if n < 0 then ''-'' else []) @ nat_str (m div 10 ^ k) @ ''.'' @
         (if frac = [] then ''0'' else frac))"

definition hex_digit :: "nat \<Rightarrow> char" where
  "hex_digit n = (if n < 10 then char_of (48 + n) else char_of (87 + n))"

definition hex2 :: "char \<Rightarrow> string" where
  "hex2 c = (let n = (of_char c :: nat) in [hex_digit (n div 16), hex_digit (n mod 16)])"

definition repr_char :: "char \<Rightarrow> char \<Rightarrow> string" where
  "repr_char q c =
     (let n = (of_char c :: nat) in
      if c = q \<or> n = 92 then [CHR 0x5C, c]
      else if n = 9 then [CHR 0x5C, CHR ''t'']
      else if n = 10 then [CHR 0x5C, CHR ''n'']
      else if n = 13 then [CHR 0x5C, CHR ''r'']
      else if n < 32 \<or> n = 127 then [CHR 0x5C, CHR ''x''] @ hex2 c
      else [c])"

text \<open>\<^verbatim>\<open>repr(s)\<close>: single quotes unless the text has a single and no double quote.\<close>

definition str_repr :: "string \<Rightarrow> string" where
  "str_repr s =
     (let sq = CHR 0x27; dq = CHR 0x22;
          q = (if sq \<in> set s \<and> dq \<notin> set s then dq else sq)
      in [q] @ concat (map (repr_char q) s) @ [q])"

fun py_repr :: "pyval \<Rightarrow> string" where
  "py_repr PNone = ''None''"
| "py_repr (PBool b) = (if b then ''True'' else ''False'')"
| "py_repr (PInt i) = int_str i"
| "py_repr (PFloat n k) = float_str n k"
| "py_repr (PStr s) = str_repr s"
| "py_repr (PList xs) = ''['' @ py_join '', '' (map py_repr xs) @ '']''"
| "py_repr (PDict d) =
     ''{'' @ py_join '', '' (map (\<lambda>(k, v). str_repr k @ '': '' @ py_repr v) d) @ ''}''"

definition py_str :: "pyval \<Rightarrow> string" where
  "py_str v = (case v of PStr s \<Rightarrow> s | _ \<Rightarrow> py_repr v)"

lemma py_str_simps [simp]:
  "py_str (PStr s) = s"
  "py_str (PInt i) = int_str i"
  "py_str PNone = ''None''"
  by (simp_all add: py_str_def)


subsection \<open>JSON text\<close>

definition json_char :: "char \<Rightarrow> string" where
  "json_char c =
     (let n = (of_char c :: nat); bs = CHR 0x5C in
      if n = 34 \<or> n = 92 then [bs, c]
      else if n = 8 then [bs, CHR ''b'']
      else if n = 9 then [bs, CHR ''t'']
      else if n = 10 then [bs, CHR ''n'']
      else if n = 12 then [bs, CHR ''f'']
      else if n = 13 then [bs, CHR ''r'']
      else if n < 32 \<or> 127 \<le> n then [bs, CHR ''u'', CHR ''0'', CHR ''0''] @ hex2 c
      else [c])"

definition json_str :: "string \<Rightarrow> string" where
  "json_str s =
     (let dq = CHR 0x22 in [dq] @ concat (map json_char s) @ [dq])"

text \<open>
  \<^verbatim>\<open>json.dumps(v, sort_keys=srt, separators=(isep, ksep))\<close>. Every value of the model is JSON, so
  the \<^verbatim>\<open>TypeError\<close> fallbacks of the callers are not reached. Sorting happens on the keys before
  the values are rendered.
\<close>

fun json_dumps :: "bool \<Rightarrow> string \<Rightarrow> string \<Rightarrow> pyval \<Rightarrow> string" where
  "json_dumps srt isep ksep PNone = ''null''"
| "json_dumps srt isep ksep (PBool b) = (if b then ''true'' else ''false'')"
| "json_dumps srt isep ksep (PInt i) = int_str i"
| "json_dumps srt isep ksep (PFloat n k) = float_str n k"
| "json_dumps srt isep ksep (PStr s) = json_str s"
| "json_dumps srt isep ksep (PList xs) =
     ''['' @ py_join isep (map (json_dumps srt isep ksep) xs) @ '']''"
| "json_dumps srt isep ksep (PDict d) =
     (let items = map (\<lambda>(k, v). (k, json_dumps srt isep ksep v)) d;
          items' = (if srt then sort_key fst items else items)
      in ''{'' @ py_join isep (map (\<lambda>(k, t). json_str k @ ksep @ t) items') @ ''}'')"

end
