(* ===== verification/Expiring_Cache.thy ===== *)
theory Expiring_Cache
  imports Py_Prelude
begin

text \<open>
  The contract two components of the service share: a key-value cache whose entries live for a
  fixed time. The idempotency cache of the operational verbs and the NetBox GET cache both
  implement it. \<open>content\<close> is the abstraction: for each key the time it was written and the value.
  The client fact, proved once, is about whole histories: whatever a read returns was written to
  that very key, by an operation of the history, less than \<open>ttl\<close> seconds before.
\<close>

datatype ('k, 'v, 'd) cache_op =
    CRead seconds 'k
  | CWrite seconds 'k 'v
  | CDrop 'd

text \<open>Run a history of operations from a state; results of reads are discarded.\<close>

fun cache_exec ::
  "(seconds \<Rightarrow> 'k \<Rightarrow> 's \<Rightarrow> 'v option \<times> 's) \<Rightarrow> (seconds \<Rightarrow> 'k \<Rightarrow> 'v \<Rightarrow> 's \<Rightarrow> 's) \<Rightarrow> ('d \<Rightarrow> 's \<Rightarrow> 's) \<Rightarrow>
   's \<Rightarrow> ('k, 'v, 'd) cache_op list \<Rightarrow> 's" where
  "cache_exec rd wr dr s [] = s"
| "cache_exec rd wr dr s (CRead t k # ops) = cache_exec rd wr dr (snd (rd t k s)) ops"
| "cache_exec rd wr dr s (CWrite t k v # ops) = cache_exec rd wr dr (wr t k v s) ops"
| "cache_exec rd wr dr s (CDrop d # ops) = cache_exec rd wr dr (dr d s) ops"

locale expiring_cache =
  fixes inv :: "'s \<Rightarrow> bool"
    and content :: "'s \<Rightarrow> 'k \<Rightarrow> (seconds \<times> 'v) option"
    and rd :: "seconds \<Rightarrow> 'k \<Rightarrow> 's \<Rightarrow> 'v option \<times> 's"
    and wr :: "seconds \<Rightarrow> 'k \<Rightarrow> 'v \<Rightarrow> 's \<Rightarrow> 's"
    and dr :: "'d \<Rightarrow> 's \<Rightarrow> 's"
    and ttl :: seconds
  assumes inv_read: "inv s \<Longrightarrow> inv (snd (rd t k s))"
    and inv_write: "inv s \<Longrightarrow> inv (wr t k v s)"
    and inv_drop: "inv s \<Longrightarrow> inv (dr d s)"
    and read_fresh: "inv s \<Longrightarrow> fst (rd t k s) = Some v \<Longrightarrow> \<exists>b. content s k = Some (b, v) \<and> t < b + ttl"
    and read_content: "inv s \<Longrightarrow> content (snd (rd t k s)) k' = Some c \<Longrightarrow> content s k' = Some c"
    and write_content: "inv s \<Longrightarrow> content (wr t k v s) k' = Some c \<Longrightarrow>
          (k' = k \<and> c = (t, v)) \<or> content s k' = Some c"
    and drop_content: "inv s \<Longrightarrow> content (dr d s) k' = Some c \<Longrightarrow> content s k' = Some c"
begin

lemma exec_content:
  assumes "inv s" and "content (cache_exec rd wr dr s ops) k = Some (b, v)"
  shows "CWrite b k v \<in> set ops \<or> content s k = Some (b, v)"
  using assms
proof (induction ops arbitrary: s)
  case Nil
  then show ?case by simp
next
  case (Cons op ops)
  show ?case
  proof (cases op)
    case (CRead t k')
    with Cons.prems Cons.IH [of "snd (rd t k' s)"] show ?thesis
      by (auto intro: inv_read dest: read_content)
  next
    case (CWrite t k' v')
    with Cons.prems Cons.IH [of "wr t k' v' s"] show ?thesis
      by (auto intro: inv_write dest: write_content)
  next
    case (CDrop d)
    with Cons.prems Cons.IH [of "dr d s"] show ?thesis
      by (auto intro: inv_drop dest: drop_content)
  qed
qed

lemma exec_keeps_inv: "inv s \<Longrightarrow> inv (cache_exec rd wr dr s ops)"
proof (induction ops arbitrary: s)
  case (Cons op ops)
  then show ?case by (cases op) (auto intro: inv_read inv_write inv_drop)
qed simp

lemma read_was_written:
  assumes "inv s" and "\<And>k'. content s k' = None"
    and "fst (rd t k (cache_exec rd wr dr s ops)) = Some v"
  shows "\<exists>b. CWrite b k v \<in> set ops \<and> t < b + ttl"
proof -
  from assms(1) have "inv (cache_exec rd wr dr s ops)" by (rule exec_keeps_inv)
  with assms(3) obtain b where "content (cache_exec rd wr dr s ops) k = Some (b, v)" "t < b + ttl"
    using read_fresh by blast
  with exec_content [OF assms(1)] assms(2) show ?thesis by fastforce
qed

end

end
