(* ===== verification/Idempotency_Cache.thy ===== *)
theory Idempotency_Cache
  imports Py_Values Expiring_Cache
begin

text \<open>
  \<^verbatim>\<open>proxbox_api/services/idempotency.py\<close>: the in-memory Idempotency-Key cache of the operational verb
  routes. \<open>idem_cache\<close> is the \<^verbatim>\<open>IdempotencyCache\<close> object: the entry map, the map of in-flight keys and
  the time to live. A \<open>flight\<close> object is referred to by its address in \<open>ic_heap\<close>, because the code
  compares flights by identity. Each coroutine body that runs under \<^verbatim>\<open>self._lock\<close> is one definition
  and one step of the interleaving: the mutex makes it atomic, and the code awaits nothing inside.

  The first part gives the sequential meaning of get, store and clear; the second the
  \<^verbatim>\<open>single_flight\<close> context manager as a step relation over any number of tasks.
\<close>

record cache_key =
  ck_endpoint_id :: int
  ck_verb :: string
  ck_vmid :: int
  ck_key :: string

record idem_entry =
  ie_response :: pyobj
  ie_status_code :: int
  ie_journal_finalization :: "pyobj option"
  ie_expires_at :: seconds

record flight =
  fl_locked :: bool
  fl_users :: int

record cached_response =
  cr_response :: pyobj
  cr_status_code :: int
  cr_journal_finalization :: "pyobj option"

record idem_cache =
  ic_entries :: "(cache_key, idem_entry) pydict"
  ic_flights :: "(cache_key, nat) pydict"
  ic_heap :: "nat \<Rightarrow> flight"
  ic_next :: nat
  ic_ttl :: seconds


subsection \<open>Entries\<close>

definition idem_init :: "seconds \<Rightarrow> idem_cache" where
  "idem_init ttl =
     \<lparr>ic_entries = [], ic_flights = [], ic_heap = (\<lambda>_. \<lparr>fl_locked = False, fl_users = 0\<rparr>),
      ic_next = 0, ic_ttl = ttl\<rparr>"

definition idem_prune :: "seconds \<Rightarrow> idem_cache \<Rightarrow> idem_cache" where
  "idem_prune now c =
     c\<lparr>ic_entries := filter (\<lambda>(k, e). \<not> ie_expires_at e \<le> now) (ic_entries c)\<rparr>"

definition entry_view :: "idem_entry \<Rightarrow> cached_response" where
  "entry_view e =
     \<lparr>cr_response = ie_response e, cr_status_code = ie_status_code e,
      cr_journal_finalization = ie_journal_finalization e\<rparr>"

definition get_entry :: "seconds \<Rightarrow> cache_key \<Rightarrow> idem_cache \<Rightarrow> cached_response option \<times> idem_cache" where
  "get_entry now k c =
     (let c' = idem_prune now c in (map_option entry_view (map_of (ic_entries c') k), c'))"

definition idem_get :: "seconds \<Rightarrow> cache_key \<Rightarrow> idem_cache \<Rightarrow> pyobj option \<times> idem_cache" where
  "idem_get now k c = (let (e, c') = get_entry now k c in (map_option cr_response e, c'))"

text \<open>\<^verbatim>\<open>response.get("journal_finalized") is False\<close> is an identity test against \<^verbatim>\<open>False\<close>.\<close>

definition journal_unfinalized :: "pyobj \<Rightarrow> pyobj option \<Rightarrow> bool" where
  "journal_unfinalized response jf =
     (jf \<noteq> None \<or> obj_get response ''journal_finalized'' = PBool False)"

definition idem_store :: "seconds \<Rightarrow> cache_key \<Rightarrow> cached_response \<Rightarrow> idem_cache \<Rightarrow> idem_cache" where
  "idem_store now k v c =
     (let new_unfinalized = journal_unfinalized (cr_response v) (cr_journal_finalization v);
          existing_finalized =
            (case map_of (ic_entries c) k of
               None \<Rightarrow> False
             | Some e \<Rightarrow> ie_journal_finalization e = None \<and>
                 obj_get (ie_response e) ''journal_finalized'' \<noteq> PBool False)
      in if existing_finalized \<and> new_unfinalized then c
         else c\<lparr>ic_entries := dict_set k
                  \<lparr>ie_response = cr_response v, ie_status_code = cr_status_code v,
                   ie_journal_finalization = cr_journal_finalization v,
                   ie_expires_at = now + ic_ttl c\<rparr> (ic_entries c)\<rparr>)"

definition idem_clear :: "idem_cache \<Rightarrow> idem_cache" where
  "idem_clear c = c\<lparr>ic_entries := []\<rparr>"

text \<open>An entry is finalized when nothing about its journal record is still pending.\<close>

definition entry_finalized :: "idem_entry \<Rightarrow> bool" where
  "entry_finalized e = (\<not> journal_unfinalized (ie_response e) (ie_journal_finalization e))"

definition idem_wf :: "idem_cache \<Rightarrow> bool" where
  "idem_wf c = dict_wf (ic_entries c)"

lemma idem_wf_ops [simp, intro]:
  "idem_wf (idem_init ttl)"
  "idem_wf c \<Longrightarrow> idem_wf (idem_prune now c)"
  "idem_wf c \<Longrightarrow> idem_wf (snd (get_entry now k c))"
  "idem_wf c \<Longrightarrow> idem_wf (idem_store now k v c)"
  "idem_wf (idem_clear c)"
  by (auto simp: idem_wf_def idem_init_def idem_prune_def get_entry_def idem_store_def
      idem_clear_def Let_def)

lemma map_of_idem_prune:
  "idem_wf c \<Longrightarrow> map_of (ic_entries (idem_prune now c)) k =
     (case map_of (ic_entries c) k of None \<Rightarrow> None
      | Some e \<Rightarrow> if now < ie_expires_at e then Some e else None)"
  by (auto simp: idem_prune_def idem_wf_def map_of_filter_wf not_le split: option.splits)

lemma idem_ops_frame [simp]:
  "ic_ttl (idem_prune now c) = ic_ttl c"
  "ic_ttl (idem_store now k v c) = ic_ttl c"
  "ic_ttl (snd (get_entry now k c)) = ic_ttl c"
  "ic_ttl (idem_clear c) = ic_ttl c"
  "ic_flights (idem_prune now c) = ic_flights c"
  "ic_heap (idem_prune now c) = ic_heap c"
  "ic_next (idem_prune now c) = ic_next c"
  "ic_flights (snd (get_entry now k c)) = ic_flights c"
  "ic_heap (snd (get_entry now k c)) = ic_heap c"
  "ic_next (snd (get_entry now k c)) = ic_next c"
  "ic_flights (idem_store now k v c) = ic_flights c"
  "ic_heap (idem_store now k v c) = ic_heap c"
  "ic_next (idem_store now k v c) = ic_next c"
  "ic_flights (idem_clear c) = ic_flights c"
  "ic_heap (idem_clear c) = ic_heap c"
  "ic_next (idem_clear c) = ic_next c"
  by (simp_all add: idem_prune_def idem_store_def get_entry_def idem_clear_def Let_def)

text \<open>What \<^verbatim>\<open>get_entry\<close> returns, in terms of the stored entry.\<close>

lemma get_entry_result:
  "idem_wf c \<Longrightarrow> fst (get_entry now k c) =
     (case map_of (ic_entries c) k of None \<Rightarrow> None
      | Some e \<Rightarrow> if now < ie_expires_at e then Some (entry_view e) else None)"
  by (auto simp: get_entry_def map_of_idem_prune Let_def split: option.splits)

text \<open>The two outcomes of \<^verbatim>\<open>store\<close>: refuse a downgrade, or bind the key.\<close>

lemma idem_store_refuses:
  "map_of (ic_entries c) k = Some e \<Longrightarrow> entry_finalized e \<Longrightarrow>
   journal_unfinalized (cr_response v) (cr_journal_finalization v) \<Longrightarrow> idem_store now k v c = c"
  by (auto simp: idem_store_def entry_finalized_def journal_unfinalized_def)

lemma idem_store_binds:
  assumes "\<not> (\<exists>e. map_of (ic_entries c) k = Some e \<and> entry_finalized e \<and>
             journal_unfinalized (cr_response v) (cr_journal_finalization v))"
  shows "map_of (ic_entries (idem_store now k v c)) k' =
           (if k' = k then Some \<lparr>ie_response = cr_response v, ie_status_code = cr_status_code v,
              ie_journal_finalization = cr_journal_finalization v, ie_expires_at = now + ic_ttl c\<rparr>
            else map_of (ic_entries c) k')"
  using assms
  by (auto simp: idem_store_def entry_finalized_def journal_unfinalized_def Let_def
      split: option.splits)

lemma idem_store_other: "k' \<noteq> k \<Longrightarrow>
  map_of (ic_entries (idem_store now k v c)) k' = map_of (ic_entries c) k'"
  by (simp add: idem_store_def Let_def)

text \<open>The cache meets the contract of an expiring cache, for every time to live.\<close>

definition idem_content :: "seconds \<Rightarrow> idem_cache \<Rightarrow> cache_key \<Rightarrow> (seconds \<times> cached_response) option" where
  "idem_content ttl c k =
     map_option (\<lambda>e. (ie_expires_at e - ttl, entry_view e)) (map_of (ic_entries c) k)"

interpretation idem: expiring_cache
  "\<lambda>c. idem_wf c \<and> ic_ttl c = ttl" "idem_content ttl" get_entry idem_store "\<lambda>_ :: unit. idem_clear" ttl
  for ttl :: seconds
proof (unfold_locales, goal_cases)
  case (4 s t k v)
  then show ?case
    by (auto simp: get_entry_result idem_content_def split: option.splits if_splits)
next
  case (5 s t k k' c)
  then show ?case
    by (auto simp: get_entry_def map_of_idem_prune idem_content_def Let_def
        split: option.splits if_splits)
next
  case (6 s t k v k' c)
  then show ?case
    by (auto simp: idem_content_def idem_store_def entry_view_def Let_def
        split: option.splits if_splits)
next
  case (7 s d k' c)
  then show ?case by (simp add: idem_content_def idem_clear_def)
qed auto


subsection \<open>Single flight\<close>

text \<open>
  A task inside \<^verbatim>\<open>async with cache.single_flight(key)\<close> is waiting for the keyed lock, running the
  guarded body, or past it with its clean-up still to run; each of these states holds the key and
  the flight object the task registered with.
\<close>

datatype task_pc =
    TOutside
  | TWaiting cache_key nat
  | THolding cache_key nat
  | TLeaving cache_key nat

record idem_sys =
  sy_cache :: idem_cache
  sy_pc :: "nat \<Rightarrow> task_pc"

text \<open>The entry block, under the mutex: prune, find or create the flight, count one more user.\<close>

definition sf_register :: "seconds \<Rightarrow> cache_key \<Rightarrow> idem_cache \<Rightarrow> nat \<times> idem_cache" where
  "sf_register now k c =
     (let c1 = idem_prune now c;
          (f, c2) = (case map_of (ic_flights c1) k of
                       Some f \<Rightarrow> (f, c1)
                     | None \<Rightarrow>
                         (ic_next c1,
                          c1\<lparr>ic_flights := dict_set k (ic_next c1) (ic_flights c1),
                             ic_heap := (ic_heap c1)(ic_next c1 := \<lparr>fl_locked = False, fl_users = 0\<rparr>),
                             ic_next := Suc (ic_next c1)\<rparr>))
      in (f, c2\<lparr>ic_heap := (ic_heap c2)(f := (ic_heap c2 f)\<lparr>fl_users := fl_users (ic_heap c2 f) + 1\<rparr>)\<rparr>))"

text \<open>\<^verbatim>\<open>flight.lock.acquire()\<close> succeeds only on a free lock; \<open>None\<close> is "keep waiting".\<close>

definition sf_acquire :: "nat \<Rightarrow> idem_cache \<Rightarrow> idem_cache option" where
  "sf_acquire f c =
     (if fl_locked (ic_heap c f) then None
      else Some (c\<lparr>ic_heap := (ic_heap c)(f := (ic_heap c f)\<lparr>fl_locked := True\<rparr>)\<rparr>))"

definition sf_release :: "nat \<Rightarrow> idem_cache \<Rightarrow> idem_cache" where
  "sf_release f c = c\<lparr>ic_heap := (ic_heap c)(f := (ic_heap c f)\<lparr>fl_locked := False\<rparr>)\<rparr>"

text \<open>\<^verbatim>\<open>_release_single_flight\<close>: the shielded clean-up, which runs to completion even when cancelled.\<close>

definition release_single_flight :: "cache_key \<Rightarrow> nat \<Rightarrow> idem_cache \<Rightarrow> idem_cache" where
  "release_single_flight k f c =
     (let users = fl_users (ic_heap c f) - 1;
          c1 = c\<lparr>ic_heap := (ic_heap c)(f := (ic_heap c f)\<lparr>fl_users := users\<rparr>)\<rparr>
      in if users = 0 \<and> map_of (ic_flights c1) k = Some f
         then c1\<lparr>ic_flights := dict_pop k (ic_flights c1)\<rparr> else c1)"

text \<open>
  The interleavings: any task may enter, get the lock, be cancelled while it waits, leave the body
  (normally, with an exception or cancelled), or finish its clean-up; at any time anybody may read,
  store or clear entries.
\<close>

inductive sf_step :: "idem_sys \<Rightarrow> idem_sys \<Rightarrow> bool" where
  enter: "sy_pc s t = TOutside \<Longrightarrow> sf_register now k (sy_cache s) = (f, c) \<Longrightarrow>
     sf_step s (s\<lparr>sy_cache := c, sy_pc := (sy_pc s)(t := TWaiting k f)\<rparr>)"
| acquire: "sy_pc s t = TWaiting k f \<Longrightarrow> sf_acquire f (sy_cache s) = Some c \<Longrightarrow>
     sf_step s (s\<lparr>sy_cache := c, sy_pc := (sy_pc s)(t := THolding k f)\<rparr>)"
| cancel: "sy_pc s t = TWaiting k f \<Longrightarrow>
     sf_step s (s\<lparr>sy_pc := (sy_pc s)(t := TLeaving k f)\<rparr>)"
| leave: "sy_pc s t = THolding k f \<Longrightarrow>
     sf_step s (s\<lparr>sy_cache := sf_release f (sy_cache s), sy_pc := (sy_pc s)(t := TLeaving k f)\<rparr>)"
| cleanup: "sy_pc s t = TLeaving k f \<Longrightarrow>
     sf_step s (s\<lparr>sy_cache := release_single_flight k f (sy_cache s), sy_pc := (sy_pc s)(t := TOutside)\<rparr>)"
| peek: "sf_step s (s\<lparr>sy_cache := snd (get_entry now k (sy_cache s))\<rparr>)"
| put: "sf_step s (s\<lparr>sy_cache := idem_store now k v (sy_cache s)\<rparr>)"
| wipe: "sf_step s (s\<lparr>sy_cache := idem_clear (sy_cache s)\<rparr>)"

inductive sf_reachable :: "idem_sys \<Rightarrow> bool" where
  start: "sf_reachable \<lparr>sy_cache = idem_init ttl, sy_pc = (\<lambda>_. TOutside)\<rparr>"
| step: "sf_reachable s \<Longrightarrow> sf_step s s' \<Longrightarrow> sf_reachable s'"

text \<open>Which flight a task is registered with, and which tasks a flight counts.\<close>

fun pc_flight :: "task_pc \<Rightarrow> (cache_key \<times> nat) option" where
  "pc_flight TOutside = None"
| "pc_flight (TWaiting k f) = Some (k, f)"
| "pc_flight (THolding k f) = Some (k, f)"
| "pc_flight (TLeaving k f) = Some (k, f)"

definition flight_tasks :: "(nat \<Rightarrow> task_pc) \<Rightarrow> cache_key \<Rightarrow> nat \<Rightarrow> nat set" where
  "flight_tasks pc k f = {t. pc_flight (pc t) = Some (k, f)}"

definition flight_holders :: "(nat \<Rightarrow> task_pc) \<Rightarrow> cache_key \<Rightarrow> nat \<Rightarrow> nat set" where
  "flight_holders pc k f = {t. pc t = THolding k f}"

text \<open>
  The invariant: every task's flight is the one registered for its key; a registered flight counts
  exactly the tasks that refer to it and at least one; no flight serves two keys; a flight's lock
  is taken exactly when one task holds it.
\<close>

definition flight_ok :: "idem_cache \<Rightarrow> (nat \<Rightarrow> task_pc) \<Rightarrow> cache_key \<Rightarrow> nat \<Rightarrow> bool" where
  "flight_ok c pc k f =
     (f < ic_next c \<and>
      finite (flight_tasks pc k f) \<and> flight_tasks pc k f \<noteq> {} \<and>
      fl_users (ic_heap c f) = int (card (flight_tasks pc k f)) \<and>
      (if fl_locked (ic_heap c f) then \<exists>t. flight_holders pc k f = {t}
       else flight_holders pc k f = {}))"

definition sf_inv :: "idem_sys \<Rightarrow> bool" where
  "sf_inv s =
     ((\<forall>t k f. pc_flight (sy_pc s t) = Some (k, f) \<longrightarrow> map_of (ic_flights (sy_cache s)) k = Some f) \<and>
      (\<forall>k f. map_of (ic_flights (sy_cache s)) k = Some f \<longrightarrow> flight_ok (sy_cache s) (sy_pc s) k f) \<and>
      (\<forall>k k' f. map_of (ic_flights (sy_cache s)) k = Some f \<longrightarrow>
                map_of (ic_flights (sy_cache s)) k' = Some f \<longrightarrow> k = k'))"

lemma sf_invD:
  assumes "sf_inv s"
  shows "pc_flight (sy_pc s t) = Some (k, f) \<Longrightarrow> map_of (ic_flights (sy_cache s)) k = Some f"
    and "map_of (ic_flights (sy_cache s)) k = Some f \<Longrightarrow> flight_ok (sy_cache s) (sy_pc s) k f"
    and "map_of (ic_flights (sy_cache s)) k = Some f \<Longrightarrow>
         map_of (ic_flights (sy_cache s)) k' = Some f \<Longrightarrow> k = k'"
  using assms unfolding sf_inv_def by blast+

lemma sf_inv_start: "sf_inv \<lparr>sy_cache = idem_init ttl, sy_pc = (\<lambda>_. TOutside)\<rparr>"
  by (simp add: sf_inv_def idem_init_def)

text \<open>Steps that do not touch the flights or the program counters keep the invariant.\<close>

lemma sf_inv_frame:
  assumes "sf_inv s" "ic_flights c = ic_flights (sy_cache s)" "ic_heap c = ic_heap (sy_cache s)"
    "ic_next c = ic_next (sy_cache s)"
  shows "sf_inv (s\<lparr>sy_cache := c\<rparr>)"
  using assms by (simp add: sf_inv_def flight_ok_def)

text \<open>A flight of another key is untouched when task \<open>t\<close> moves within the flight of its own key.\<close>

lemma flight_tasks_update:
  "flight_tasks (pc(t := p)) k f =
     (if pc_flight p = Some (k, f) then insert t (flight_tasks pc k f) else flight_tasks pc k f - {t})"
  by (auto simp: flight_tasks_def)

lemma flight_holders_update:
  "flight_holders (pc(t := p)) k f =
     (if p = THolding k f then insert t (flight_holders pc k f) else flight_holders pc k f - {t})"
  by (auto simp: flight_holders_def)

lemmas flight_updates = flight_tasks_update flight_holders_update


lemma sf_inv_register:
  assumes inv: "sf_inv s" and pc: "sy_pc s t = TOutside"
    and reg: "sf_register now k (sy_cache s) = (f, c)"
  shows "sf_inv (s\<lparr>sy_cache := c, sy_pc := (sy_pc s)(t := TWaiting k f)\<rparr>)"
proof (cases "map_of (ic_flights (sy_cache s)) k")
  case None
  note I = sf_invD [OF inv]
  let ?n = "ic_next (sy_cache s)"
  from None reg have f: "f = ?n" and c: "map_of (ic_flights c) = (map_of (ic_flights (sy_cache s)))(k := Some ?n)"
    "ic_heap c = (ic_heap (sy_cache s))(?n := \<lparr>fl_locked = False, fl_users = 1\<rparr>)" "ic_next c = Suc ?n"
    by (auto simp: sf_register_def Let_def)
  from None I(1) have "pc_flight (sy_pc s t') \<noteq> Some (k, f')" for t' f' by fastforce
  then have "flight_tasks (sy_pc s) k ?n = {}" by (simp add: flight_tasks_def)
  moreover have "flight_holders (sy_pc s) k ?n \<subseteq> flight_tasks (sy_pc s) k ?n"
    by (auto simp: flight_tasks_def flight_holders_def)
  ultimately have none: "flight_tasks (sy_pc s) k ?n = {}" "flight_holders (sy_pc s) k ?n = {}"
    by auto
  have new: "flight_ok c ((sy_pc s)(t := TWaiting k ?n)) k ?n"
    by (simp add: flight_ok_def flight_updates none c)
  have old: "flight_ok c ((sy_pc s)(t := TWaiting k ?n)) k' f'"
    if r: "map_of (ic_flights (sy_cache s)) k' = Some f'" for k' f'
  proof -
    from I(2) [OF r] have ok: "flight_ok (sy_cache s) (sy_pc s) k' f'" .
    with pc have "t \<notin> flight_tasks (sy_pc s) k' f'" "t \<notin> flight_holders (sy_pc s) k' f'" "f' < ?n"
      by (auto simp: flight_tasks_def flight_holders_def flight_ok_def)
    moreover from r None have "k' \<noteq> k" by auto
    ultimately show ?thesis using ok by (simp add: flight_ok_def flight_updates c)
  qed
  have lt: "f' < ?n" if "map_of (ic_flights (sy_cache s)) k' = Some f'" for k' f'
    using I(2) [OF that] by (simp add: flight_ok_def)
  show ?thesis
    unfolding sf_inv_def using new old I lt pc None by (auto simp: c f) (use lt in blast)+
next
  case (Some g)
  note I = sf_invD [OF inv]
  from Some reg have f: "f = g" and c: "ic_flights c = ic_flights (sy_cache s)"
    "ic_heap c = (ic_heap (sy_cache s))(g := (ic_heap (sy_cache s) g)\<lparr>fl_users := fl_users (ic_heap (sy_cache s) g) + 1\<rparr>)"
    "ic_next c = ic_next (sy_cache s)"
    by (auto simp: sf_register_def Let_def)
  have "flight_ok c ((sy_pc s)(t := TWaiting k g)) k' f'"
    if r: "map_of (ic_flights (sy_cache s)) k' = Some f'" for k' f'
  proof -
    from I(2) [OF r] have ok: "flight_ok (sy_cache s) (sy_pc s) k' f'" .
    from pc have nt: "t \<notin> flight_tasks (sy_pc s) k' f'" "t \<notin> flight_holders (sy_pc s) k' f'"
      by (auto simp: flight_tasks_def flight_holders_def)
    have "k' = k \<longleftrightarrow> f' = g" using r Some I(3) by auto
    with ok nt show ?thesis by (auto simp: flight_ok_def flight_updates c)
  qed
  with I(1,3) Some show ?thesis by (auto simp: sf_inv_def c f)
qed

text \<open>The moves within a registered flight: acquire, cancel, leave.\<close>

lemma sf_inv_move:
  assumes inv: "sf_inv s" and pc: "pc_flight (sy_pc s t) = Some (k, f)"
    and pc': "pc_flight p = Some (k, f)"
    and c: "ic_flights c = ic_flights (sy_cache s)" "ic_next c = ic_next (sy_cache s)"
      "ic_heap c = (ic_heap (sy_cache s))(f := (ic_heap (sy_cache s) f)\<lparr>fl_locked := l\<rparr>)"
    and lock: "if l then flight_holders ((sy_pc s)(t := p)) k f = {t}
               else flight_holders ((sy_pc s)(t := p)) k f = {}"
  shows "sf_inv (s\<lparr>sy_cache := c, sy_pc := (sy_pc s)(t := p)\<rparr>)"
proof -
  note I = sf_invD [OF inv]
  from I(1) [OF pc] have k: "map_of (ic_flights (sy_cache s)) k = Some f" .
  have "flight_ok c ((sy_pc s)(t := p)) k' f'"
    if r: "map_of (ic_flights (sy_cache s)) k' = Some f'" for k' f'
  proof (cases "k' = k")
    case True
    with k r have f': "f' = f" by simp
    from pc have "insert t (flight_tasks (sy_pc s) k f) = flight_tasks (sy_pc s) k f"
      by (auto simp: flight_tasks_def)
    with I(2) [OF k] lock pc' True f' show ?thesis
      by (auto simp: flight_ok_def flight_tasks_update c split: if_splits)
  next
    case False
    with r k I(3) have "f' \<noteq> f" by blast
    moreover have "t \<notin> flight_tasks (sy_pc s) k' f'" "t \<notin> flight_holders (sy_pc s) k' f'"
      using pc False by (auto simp: flight_tasks_def flight_holders_def)
    moreover have "p \<noteq> THolding k' f'" using pc' False by auto
    ultimately show ?thesis using I(2) [OF r] pc' False
      by (simp add: flight_ok_def flight_updates c)
  qed
  with I pc pc' k show ?thesis by (auto simp: sf_inv_def c)
qed

lemma sf_inv_cleanup:
  assumes inv: "sf_inv s" and pc: "sy_pc s t = TLeaving k f"
  shows "sf_inv (s\<lparr>sy_cache := release_single_flight k f (sy_cache s), sy_pc := (sy_pc s)(t := TOutside)\<rparr>)"
proof -
  note I = sf_invD [OF inv]
  let ?c = "release_single_flight k f (sy_cache s)" and ?pc = "(sy_pc s)(t := TOutside)"
  have k: "map_of (ic_flights (sy_cache s)) k = Some f" by (rule I(1) [of t]) (simp add: pc)
  from I(2) [OF k] have ok: "flight_ok (sy_cache s) (sy_pc s) k f" .
  have mem: "t \<in> flight_tasks (sy_pc s) k f" using pc by (simp add: flight_tasks_def)
  have hold: "t \<notin> flight_holders (sy_pc s) k f" using pc by (simp add: flight_holders_def)
  have fin: "finite (flight_tasks (sy_pc s) k f)"
    and users: "fl_users (ic_heap (sy_cache s) f) = int (card (flight_tasks (sy_pc s) k f))"
    using ok by (simp_all add: flight_ok_def)
  have "card (flight_tasks (sy_pc s) k f) = Suc (card (flight_tasks (sy_pc s) k f - {t}))"
    using fin mem by (rule card.remove)
  with users have card: "int (card (flight_tasks (sy_pc s) k f - {t})) = fl_users (ic_heap (sy_cache s) f) - 1"
    by simp
  have zero: "fl_users (ic_heap (sy_cache s) f) - 1 = 0 \<longleftrightarrow> flight_tasks (sy_pc s) k f - {t} = {}"
    using fin by (simp flip: card card_eq_0_iff)
  have others: "flight_ok ?c ?pc k' f'"
    if r: "map_of (ic_flights (sy_cache s)) k' = Some f'" and ne: "k' \<noteq> k" for k' f'
  proof -
    from r k ne I(3) have "f' \<noteq> f" by blast
    moreover have "t \<notin> flight_tasks (sy_pc s) k' f'" "t \<notin> flight_holders (sy_pc s) k' f'"
      using pc ne by (auto simp: flight_tasks_def flight_holders_def)
    ultimately show ?thesis using I(2) [OF r]
      by (auto simp: flight_ok_def flight_updates release_single_flight_def Let_def)
  qed
  show ?thesis
  proof (cases "flight_tasks (sy_pc s) k f - {t} = {}")
    case True
    with zero k have c: "map_of (ic_flights ?c) = (map_of (ic_flights (sy_cache s)))(k := None)"
      by (auto simp: release_single_flight_def Let_def)
    have "pc_flight (sy_pc s t') \<noteq> Some (k, f')" if "t' \<noteq> t" for t' f'
      using True that I(1) [of t' k f'] k by (auto simp: flight_tasks_def)
    with I others c show ?thesis by (auto simp: sf_inv_def)
  next
    case False
    with zero k have c: "ic_flights ?c = ic_flights (sy_cache s)"
      by (auto simp: release_single_flight_def Let_def)
    have "flight_ok ?c ?pc k f"
      using ok card False hold zero
      by (auto simp: flight_ok_def flight_updates release_single_flight_def Let_def split: if_splits)
    then have "flight_ok ?c ?pc k' f'" if "map_of (ic_flights (sy_cache s)) k' = Some f'" for k' f'
      using others [OF that] that k by (cases "k' = k") auto
    with I c show ?thesis by (auto simp: sf_inv_def)
  qed
qed

lemma sf_step_inv: "sf_step s s' \<Longrightarrow> sf_inv s \<Longrightarrow> sf_inv s'"
proof (induction rule: sf_step.induct)
  case (enter s t now k f c)
  then show ?case by (intro sf_inv_register)
next
  case (acquire s t k f c)
  note I = sf_invD [OF acquire.prems]
  from acquire have free: "\<not> fl_locked (ic_heap (sy_cache s) f)"
    and c: "c = (sy_cache s)\<lparr>ic_heap := (ic_heap (sy_cache s))(f := (ic_heap (sy_cache s) f)\<lparr>fl_locked := True\<rparr>)\<rparr>"
    by (auto simp: sf_acquire_def split: if_splits)
  have "map_of (ic_flights (sy_cache s)) k = Some f" by (rule I(1) [of t]) (simp add: acquire)
  from I(2) [OF this] free have "flight_holders (sy_pc s) k f = {}" by (simp add: flight_ok_def)
  with acquire c show ?case
    by (intro sf_inv_move [where k = k and f = f and l = True]) (auto simp: flight_holders_update)
next
  case (cancel s t k f)
  note I = sf_invD [OF cancel.prems]
  have k: "map_of (ic_flights (sy_cache s)) k = Some f" by (rule I(1) [of t]) (simp add: cancel)
  have nt: "t \<notin> flight_holders (sy_pc s) k f" using cancel by (simp add: flight_holders_def)
  have "flight_ok (sy_cache s) ((sy_pc s)(t := TLeaving k f)) k' f'"
    if r: "map_of (ic_flights (sy_cache s)) k' = Some f'" for k' f'
  proof -
    have "flight_tasks ((sy_pc s)(t := TLeaving k f)) k' f' = flight_tasks (sy_pc s) k' f'"
      "flight_holders ((sy_pc s)(t := TLeaving k f)) k' f' = flight_holders (sy_pc s) k' f'"
      using cancel by (auto simp: flight_tasks_def flight_holders_def)
    with I(2) [OF r] show ?thesis by (simp add: flight_ok_def)
  qed
  with I k show ?case by (auto simp: sf_inv_def)
next
  case (leave s t k f)
  note I = sf_invD [OF leave.prems]
  have "map_of (ic_flights (sy_cache s)) k = Some f" by (rule I(1) [of t]) (simp add: leave)
  from I(2) [OF this] have ok: "flight_ok (sy_cache s) (sy_pc s) k f" .
  have "t \<in> flight_holders (sy_pc s) k f" using leave by (simp add: flight_holders_def)
  with ok have "flight_holders (sy_pc s) k f = {t}" by (auto simp: flight_ok_def split: if_splits)
  with leave show ?case
    by (intro sf_inv_move [where k = k and f = f and l = False])
       (auto simp: flight_holders_update sf_release_def)
next
  case (cleanup s t k f)
  then show ?case by (intro sf_inv_cleanup)
qed (simp_all add: sf_inv_frame)

lemma sf_reachable_inv: "sf_reachable s \<Longrightarrow> sf_inv s"
  by (induction rule: sf_reachable.induct) (auto intro: sf_inv_start sf_step_inv)



subsection \<open>Properties\<close>

text \<open>
  \<^bold>\<open>C1.\<close> C1. Single flight: in every reachable interleaving of any number of requests, with cancellations
  and failures at any point, at most one task runs the guarded body for a given cache key.
\<close>

theorem single_flight_mutual_exclusion:
  assumes "sf_reachable s" and "sy_pc s t = THolding k f" and "sy_pc s t' = THolding k f'"
  shows "t = t'"
proof -
  from assms(1) have "sf_inv s" by (rule sf_reachable_inv)
  note I = sf_invD [OF this]
  have f: "map_of (ic_flights (sy_cache s)) k = Some f" by (rule I(1) [of t]) (simp add: assms)
  have "map_of (ic_flights (sy_cache s)) k = Some f'" by (rule I(1) [of t']) (simp add: assms)
  with f assms have "t \<in> flight_holders (sy_pc s) k f" "t' \<in> flight_holders (sy_pc s) k f"
    by (simp_all add: flight_holders_def)
  with I(2) [OF f] show ?thesis by (auto simp: flight_ok_def split: if_splits)
qed

text \<open>A run in which one task enters and gets the lock while a second one waits.\<close>

definition demo_key :: cache_key where
  "demo_key = \<lparr>ck_endpoint_id = 1, ck_verb = ''start'', ck_vmid = 100, ck_key = ''k''\<rparr>"

definition demo_enter :: "nat \<Rightarrow> idem_sys \<Rightarrow> idem_sys" where
  "demo_enter t s =
     s\<lparr>sy_cache := snd (sf_register 0 demo_key (sy_cache s)),
       sy_pc := (sy_pc s)(t := TWaiting demo_key (fst (sf_register 0 demo_key (sy_cache s))))\<rparr>"

definition demo_acquire :: "nat \<Rightarrow> idem_sys \<Rightarrow> idem_sys" where
  "demo_acquire t s =
     s\<lparr>sy_cache := the (sf_acquire 0 (sy_cache s)), sy_pc := (sy_pc s)(t := THolding demo_key 0)\<rparr>"

definition demo_start :: idem_sys where
  "demo_start = \<lparr>sy_cache = idem_init 60, sy_pc = (\<lambda>_. TOutside)\<rparr>"

lemma demo_reachable: "sf_reachable (demo_acquire 7 (demo_enter 8 (demo_enter 7 demo_start)))"
proof -
  have "sf_reachable demo_start" by (simp add: demo_start_def sf_reachable.start)
  then have "sf_reachable (demo_enter 7 demo_start)"
    by (rule sf_reachable.step, unfold demo_enter_def)
       (rule sf_step.enter, simp_all add: demo_start_def)
  then have "sf_reachable (demo_enter 8 (demo_enter 7 demo_start))"
    by (rule sf_reachable.step, unfold demo_enter_def [of 8])
       (rule sf_step.enter, simp_all add: demo_start_def demo_enter_def)
  then show ?thesis
    by (rule sf_reachable.step, unfold demo_acquire_def)
       (rule sf_step.acquire, simp_all add: demo_start_def demo_enter_def sf_register_def
          sf_acquire_def idem_init_def idem_prune_def Let_def)
qed

theorem single_flight_mutual_exclusion_witness:
  "sf_reachable (demo_acquire 7 (demo_enter 8 (demo_enter 7 demo_start))) \<and>
   {t. \<exists>f. sy_pc (demo_acquire 7 (demo_enter 8 (demo_enter 7 demo_start))) t = THolding demo_key f} = {7}"
proof -
  have pc: "sy_pc (demo_acquire 7 (demo_enter 8 (demo_enter 7 demo_start))) 7 = THolding demo_key 0"
    by (simp add: demo_acquire_def)
  with single_flight_mutual_exclusion [OF demo_reachable _ pc] demo_reachable show ?thesis by auto
qed

text \<open>
  C2. No flight leaks and none is lost: in every reachable interleaving a key has a registered
  flight exactly while some task inside the context manager refers to it. In particular the map of
  in-flight keys is empty whenever no task is inside.
\<close>

theorem single_flight_registry_exact:
  assumes "sf_reachable s"
  shows "map_of (ic_flights (sy_cache s)) k = Some f \<longleftrightarrow> (\<exists>t. pc_flight (sy_pc s t) = Some (k, f))"
proof -
  from assms have "sf_inv s" by (rule sf_reachable_inv)
  note I = sf_invD [OF this]
  from I(1,2) show ?thesis by (auto simp: flight_ok_def flight_tasks_def)
qed

theorem single_flight_registry_exact_witness:
  "map_of (ic_flights (sy_cache (demo_acquire 7 (demo_enter 8 (demo_enter 7 demo_start))))) demo_key = Some 0"
proof -
  have "pc_flight (sy_pc (demo_acquire 7 (demo_enter 8 (demo_enter 7 demo_start))) 7) = Some (demo_key, 0)"
    by (simp add: demo_acquire_def)
  with single_flight_registry_exact [OF demo_reachable] show ?thesis by blast
qed

text \<open>
  \<^bold>\<open>C2.\<close> C3. The idempotency window: a response stored for a key is what every read of that key returns
  until \<open>ttl\<close> seconds later and never from then on, while reads of every other key return exactly
  what they returned before; the one exception is a pending (unfinalized) response that arrives
  when a finalized one is stored, which changes nothing.
\<close>

theorem idempotency_window:
  assumes "idem_wf c"
  shows "fst (get_entry t k' (idem_store now k v c)) =
     (if k' \<noteq> k \<or> (\<exists>e. map_of (ic_entries c) k = Some e \<and> entry_finalized e \<and>
                       journal_unfinalized (cr_response v) (cr_journal_finalization v))
      then fst (get_entry t k' c)
      else if t < now + ic_ttl c then Some v else None)"
proof (cases "\<exists>e. map_of (ic_entries c) k = Some e \<and> entry_finalized e \<and>
                       journal_unfinalized (cr_response v) (cr_journal_finalization v)")
  case True
  then show ?thesis using idem_store_refuses by fastforce
next
  case False
  then show ?thesis
    using assms idem_wf_ops(4) [OF assms, of now k v]
    by (auto simp: get_entry_result idem_store_binds entry_view_def)
qed

definition demo_response :: cached_response where
  "demo_response = \<lparr>cr_response = [(''result'', PStr ''ok'')], cr_status_code = 200, cr_journal_finalization = None\<rparr>"

theorem idempotency_window_witness:
  "idem_wf (idem_init 60) \<and>
   fst (get_entry 69 demo_key (idem_store 10 demo_key demo_response (idem_init 60))) = Some demo_response \<and>
   fst (get_entry 70 demo_key (idem_store 10 demo_key demo_response (idem_init 60))) = None"
proof -
  have wf: "idem_wf (idem_init 60)" by simp
  show ?thesis
    using wf idempotency_window [OF wf, of 69 demo_key 10 demo_key demo_response]
      idempotency_window [OF wf, of 70 demo_key 10 demo_key demo_response]
    by (simp add: idem_init_def)
qed

text \<open>
  C4. Nothing stale and nothing foreign: after any history of reads, stores and clears from an
  empty cache, a response read for a key at time \<open>t\<close> was stored in that history for exactly that
  endpoint, verb, VM and client key, less than \<open>ttl\<close> seconds before \<open>t\<close>.
\<close>

theorem idempotency_read_was_stored:
  assumes "fst (get_entry t k (cache_exec get_entry idem_store (\<lambda>_ :: unit. idem_clear) (idem_init ttl) ops)) = Some v"
  shows "\<exists>b. CWrite b k v \<in> set ops \<and> t < b + ttl"
proof (rule idem.read_was_written [OF _ _ assms])
  show "idem_wf (idem_init ttl) \<and> ic_ttl (idem_init ttl) = ttl" by (simp add: idem_init_def idem_wf_def)
  show "idem_content ttl (idem_init ttl) k' = None" for k' by (simp add: idem_content_def idem_init_def)
qed

definition demo_ops :: "(cache_key, cached_response, unit) cache_op list" where
  "demo_ops = [CWrite 5 demo_key demo_response, CRead 20 demo_key]"

theorem idempotency_read_was_stored_witness:
  "fst (get_entry 30 demo_key (cache_exec get_entry idem_store (\<lambda>_. idem_clear) (idem_init 60) demo_ops)) =
     Some demo_response \<and>
   (\<exists>b. CWrite b demo_key demo_response \<in> set demo_ops \<and> 30 < b + 60)"
proof -
  have r: "fst (get_entry 30 demo_key (cache_exec get_entry idem_store (\<lambda>_. idem_clear) (idem_init 60) demo_ops)) =
     Some demo_response"
    by (simp add: demo_ops_def get_entry_def idem_store_def idem_init_def idem_prune_def
        demo_response_def entry_view_def)
  from r idempotency_read_was_stored [OF r] show ?thesis by blast
qed

end
