(* ===== verification/Name_Collision.thy ===== *)
theory Name_Collision
  imports Py_Values
begin

text \<open>
  \<^verbatim>\<open>proxbox_api/services/name_collision.py\<close>: the deterministic choice of a NetBox-unique VM name inside
  one cluster. The mutable set of used names is a list of names that the resolver returns updated;
  only membership in it matters. The unbounded search for a free suffix is a function whose
  termination is proved: distinct suffixes give distinct names, and only finitely many are used.
\<close>

record name_resolution =
  resolved_name :: string
  original_name :: string
  suffix_index :: nat
  is_collision :: bool
  operator_renamed :: bool

text \<open>\<^verbatim>\<open>f"{candidate} ({n})"\<close>.\<close>

definition suffixed :: "string \<Rightarrow> nat \<Rightarrow> string" where
  "suffixed candidate n = candidate @ '' ('' @ nat_str n @ '')''"

text \<open>
  \<^verbatim>\<open>_SUFFIX_RE.match(name)\<close>, returning the group \<^verbatim>\<open>base\<close>: a non-empty base without a newline, a blank,
  a parenthesised run of digits, then the end or one final newline. The digits hold no parenthesis,
  so reading backwards finds the only possible split.
\<close>

definition suffix_base :: "string \<Rightarrow> string option" where
  "suffix_base name =
     (let nl = CHR 0x0A;
          s = (case rev name of [] \<Rightarrow> [] | c # r \<Rightarrow> if c = nl then r else c # r)
      in case s of
           [] \<Rightarrow> None
         | c # r \<Rightarrow>
             if c = CHR '')'' \<and> takeWhile py_digit r \<noteq> []
             then (case dropWhile py_digit r of
                     p # b # base \<Rightarrow>
                       if p = CHR ''('' \<and> b = CHR '' '' \<and> base \<noteq> [] \<and> nl \<notin> set base
                       then Some (rev base) else None
                   | _ \<Rightarrow> None)
             else None)"

definition is_algorithmic_variant :: "string \<Rightarrow> string \<Rightarrow> bool" where
  "is_algorithmic_variant name candidate =
     (py_casefold name = py_casefold candidate \<or>
      (case suffix_base name of None \<Rightarrow> False | Some base \<Rightarrow> py_casefold base = py_casefold candidate))"

lemma suffixed_inj: "suffixed c m = suffixed c n \<longleftrightarrow> m = n"
  by (auto simp: suffixed_def nat_str_inj)

lemma casefold_suffixed: "py_casefold (suffixed c n) = suffixed (py_casefold c) n"
proof -
  have "py_lower '' ('' = '' (''" "py_lower '')'' = '')''" by (simp_all add: py_lower_def lower_char_def)
  then show ?thesis unfolding suffixed_def py_lower_append by simp
qed

lemma finite_taken_suffixes: "finite {m. n \<le> m \<and> py_casefold (suffixed c m) \<in> set used_cf}"
proof (rule finite_subset)
  show "{m. n \<le> m \<and> py_casefold (suffixed c m) \<in> set used_cf} \<subseteq> (\<lambda>m. py_casefold (suffixed c m)) -` set used_cf"
    by auto
  show "finite ((\<lambda>m. py_casefold (suffixed c m)) -` set used_cf)"
    by (rule finite_vimageI) (auto simp: casefold_suffixed inj_def suffixed_inj)
qed

text \<open>The \<^verbatim>\<open>while True\<close> loop of \<^verbatim>\<open>_pick_suffix\<close>.\<close>

function pick_from :: "string \<Rightarrow> string list \<Rightarrow> nat \<Rightarrow> string \<times> nat" where
  "pick_from candidate used_cf n =
     (if py_casefold (suffixed candidate n) \<notin> set used_cf then (suffixed candidate n, n)
      else pick_from candidate used_cf (Suc n))"
  by pat_completeness auto
termination
proof (relation "measure (\<lambda>(c, used_cf, n). card {m. n \<le> m \<and> py_casefold (suffixed c m) \<in> set used_cf})",
    goal_cases)
  case (2 c used_cf n)
  then have "{m. Suc n \<le> m \<and> py_casefold (suffixed c m) \<in> set used_cf} \<subset>
             {m. n \<le> m \<and> py_casefold (suffixed c m) \<in> set used_cf}"
    by (intro psubsetI) (auto simp: set_eq_iff intro: exI [of _ n])
  then show ?case by (simp add: psubset_card_mono finite_taken_suffixes)
qed simp

declare pick_from.simps [simp del]

definition pick_suffix :: "string \<Rightarrow> string list \<Rightarrow> string \<times> nat" where
  "pick_suffix candidate used =
     (let used_cf = map py_casefold used
      in if py_casefold candidate \<notin> set used_cf then (candidate, 1) else pick_from candidate used_cf 2)"

text \<open>Set operations on the list of used names.\<close>

definition names_add :: "string \<Rightarrow> string list \<Rightarrow> string list" where
  "names_add n used = (if n \<in> set used then used else used @ [n])"

definition names_discard :: "string \<Rightarrow> string list \<Rightarrow> string list" where
  "names_discard n used = removeAll n used"

text \<open>
  \<^verbatim>\<open>resolve_unique_vm_name\<close>. The unused session and the cluster label (telemetry only) are left
  out. The result carries the updated set of used names, which the code mutates in place.
\<close>

definition renamed_in_proxmox :: "string \<Rightarrow> string option \<Rightarrow> bool" where
  "renamed_in_proxmox existing_name last_synced =
     (case last_synced of
        None \<Rightarrow> False
      | Some l \<Rightarrow> l \<noteq> [] \<and> (existing_name = l \<or> is_algorithmic_variant existing_name l))"

definition existing_vm_name :: "pyobj \<Rightarrow> string" where
  "existing_vm_name vm = (case map_of vm ''name'' of None \<Rightarrow> [] | Some v \<Rightarrow> py_str v)"

definition take_fresh :: "string \<Rightarrow> string list \<Rightarrow> name_resolution \<times> string list" where
  "take_fresh candidate used =
     (let (resolved, idx) = pick_suffix candidate used
      in (\<lparr>resolved_name = resolved, original_name = candidate, suffix_index = idx,
           is_collision = idx > 1, operator_renamed = False\<rparr>,
          names_add resolved used))"

definition resolve_unique_vm_name ::
  "int option \<Rightarrow> string \<Rightarrow> int \<Rightarrow> string list \<Rightarrow> (int, pyobj) pydict option \<Rightarrow> string option \<Rightarrow>
   name_resolution \<times> string list" where
  "resolve_unique_vm_name netbox_cluster_id candidate vmid used existing_vm_by_vmid last_synced =
     (case (map_of (case existing_vm_by_vmid of None \<Rightarrow> [] | Some m \<Rightarrow> m) vmid, netbox_cluster_id) of
        (Some existing, Some _) \<Rightarrow>
          (let existing_name = existing_vm_name existing in
           if existing_name \<noteq> [] \<and> \<not> is_algorithmic_variant existing_name candidate
           then (if \<not> renamed_in_proxmox existing_name last_synced
                 then (\<lparr>resolved_name = existing_name, original_name = candidate, suffix_index = 1,
                        is_collision = False, operator_renamed = True\<rparr>,
                       names_add existing_name used)
                 else take_fresh candidate (names_discard existing_name used))
           else take_fresh candidate used)
      | _ \<Rightarrow> take_fresh candidate used)"

text \<open>A sync pass names its VMs one after the other, threading the set of used names.\<close>

fun resolve_all :: "int option \<Rightarrow> (string \<times> int) list \<Rightarrow> string list \<Rightarrow> string list" where
  "resolve_all cluster [] used = []"
| "resolve_all cluster ((candidate, vmid) # vms) used =
     (let (r, used') = resolve_unique_vm_name cluster candidate vmid used None None
      in resolved_name r # resolve_all cluster vms used')"


subsection \<open>The search for a suffix\<close>

lemma pick_from_spec:
  "pick_from c used_cf n = (r, i) \<Longrightarrow>
     n \<le> i \<and> r = suffixed c i \<and> py_casefold r \<notin> set used_cf \<and>
     (\<forall>m. n \<le> m \<longrightarrow> m < i \<longrightarrow> py_casefold (suffixed c m) \<in> set used_cf)"
proof (induction c used_cf n rule: pick_from.induct)
  case (1 c used_cf n)
  show ?case
  proof (cases "py_casefold (suffixed c n) \<in> set used_cf")
    case False
    with "1.prems" show ?thesis by (auto simp: pick_from.simps [of c used_cf n])
  next
    case True
    with "1.prems" have "pick_from c used_cf (Suc n) = (r, i)"
      by (simp add: pick_from.simps [of c used_cf n])
    with "1.IH" True have "Suc n \<le> i \<and> r = suffixed c i \<and> py_casefold r \<notin> set used_cf \<and>
      (\<forall>m. Suc n \<le> m \<longrightarrow> m < i \<longrightarrow> py_casefold (suffixed c m) \<in> set used_cf)" by blast
    moreover from this True have "py_casefold (suffixed c m) \<in> set used_cf" if "n \<le> m" "m < i" for m
      using that by (cases "m = n") auto
    ultimately show ?thesis by auto
  qed
qed

lemma pick_suffix_fresh: "py_casefold (fst (pick_suffix c used)) \<notin> py_casefold ` set used"
  by (cases "pick_from c (map py_casefold used) 2")
     (auto simp: pick_suffix_def Let_def dest: pick_from_spec)

lemma set_names_add [simp]: "set (names_add n used) = insert n (set used)"
  by (auto simp: names_add_def)

lemma take_fresh_simps [simp]:
  "resolved_name (fst (take_fresh c used)) = fst (pick_suffix c used)"
  "suffix_index (fst (take_fresh c used)) = snd (pick_suffix c used)"
  "operator_renamed (fst (take_fresh c used)) = False"
  "snd (take_fresh c used) = names_add (fst (pick_suffix c used)) used"
  by (simp_all add: take_fresh_def case_prod_beta Let_def)

lemma resolve_no_record [simp]:
  "resolve_unique_vm_name cluster c vmid used None last_synced = take_fresh c used"
  by (simp add: resolve_unique_vm_name_def)

lemma suffix_base_suffixed:
  assumes "c \<noteq> []" and "CHR 0x0A \<notin> set c"
  shows "suffix_base (suffixed c n) = Some c"
proof -
  have digits: "\<forall>x \<in> set (rev (nat_str n)). py_digit x" using nat_str_digits by (simp add: list_all_iff)
  have paren: "\<not> py_digit (CHR ''('')" by (simp add: py_digit_def)
  have tw': "takeWhile py_digit (rev (nat_str n) @ CHR ''('' # xs) = rev (nat_str n)"
    and dw': "dropWhile py_digit (rev (nat_str n) @ CHR ''('' # xs) = CHR ''('' # xs" for xs
    using digits paren takeWhile_append2 [of "rev (nat_str n)" py_digit "CHR ''('' # xs"]
      dropWhile_append2 [of "rev (nat_str n)" py_digit "CHR ''('' # xs"] by auto
  have r: "rev (suffixed c n) = CHR '')'' # rev (nat_str n) @ CHR ''('' # CHR '' '' # rev c"
    by (simp add: suffixed_def)
  show ?thesis using assms by (simp add: suffix_base_def r tw' dw' Let_def)
qed


lemma resolve_cases:
  obtains (kept) existing where
      "map_of (case m of None \<Rightarrow> [] | Some m \<Rightarrow> m) vmid = Some existing"
      "\<not> renamed_in_proxmox (existing_vm_name existing) ls"
      "\<not> is_algorithmic_variant (existing_vm_name existing) c"
      "operator_renamed (fst (resolve_unique_vm_name cluster c vmid used m ls))"
    | (replaced) existing where
      "map_of (case m of None \<Rightarrow> [] | Some m \<Rightarrow> m) vmid = Some existing"
      "renamed_in_proxmox (existing_vm_name existing) ls"
      "resolve_unique_vm_name cluster c vmid used m ls =
         take_fresh c (names_discard (existing_vm_name existing) used)"
    | (fresh) "resolve_unique_vm_name cluster c vmid used m ls = take_fresh c used"
proof (cases "map_of (case m of None \<Rightarrow> [] | Some m \<Rightarrow> m) vmid")
  case None
  then show ?thesis by (intro fresh) (simp add: resolve_unique_vm_name_def)
next
  case (Some existing)
  note s = this
  show ?thesis
  proof (cases cluster)
    case None
    with s show ?thesis by (intro fresh) (simp add: resolve_unique_vm_name_def)
  next
    case (Some cl)
    note R = resolve_unique_vm_name_def s Some Let_def
    consider "existing_vm_name existing = [] \<or> is_algorithmic_variant (existing_vm_name existing) c"
      | "existing_vm_name existing \<noteq> []" "\<not> is_algorithmic_variant (existing_vm_name existing) c"
        "renamed_in_proxmox (existing_vm_name existing) ls"
      | "existing_vm_name existing \<noteq> []" "\<not> is_algorithmic_variant (existing_vm_name existing) c"
        "\<not> renamed_in_proxmox (existing_vm_name existing) ls"
      by blast
    then show ?thesis
    proof cases
      case 1
      then show ?thesis by (intro fresh) (auto simp: R)
    next
      case 2
      then show ?thesis by (intro replaced [OF s]) (simp_all add: R)
    next
      case 3
      then show ?thesis by (intro kept [OF s]) (simp_all add: R)
    qed
  qed
qed


subsection \<open>Properties\<close>

text \<open>
  \<^bold>\<open>C3.\<close> C5. The resolver picks the first free name: unless it keeps an operator's own name, no used name
  equals the result up to letter case, the VM's replaced old name excepted; and when it appends a
  suffix, the bare name and every smaller suffix were taken.
\<close>

theorem resolved_name_first_free:
  assumes "resolve_unique_vm_name cluster c vmid used m ls = (r, used')" and "\<not> operator_renamed r"
  shows "(\<forall>n \<in> set used. py_casefold n = py_casefold (resolved_name r) \<longrightarrow>
            (\<exists>vm. map_of (case m of None \<Rightarrow> [] | Some d \<Rightarrow> d) vmid = Some vm \<and>
                  n = existing_vm_name vm \<and> renamed_in_proxmox n ls)) \<and>
         resolved_name r \<in> set used' \<and>
         (if suffix_index r = 1 then resolved_name r = c
          else resolved_name r = suffixed c (suffix_index r) \<and> py_casefold c \<in> py_casefold ` set used \<and>
               (\<forall>k. 2 \<le> k \<longrightarrow> k < suffix_index r \<longrightarrow> py_casefold (suffixed c k) \<in> py_casefold ` set used))"
proof -
  have least: "if snd (pick_suffix c u) = 1 then fst (pick_suffix c u) = c
      else fst (pick_suffix c u) = suffixed c (snd (pick_suffix c u)) \<and> py_casefold c \<in> py_casefold ` set u \<and>
        (\<forall>k. 2 \<le> k \<longrightarrow> k < snd (pick_suffix c u) \<longrightarrow> py_casefold (suffixed c k) \<in> py_casefold ` set u)" for u
    by (cases "pick_from c (map py_casefold u) 2")
       (auto simp: pick_suffix_def Let_def dest: pick_from_spec)
  show ?thesis
  proof (cases rule: resolve_cases [of m vmid ls c cluster used])
    case (kept existing)
    with assms show ?thesis by simp
  next
    case (replaced vm)
    let ?u = "names_discard (existing_vm_name vm) used"
    from replaced(3) assms(1) have "take_fresh c ?u = (r, used')" by simp
    then have r: "r = fst (take_fresh c ?u)" "used' = snd (take_fresh c ?u)" by (metis fst_conv, metis snd_conv)
    have sub: "py_casefold ` set ?u \<subseteq> py_casefold ` set used" by (auto simp: names_discard_def)
    have "n = existing_vm_name vm" if "n \<in> set used" "py_casefold n = py_casefold (resolved_name r)" for n
    proof (rule ccontr)
      assume "n \<noteq> existing_vm_name vm"
      with that(1) have "n \<in> set ?u" by (simp add: names_discard_def)
      with pick_suffix_fresh [of c ?u] that(2) r show False by (metis imageI take_fresh_simps(1))
    qed
    with replaced(1,2) least [of ?u] sub r show ?thesis by (auto split: if_splits)
  next
    case fresh
    with assms(1) have "take_fresh c used = (r, used')" by simp
    then have r: "r = fst (take_fresh c used)" "used' = snd (take_fresh c used)" by (metis fst_conv, metis snd_conv)
    then have "\<not> (\<exists>n \<in> set used. py_casefold n = py_casefold (resolved_name r))"
      using pick_suffix_fresh [of c used] by (metis imageI take_fresh_simps(1))
    with least [of used] r show ?thesis by auto
  qed
qed

theorem resolved_name_first_free_witness:
  "resolve_unique_vm_name (Some 4) ''Web'' 100 [''web'', ''WEB (2)'', ''db''] None None =
     (\<lparr>resolved_name = ''Web (3)'', original_name = ''Web'', suffix_index = 3, is_collision = True,
       operator_renamed = False\<rparr>, [''web'', ''WEB (2)'', ''db'', ''Web (3)'']) \<and>
   ''Web (3)'' \<in> set [''web'', ''WEB (2)'', ''db'', ''Web (3)'']"
proof -
  have e: "resolve_unique_vm_name (Some 4) ''Web'' 100 [''web'', ''WEB (2)'', ''db''] None None =
     (\<lparr>resolved_name = ''Web (3)'', original_name = ''Web'', suffix_index = 3, is_collision = True,
       operator_renamed = False\<rparr>, [''web'', ''WEB (2)'', ''db'', ''Web (3)''])"
    by code_simp
  from resolved_name_first_free [OF e] e show ?thesis by simp
qed

text \<open>
  C6. A pass that names VMs without a NetBox record gives every VM a name, no two of them equal up to
  letter case, and none equal to a name that was already in use.
\<close>

theorem resolve_all_distinct:
  "length (resolve_all cluster vms used) = length vms \<and>
   distinct (map py_casefold (resolve_all cluster vms used)) \<and>
   py_casefold ` set (resolve_all cluster vms used) \<inter> py_casefold ` set used = {}"
proof (induction vms arbitrary: used)
  case Nil
  then show ?case by simp
next
  case (Cons vm vms)
  obtain c vmid where vm: "vm = (c, vmid)" by (cases vm)
  let ?n = "fst (pick_suffix c used)"
  have eq: "resolve_all cluster (vm # vms) used = ?n # resolve_all cluster vms (names_add ?n used)"
    by (simp add: vm case_prod_beta Let_def)
  from Cons.IH [of "names_add ?n used"] pick_suffix_fresh [of c used] show ?case
    unfolding eq by auto
qed

text \<open>
  C7. Names are stable under re-sync: the name chosen for a new VM (bare or with a suffix) is never
  mistaken for an operator's rename when the VM is synced again, whatever else is in use by then and
  whatever name was recorded at the last sync.
\<close>

theorem chosen_name_not_operator_rename:
  assumes "c \<noteq> []" and "CHR 0x0A \<notin> set c"
    and "resolve_unique_vm_name cluster c vmid used None ls = (r, used')"
    and "map_of m vmid = Some vm" and "existing_vm_name vm = resolved_name r"
  shows "\<not> operator_renamed (fst (resolve_unique_vm_name cluster' c vmid used2 (Some m) ls'))"
proof -
  from assms(3) have "resolved_name r = fst (pick_suffix c used)"
    by (metis fst_conv resolve_no_record take_fresh_simps(1))
  moreover have "fst (pick_suffix c used) = c \<or> (\<exists>n. fst (pick_suffix c used) = suffixed c n)"
    by (cases "pick_from c (map py_casefold used) 2")
       (auto simp: pick_suffix_def Let_def dest: pick_from_spec)
  ultimately have "is_algorithmic_variant (existing_vm_name vm) c"
    using assms(1,2,5) by (auto simp: is_algorithmic_variant_def suffix_base_suffixed)
  with assms(4) show ?thesis
    by (auto simp: resolve_unique_vm_name_def Let_def split: option.splits)
qed

theorem chosen_name_not_operator_rename_witness:
  "resolve_unique_vm_name (Some 4) ''web'' 100 [''web''] None None =
     (\<lparr>resolved_name = ''web (2)'', original_name = ''web'', suffix_index = 2, is_collision = True,
       operator_renamed = False\<rparr>, [''web'', ''web (2)'']) \<and>
   \<not> operator_renamed (fst (resolve_unique_vm_name (Some 4) ''web'' 100 [''web'']
        (Some [(100, [(''name'', PStr ''web (2)'')])]) None))"
proof -
  have e: "resolve_unique_vm_name (Some 4) ''web'' 100 [''web''] None None =
     (\<lparr>resolved_name = ''web (2)'', original_name = ''web'', suffix_index = 2, is_collision = True,
       operator_renamed = False\<rparr>, [''web'', ''web (2)''])"
    by code_simp
  have "\<not> operator_renamed (fst (resolve_unique_vm_name (Some 4) ''web'' 100 [''web'']
        (Some [(100, [(''name'', PStr ''web (2)'')])]) None))"
    by (rule chosen_name_not_operator_rename [OF _ _ e, where vm = "[(''name'', PStr ''web (2)'')]"])
       (simp_all add: existing_vm_name_def)
  with e show ?thesis by simp
qed

end
