(* ===== verification/Auth_Keys.thy ===== *)
theory Auth_Keys
  imports Py_Prelude
begin

text \<open>
  Authentication (\<^verbatim>\<open>auth.py\<close>, \<^verbatim>\<open>routes/auth.py\<close> and the tables \<^verbatim>\<open>AuthLockout\<close>, \<^verbatim>\<open>ApiKey\<close> and
  \<^verbatim>\<open>ApiKeyBootstrapClaim\<close> of \<^verbatim>\<open>database.py\<close>).

  The database is a record of its three tables. A session call that commits is a function from
  database to database; \<^verbatim>\<open>BEGIN IMMEDIATE\<close> makes the two retirement operations single transactions.
  \<^verbatim>\<open>bcrypt\<close> is a parameter: \<open>checkpw provided hash\<close> is \<open>None\<close> when it raises, and the hash a new row
  stores is an argument. Ids the database assigns and clock readings are arguments too.

  The handlers of the key routes interleave: \<open>key_step\<close> is one database access of any worker
  process, with the callers that have passed the bootstrap check but not committed yet.
\<close>

record auth_lockout =
  attempts :: int
  first_attempt_time :: seconds

record api_key =
  key_id :: int
  key_label :: string
  key_hash :: string
  is_active :: bool
  created_at :: seconds

record auth_db =
  lockouts :: "(string, auth_lockout) pydict"
  api_keys :: "api_key list"
  bootstrap_claim :: "seconds option"

definition max_failed_attempts :: int where
  "max_failed_attempts = 5"

definition lockout_duration :: seconds where
  "lockout_duration = 300"


subsection \<open>\<^verbatim>\<open>AuthLockout\<close>\<close>

definition is_locked_out :: "auth_db \<Rightarrow> string \<Rightarrow> int \<Rightarrow> seconds \<Rightarrow> seconds \<Rightarrow> bool \<times> auth_db" where
  "is_locked_out db ip max_attempts duration now =
     (case map_of (lockouts db) ip of
        None \<Rightarrow> (False, db)
      | Some l \<Rightarrow>
          if attempts l \<ge> max_attempts
          then if now - first_attempt_time l < duration then (True, db)
               else (False, db\<lparr>lockouts := dict_pop ip (lockouts db)\<rparr>)
          else (False, db))"

definition record_failed_attempt :: "auth_db \<Rightarrow> string \<Rightarrow> seconds \<Rightarrow> auth_db" where
  "record_failed_attempt db ip now =
     (case map_of (lockouts db) ip of
        None \<Rightarrow> db\<lparr>lockouts := dict_set ip \<lparr>attempts = 1, first_attempt_time = now\<rparr> (lockouts db)\<rparr>
      | Some l \<Rightarrow>
          if now - first_attempt_time l > 300
          then db\<lparr>lockouts := dict_set ip \<lparr>attempts = 1, first_attempt_time = now\<rparr> (lockouts db)\<rparr>
          else db\<lparr>lockouts := dict_set ip (l\<lparr>attempts := attempts l + 1\<rparr>) (lockouts db)\<rparr>)"

definition clear_failed_attempts :: "auth_db \<Rightarrow> string \<Rightarrow> auth_db" where
  "clear_failed_attempts db ip =
     (case map_of (lockouts db) ip of
        None \<Rightarrow> db
      | Some l \<Rightarrow> db\<lparr>lockouts := dict_pop ip (lockouts db)\<rparr>)"

definition get_attempt_count :: "auth_db \<Rightarrow> string \<Rightarrow> int" where
  "get_attempt_count db ip = (case map_of (lockouts db) ip of None \<Rightarrow> 0 | Some l \<Rightarrow> attempts l)"


subsection \<open>\<^verbatim>\<open>ApiKey\<close>\<close>

definition has_any_key :: "auth_db \<Rightarrow> bool" where
  "has_any_key db = (filter is_active (api_keys db) \<noteq> [])"

definition has_any_record :: "auth_db \<Rightarrow> bool" where
  "has_any_record db = (api_keys db \<noteq> [])"

definition bootstrap_is_claimed :: "auth_db \<Rightarrow> bool" where
  "bootstrap_is_claimed db = (if bootstrap_claim db \<noteq> None then True else has_any_record db)"

definition new_api_key :: "int \<Rightarrow> string \<Rightarrow> string \<Rightarrow> seconds \<Rightarrow> api_key" where
  "new_api_key kid lbl hash now =
     \<lparr>key_id = kid, key_label = lbl, key_hash = hash, is_active = True, created_at = now\<rparr>"

definition store_key :: "auth_db \<Rightarrow> int \<Rightarrow> string \<Rightarrow> string \<Rightarrow> seconds \<Rightarrow> api_key \<times> auth_db" where
  "store_key db kid hash lbl now =
     (let obj = new_api_key kid lbl hash now in (obj, db\<lparr>api_keys := api_keys db @ [obj]\<rparr>))"

datatype auth_error =
    ApiKeyBootstrapConflict
  | HTTPException int string
  | HTTPExceptionDetail int "(string, string) pydict"

text \<open>
  The claim and the key are one transaction; the primary key of the claim table refuses a second
  claim with \<^verbatim>\<open>IntegrityError\<close>, and the rollback drops the key with it.
\<close>

definition bootstrap_first_key ::
  "auth_db \<Rightarrow> int \<Rightarrow> string \<Rightarrow> string \<Rightarrow> seconds \<Rightarrow> (auth_error + api_key) \<times> auth_db" where
  "bootstrap_first_key db kid hash lbl now =
     (if bootstrap_claim db \<noteq> None then (Inl ApiKeyBootstrapConflict, db)
      else let obj = new_api_key kid lbl hash now
           in (Inr obj, db\<lparr>bootstrap_claim := Some now, api_keys := api_keys db @ [obj]\<rparr>))"

fun verify_rows :: "(string \<Rightarrow> string \<Rightarrow> bool option) \<Rightarrow> string \<Rightarrow> api_key list \<Rightarrow> bool" where
  "verify_rows checkpw provided [] = False"
| "verify_rows checkpw provided (row # rows) =
     (case checkpw provided (key_hash row) of
        Some True \<Rightarrow> True
      | _ \<Rightarrow> verify_rows checkpw provided rows)"

definition verify_any :: "(string \<Rightarrow> string \<Rightarrow> bool option) \<Rightarrow> auth_db \<Rightarrow> string \<Rightarrow> bool" where
  "verify_any checkpw db provided = verify_rows checkpw provided (filter is_active (api_keys db))"


subsection \<open>Checking a request's key\<close>

definition too_many_failed :: string where
  "too_many_failed = ''Too many failed authentication attempts. Please try again later.''"

definition no_key_configured :: string where
  "no_key_configured =
     ''No API key configured. Register a key via POST /auth/register-key or use an existing key.''"

definition with_remaining :: "string \<Rightarrow> int \<Rightarrow> string" where
  "with_remaining msg remaining =
     (if remaining > 0 then msg @ '' '' @ int_str remaining @ '' attempts remaining.'' else msg)"

text \<open>
  The two clock readings of a call: \<open>t1\<close> in the lockout check, \<open>t2\<close> when a failure is recorded.
\<close>

definition check_auth_header ::
  "(string \<Rightarrow> string \<Rightarrow> bool option) \<Rightarrow> auth_db \<Rightarrow> string option \<Rightarrow> string \<Rightarrow> seconds \<Rightarrow> seconds
   \<Rightarrow> (bool \<times> string option) \<times> auth_db" where
  "check_auth_header checkpw db api_key client_ip t1 t2 =
     (let (locked, db1) = is_locked_out db client_ip max_failed_attempts lockout_duration t1 in
      if locked then ((False, Some too_many_failed), db1)
      else if \<not> has_any_key db1 then ((False, Some no_key_configured), db1)
      else if api_key = None \<or> api_key = Some [] then
        let db2 = record_failed_attempt db1 client_ip t2;
            remaining = max_failed_attempts - get_attempt_count db2 client_ip
        in ((False, Some (with_remaining ''API key required.'' remaining)), db2)
      else if \<not> verify_any checkpw db1 (the api_key) then
        let db2 = record_failed_attempt db1 client_ip t2;
            remaining = max_failed_attempts - get_attempt_count db2 client_ip
        in ((False, Some (with_remaining ''Invalid API key.'' remaining)), db2)
      else ((True, None), clear_failed_attempts db1 client_ip))"


subsection \<open>The key routes\<close>

record bootstrap_status =
  needs_bootstrap :: bool
  has_db_keys :: bool

definition get_bootstrap_status :: "auth_db \<Rightarrow> bootstrap_status" where
  "get_bootstrap_status db =
     \<lparr>needs_bootstrap = \<not> bootstrap_is_claimed db, has_db_keys = has_any_record db\<rparr>"

definition already_configured :: auth_error where
  "already_configured = HTTPException 409 ''An API key is already configured.''"

text \<open>\<^verbatim>\<open>register_key\<close> up to its commit, and the commit.\<close>

definition register_check :: "auth_db \<Rightarrow> string \<Rightarrow> auth_error + unit" where
  "register_check db key =
     (if length key < 32 then Inl (HTTPException 400 ''API key must be at least 32 characters.'')
      else if bootstrap_is_claimed db then Inl already_configured
      else Inr ())"

definition register_commit ::
  "auth_db \<Rightarrow> int \<Rightarrow> string \<Rightarrow> string \<Rightarrow> seconds \<Rightarrow> (auth_error + unit) \<times> auth_db" where
  "register_commit db kid hash lbl now =
     (case bootstrap_first_key db kid hash lbl now of
        (Inl _, db') \<Rightarrow> (Inl already_configured, db')
      | (Inr _, db') \<Rightarrow> (Inr (), db'))"

definition last_active_key_error :: auth_error where
  "last_active_key_error =
     HTTPExceptionDetail 409
       [(''code'', ''last_active_api_key_required''),
        (''message'', ''Create and verify another active API key before retiring this key.'')]"

definition key_not_found :: auth_error where
  "key_not_found = HTTPException 404 ''API key not found.''"

definition active_key_count :: "auth_db \<Rightarrow> nat" where
  "active_key_count db = length (filter is_active (api_keys db))"

definition get_key :: "auth_db \<Rightarrow> int \<Rightarrow> api_key option" where
  "get_key db kid = find (\<lambda>k. key_id k = kid) (api_keys db)"

definition delete_key_safely :: "auth_db \<Rightarrow> int \<Rightarrow> (auth_error + unit) \<times> auth_db" where
  "delete_key_safely db kid =
     (case get_key db kid of
        None \<Rightarrow> (Inl key_not_found, db)
      | Some key \<Rightarrow>
          if is_active key \<and> active_key_count db \<le> 1 then (Inl last_active_key_error, db)
          else (Inr (), db\<lparr>api_keys := filter (\<lambda>k. key_id k \<noteq> kid) (api_keys db)\<rparr>))"

definition set_active :: "bool \<Rightarrow> int \<Rightarrow> api_key list \<Rightarrow> api_key list" where
  "set_active b kid ks = map (\<lambda>k. if key_id k = kid then k\<lparr>is_active := b\<rparr> else k) ks"

definition deactivate_key_safely :: "auth_db \<Rightarrow> int \<Rightarrow> (auth_error + api_key) \<times> auth_db" where
  "deactivate_key_safely db kid =
     (case get_key db kid of
        None \<Rightarrow> (Inl key_not_found, db)
      | Some key \<Rightarrow>
          if is_active key \<and> active_key_count db \<le> 1 then (Inl last_active_key_error, db)
          else (Inr (key\<lparr>is_active := False\<rparr>),
                db\<lparr>api_keys := set_active False kid (api_keys db)\<rparr>))"

definition activate_key :: "auth_db \<Rightarrow> int \<Rightarrow> (auth_error + api_key) \<times> auth_db" where
  "activate_key db kid =
     (case get_key db kid of
        None \<Rightarrow> (Inl key_not_found, db)
      | Some key \<Rightarrow>
          (Inr (key\<lparr>is_active := True\<rparr>), db\<lparr>api_keys := set_active True kid (api_keys db)\<rparr>))"

text \<open>
  \<^verbatim>\<open>list_keys\<close>: newest first (rows created at the same instant in table order), without the hashes.
\<close>

definition list_keys :: "auth_db \<Rightarrow> (int \<times> string \<times> bool \<times> seconds) list" where
  "list_keys db =
     map (\<lambda>k. (key_id k, key_label k, is_active k, created_at k))
       (sort_key (\<lambda>k. - created_at k) (api_keys db))"


subsection \<open>Interleaved key management\<close>

record key_world =
  kdb :: auth_db
  waiting :: "(string \<times> string) list"
  registered :: nat

definition key_ids :: "auth_db \<Rightarrow> int set" where
  "key_ids db = key_id ` set (api_keys db)"

inductive key_step :: "key_world \<Rightarrow> key_world \<Rightarrow> bool" where
  register_passes:
    "register_check (kdb w) key = Inr () \<Longrightarrow> key_step w (w\<lparr>waiting := (hash, lbl) # waiting w\<rparr>)"
| register_commits:
    "(hash, lbl) \<in> set (waiting w) \<Longrightarrow> kid \<notin> key_ids (kdb w)
     \<Longrightarrow> register_commit (kdb w) kid hash lbl now = (r, db')
     \<Longrightarrow> key_step w (w\<lparr>kdb := db', waiting := remove1 (hash, lbl) (waiting w),
                        registered := registered w + (if r = Inr () then 1 else 0)\<rparr>)"
| creates:
    "kid \<notin> key_ids (kdb w) \<Longrightarrow> store_key (kdb w) kid hash [] now = (k, db')
     \<Longrightarrow> key_step w (w\<lparr>kdb := db'\<rparr>)"
| deletes: "delete_key_safely (kdb w) kid = (r, db') \<Longrightarrow> key_step w (w\<lparr>kdb := db'\<rparr>)"
| deactivates: "deactivate_key_safely (kdb w) kid = (r', db') \<Longrightarrow> key_step w (w\<lparr>kdb := db'\<rparr>)"
| activates: "activate_key (kdb w) kid = (r', db') \<Longrightarrow> key_step w (w\<lparr>kdb := db'\<rparr>)"
| authenticates:
    "check_auth_header checkpw (kdb w) provided ip t1 t2 = (a, db') \<Longrightarrow> key_step w (w\<lparr>kdb := db'\<rparr>)"

definition fresh_world :: key_world where
  "fresh_world = \<lparr>kdb = \<lparr>lockouts = [], api_keys = [], bootstrap_claim = None\<rparr>, waiting = [], registered = 0\<rparr>"

inductive key_reachable :: "key_world \<Rightarrow> bool" where
  key_reachable_fresh: "key_reachable fresh_world"
| key_reachable_step: "key_reachable w \<Longrightarrow> key_step w w' \<Longrightarrow> key_reachable w'"

definition key_inv :: "key_world \<Rightarrow> bool" where
  "key_inv w \<longleftrightarrow>
     distinct (map key_id (api_keys (kdb w))) \<and>
     (has_any_record (kdb w) \<longrightarrow> has_any_key (kdb w)) \<and>
     registered w \<le> 1 \<and> (registered w = 1 \<longleftrightarrow> bootstrap_claim (kdb w) \<noteq> None)"


subsection \<open>What each operation keeps\<close>

lemmas lockout_ops =
  is_locked_out_def record_failed_attempt_def clear_failed_attempts_def

lemma check_auth_keeps_keys:
  "check_auth_header checkpw db k ip t1 t2 = (a, db') \<Longrightarrow>
     api_keys db' = api_keys db \<and> bootstrap_claim db' = bootstrap_claim db"
  by (auto simp: check_auth_header_def lockout_ops Let_def split: if_splits option.splits prod.splits)

lemma has_any_key_iff: "has_any_key db \<longleftrightarrow> (\<exists>k \<in> set (api_keys db). is_active k)"
  by (auto simp: has_any_key_def filter_empty_conv)

lemma get_key_Some: "get_key db kid = Some k \<Longrightarrow> k \<in> set (api_keys db) \<and> key_id k = kid"
  by (auto simp: get_key_def find_Some_iff)

lemma other_active_key:
  assumes "distinct (map key_id (api_keys db))" and k: "k \<in> set (api_keys db)"
    and guard: "\<not> (is_active k \<and> active_key_count db \<le> 1)" and "has_any_key db"
  shows "\<exists>k' \<in> set (api_keys db). is_active k' \<and> key_id k' \<noteq> key_id k"
proof (cases "is_active k")
  case False
  from assms(4) obtain k' where k': "k' \<in> set (api_keys db)" "is_active k'" by (auto simp: has_any_key_iff)
  with False have "k' \<noteq> k" by auto
  with k k' assms(1) show ?thesis by (auto simp: distinct_map inj_on_def)
next
  case True
  let ?A = "filter is_active (api_keys db)"
  from True guard have "1 < length ?A" by (simp add: active_key_count_def)
  moreover from assms(1) have "distinct ?A" by (auto simp: distinct_map)
  ultimately have "1 < card (set ?A)" using distinct_card [of ?A] by linarith
  then have "\<not> set ?A \<subseteq> {k}" using card_mono [of "{k}" "set ?A"] by auto
  then obtain k' where "k' \<in> set (api_keys db)" "is_active k'" "k' \<noteq> k" by auto
  with k assms(1) show ?thesis by (auto simp: distinct_map inj_on_def)
qed

lemma set_active_ids [simp]: "map key_id (set_active b kid ks) = map key_id ks"
  by (induct ks) (auto simp: set_active_def)

lemma set_active_other: "k \<in> set ks \<Longrightarrow> key_id k \<noteq> kid \<Longrightarrow> k \<in> set (set_active b kid ks)"
  by (force simp: set_active_def)

lemma set_active_True: "k \<in> set ks \<Longrightarrow> is_active k \<Longrightarrow> \<exists>k' \<in> set (set_active True kid ks). is_active k'"
  by (induct ks) (auto simp: set_active_def)

lemma key_inv_step:
  assumes "key_inv w" "key_step w w'"
  shows "key_inv w'"
  using assms(2,1)
proof cases
  case (register_passes key hash lbl)
  then show ?thesis using assms(1) by (simp add: key_inv_def)
next
  case (register_commits hash lbl kid now r db')
  then show ?thesis using assms(1)
    by (auto simp: key_inv_def register_commit_def bootstrap_first_key_def new_api_key_def Let_def
        has_any_key_iff has_any_record_def key_ids_def split: if_splits)
next
  case (creates kid hash now k db')
  then show ?thesis using assms(1)
    by (auto simp: key_inv_def store_key_def new_api_key_def Let_def has_any_key_iff has_any_record_def key_ids_def)
next
  case (deletes kid r db')
  show ?thesis
  proof (cases "db' = kdb w")
    case False
    with deletes obtain k where k: "get_key (kdb w) kid = Some k"
      and g: "\<not> (is_active k \<and> active_key_count (kdb w) \<le> 1)"
      and db': "db' = (kdb w)\<lparr>api_keys := filter (\<lambda>k. key_id k \<noteq> kid) (api_keys (kdb w))\<rparr>"
      by (auto simp: delete_key_safely_def split: option.splits if_splits)
    from get_key_Some [OF k] have "has_any_key (kdb w)" using assms(1) by (auto simp: key_inv_def has_any_record_def)
    with other_active_key [of "kdb w" k] g get_key_Some [OF k] assms(1) deletes(1) db' show ?thesis
      by (auto simp: key_inv_def has_any_key_iff distinct_map_filter)
  qed (use assms(1) deletes in \<open>simp add: key_inv_def\<close>)
next
  case (deactivates kid r db')
  show ?thesis
  proof (cases "db' = kdb w")
    case False
    with deactivates obtain k where k: "get_key (kdb w) kid = Some k"
      and g: "\<not> (is_active k \<and> active_key_count (kdb w) \<le> 1)"
      and db': "db' = (kdb w)\<lparr>api_keys := set_active False kid (api_keys (kdb w))\<rparr>"
      by (auto simp: deactivate_key_safely_def split: option.splits if_splits)
    from get_key_Some [OF k] have "has_any_key (kdb w)" using assms(1) by (auto simp: key_inv_def has_any_record_def)
    with other_active_key [of "kdb w" k] g get_key_Some [OF k] assms(1)
    obtain k' where "k' \<in> set (api_keys (kdb w))" "is_active k'" "key_id k' \<noteq> kid" by (auto simp: key_inv_def)
    then have "has_any_key db'" by (auto simp: has_any_key_iff db' intro: set_active_other)
    with assms(1) deactivates(1) db' show ?thesis by (simp add: key_inv_def)
  qed (use assms(1) deactivates in \<open>simp add: key_inv_def\<close>)
next
  case (activates kid r db')
  show ?thesis
  proof (cases "db' = kdb w")
    case False
    with activates obtain k where k: "get_key (kdb w) kid = Some k"
      and db': "db' = (kdb w)\<lparr>api_keys := set_active True kid (api_keys (kdb w))\<rparr>"
      by (auto simp: activate_key_def split: option.splits)
    from get_key_Some [OF k] have "has_any_key (kdb w)" using assms(1) by (auto simp: key_inv_def has_any_record_def)
    then have "has_any_key db'" by (auto simp: has_any_key_iff db' intro: set_active_True)
    with assms(1) activates(1) db' show ?thesis by (simp add: key_inv_def)
  qed (use assms(1) activates in \<open>simp add: key_inv_def\<close>)
next
  case (authenticates checkpw provided ip t1 t2 a db')
  then show ?thesis using assms(1) check_auth_keeps_keys [OF authenticates(2)]
    by (simp add: key_inv_def has_any_key_def has_any_record_def)
qed

lemma key_inv_reachable: "key_reachable w \<Longrightarrow> key_inv w"
proof (induct rule: key_reachable.induct)
  case key_reachable_fresh
  show ?case by (simp add: key_inv_def fresh_world_def has_any_record_def)
qed (rule key_inv_step)

text \<open>
  \<^bold>\<open>C4.\<close> However the worker processes interleave their first-key registrations with every other key
  operation, at most one registration succeeds; once it has, the check refuses every further
  request and the commit of a caller that had already passed the check is refused with 409.
\<close>

theorem bootstrap_at_most_once:
  assumes "key_reachable w"
  shows "registered w \<le> 1 \<and>
    (registered w = 1 \<longrightarrow>
       (\<exists>e. register_check (kdb w) key = Inl e) \<and>
       register_commit (kdb w) kid hash lbl now = (Inl already_configured, kdb w))"
  using key_inv_reachable [OF assms]
  by (auto simp: key_inv_def register_check_def bootstrap_is_claimed_def register_commit_def bootstrap_first_key_def)

text \<open>
  \<^bold>\<open>C5.\<close> However key creation, activation, deactivation, deletion and authentication interleave, a
  database that holds any key row holds an active one: the last active key is never retired, so
  the service never locks its operators out.
\<close>

theorem last_active_key_kept:
  assumes "key_reachable w" and "has_any_record (kdb w)"
  shows "has_any_key (kdb w) \<and> active_key_count (kdb w) \<ge> 1"
  using key_inv_reachable [OF assms(1)] assms(2)
  by (auto simp: key_inv_def has_any_key_def active_key_count_def Suc_le_eq)

definition demo_hash :: string where
  "demo_hash = ''h''"

definition demo_key :: string where
  "demo_key = replicate 32 (CHR ''k'')"

definition demo_registered_world :: key_world where
  "demo_registered_world =
     \<lparr>kdb = \<lparr>lockouts = [], api_keys = [new_api_key 1 ''first'' demo_hash 10], bootstrap_claim = Some 10\<rparr>,
      waiting = [(demo_hash, ''second'')], registered = 1\<rparr>"

lemma demo_registered_reachable: "key_reachable demo_registered_world"
proof -
  let ?w1 = "fresh_world\<lparr>waiting := [(demo_hash, ''second'')]\<rparr>"
  let ?w2 = "fresh_world\<lparr>waiting := [(demo_hash, ''first''), (demo_hash, ''second'')]\<rparr>"
  have pass: "register_check (kdb w) demo_key = Inr ()" if "kdb w = kdb fresh_world" for w
    using that by (simp add: register_check_def demo_key_def bootstrap_is_claimed_def has_any_record_def fresh_world_def)
  have "key_step fresh_world ?w1"
    using key_step.register_passes [of fresh_world, OF pass, of demo_hash "''second''"] by (simp add: fresh_world_def)
  moreover have "key_step ?w1 ?w2"
    using key_step.register_passes [of ?w1, OF pass, of demo_hash "''first''"] by (simp add: fresh_world_def)
  moreover have "key_step ?w2 demo_registered_world"
    using key_step.register_commits [of demo_hash "''first''" ?w2 1 10]
    by (simp add: fresh_world_def demo_registered_world_def key_ids_def register_commit_def
        bootstrap_first_key_def Let_def)
  ultimately show ?thesis by (blast intro: key_reachable.intros)
qed

theorem bootstrap_at_most_once_witness:
  "registered demo_registered_world = 1 \<and> (\<exists>e. register_check (kdb demo_registered_world) demo_key = Inl e) \<and>
   register_commit (kdb demo_registered_world) 2 demo_hash ''second'' 11
     = (Inl already_configured, kdb demo_registered_world)"
  using bootstrap_at_most_once [OF demo_registered_reachable, of demo_key 2 demo_hash "''second''" 11]
  by (simp add: demo_registered_world_def)

theorem last_active_key_kept_witness:
  "has_any_key (kdb demo_registered_world) \<and>
   delete_key_safely (kdb demo_registered_world) 1 = (Inl last_active_key_error, kdb demo_registered_world)"
proof -
  have "has_any_record (kdb demo_registered_world)"
    by (simp add: demo_registered_world_def has_any_record_def)
  from last_active_key_kept [OF demo_registered_reachable this] show ?thesis
    by (simp add: demo_registered_world_def delete_key_safely_def get_key_def new_api_key_def active_key_count_def)
qed


subsection \<open>Who is let in\<close>

lemma verify_rows_iff: "verify_rows checkpw p rows \<longleftrightarrow> (\<exists>k \<in> set rows. checkpw p (key_hash k) = Some True)"
  by (induct rows) (auto split: option.splits bool.splits)

lemma verify_any_iff:
  "verify_any checkpw db p \<longleftrightarrow> (\<exists>k \<in> set (api_keys db). is_active k \<and> checkpw p (key_hash k) = Some True)"
  by (auto simp: verify_any_def verify_rows_iff)

definition locked :: "auth_db \<Rightarrow> string \<Rightarrow> seconds \<Rightarrow> bool" where
  "locked db ip now =
     (case map_of (lockouts db) ip of
        None \<Rightarrow> False
      | Some l \<Rightarrow> attempts l \<ge> max_failed_attempts \<and> now - first_attempt_time l < lockout_duration)"

lemma is_locked_out_keys [simp]:
  "api_keys (snd (is_locked_out db ip m d now)) = api_keys db"
  by (auto simp: is_locked_out_def split: option.splits)

lemma fst_is_locked_out: "fst (is_locked_out db ip max_failed_attempts lockout_duration t) = locked db ip t"
  by (auto simp: is_locked_out_def locked_def split: option.splits)

lemma check_auth_locked:
  "locked db ip t1 \<Longrightarrow> check_auth_header checkpw db k ip t1 t2 = ((False, Some too_many_failed), db)"
proof -
  assume "locked db ip t1"
  then have "is_locked_out db ip max_failed_attempts lockout_duration t1 = (True, db)"
    by (auto simp: is_locked_out_def locked_def split: option.splits)
  then show ?thesis by (simp add: check_auth_header_def)
qed

lemma check_auth_unlocked:
  assumes "is_locked_out db ip max_failed_attempts lockout_duration t1 = (False, db1)"
  shows "fst (fst (check_auth_header checkpw db k ip t1 t2)) \<longleftrightarrow>
    has_any_key db1 \<and> k \<noteq> None \<and> k \<noteq> Some [] \<and> verify_any checkpw db1 (the k)"
  using assms by (auto simp: check_auth_header_def Let_def split: if_splits)

lemma check_auth_authorized:
  "fst (fst (check_auth_header checkpw db k ip t1 t2)) \<longleftrightarrow>
     \<not> locked db ip t1 \<and>
     (\<exists>key. k = Some key \<and> key \<noteq> [] \<and>
        (\<exists>row \<in> set (api_keys db). is_active row \<and> checkpw key (key_hash row) = Some True))"
proof (cases "is_locked_out db ip max_failed_attempts lockout_duration t1")
  case (Pair lck db1)
  then have lck: "lck = locked db ip t1" and keys: "api_keys db1 = api_keys db"
    using fst_is_locked_out [of db ip t1] is_locked_out_keys [of db ip max_failed_attempts lockout_duration t1] by auto
  show ?thesis using keys lck
    by (cases lck)
      (use Pair in \<open>auto simp: check_auth_locked check_auth_unlocked verify_any_iff has_any_key_iff\<close>)
qed

text \<open>
  \<^bold>\<open>C6.\<close> A request is authorized exactly when its client is not locked out, it carries a non-empty key
  and that key matches the hash of some active key. In particular a locked client is refused
  whatever key it presents, and with the lockout table left as it was.
\<close>

theorem authorized_iff:
  "(fst (fst (check_auth_header checkpw db k ip t1 t2)) \<longleftrightarrow>
      \<not> locked db ip t1 \<and>
      (\<exists>key. k = Some key \<and> key \<noteq> [] \<and>
         (\<exists>row \<in> set (api_keys db). is_active row \<and> checkpw key (key_hash row) = Some True))) \<and>
   (locked db ip t1 \<longrightarrow>
      check_auth_header checkpw db k ip t1 t2 = ((False, Some too_many_failed), db))"
  by (simp add: check_auth_authorized check_auth_locked)

definition demo_checkpw :: "string \<Rightarrow> string \<Rightarrow> bool option" where
  "demo_checkpw p h = Some (p = demo_key \<and> h = demo_hash)"

theorem authorized_iff_witness:
  "fst (fst (check_auth_header demo_checkpw (kdb demo_registered_world) (Some demo_key) ''192.0.2.7'' 20 20)) \<and>
   (let db = (kdb demo_registered_world)\<lparr>lockouts := [(''192.0.2.7'', \<lparr>attempts = 5, first_attempt_time = 0\<rparr>)]\<rparr>
    in check_auth_header demo_checkpw db (Some demo_key) ''192.0.2.7'' 20 20 = ((False, Some too_many_failed), db))"
  using authorized_iff [of demo_checkpw "kdb demo_registered_world" "Some demo_key" "''192.0.2.7''" 20 20]
    authorized_iff [of demo_checkpw "(kdb demo_registered_world)\<lparr>lockouts := [(''192.0.2.7'', \<lparr>attempts = 5, first_attempt_time = 0\<rparr>)]\<rparr>"
      "Some demo_key" "''192.0.2.7''" 20 20]
  by (simp add: demo_registered_world_def locked_def demo_checkpw_def new_api_key_def demo_key_def
      max_failed_attempts_def lockout_duration_def)


subsection \<open>Guessing keys\<close>

record auth_request =
  req_ip :: string
  req_key :: "string option"
  req_t1 :: seconds
  req_t2 :: seconds

text \<open>A sequence of requests from any clients, with the result of each.\<close>

fun auth_run ::
  "(string \<Rightarrow> string \<Rightarrow> bool option) \<Rightarrow> auth_db \<Rightarrow> auth_request list \<Rightarrow> (auth_request \<times> bool \<times> string option) list" where
  "auth_run checkpw db [] = []"
| "auth_run checkpw db (r # rs) =
     (case check_auth_header checkpw db (req_key r) (req_ip r) (req_t1 r) (req_t2 r) of
        (res, db') \<Rightarrow> (r, res) # auth_run checkpw db' rs)"

definition guesses_examined :: "string \<Rightarrow> (auth_request \<times> bool \<times> string option) list \<Rightarrow> nat" where
  "guesses_examined ip results =
     length (filter (\<lambda>(r, ok, msg). req_ip r = ip \<and> msg \<noteq> Some too_many_failed) results)"

text \<open>The row of \<open>ip\<close> was opened no earlier than \<open>t0\<close>, and holds at most the five attempts.\<close>

definition row_since :: "seconds \<Rightarrow> auth_lockout option \<Rightarrow> bool" where
  "row_since t0 row = (case row of None \<Rightarrow> True | Some l \<Rightarrow> 0 \<le> attempts l \<and> attempts l \<le> 5 \<and> t0 \<le> first_attempt_time l)"

lemma check_auth_other_ip:
  "ip \<noteq> ip' \<Longrightarrow> check_auth_header checkpw db k ip' t1 t2 = (a, db')
   \<Longrightarrow> map_of (lockouts db') ip = map_of (lockouts db) ip"
  by (auto simp: check_auth_header_def lockout_ops Let_def split: if_splits option.splits prod.splits)

lemma check_auth_failure:
  assumes "row_since t0 (map_of (lockouts db) ip)" "t1 < t0 + 300" "t2 < t0 + 300" "t0 \<le> t2"
    and "has_any_key db"
    and "check_auth_header checkpw db k ip t1 t2 = ((False, msg), db')"
  shows "row_since t0 (map_of (lockouts db') ip) \<and>
    (msg \<noteq> Some too_many_failed \<longrightarrow>
       get_attempt_count db ip < 5 \<and> get_attempt_count db' ip = get_attempt_count db ip + 1)"
  using assms
  by (auto simp: check_auth_header_def lockout_ops row_since_def get_attempt_count_def has_any_key_def
      max_failed_attempts_def lockout_duration_def Let_def split: if_splits option.splits prod.splits)

lemma guesses_bounded:
  assumes "row_since t0 (map_of (lockouts db) ip)" "has_any_key db"
    and "\<forall>r \<in> set rs. req_ip r = ip \<longrightarrow> t0 \<le> req_t2 r \<and> req_t1 r < t0 + 300 \<and> req_t2 r < t0 + 300"
    and "\<forall>(r, ok, msg) \<in> set (auth_run checkpw db rs). req_ip r = ip \<longrightarrow> \<not> ok"
  shows "int (guesses_examined ip (auth_run checkpw db rs)) \<le> 5 - get_attempt_count db ip"
  using assms
proof (induct rs arbitrary: db)
  case Nil
  then show ?case by (auto simp: guesses_examined_def row_since_def get_attempt_count_def split: option.splits)
next
  case (Cons r rs)
  obtain ok msg db' where c:
    "check_auth_header checkpw db (req_key r) (req_ip r) (req_t1 r) (req_t2 r) = ((ok, msg), db')"
    by (metis prod.exhaust)
  from check_auth_keeps_keys [OF c] Cons.prems(2) have keys: "has_any_key db'" by (simp add: has_any_key_def)
  show ?case
  proof (cases "req_ip r = ip")
    case False
    then have "map_of (lockouts db') ip = map_of (lockouts db) ip" using check_auth_other_ip [OF _ c] by auto
    with Cons.hyps [of db'] Cons.prems c keys False show ?thesis
      by (simp add: guesses_examined_def get_attempt_count_def)
  next
    case True
    with c Cons.prems(4) have "\<not> ok" by auto
    with c True have c': "check_auth_header checkpw db (req_key r) ip (req_t1 r) (req_t2 r) = ((False, msg), db')" by simp
    have t: "req_t1 r < t0 + 300" "req_t2 r < t0 + 300" "t0 \<le> req_t2 r" using Cons.prems(3) True by auto
    note f = check_auth_failure [OF Cons.prems(1) t Cons.prems(2) c']
    have step: "int (guesses_examined ip (auth_run checkpw db' rs)) \<le> 5 - get_attempt_count db' ip"
      using Cons.hyps [of db'] f keys Cons.prems(3,4) c by simp
    show ?thesis
    proof (cases "msg = Some too_many_failed")
      case False
      with f step c True show ?thesis by (simp add: guesses_examined_def)
    next
      case eq: True
      have "db' = db"
        using c' eq by (auto simp: check_auth_header_def lockout_ops too_many_failed_def no_key_configured_def
            with_remaining_def Let_def split: if_splits option.splits prod.splits)
      with step c True eq show ?thesis by (simp add: guesses_examined_def)
    qed
  qed
qed


definition demo_guess :: "seconds \<Rightarrow> auth_request" where
  "demo_guess t = \<lparr>req_ip = ''192.0.2.7'', req_key = Some ''guess'', req_t1 = t, req_t2 = t\<rparr>"

definition demo_guesses :: "auth_request list" where
  "demo_guesses = map demo_guess [1, 2, 3, 4, 5, 6, 7]"

lemma demo_guesses_run:
  "map (\<lambda>(r, ok, msg). (ok, msg = Some too_many_failed)) (auth_run demo_checkpw (kdb demo_registered_world) demo_guesses)
   = replicate 5 (False, False) @ replicate 2 (False, True)"
  by (simp add: demo_guesses_def demo_guess_def demo_registered_world_def check_auth_header_def lockout_ops
      max_failed_attempts_def lockout_duration_def has_any_key_def verify_any_def demo_checkpw_def demo_key_def
      new_api_key_def get_attempt_count_def with_remaining_def too_many_failed_def numeral_eq_Suc)


end
