(* ===== verification/Ip_Address.thy ===== *)
theory Ip_Address
  imports Py_Prelude
begin

text \<open>
  The part of Python's \<^verbatim>\<open>ipaddress\<close> module the access checks use: reading an address from text
  (\<open>ip_address\<close>, which tries IPv4 and then IPv6 and whose \<open>None\<close> is the \<^verbatim>\<open>ValueError\<close>) and membership
  of an address in a network. An address is its number with its version; the optional IPv6 scope
  is checked and dropped, as membership ignores it.
\<close>

datatype ip_addr = V4 int | V6 int

text \<open>A network: version, network address and prefix length, with the host bits of the address zero.\<close>

datatype ip_net = Net4 int nat | Net6 int nat

fun ip_in :: "ip_addr \<Rightarrow> ip_net \<Rightarrow> bool" where
  "ip_in (V4 a) (Net4 n p) = (a div 2 ^ (32 - p) = n div 2 ^ (32 - p))"
| "ip_in (V6 a) (Net6 n p) = (a div 2 ^ (128 - p) = n div 2 ^ (128 - p))"
| "ip_in _ _ = False"


subsection \<open>Reading IPv4 text\<close>

definition parse_octet :: "string \<Rightarrow> int option" where
  "parse_octet s =
     (if py_isdigit s \<and> length s \<le> 3 \<and> (s = ''0'' \<or> hd s \<noteq> CHR ''0'') \<and> digits_val s \<le> 255
      then Some (int (digits_val s)) else None)"

fun parse_all :: "(string \<Rightarrow> int option) \<Rightarrow> string list \<Rightarrow> int list option" where
  "parse_all p [] = Some []"
| "parse_all p (s # ss) =
     (case p s of None \<Rightarrow> None | Some n \<Rightarrow> map_option ((#) n) (parse_all p ss))"

definition digits_number :: "int \<Rightarrow> int list \<Rightarrow> int" where
  "digits_number base ds = foldl (\<lambda>n d. n * base + d) 0 ds"

definition ipv4_address :: "string \<Rightarrow> int option" where
  "ipv4_address s =
     (let octets = py_split (CHR ''.'') s
      in if length octets = 4 then map_option (digits_number 256) (parse_all parse_octet octets)
         else None)"


subsection \<open>Reading IPv6 text\<close>

definition hex_val :: "char \<Rightarrow> int option" where
  "hex_val c =
     (let n = (of_char c :: int) in
      if 48 \<le> n \<and> n \<le> 57 then Some (n - 48)
      else if 65 \<le> n \<and> n \<le> 70 then Some (n - 55)
      else if 97 \<le> n \<and> n \<le> 102 then Some (n - 87)
      else None)"

definition parse_hextet :: "string \<Rightarrow> int option" where
  "parse_hextet s =
     (if s \<noteq> [] \<and> length s \<le> 4
      then map_option (digits_number 16) (parse_all (\<lambda>cs. hex_val (hd cs)) (map (\<lambda>c. [c]) s))
      else None)"

text \<open>
  \<^verbatim>\<open>_split_scope_id\<close>: the part before a single \<open>%\<close>, whose scope must not be empty or contain
  another \<open>%\<close>.
\<close>

definition split_scope :: "string \<Rightarrow> string option" where
  "split_scope s =
     (case py_split (CHR ''%'') s of
        [a] \<Rightarrow> Some a
      | [a, scope] \<Rightarrow> if scope \<noteq> [] then Some a else None
      | _ \<Rightarrow> None)"

text \<open>A dotted IPv4 tail stands for its two hextets.\<close>

definition expand_v4_tail :: "string list \<Rightarrow> (string + int) list option" where
  "expand_v4_tail parts =
     (if CHR ''.'' \<in> set (last parts)
      then map_option (\<lambda>v4. map Inl (butlast parts) @ [Inr (v4 div 65536), Inr (v4 mod 65536)])
             (ipv4_address (last parts))
      else Some (map Inl parts))"

definition part_empty :: "string + int \<Rightarrow> bool" where
  "part_empty p = (p = Inl [])"

fun part_value :: "string + int \<Rightarrow> int option" where
  "part_value (Inl s) = parse_hextet s"
| "part_value (Inr n) = Some n"

fun parse_parts :: "(string + int) list \<Rightarrow> int list option" where
  "parse_parts [] = Some []"
| "parse_parts (p # ps) =
     (case part_value p of None \<Rightarrow> None | Some n \<Rightarrow> map_option ((#) n) (parse_parts ps))"

text \<open>
  The double colon: an empty part strictly inside. At most one; a leading (trailing) empty part is
  allowed only as a half of it; it stands for at least one hextet.
\<close>

definition inner_empties :: "(string + int) list \<Rightarrow> nat list" where
  "inner_empties parts = filter (\<lambda>i. part_empty (parts ! i)) [1..<length parts - 1]"

definition ipv6_hextets :: "(string + int) list \<Rightarrow> int list option" where
  "ipv6_hextets parts =
     (case inner_empties parts of
        [] \<Rightarrow>
          (if length parts = 8 \<and> \<not> part_empty (hd parts) \<and> \<not> part_empty (last parts)
           then parse_parts parts else None)
      | [skip] \<Rightarrow>
          (let hi0 = skip;
               lo0 = length parts - skip - 1;
               hi = (if part_empty (hd parts) then hi0 - 1 else hi0);
               lo = (if part_empty (last parts) then lo0 - 1 else lo0)
           in if (part_empty (hd parts) \<and> hi \<noteq> 0) \<or> (part_empty (last parts) \<and> lo \<noteq> 0) \<or> 8 < hi + lo + 1
              then None
              else (case (parse_parts (take hi parts), parse_parts (drop (length parts - lo) parts)) of
                      (Some h, Some l) \<Rightarrow> Some (h @ replicate (8 - (hi + lo)) 0 @ l)
                    | _ \<Rightarrow> None))
      | _ \<Rightarrow> None)"

definition ipv6_address :: "string \<Rightarrow> int option" where
  "ipv6_address s =
     (case split_scope s of
        None \<Rightarrow> None
      | Some a \<Rightarrow>
          (let parts = py_split (CHR '':'') a in
           if CHR ''/'' \<in> set a \<or> length parts < 3 then None
           else (case expand_v4_tail parts of
                   None \<Rightarrow> None
                 | Some ps \<Rightarrow>
                     if 9 < length ps then None
                     else map_option (digits_number 65536) (ipv6_hextets ps))))"

definition ip_address :: "string \<Rightarrow> ip_addr option" where
  "ip_address s =
     (case ipv4_address s of
        Some a \<Rightarrow> Some (V4 a)
      | None \<Rightarrow> map_option V6 (ipv6_address s))"

subsection \<open>Reading a network\<close>

text \<open>
  \<^verbatim>\<open>ip_network(text, strict=False)\<close>: an address with an optional prefix length or, for IPv4, a netmask
  or host mask; the host bits are cleared.
\<close>

definition parse_prefix :: "nat \<Rightarrow> string \<Rightarrow> nat option" where
  "parse_prefix maxlen s = (if py_isdigit s \<and> digits_val s \<le> maxlen then Some (digits_val s) else None)"

definition mask_prefix :: "int \<Rightarrow> nat option" where
  "mask_prefix bits =
     (case find (\<lambda>p. bits = 2 ^ 32 - 2 ^ (32 - p)) [0..<33] of
        Some p \<Rightarrow> Some p
      | None \<Rightarrow> find (\<lambda>p. bits = 2 ^ (32 - p) - 1) [0..<33])"

definition parse_mask4 :: "string \<Rightarrow> nat option" where
  "parse_mask4 s =
     (case parse_prefix 32 s of
        Some p \<Rightarrow> Some p
      | None \<Rightarrow> Option.bind (ipv4_address s) mask_prefix)"

definition clear_host :: "nat \<Rightarrow> nat \<Rightarrow> int \<Rightarrow> int" where
  "clear_host width p a = (a div 2 ^ (width - p)) * 2 ^ (width - p)"

definition make_net :: "string \<Rightarrow> string option \<Rightarrow> ip_net option" where
  "make_net addr netmask =
     (case (ipv4_address addr, case netmask of None \<Rightarrow> Some 32 | Some m \<Rightarrow> parse_mask4 m) of
        (Some a, Some p) \<Rightarrow> Some (Net4 (clear_host 32 p a) p)
      | _ \<Rightarrow>
          (case (ipv6_address addr, case netmask of None \<Rightarrow> Some 128 | Some m \<Rightarrow> parse_prefix 128 m) of
             (Some a, Some p) \<Rightarrow> Some (Net6 (clear_host 128 p a) p)
           | _ \<Rightarrow> None))"

definition ip_network :: "string \<Rightarrow> ip_net option" where
  "ip_network s =
     (case py_split (CHR ''/'') s of
        [addr] \<Rightarrow> make_net addr None
      | [addr, netmask] \<Rightarrow> make_net addr (Some netmask)
      | _ \<Rightarrow> None)"



subsection \<open>What reading guarantees\<close>

lemma parse_all_bound: "parse_all p ss = Some ds \<Longrightarrow> (\<And>s n. p s = Some n \<Longrightarrow> 0 \<le> n \<and> n < b) \<Longrightarrow>
  length ds = length ss \<and> list_all (\<lambda>d. 0 \<le> d \<and> d < b) ds"
proof (induction ss arbitrary: ds)
  case Nil
  then show ?case by simp
next
  case (Cons s ss)
  then show ?case by (auto split: option.splits)
qed

lemma digits_number_snoc: "digits_number b (ds @ [d]) = digits_number b ds * b + d"
  by (simp add: digits_number_def)

lemma digits_number_bound:
  "list_all (\<lambda>d. 0 \<le> d \<and> d < b) ds \<Longrightarrow> 0 \<le> digits_number b ds \<and> digits_number b ds < b ^ length ds"
proof (induction ds rule: rev_induct)
  case Nil
  then show ?case by (simp add: digits_number_def)
next
  case (snoc d ds)
  then have n: "0 \<le> digits_number b ds" "digits_number b ds + 1 \<le> b ^ length ds"
    and d: "0 \<le> d" "d < b" by auto
  from n d have "(digits_number b ds + 1) * b \<le> b ^ length ds * b" by (intro mult_right_mono) auto
  with d n show ?case by (simp add: digits_number_snoc algebra_simps)
qed

lemma ipv4_address_bound: "ipv4_address s = Some a \<Longrightarrow> 0 \<le> a \<and> a < 2 ^ 32"
proof -
  assume "ipv4_address s = Some a"
  then obtain ds where len: "length (py_split (CHR ''.'') s) = 4"
    and ds: "parse_all parse_octet (py_split (CHR ''.'') s) = Some ds" and a: "a = digits_number 256 ds"
    by (auto simp: ipv4_address_def Let_def split: if_splits)
  have o: "0 \<le> n \<and> n < 256" if "parse_octet t = Some n" for t n
    using that by (auto simp: parse_octet_def split: if_splits)
  from parse_all_bound [OF ds o] len have "length ds = 4" "list_all (\<lambda>d. 0 \<le> d \<and> d < 256) ds" by auto
  with digits_number_bound [of 256 ds] a show ?thesis by simp
qed

text \<open>Membership as an interval: the host part of an address does not matter.\<close>

lemma div_interval:
  fixes a b q :: int
  assumes "0 < b"
  shows "a div b = q \<longleftrightarrow> b * q \<le> a \<and> a < b * q + b"
proof
  assume "a div b = q"
  then have "b * q + a mod b = a" using mult_div_mod_eq [of b a] by simp
  with pos_mod_sign [OF assms, of a] pos_mod_bound [OF assms, of a] show "b * q \<le> a \<and> a < b * q + b"
    by linarith
next
  assume "b * q \<le> a \<and> a < b * q + b"
  then show "a div b = q" by (intro int_div_pos_eq [of a b q "a - b * q"]) auto
qed

lemma ip_in_interval:
  "ip_in (V4 a) (Net4 (2 ^ (32 - p) * q) p) \<longleftrightarrow> 2 ^ (32 - p) * q \<le> a \<and> a < 2 ^ (32 - p) * (q + 1)"
  "ip_in (V6 a) (Net6 (2 ^ (128 - p) * q) p) \<longleftrightarrow> 2 ^ (128 - p) * q \<le> a \<and> a < 2 ^ (128 - p) * (q + 1)"
  by (simp_all add: div_interval algebra_simps)

end
