(* ===== verification/Access_Middleware.thy ===== *)
theory Access_Middleware
  imports Auth_Keys Ip_Address
begin

text \<open>
  The middleware of \<^verbatim>\<open>app/factory.py\<close>: client address resolution behind trusted proxies, the
  per-client rate limit, API key enforcement and security headers, composed in the order
  \<^verbatim>\<open>create_app\<close> installs them (the middleware added last runs first). The application behind them,
  CORS handling included, is a parameter \<open>app\<close> of \<open>handle_request\<close>. Header names are lower case, as
  the server delivers them.
\<close>

record http_request =
  url_path :: string
  client_host :: "string option"
  req_headers :: "(string, string) pydict"

record http_response =
  status_code :: int
  detail :: "string option"
  resp_headers :: "(string, string) pydict"

definition auth_exempt_paths :: "string list" where
  "auth_exempt_paths =
     [''/'', ''/docs'', ''/redoc'', ''/openapi.json'', ''/health'', ''/meta'', ''/auth/register-key'',
      ''/auth/bootstrap-status'']"

definition path_exempt :: "string \<Rightarrow> bool" where
  "path_exempt path = (path \<in> set auth_exempt_paths \<or> py_startswith ''/static/'' path)"

definition header_get :: "http_request \<Rightarrow> string \<Rightarrow> string option" where
  "header_get req name = map_of (req_headers req) (py_lower name)"


subsection \<open>Client address\<close>

text \<open>\<open>raw\<close> is the value of the environment variable \<^verbatim>\<open>PROXBOX_TRUSTED_PROXIES\<close>.\<close>

definition load_trusted_proxies :: "string \<Rightarrow> ip_net list" where
  "load_trusted_proxies raw =
     (let raw' = py_strip raw in
      if raw' = [] then []
      else List.map_filter ip_network (filter (\<lambda>t. t \<noteq> []) (map py_strip (py_split (CHR '','') raw'))))"

definition peer_is_trusted :: "ip_net list \<Rightarrow> string \<Rightarrow> bool" where
  "peer_is_trusted trusted peer_ip =
     (if trusted = [] then False
      else case ip_address peer_ip of
             None \<Rightarrow> False
           | Some peer \<Rightarrow> list_ex (ip_in peer) trusted)"

definition forwarded_candidates :: "string \<Rightarrow> string list" where
  "forwarded_candidates forwarded =
     filter (\<lambda>t. t \<noteq> []) (map py_strip (py_split (CHR '','') forwarded))"

definition resolve_client_ip :: "ip_net list \<Rightarrow> http_request \<Rightarrow> string" where
  "resolve_client_ip trusted req =
     (let peer_ip = (case client_host req of Some h \<Rightarrow> h | None \<Rightarrow> ''unknown'') in
      if \<not> peer_is_trusted trusted peer_ip then peer_ip
      else case header_get req ''X-Forwarded-For'' of
             None \<Rightarrow> peer_ip
           | Some forwarded \<Rightarrow>
               if forwarded = [] then peer_ip
               else let candidates = forwarded_candidates forwarded in
                    (case find (\<lambda>c. \<not> peer_is_trusted trusted c) (rev candidates) of
                       Some c \<Rightarrow> c
                     | None \<Rightarrow> if candidates \<noteq> [] then hd candidates else peer_ip))"


subsection \<open>Rate limit\<close>

record rate_limiter =
  requests_per_minute :: int
  request_times :: "(string, seconds list) pydict"

definition window_size :: seconds where
  "window_size = 60"

text \<open>Reading a \<^verbatim>\<open>defaultdict(list)\<close> stores the empty list for a missing key.\<close>

definition times_of :: "rate_limiter \<Rightarrow> string \<Rightarrow> seconds list" where
  "times_of rl ip = (case map_of (request_times rl) ip of None \<Rightarrow> [] | Some ts \<Rightarrow> ts)"

definition touch_ip :: "rate_limiter \<Rightarrow> string \<Rightarrow> rate_limiter" where
  "touch_ip rl ip = rl\<lparr>request_times := dict_setdefault ip [] (request_times rl)\<rparr>"

definition clean_old_requests :: "rate_limiter \<Rightarrow> string \<Rightarrow> seconds \<Rightarrow> rate_limiter" where
  "clean_old_requests rl ip now =
     (let cutoff = now - window_size;
          kept = filter (\<lambda>t. t > cutoff) (times_of rl ip);
          d = dict_set ip kept (request_times rl)
      in rl\<lparr>request_times := (if kept = [] then dict_pop ip d else d)\<rparr>)"

definition rate_limited_response :: http_response where
  "rate_limited_response =
     \<lparr>status_code = 429, detail = Some ''Rate limit exceeded. Please try again later.'',
      resp_headers = [(''Retry-After'', ''60'')]\<rparr>"

text \<open>\<^verbatim>\<open>RateLimitMiddleware.dispatch\<close> up to \<^verbatim>\<open>call_next\<close>: \<open>None\<close> lets the request through.\<close>

definition rate_dispatch ::
  "ip_net list \<Rightarrow> rate_limiter \<Rightarrow> http_request \<Rightarrow> seconds \<Rightarrow> http_response option \<times> rate_limiter" where
  "rate_dispatch trusted rl req now =
     (if py_startswith ''/static/'' (url_path req) \<or> url_path req \<in> set auth_exempt_paths then (None, rl)
      else let ip = resolve_client_ip trusted req;
               rl1 = touch_ip (clean_old_requests rl ip now) ip
           in if int (length (times_of rl1 ip)) \<ge> requests_per_minute rl1
              then (Some rate_limited_response, rl1)
              else (None, rl1\<lparr>request_times :=
                            dict_set ip (times_of rl1 ip @ [now]) (request_times rl1)\<rparr>))"

text \<open>\<^verbatim>\<open>PROXBOX_RATE_LIMIT\<close> as \<^verbatim>\<open>create_app\<close> reads it.\<close>

definition configured_rate_limit :: "string option \<Rightarrow> int" where
  "configured_rate_limit env =
     (case py_int (case env of None \<Rightarrow> ''300'' | Some s \<Rightarrow> s) of
        Some n \<Rightarrow> max 1 n
      | None \<Rightarrow> 300)"


subsection \<open>API keys and security headers\<close>

definition auth_rejection :: "string option \<Rightarrow> http_response" where
  "auth_rejection msg =
     (let sc = (if py_contains ''Too many failed'' (case msg of None \<Rightarrow> [] | Some m \<Rightarrow> m) then 429 else 401)
      in \<lparr>status_code = sc, detail = msg,
          resp_headers = (if sc = 429 then [(''Retry-After'', ''300'')] else [])\<rparr>)"

definition auth_dispatch ::
  "(string \<Rightarrow> string \<Rightarrow> bool option) \<Rightarrow> ip_net list \<Rightarrow> auth_db \<Rightarrow> http_request \<Rightarrow> seconds \<Rightarrow> seconds
   \<Rightarrow> http_response option \<times> auth_db" where
  "auth_dispatch checkpw trusted db req t1 t2 =
     (if url_path req \<in> set auth_exempt_paths \<or> py_startswith ''/static/'' (url_path req) then (None, db)
      else case check_auth_header checkpw db (header_get req ''X-Proxbox-API-Key'')
                  (resolve_client_ip trusted req) t1 t2 of
             ((authorized, msg), db') \<Rightarrow>
               if \<not> authorized then (Some (auth_rejection msg), db') else (None, db'))"

definition docs_csp :: string where
  "docs_csp =
     ''default-src 'self'; script-src 'self' 'unsafe-inline'; style-src 'self' 'unsafe-inline'; '' @
     ''img-src 'self' data:; frame-ancestors 'none'' @ [CHR 0x27]"

definition default_csp :: string where
  "default_csp = ''default-src 'self'; frame-ancestors 'none'' @ [CHR 0x27]"

definition security_headers :: "http_request \<Rightarrow> http_response \<Rightarrow> http_response" where
  "security_headers req resp =
     resp\<lparr>resp_headers :=
       dict_set ''Content-Security-Policy'' (if url_path req \<in> {''/docs'', ''/redoc''} then docs_csp else default_csp)
      (dict_set ''Strict-Transport-Security'' ''max-age=31536000; includeSubDomains''
      (dict_set ''Permissions-Policy'' ''geolocation=(), microphone=(), camera=()''
      (dict_set ''Referrer-Policy'' ''strict-origin-when-cross-origin''
      (dict_set ''X-XSS-Protection'' ''1; mode=block''
      (dict_set ''X-Frame-Options'' ''DENY''
      (dict_set ''X-Content-Type-Options'' ''nosniff'' (resp_headers resp)))))))\<rparr>"

text \<open>The stack: rate limit, API key, security headers, application.\<close>

record 'w service =
  limiter :: rate_limiter
  auth :: auth_db
  world :: 'w

definition handle_request ::
  "(string \<Rightarrow> string \<Rightarrow> bool option) \<Rightarrow> ip_net list \<Rightarrow> (http_request \<Rightarrow> 'w \<Rightarrow> http_response \<times> 'w)
   \<Rightarrow> http_request \<Rightarrow> seconds \<Rightarrow> seconds \<Rightarrow> seconds \<Rightarrow> 'w service \<Rightarrow> http_response \<times> 'w service" where
  "handle_request checkpw trusted app req t0 t1 t2 s =
     (case rate_dispatch trusted (limiter s) req t0 of
        (Some resp, rl) \<Rightarrow> (resp, s\<lparr>limiter := rl\<rparr>)
      | (None, rl) \<Rightarrow>
          (case auth_dispatch checkpw trusted (auth s) req t1 t2 of
             (Some resp, db) \<Rightarrow> (resp, s\<lparr>limiter := rl, auth := db\<rparr>)
           | (None, db) \<Rightarrow>
               (case app req (world s) of
                  (resp, w) \<Rightarrow> (security_headers req resp, s\<lparr>limiter := rl, auth := db, world := w\<rparr>))))"


subsection \<open>The rate limit over time\<close>

fun rate_run ::
  "ip_net list \<Rightarrow> rate_limiter \<Rightarrow> (http_request \<times> seconds) list \<Rightarrow> (string \<times> seconds) list" where
  "rate_run trusted rl [] = []"
| "rate_run trusted rl ((req, now) # es) =
     (case rate_dispatch trusted rl req now of
        (r, rl') \<Rightarrow>
          (if r = None \<and> \<not> path_exempt (url_path req) then [(resolve_client_ip trusted req, now)] else [])
          @ rate_run trusted rl' es)"

definition admitted_in_window :: "seconds \<Rightarrow> seconds list \<Rightarrow> nat" where
  "admitted_in_window t ts = length (filter (\<lambda>s. t - window_size < s \<and> s \<le> t) ts)"

definition times_for :: "string \<Rightarrow> (string \<times> seconds) list \<Rightarrow> seconds list" where
  "times_for ip entries = map snd (filter (\<lambda>(i, t). i = ip) entries)"

lemma rate_dispatch_limit [simp]:
  "requests_per_minute (snd (rate_dispatch trusted rl req now)) = requests_per_minute rl"
  by (simp add: rate_dispatch_def touch_ip_def clean_old_requests_def Let_def)

lemma clean_times: "times_of (touch_ip (clean_old_requests rl ip now) ip) i =
    (if i = ip then filter (\<lambda>t. t > now - window_size) (times_of rl ip) else times_of rl i)"
  by (auto simp: times_of_def touch_ip_def clean_old_requests_def Let_def map_of_dict_setdefault)

lemma rate_dispatch_times:
  assumes "\<not> path_exempt (url_path req)"
  shows "let ip = resolve_client_ip trusted req;
             kept = filter (\<lambda>t. t > now - window_size) (times_of rl ip);
             (r, rl') = rate_dispatch trusted rl req now
         in (r = None \<longleftrightarrow> int (length kept) < requests_per_minute rl) \<and>
            times_of rl' ip = (if r = None then kept @ [now] else kept) \<and>
            (\<forall>i. i \<noteq> ip \<longrightarrow> times_of rl' i = times_of rl i)"
proof -
  let ?ip = "resolve_client_ip trusted req"
  let ?rl1 = "touch_ip (clean_old_requests rl ?ip now) ?ip"
  have lim: "requests_per_minute ?rl1 = requests_per_minute rl"
    by (simp add: touch_ip_def clean_old_requests_def Let_def)
  have upd: "times_of (?rl1\<lparr>request_times := dict_set ?ip v (request_times ?rl1)\<rparr>) i =
    (if i = ?ip then v else times_of ?rl1 i)" for v i by (simp add: times_of_def)
  show ?thesis using assms
    by (auto simp: rate_dispatch_def path_exempt_def Let_def lim upd clean_times)
qed

text \<open>
  What the limiter remembers of a client, against the full history of its admitted requests: the
  same requests within the last window.
\<close>

definition rate_inv :: "int \<Rightarrow> seconds \<Rightarrow> seconds list \<Rightarrow> seconds list \<Rightarrow> bool" where
  "rate_inv n now hist ts \<longleftrightarrow>
     (\<forall>s \<in> set hist. s \<le> now) \<and>
     filter (\<lambda>s. s > now - window_size) ts = filter (\<lambda>s. s > now - window_size) hist \<and>
     (\<forall>t. int (admitted_in_window t hist) \<le> n)"

lemma filter_later:
  "filter (\<lambda>s. s > c) ts = filter (\<lambda>s. s > c) hist \<Longrightarrow> c \<le> c'
   \<Longrightarrow> filter (\<lambda>s. s > c') ts = filter (\<lambda>s. s > (c' :: real)) hist"
proof -
  assume "filter (\<lambda>s. s > c) ts = filter (\<lambda>s. s > c) hist" and c: "c \<le> c'"
  then have "filter (\<lambda>s. s > c') (filter (\<lambda>s. s > c) ts) = filter (\<lambda>s. s > c') (filter (\<lambda>s. s > c) hist)" by simp
  moreover have "filter (\<lambda>s. s > c') (filter (\<lambda>s. s > c) xs) = filter (\<lambda>s. s > c') xs" for xs
    using c by (auto intro: filter_cong)
  ultimately show ?thesis by simp
qed

lemma rate_inv_later:
  assumes "rate_inv n now hist ts" "now \<le> now'"
  shows "rate_inv n now' hist ts"
  using assms filter_later [of "now - window_size" ts hist "now' - window_size"]
  by (fastforce simp: rate_inv_def)

lemma rate_inv_admit:
  assumes inv: "rate_inv n now hist ts" and room: "int (length (filter (\<lambda>s. s > now - window_size) ts)) < n"
  shows "rate_inv n now (hist @ [now]) (filter (\<lambda>s. s > now - window_size) ts @ [now])"
proof -
  have "int (admitted_in_window t (hist @ [now])) \<le> n" for t
  proof (cases "t - window_size < now \<and> now \<le> t")
    case True
    then have "length (filter (\<lambda>s. t - window_size < s \<and> s \<le> t) hist) \<le> length (filter (\<lambda>s. s > now - window_size) hist)"
      by (induct hist) auto
    with inv room True show ?thesis by (simp add: rate_inv_def admitted_in_window_def)
  next
    case False
    with inv show ?thesis by (auto simp: rate_inv_def admitted_in_window_def)
  qed
  with inv show ?thesis by (simp add: rate_inv_def)
qed

lemma rate_inv_refuse:
  "rate_inv n now hist ts \<Longrightarrow> rate_inv n now hist (filter (\<lambda>s. s > now - window_size) ts)"
  by (simp add: rate_inv_def)

lemma rate_run_inv:
  assumes "rate_inv (requests_per_minute rl) now hist (times_of rl ip)" "sorted (map snd es)"
    and "\<forall>e \<in> set es. now \<le> snd e"
  shows "int (admitted_in_window t (hist @ times_for ip (rate_run trusted rl es))) \<le> requests_per_minute rl"
  using assms
proof (induct es arbitrary: rl now hist)
  case Nil
  then show ?case by (simp add: rate_inv_def times_for_def)
next
  case (Cons e es)
  obtain req now' where e: "e = (req, now')" by force
  obtain r rl' where d: "rate_dispatch trusted rl req now' = (r, rl')" by force
  have lim: "requests_per_minute rl' = requests_per_minute rl"
    using rate_dispatch_limit [of trusted rl req now'] d by simp
  from Cons.prems e have srt: "sorted (map snd es)" and later: "\<forall>e \<in> set es. now' \<le> snd e" and "now \<le> now'" by auto
  with Cons.prems have inv: "rate_inv (requests_per_minute rl) now' hist (times_of rl ip)" by (auto intro: rate_inv_later)
  note IH = Cons.hyps [of rl' now', OF _ srt later, unfolded lim]
  show ?case
  proof (cases "path_exempt (url_path req)")
    case True
    then have "rl' = rl" using d by (auto simp: rate_dispatch_def path_exempt_def split: if_splits)
    with IH [of hist] inv True d e show ?thesis by (simp add: times_for_def)
  next
    case False
    note T = rate_dispatch_times [OF False, of trusted now' rl, unfolded d Let_def prod.case]
    show ?thesis
    proof (cases "resolve_client_ip trusted req = ip \<and> r = None")
      case True
      then have "rate_inv (requests_per_minute rl) now' (hist @ [now']) (times_of rl' ip)"
        using rate_inv_admit [OF inv] T by auto
      from IH [OF this] True False d e show ?thesis by (simp add: times_for_def)
    next
      case other: False
      then have "rate_inv (requests_per_minute rl) now' hist (times_of rl' ip)"
        using rate_inv_refuse [OF inv] inv T by (cases "resolve_client_ip trusted req = ip") auto
      from IH [OF this] other False d e show ?thesis by (auto simp: times_for_def)
    qed
  qed
qed

text \<open>
  \<^bold>\<open>C8.\<close> Whatever the clients send and in whatever order, as long as the clock does not go backwards,
  no 60 second window holds more admitted requests of one client address to protected paths than
  the configured limit, which is at least one for every value of \<^verbatim>\<open>PROXBOX_RATE_LIMIT\<close>.
\<close>

theorem rate_limit_window:
  assumes "sorted (map snd es)"
    and "rl = \<lparr>requests_per_minute = configured_rate_limit env, request_times = []\<rparr>"
  shows "int (admitted_in_window t (times_for ip (rate_run trusted rl es))) \<le> requests_per_minute rl \<and>
    requests_per_minute rl \<ge> 1"
proof -
  have one: "requests_per_minute rl \<ge> 1" by (simp add: assms configured_rate_limit_def split: option.splits)
  define t0 where "t0 = (if es = [] then 0 else snd (hd es))"
  have "\<forall>e \<in> set es. t0 \<le> snd e" using assms(1) by (cases es) (auto simp: t0_def)
  moreover have "rate_inv (requests_per_minute rl) t0 [] (times_of rl ip)"
    using one by (simp add: assms(2) rate_inv_def times_of_def admitted_in_window_def)
  ultimately show ?thesis using rate_run_inv [of rl t0 "[]" ip es t trusted] assms(1) one by simp
qed

definition demo_request :: http_request where
  "demo_request = \<lparr>url_path = ''/sync/active'', client_host = Some ''192.0.2.7'', req_headers = []\<rparr>"

theorem rate_limit_window_witness:
  "times_for ''192.0.2.7'' (rate_run [] \<lparr>requests_per_minute = configured_rate_limit (Some ''2''), request_times = []\<rparr>
       [(demo_request, 0), (demo_request, 1), (demo_request, 2), (demo_request, 61)]) = [0, 1, 61] \<and>
   int (admitted_in_window 61 [0, 1, 61]) \<le> 2"
proof -
  let ?rl = "\<lparr>requests_per_minute = configured_rate_limit (Some ''2''), request_times = []\<rparr>"
  let ?es = "[(demo_request, 0), (demo_request, 1), (demo_request, 2), (demo_request, 61)]"
  have two: "configured_rate_limit (Some ''2'') = 2" by code_simp
  have "times_for ''192.0.2.7'' (rate_run [] ?rl ?es) = [0, 1, 61]" by code_simp
  with rate_limit_window [of ?es ?rl "Some ''2''" 61 "''192.0.2.7''" "[]"] two show ?thesis by simp
qed


subsection \<open>Who a client is, and what it reaches\<close>

definition peer_of :: "http_request \<Rightarrow> string" where
  "peer_of req = (case client_host req of Some h \<Rightarrow> h | None \<Rightarrow> ''unknown'')"

lemma find_rev_split:
  "\<not> P c \<Longrightarrow> list_all P ys \<Longrightarrow> find (\<lambda>x. \<not> P x) (rev (xs @ c # ys)) = Some c"
proof -
  assume "\<not> P c" "list_all P ys"
  then have "find (\<lambda>x. \<not> P x) (rev ys) = None" by (auto simp: find_None_iff list_all_iff)
  moreover have "find Q (us @ vs) = (case find Q us of None \<Rightarrow> find Q vs | Some x \<Rightarrow> Some x)" for Q and us vs :: "'a list"
    by (induct us) auto
  ultimately show ?thesis using \<open>\<not> P c\<close> by simp
qed

text \<open>
  \<^bold>\<open>C9.\<close> The client address the limits and lockouts are keyed on cannot be spoofed. A request from a
  peer outside the trusted proxies is attributed to that peer whatever headers it carries. Behind
  trusted proxies it is attributed to the rightmost forwarded hop that is not a trusted proxy,
  whatever the client put before it.
\<close>

theorem client_ip_not_spoofable:
  "(\<not> peer_is_trusted trusted (peer_of req) \<longrightarrow> resolve_client_ip trusted req = peer_of req) \<and>
   (peer_is_trusted trusted (peer_of req) \<and> header_get req ''X-Forwarded-For'' = Some fwd \<and>
      forwarded_candidates fwd = spoofed @ client # proxies \<and>
      \<not> peer_is_trusted trusted client \<and> list_all (peer_is_trusted trusted) proxies
    \<longrightarrow> resolve_client_ip trusted req = client)"
proof -
  have "resolve_client_ip trusted req = client"
    if t: "peer_is_trusted trusted (peer_of req)" and h: "header_get req ''X-Forwarded-For'' = Some fwd"
      and f: "forwarded_candidates fwd = spoofed @ client # proxies"
      and c: "\<not> peer_is_trusted trusted client" "list_all (peer_is_trusted trusted) proxies"
  proof -
    have "fwd \<noteq> []" using f by (auto simp: forwarded_candidates_def)
    with find_rev_split [OF c, of spoofed] f h t show ?thesis
      by (simp add: resolve_client_ip_def peer_of_def Let_def del: rev_append)
  qed
  then show ?thesis by (auto simp: resolve_client_ip_def peer_of_def Let_def)
qed

definition demo_proxied :: http_request where
  "demo_proxied =
     \<lparr>url_path = ''/sync/active'', client_host = Some ''10.0.0.2'',
      req_headers = [(''x-forwarded-for'', ''1.1.1.1, 203.0.113.9, 10.0.0.1'')]\<rparr>"

theorem client_ip_not_spoofable_witness:
  "resolve_client_ip (load_trusted_proxies ''10.0.0.0/8'') demo_proxied = ''203.0.113.9'' \<and>
   resolve_client_ip (load_trusted_proxies '''') demo_proxied = ''10.0.0.2''"
proof -
  let ?fwd = "''1.1.1.1, 203.0.113.9, 10.0.0.1''"
  let ?T = "load_trusted_proxies ''10.0.0.0/8''"
  have "peer_is_trusted ?T (peer_of demo_proxied)" by code_simp
  moreover have "header_get demo_proxied ''X-Forwarded-For'' = Some ?fwd" by code_simp
  moreover have "forwarded_candidates ?fwd = [''1.1.1.1''] @ ''203.0.113.9'' # [''10.0.0.1'']" by code_simp
  moreover have "\<not> peer_is_trusted ?T ''203.0.113.9''" by code_simp
  moreover have "list_all (peer_is_trusted ?T) [''10.0.0.1'']" by code_simp
  ultimately have "resolve_client_ip ?T demo_proxied = ''203.0.113.9''"
    using client_ip_not_spoofable [of ?T demo_proxied ?fwd "[''1.1.1.1'']" "''203.0.113.9''" "[''10.0.0.1'']"] by simp
  moreover have "\<not> peer_is_trusted (load_trusted_proxies '''') (peer_of demo_proxied)" by code_simp
  moreover have "peer_of demo_proxied = ''10.0.0.2''" by code_simp
  ultimately show ?thesis
    using client_ip_not_spoofable [of "load_trusted_proxies ''''" demo_proxied] by simp
qed

text \<open>
  \<^bold>\<open>C10.\<close> A request to a protected path either presents a key that matches an active one, from a client
  that is not locked out, and gets the application's response with the security headers; or it is
  refused with 401 or 429 and the application is not run.
\<close>

theorem protected_path_guarded:
  assumes "\<not> path_exempt (url_path req)"
    and "handle_request checkpw trusted app req t0 t1 t2 s = (resp, s')"
  shows "(\<exists>key row. header_get req ''X-Proxbox-API-Key'' = Some key \<and> row \<in> set (api_keys (auth s)) \<and>
            is_active row \<and> checkpw key (key_hash row) = Some True \<and>
            \<not> locked (auth s) (resolve_client_ip trusted req) t1 \<and>
            resp = security_headers req (fst (app req (world s))) \<and> world s' = snd (app req (world s)))
         \<or> (status_code resp \<in> {401, 429} \<and> world s' = world s)"
proof (cases "rate_dispatch trusted (limiter s) req t0")
  case (Pair r rl)
  show ?thesis
  proof (cases r)
    case (Some resp1)
    with Pair assms(1) have "resp1 = rate_limited_response"
      by (auto simp: rate_dispatch_def path_exempt_def Let_def split: if_splits)
    with Pair Some assms(2) show ?thesis by (auto simp: handle_request_def rate_limited_response_def)
  next
    case None
    obtain ok msg db where c:
      "check_auth_header checkpw (auth s) (header_get req ''X-Proxbox-API-Key'') (resolve_client_ip trusted req) t1 t2
       = ((ok, msg), db)" by (metis prod.exhaust)
    show ?thesis
    proof (cases ok)
      case True
      with c have "fst (fst (check_auth_header checkpw (auth s) (header_get req ''X-Proxbox-API-Key'')
          (resolve_client_ip trusted req) t1 t2))" by simp
      then have "\<not> locked (auth s) (resolve_client_ip trusted req) t1 \<and>
          (\<exists>key row. header_get req ''X-Proxbox-API-Key'' = Some key \<and> row \<in> set (api_keys (auth s)) \<and>
             is_active row \<and> checkpw key (key_hash row) = Some True)"
        by (auto simp: check_auth_authorized)
      moreover from True c None Pair assms have "resp = security_headers req (fst (app req (world s)))"
        "world s' = snd (app req (world s))"
        by (auto simp: handle_request_def auth_dispatch_def path_exempt_def split: prod.splits)
      ultimately show ?thesis by blast
    next
      case False
      with c None Pair assms have "resp = auth_rejection msg" "world s' = world s"
        by (auto simp: handle_request_def auth_dispatch_def path_exempt_def)
      then show ?thesis by (simp add: auth_rejection_def Let_def)
    qed
  qed
qed

definition demo_keyed :: http_request where
  "demo_keyed = demo_request\<lparr>req_headers := [(''x-proxbox-api-key'', demo_key)]\<rparr>"

definition demo_service :: "nat service" where
  "demo_service =
     \<lparr>limiter = \<lparr>requests_per_minute = 300, request_times = []\<rparr>, auth = kdb demo_registered_world, world = 0\<rparr>"

definition demo_app :: "http_request \<Rightarrow> nat \<Rightarrow> http_response \<times> nat" where
  "demo_app req n = (\<lparr>status_code = 200, detail = None, resp_headers = []\<rparr>, n + 1)"

theorem protected_path_guarded_witness:
  "world (snd (handle_request demo_checkpw [] demo_app demo_keyed 1 1 1 demo_service)) = 1 \<and>
   (status_code (fst (handle_request demo_checkpw [] demo_app demo_request 1 1 1 demo_service)) \<in> {401, 429} \<and>
    world (snd (handle_request demo_checkpw [] demo_app demo_request 1 1 1 demo_service)) = 0)"
proof -
  have e: "\<not> path_exempt (url_path demo_keyed)" "\<not> path_exempt (url_path demo_request)" by code_simp+
  have h: "header_get demo_request ''X-Proxbox-API-Key'' = None" by code_simp
  have "status_code (fst (handle_request demo_checkpw [] demo_app demo_keyed 1 1 1 demo_service)) = 200" by code_simp
  with protected_path_guarded [OF e(1), of demo_checkpw "[]" demo_app 1 1 1 demo_service, OF prod.collapse [symmetric]]
    protected_path_guarded [OF e(2), of demo_checkpw "[]" demo_app 1 1 1 demo_service, OF prod.collapse [symmetric]] h
  show ?thesis by (auto simp: demo_app_def demo_service_def)
qed


subsection \<open>Observations\<close>

text \<open>
  Responses made by the outer middleware pass through no \<^verbatim>\<open>SecurityHeadersMiddleware\<close>: it is installed
  before the two, hence inside them.
\<close>

lemma rejection_without_security_headers:
  assumes "\<not> path_exempt (url_path req)"
    and "\<not> fst (fst (check_auth_header checkpw (auth s) (header_get req ''X-Proxbox-API-Key'')
                       (resolve_client_ip trusted req) t1 t2))"
  shows "map_of (resp_headers (fst (handle_request checkpw trusted app req t0 t1 t2 s))) ''X-Frame-Options'' = None"
  using assms
  by (auto simp: handle_request_def rate_dispatch_def auth_dispatch_def path_exempt_def rate_limited_response_def
      auth_rejection_def Let_def split: prod.splits if_splits)

text \<open>
  The clean-up of a request concerns its own client only, and the access after it stores the entry
  again: no entry of the table ever goes away, so it grows with every address seen.
\<close>

lemma rate_entries_never_dropped:
  assumes "map_of (request_times rl) ip \<noteq> None"
  shows "map_of (request_times (snd (rate_dispatch trusted rl req now))) ip \<noteq> None"
  using assms
  by (auto simp: rate_dispatch_def touch_ip_def clean_old_requests_def map_of_dict_setdefault Let_def)

end
