(* ===== verification/Ssrf_Guard.thy ===== *)
theory Ssrf_Guard
  imports Ip_Address
begin

text \<open>
  The guard against server-side request forgery (\<^verbatim>\<open>ssrf.py\<close>): which endpoint hosts the service
  may be told to talk to. The module's two global sets are the state \<open>ssrf_cache\<close>; the rows the
  endpoint tables yield (before an error ends the query, if one does) and the resolver
  (\<^verbatim>\<open>socket.getaddrinfo\<close>, \<open>Inl\<close> its exception text) are arguments.
\<close>

definition net :: "string \<Rightarrow> ip_net" where
  "net s = the (ip_network s)"

definition internal_ip_ranges :: "ip_net list" where
  "internal_ip_ranges =
     map net
       [''10.0.0.0/8'', ''172.16.0.0/12'', ''192.168.0.0/16'', ''127.0.0.0/8'', ''169.254.0.0/16'', ''0.0.0.0/8'',
        ''100.64.0.0/10'', ''192.0.0.0/24'', ''192.0.2.0/24'', ''198.51.100.0/24'', ''203.0.113.0/24'',
        ''224.0.0.0/4'', ''240.0.0.0/4'', ''::1/128'', ''fc00::/7'', ''fe80::/10'']"

definition private_ip_ranges :: "ip_net list" where
  "private_ip_ranges = map net [''10.0.0.0/8'', ''172.16.0.0/12'', ''192.168.0.0/16'']"

text \<open>The networks as numbers; also the code equations, so that they are parsed once.\<close>

lemma range_values [code]:
  "internal_ip_ranges =
     [Net4 167772160 8, Net4 2886729728 12, Net4 3232235520 16, Net4 2130706432 8, Net4 2851995648 16, Net4 0 8,
      Net4 1681915904 10, Net4 3221225472 24, Net4 3221225984 24, Net4 3325256704 24, Net4 3405803776 24,
      Net4 3758096384 4, Net4 4026531840 4, Net6 1 128, Net6 334965454937798799971759379190646833152 7,
      Net6 338288524927261089654018896841347694592 10]"
  "private_ip_ranges = [Net4 167772160 8, Net4 2886729728 12, Net4 3232235520 16]"
  by code_simp+

record ssrf_cache =
  registered_ips :: "string set"
  registered_domains :: "string set"

record endpoint_row =
  row_ip_address :: "string option"
  row_domain :: "string option"

record ssrf_settings =
  ssrf_protection_enabled :: "bool option"
  allow_private_ips :: "bool option"
  allowed_ip_ranges :: "ip_net list option"
  blocked_ip_ranges :: "ip_net list option"

definition no_settings :: ssrf_settings where
  "no_settings =
     \<lparr>ssrf_protection_enabled = None, allow_private_ips = None, allowed_ip_ranges = None, blocked_ip_ranges = None\<rparr>"

definition get_or :: "'a option \<Rightarrow> 'a \<Rightarrow> 'a" where
  "get_or v d = (case v of None \<Rightarrow> d | Some x \<Rightarrow> x)"


subsection \<open>Registered endpoints\<close>

definition truthy_text :: "string option \<Rightarrow> bool" where
  "truthy_text s = (case s of None \<Rightarrow> False | Some t \<Rightarrow> t \<noteq> [])"

definition rows_ips :: "endpoint_row list \<Rightarrow> string set" where
  "rows_ips rows =
     set (map (\<lambda>r. hd (py_split (CHR ''/'') (the (row_ip_address r))))
            (filter (\<lambda>r. truthy_text (row_ip_address r)) rows))"

definition rows_domains :: "endpoint_row list \<Rightarrow> string set" where
  "rows_domains rows =
     set (map (\<lambda>r. py_lower (py_strip (the (row_domain r)))) (filter (\<lambda>r. truthy_text (row_domain r)) rows))"

definition get_registered_endpoints ::
  "endpoint_row list \<Rightarrow> ssrf_cache \<Rightarrow> (string set \<times> string set) \<times> ssrf_cache" where
  "get_registered_endpoints rows c =
     (if registered_ips c \<noteq> {} \<or> registered_domains c \<noteq> {} then ((registered_ips c, registered_domains c), c)
      else ((rows_ips rows, rows_domains rows),
            \<lparr>registered_ips = rows_ips rows, registered_domains = rows_domains rows\<rparr>))"

definition clear_endpoint_cache :: ssrf_cache where
  "clear_endpoint_cache = \<lparr>registered_ips = {}, registered_domains = {}\<rparr>"

fun pre_allow_endpoint_hosts :: "string list \<Rightarrow> ssrf_cache \<Rightarrow> ssrf_cache" where
  "pre_allow_endpoint_hosts [] c = c"
| "pre_allow_endpoint_hosts (h # hs) c =
     (let host = py_strip h in
      if h = [] \<or> host = [] then pre_allow_endpoint_hosts hs c
      else case ip_address host of
             Some _ \<Rightarrow> pre_allow_endpoint_hosts hs (c\<lparr>registered_ips := insert host (registered_ips c)\<rparr>)
           | None \<Rightarrow>
               pre_allow_endpoint_hosts hs
                 (c\<lparr>registered_domains := insert (py_lower host) (registered_domains c)\<rparr>))"

definition is_registered_endpoint :: "endpoint_row list \<Rightarrow> string \<Rightarrow> ssrf_cache \<Rightarrow> bool \<times> ssrf_cache" where
  "is_registered_endpoint rows host c =
     (case get_registered_endpoints rows c of
        ((ips, domains), c') \<Rightarrow>
          if py_lower (py_strip host) \<in> domains then (True, c')
          else case ip_address host of
                 Some _ \<Rightarrow> (host \<in> ips, c')
               | None \<Rightarrow> (False, c'))"


subsection \<open>Addresses\<close>

text \<open>The reasons, one constructor per message with the values it interpolates.\<close>

datatype ssrf_reason =
    Allowed
  | HostEmpty
  | ExplicitlyBlocked string ip_net
  | ReservedAddress string
  | LocalhostNotAllowed
  | InternalDomain string
  | Unresolvable string "string option"
  | ResolvesTo string string ssrf_reason

definition address_blocked :: "ssrf_settings \<Rightarrow> string \<Rightarrow> ip_addr \<Rightarrow> bool \<times> ssrf_reason" where
  "address_blocked settings ip addr =
     (if \<not> get_or (ssrf_protection_enabled settings) True then (False, Allowed)
      else case find (ip_in addr) (get_or (blocked_ip_ranges settings) []) of
        Some network \<Rightarrow> (True, ExplicitlyBlocked ip network)
      | None \<Rightarrow>
      if list_ex (ip_in addr) (get_or (allowed_ip_ranges settings) []) then (False, Allowed)
      else if get_or (allow_private_ips settings) True \<and> list_ex (ip_in addr) private_ip_ranges then (False, Allowed)
      else if list_ex (ip_in addr) internal_ip_ranges then (True, ReservedAddress ip)
      else (False, Allowed))"

definition is_ip_blocked ::
  "endpoint_row list \<Rightarrow> ssrf_settings option \<Rightarrow> string \<Rightarrow> ssrf_cache \<Rightarrow> (bool \<times> ssrf_reason) \<times> ssrf_cache" where
  "is_ip_blocked rows settings ip c =
     (case ip_address ip of
        None \<Rightarrow> ((False, Allowed), c)
      | Some addr \<Rightarrow>
          (case is_registered_endpoint rows ip c of
             (True, c') \<Rightarrow> ((False, Allowed), c')
           | (False, c') \<Rightarrow> (address_blocked (get_or settings no_settings) ip addr, c')))"


subsection \<open>Hosts\<close>

text \<open>\<^verbatim>\<open>^[\w.-]+\.(local|lan|internal|private)$\<close>, ignoring case, on a stripped host.\<close>

definition internal_domain :: "string \<Rightarrow> bool" where
  "internal_domain host =
     list_ex (\<lambda>suffix.
         let tail = CHR ''.'' # suffix;
             stem = take (length host - length tail) host
         in py_endswith tail (py_lower host) \<and> stem \<noteq> [] \<and>
            list_all (\<lambda>ch. word_char ch \<or> ch = CHR ''.'' \<or> ch = CHR ''-'') stem)
       [''local'', ''lan'', ''internal'', ''private'']"

fun first_blocked ::
  "endpoint_row list \<Rightarrow> ssrf_settings option \<Rightarrow> string list \<Rightarrow> ssrf_cache
   \<Rightarrow> (string \<times> ssrf_reason) option \<times> ssrf_cache" where
  "first_blocked rows settings [] c = (None, c)"
| "first_blocked rows settings (ip # ips) c =
     (case is_ip_blocked rows settings ip c of
        ((True, reason), c') \<Rightarrow> (Some (ip, reason), c')
      | ((False, _), c') \<Rightarrow> first_blocked rows settings ips c')"

definition validate_endpoint_host ::
  "(string \<Rightarrow> string + string list) \<Rightarrow> endpoint_row list \<Rightarrow> ssrf_settings option \<Rightarrow> string option \<Rightarrow> ssrf_cache
   \<Rightarrow> (bool \<times> ssrf_reason) \<times> ssrf_cache" where
  "validate_endpoint_host resolver rows settings host0 c =
     (if \<not> truthy_text host0 then ((False, HostEmpty), c)
      else let host = py_strip (the host0) in
      case is_registered_endpoint rows host c of
        (True, c1) \<Rightarrow> ((True, Allowed), c1)
      | (False, c1) \<Rightarrow>
        (case is_ip_blocked rows settings host c1 of
           ((True, reason), c2) \<Rightarrow> ((False, reason), c2)
         | ((False, _), c2) \<Rightarrow>
             if ip_address host \<noteq> None then ((True, Allowed), c2)
             else if py_lower host \<in> {''localhost'', ''localhost.localdomain''}
             then ((False, LocalhostNotAllowed), c2)
             else if internal_domain host
             then ((False, InternalDomain host), c2)
             else (case resolver host of
                     Inl exc \<Rightarrow> ((False, Unresolvable host (Some exc)), c2)
                   | Inr infos \<Rightarrow>
                       let resolved = remdups infos in
                       if resolved = [] then ((False, Unresolvable host None), c2)
                       else (case first_blocked rows settings resolved c2 of
                               (Some (ip, reason), c3) \<Rightarrow>
                                 ((False, ResolvesTo host ip reason), c3)
                             | (None, c3) \<Rightarrow> ((True, Allowed), c3)))))"


subsection \<open>What the guard lets through\<close>

text \<open>
  Between two changes of the endpoint tables the set of registered hosts is one set, whichever call
  loads it.
\<close>

definition registered_hosts :: "endpoint_row list \<Rightarrow> ssrf_cache \<Rightarrow> string set \<times> string set" where
  "registered_hosts rows c = fst (get_registered_endpoints rows c)"

definition host_registered :: "endpoint_row list \<Rightarrow> ssrf_cache \<Rightarrow> string \<Rightarrow> bool" where
  "host_registered rows c host = fst (is_registered_endpoint rows host c)"

lemma registered_hosts_stable [simp]:
  "registered_hosts rows (snd (is_registered_endpoint rows host c)) = registered_hosts rows c"
  by (auto simp: registered_hosts_def is_registered_endpoint_def get_registered_endpoints_def
      split: option.splits)

lemma host_registered_alt:
  "host_registered rows c host \<longleftrightarrow>
     py_lower (py_strip host) \<in> snd (registered_hosts rows c) \<or>
     (ip_address host \<noteq> None \<and> host \<in> fst (registered_hosts rows c))"
  by (auto simp: host_registered_def registered_hosts_def is_registered_endpoint_def
      split: option.splits prod.splits)

lemma host_registered_stable [simp]:
  "host_registered rows (snd (is_registered_endpoint rows h c)) host = host_registered rows c host"
  by (simp add: host_registered_alt)

lemma snd_is_ip_blocked:
  "snd (is_ip_blocked rows st ip c) =
     (if ip_address ip = None then c else snd (is_registered_endpoint rows ip c))"
  by (auto simp: is_ip_blocked_def split: option.splits prod.splits bool.splits)

lemma is_ip_blocked_cache [simp]:
  "host_registered rows (snd (is_ip_blocked rows st ip c)) host = host_registered rows c host"
  by (simp add: snd_is_ip_blocked)

lemma fst_is_ip_blocked:
  "fst (fst (is_ip_blocked rows st ip c)) \<longleftrightarrow>
     (\<exists>addr. ip_address ip = Some addr \<and> \<not> host_registered rows c ip \<and>
        fst (address_blocked (get_or st no_settings) ip addr))"
  by (auto simp: is_ip_blocked_def host_registered_def split: option.splits prod.splits bool.splits)

definition ip_admissible :: "endpoint_row list \<Rightarrow> ssrf_settings option \<Rightarrow> ssrf_cache \<Rightarrow> string \<Rightarrow> bool" where
  "ip_admissible rows st c ip \<longleftrightarrow>
     (case ip_address ip of
        None \<Rightarrow> True
      | Some addr \<Rightarrow> host_registered rows c ip \<or> \<not> fst (address_blocked (get_or st no_settings) ip addr))"

lemma ip_admissible_iff: "ip_admissible rows st c ip \<longleftrightarrow> \<not> fst (fst (is_ip_blocked rows st ip c))"
  by (auto simp: ip_admissible_def fst_is_ip_blocked split: option.splits)

lemma first_blocked_None:
  "fst (first_blocked rows st ips c) = None \<longleftrightarrow> list_all (ip_admissible rows st c) ips"
proof (induct ips arbitrary: c)
  case (Cons ip ips)
  obtain b reason c' where r: "is_ip_blocked rows st ip c = ((b, reason), c')" by (metis prod.exhaust)
  from is_ip_blocked_cache [of rows st ip c] r have "ip_admissible rows st c' = ip_admissible rows st c"
    by (simp add: ip_admissible_def fun_eq_iff split: option.splits)
  with Cons [of c'] r ip_admissible_iff [of rows st c ip] show ?case by (cases b) auto
qed simp

lemma ip_admissible_cache [simp]:
  "ip_admissible rows st (snd (is_registered_endpoint rows h c)) = ip_admissible rows st c"
  "ip_admissible rows st (snd (is_ip_blocked rows st ip c)) = ip_admissible rows st c"
  by (simp_all add: ip_admissible_def fun_eq_iff split: option.splits)

text \<open>
  \<^bold>\<open>C11.\<close> A host that is accepted without being registered is admissible itself, and when it is a name
  it is not a local name and resolves to at least one address, all of them admissible: a name that
  points at a blocked address does not pass. Admissible is: registered, or not blocked by the
  settings.
\<close>

theorem accepted_host_admissible:
  assumes v: "fst (fst (validate_endpoint_host resolver rows st (Some h) c))"
    and nr: "\<not> host_registered rows c (py_strip h)"
  shows "ip_admissible rows st c (py_strip h) \<and>
    (ip_address (py_strip h) = None \<longrightarrow>
       \<not> internal_domain (py_strip h) \<and> py_lower (py_strip h) \<notin> {''localhost'', ''localhost.localdomain''} \<and>
       (\<exists>ips. resolver (py_strip h) = Inr ips \<and> ips \<noteq> [] \<and> list_all (ip_admissible rows st c) ips))"
proof -
  let ?h = "py_strip h"
  obtain c1 where r: "is_registered_endpoint rows ?h c = (False, c1)"
    using nr by (cases "is_registered_endpoint rows ?h c") (auto simp: host_registered_def)
  obtain b reason c2 where q: "is_ip_blocked rows st ?h c1 = ((b, reason), c2)" by (metis prod.exhaust)
  have c1: "ip_admissible rows st c1 = ip_admissible rows st c"
    using ip_admissible_cache(1) [of rows st ?h c] r by simp
  have c2: "ip_admissible rows st c2 = ip_admissible rows st c"
    using ip_admissible_cache(2) [of rows st ?h c1] q c1 by simp
  have h: "h \<noteq> []" using v by (auto simp: validate_endpoint_host_def truthy_text_def Let_def)
  from v r q h have "\<not> b" by (auto simp: validate_endpoint_host_def truthy_text_def Let_def)
  then have adm: "ip_admissible rows st c ?h" using q c1 ip_admissible_iff [of rows st c1 ?h] by simp
  moreover have "\<not> internal_domain ?h \<and> py_lower ?h \<notin> {''localhost'', ''localhost.localdomain''} \<and>
       (\<exists>ips. resolver ?h = Inr ips \<and> ips \<noteq> [] \<and> list_all (ip_admissible rows st c) ips)"
    if n: "ip_address ?h = None"
  proof -
    from v r q h n \<open>\<not> b\<close> have i: "\<not> internal_domain ?h" "py_lower ?h \<notin> {''localhost'', ''localhost.localdomain''}"
      by (auto simp: validate_endpoint_host_def truthy_text_def Let_def split: if_splits)
    with v r q h n \<open>\<not> b\<close> obtain ips where s: "resolver ?h = Inr ips" "ips \<noteq> []"
      by (auto simp: validate_endpoint_host_def truthy_text_def Let_def split: sum.splits if_splits)
    with v r q h n i \<open>\<not> b\<close> have "fst (first_blocked rows st (remdups ips) c2) = None"
      by (auto simp: validate_endpoint_host_def truthy_text_def Let_def split: option.splits prod.splits)
    then show ?thesis using i s c2 by (simp add: first_blocked_None list_all_iff)
  qed
  ultimately show ?thesis by blast
qed

definition demo_resolver :: "string \<Rightarrow> string + string list" where
  "demo_resolver h =
     (if h = ''pve.example.com'' then Inr [''8.8.4.4'', ''2001:db8::5'']
      else if h = ''evil.example.com'' then Inr [''8.8.4.4'', ''127.0.0.1'']
      else Inl ''unknown'')"

theorem accepted_host_admissible_witness:
  "(\<exists>ips. demo_resolver ''pve.example.com'' = Inr ips \<and> ips \<noteq> [] \<and> list_all (ip_admissible [] None clear_endpoint_cache) ips) \<and>
   fst (validate_endpoint_host demo_resolver [] None (Some ''evil.example.com'') clear_endpoint_cache)
     = (False, ResolvesTo ''evil.example.com'' ''127.0.0.1'' (ReservedAddress ''127.0.0.1''))"
proof -
  have "fst (fst (validate_endpoint_host demo_resolver [] None (Some '' pve.example.com'') clear_endpoint_cache))"
    by code_simp
  moreover have "\<not> host_registered [] clear_endpoint_cache (py_strip '' pve.example.com'')" by code_simp
  moreover have "py_strip '' pve.example.com'' = ''pve.example.com''" by code_simp
  moreover have "ip_address ''pve.example.com'' = None" by code_simp
  moreover have "fst (validate_endpoint_host demo_resolver [] None (Some ''evil.example.com'') clear_endpoint_cache)
     = (False, ResolvesTo ''evil.example.com'' ''127.0.0.1'' (ReservedAddress ''127.0.0.1''))" by code_simp
  ultimately show ?thesis
    using accepted_host_admissible [of demo_resolver "[]" None "'' pve.example.com''" clear_endpoint_cache] by simp
qed

text \<open>The ranges as intervals of addresses.\<close>

definition dotted :: "int \<Rightarrow> int \<Rightarrow> int \<Rightarrow> int \<Rightarrow> int" where
  "dotted a b c d = ((a * 256 + b) * 256 + c) * 256 + d"

lemma range_intervals:
  "ip_in (V4 a) (Net4 167772160 8) \<longleftrightarrow> dotted 10 0 0 0 \<le> a \<and> a \<le> dotted 10 255 255 255"
  "ip_in (V4 a) (Net4 2886729728 12) \<longleftrightarrow> dotted 172 16 0 0 \<le> a \<and> a \<le> dotted 172 31 255 255"
  "ip_in (V4 a) (Net4 3232235520 16) \<longleftrightarrow> dotted 192 168 0 0 \<le> a \<and> a \<le> dotted 192 168 255 255"
  "ip_in (V4 a) (Net4 2130706432 8) \<longleftrightarrow> dotted 127 0 0 0 \<le> a \<and> a \<le> dotted 127 255 255 255"
  "ip_in (V4 a) (Net4 2851995648 16) \<longleftrightarrow> dotted 169 254 0 0 \<le> a \<and> a \<le> dotted 169 254 255 255"
  "ip_in (V4 a) (Net4 0 8) \<longleftrightarrow> dotted 0 0 0 0 \<le> a \<and> a \<le> dotted 0 255 255 255"
  "ip_in (V4 a) (Net4 1681915904 10) \<longleftrightarrow> dotted 100 64 0 0 \<le> a \<and> a \<le> dotted 100 127 255 255"
  "ip_in (V4 a) (Net4 3221225472 24) \<longleftrightarrow> dotted 192 0 0 0 \<le> a \<and> a \<le> dotted 192 0 0 255"
  "ip_in (V4 a) (Net4 3221225984 24) \<longleftrightarrow> dotted 192 0 2 0 \<le> a \<and> a \<le> dotted 192 0 2 255"
  "ip_in (V4 a) (Net4 3325256704 24) \<longleftrightarrow> dotted 198 51 100 0 \<le> a \<and> a \<le> dotted 198 51 100 255"
  "ip_in (V4 a) (Net4 3405803776 24) \<longleftrightarrow> dotted 203 0 113 0 \<le> a \<and> a \<le> dotted 203 0 113 255"
  by (auto simp: div_interval dotted_def)

lemma reserved_union:
  "ip_in (V4 a) (Net4 3758096384 4) \<or> ip_in (V4 a) (Net4 4026531840 4) \<or> False
     \<longleftrightarrow> dotted 224 0 0 0 \<le> a \<and> a \<le> dotted 255 255 255 255"
  by (auto simp: div_interval dotted_def)

text \<open>
  With the default settings and no registered endpoint, an IPv4 address is blocked exactly when
  it lies in the loopback, link-local (the cloud metadata address among them), this-network,
  carrier-grade NAT, IETF, documentation, multicast or reserved ranges; the private ranges and all
  public addresses pass.
\<close>

theorem default_blocked_v4:
  assumes "ip_address s = Some (V4 a)" and "\<not> host_registered rows c s"
  shows "fst (fst (is_ip_blocked rows None s c)) \<longleftrightarrow>
     dotted 127 0 0 0 \<le> a \<and> a \<le> dotted 127 255 255 255 \<or>
     dotted 169 254 0 0 \<le> a \<and> a \<le> dotted 169 254 255 255 \<or>
     dotted 0 0 0 0 \<le> a \<and> a \<le> dotted 0 255 255 255 \<or>
     dotted 100 64 0 0 \<le> a \<and> a \<le> dotted 100 127 255 255 \<or>
     dotted 192 0 0 0 \<le> a \<and> a \<le> dotted 192 0 0 255 \<or>
     dotted 192 0 2 0 \<le> a \<and> a \<le> dotted 192 0 2 255 \<or>
     dotted 198 51 100 0 \<le> a \<and> a \<le> dotted 198 51 100 255 \<or>
     dotted 203 0 113 0 \<le> a \<and> a \<le> dotted 203 0 113 255 \<or>
     dotted 224 0 0 0 \<le> a \<and> a \<le> dotted 255 255 255 255"
    (is "_ \<longleftrightarrow> ?B")
proof -
  let ?P = "list_ex (ip_in (V4 a)) private_ip_ranges"
  have P: "?P \<longleftrightarrow> (dotted 10 0 0 0 \<le> a \<and> a \<le> dotted 10 255 255 255) \<or>
      (dotted 172 16 0 0 \<le> a \<and> a \<le> dotted 172 31 255 255) \<or>
      (dotted 192 168 0 0 \<le> a \<and> a \<le> dotted 192 168 255 255)"
    by (simp only: range_values range_intervals list_ex_Nil_iff list_ex_Cons_iff simp_thms)
  have I: "list_ex (ip_in (V4 a)) internal_ip_ranges \<longleftrightarrow> ?P \<or> ?B"
    unfolding P reserved_union [of a, symmetric]
    by (simp only: range_values range_intervals list_ex_Nil_iff list_ex_Cons_iff ip_in.simps(4) simp_thms disj_ac)
  have "?B \<Longrightarrow> \<not> ?P" unfolding P dotted_def by (elim disjE) auto
  with assms I show ?thesis
    by (auto simp: fst_is_ip_blocked address_blocked_def no_settings_def get_or_def)
qed

theorem default_blocked_v4_witness:
  "fst (fst (is_ip_blocked [] None ''169.254.169.254'' clear_endpoint_cache)) \<and>
   \<not> fst (fst (is_ip_blocked [] None ''192.168.1.10'' clear_endpoint_cache))"
proof -
  have "ip_address ''169.254.169.254'' = Some (V4 2852039166)" "ip_address ''192.168.1.10'' = Some (V4 3232235786)"
    by code_simp+
  moreover have "\<not> host_registered [] clear_endpoint_cache ''169.254.169.254''"
    "\<not> host_registered [] clear_endpoint_cache ''192.168.1.10''" by code_simp+
  ultimately show ?thesis
    using default_blocked_v4 [of "''169.254.169.254''" 2852039166 "[]" clear_endpoint_cache]
      default_blocked_v4 [of "''192.168.1.10''" 3232235786 "[]" clear_endpoint_cache]
    by (simp add: dotted_def)
qed


subsection \<open>Observations\<close>

text \<open>The IPv4-mapped form of a loopback address and the unspecified IPv6 address pass the guard.\<close>

lemma mapped_loopback_not_blocked:
  "fst (is_ip_blocked [] None ''::ffff:127.0.0.1'' clear_endpoint_cache) = (False, Allowed)"
  "fst (is_ip_blocked [] None ''::'' clear_endpoint_cache) = (False, Allowed)"
  by code_simp+

text \<open>
  A host seeded into an empty cache hides every endpoint of the database from the next lookup:
  the non-empty cache is taken for the loaded one.
\<close>

lemma pre_allow_hides_registered:
  "let rows = [\<lparr>row_ip_address = Some ''127.0.0.9/32'', row_domain = None\<rparr>];
       seeded = pre_allow_endpoint_hosts [''pve.example.com''] clear_endpoint_cache
   in host_registered rows clear_endpoint_cache ''127.0.0.9'' \<and> \<not> host_registered rows seeded ''127.0.0.9''"
  by code_simp

text \<open>A pre-allowed host is accepted whatever the settings block.\<close>

lemma pre_allowed_registered:
  "h \<noteq> [] \<Longrightarrow> py_strip h \<noteq> [] \<Longrightarrow>
     py_strip h \<in> registered_ips (pre_allow_endpoint_hosts [h] c) \<or>
     py_lower (py_strip h) \<in> registered_domains (pre_allow_endpoint_hosts [h] c)"
  by (simp add: Let_def split: option.splits)

end
