(* ===== verification/Transient_Retry.thy ===== *)
theory Transient_Retry
  imports Py_Values
begin

text \<open>
  Failures and retries (\<^verbatim>\<open>exception.py\<close>, \<^verbatim>\<open>utils/retry.py\<close>): how an exception reads as text, which
  texts count as transient, the back-off delay and the bounded retry loop.

  An exception is a \<^verbatim>\<open>ProxboxException\<close> with its attributes or any other exception by its text. The
  retried coroutine is a function on a world; sleeping is the parameter \<open>slp\<close> (other tasks may run),
  and \<open>jit\<close> gives the fraction \<^verbatim>\<open>random.uniform\<close> draws at each attempt. The loop returns the
  delays it slept with its result.
\<close>

datatype py_exc =
    ProxboxException (exc_message: string) (exc_detail: pyval) (exc_python: "string option") (exc_status: int)
  | OtherError string

definition proxbox_exc :: "string \<Rightarrow> pyval \<Rightarrow> string option \<Rightarrow> int option \<Rightarrow> py_exc" where
  "proxbox_exc message detail python_exception status =
     ProxboxException message detail python_exception (case status of None \<Rightarrow> 400 | Some s \<Rightarrow> s)"

fun exc_str :: "py_exc \<Rightarrow> string" where
  "exc_str (ProxboxException message detail _ _) =
     (if truthy detail then message @ '' | '' @ py_str detail else message)"
| "exc_str (OtherError text) = text"

definition transient_indicators :: "string list" where
  "transient_indicators =
     [''connection refused'', ''cannot connect'', ''connect call failed'', ''server disconnected'', ''timeout'',
      ''temporarily unavailable'', ''name or service not known'', ''no route to host'', ''network is unreachable'',
      ''connection slots are reserved'', ''remaining connection slots'', ''too many connections'',
      ''database unavailable'', ''psycopg2.errors'', ''operationalerror'']"

definition overload_indicators :: "string list" where
  "overload_indicators =
     [''too many connections'', ''remaining connection slots'', ''connection slots are reserved'',
      ''database unavailable'', ''service unavailable'', ''service temporarily unavailable'', ''http 503'',
      ''status 503'', ''operationalerror'', ''psycopg2.errors'']"

definition is_transient_netbox_error :: "py_exc \<Rightarrow> bool" where
  "is_transient_netbox_error e =
     list_ex (\<lambda>i. py_contains i (py_lower (exc_str e))) transient_indicators"

fun exc_details :: "py_exc \<Rightarrow> string list" where
  "exc_details (ProxboxException message detail python_exception s) =
     [exc_str (ProxboxException message detail python_exception s)] @
     (if detail = PNone then [] else [py_str detail]) @
     (case python_exception of None \<Rightarrow> [] | Some p \<Rightarrow> [p])"
| "exc_details (OtherError text) = [text]"

definition is_netbox_overwhelmed_error :: "py_exc \<Rightarrow> bool" where
  "is_netbox_overwhelmed_error e =
     (let error_str = py_lower (py_join '' '' (exc_details e))
      in list_ex (\<lambda>i. py_contains i error_str) overload_indicators)"

definition is_connection_refused_error :: "py_exc \<Rightarrow> bool" where
  "is_connection_refused_error e =
     (let error_str = py_lower (exc_str e)
      in py_contains ''connection refused'' error_str \<or> py_contains ''connect call failed'' error_str)"

definition compute_delay :: "nat \<Rightarrow> seconds \<Rightarrow> bool \<Rightarrow> bool \<Rightarrow> real \<Rightarrow> seconds" where
  "compute_delay attempt base_delay is_connection_refused is_overwhelmed u =
     (let d0 = base_delay * 2 ^ attempt;
          d1 = (if is_connection_refused then max d0 10 else d0);
          d2 = (if is_overwhelmed then max d1 30 else d1)
      in d2 + u * (d2 * 0.5))"

definition attempt_text :: "nat \<Rightarrow> int \<Rightarrow> py_exc \<Rightarrow> string" where
  "attempt_text attempt max_retries e =
     ''Attempt '' @ nat_str (attempt + 1) @ ''/'' @ int_str (max_retries + 1) @ '' failed: '' @ exc_str e"

text \<open>The exception of the final attempt, with the texts of all failed attempts.\<close>

definition retry_failure :: "string \<Rightarrow> nat \<Rightarrow> string list \<Rightarrow> py_exc \<Rightarrow> py_exc" where
  "retry_failure operation attempt errors e =
     (let n = nat_str (attempt + 1);
          msg = operation @ '' failed after '' @ n @ '' attempt(s)'' @
                (if \<not> is_transient_netbox_error e then '' (non-transient error: '' @ exc_str e @ '')'' else []);
          errors' = errors @ [''Attempt '' @ n @ '' failed: '' @ exc_str e]
      in proxbox_exc msg (PStr (''Failed after '' @ n @ '' attempts. Errors: '' @ py_join ''; '' errors'))
           (Some (exc_str e)) None)"

function retry_loop ::
  "('w \<Rightarrow> (py_exc + 'a) \<times> 'w) \<Rightarrow> (seconds \<Rightarrow> 'w \<Rightarrow> 'w) \<Rightarrow> (nat \<Rightarrow> real) \<Rightarrow> string \<Rightarrow> int \<Rightarrow> seconds
   \<Rightarrow> nat \<Rightarrow> string list \<Rightarrow> 'w \<Rightarrow> (py_exc + 'a) \<times> 'w \<times> seconds list" where
  "retry_loop coro slp jit operation max_retries base_delay attempt errors w =
     (if int attempt > max_retries
      then (Inl (proxbox_exc (operation @ '' failed'')
                   (PStr ''Unexpected: no error was raised but no result returned'') None None), w, [])
      else case coro w of
             (Inr v, w') \<Rightarrow> (Inr v, w', [])
           | (Inl e, w') \<Rightarrow>
               if \<not> (int attempt < max_retries \<and> is_transient_netbox_error e)
               then (Inl (retry_failure operation attempt errors e), w', [])
               else let d = compute_delay attempt base_delay (is_connection_refused_error e)
                              (is_netbox_overwhelmed_error e) (jit attempt);
                        (r, w'', ds) =
                          retry_loop coro slp jit operation max_retries base_delay (attempt + 1)
                            (errors @ [attempt_text attempt max_retries e]) (slp d w')
                    in (r, w'', d # ds))"
  by pat_completeness auto
termination
  by (relation "measure (\<lambda>(coro, slp, jit, operation, max_retries, base_delay, attempt, errors, w).
       nat (max_retries + 1 - int attempt))") auto

definition retry_async ::
  "('w \<Rightarrow> (py_exc + 'a) \<times> 'w) \<Rightarrow> (seconds \<Rightarrow> 'w \<Rightarrow> 'w) \<Rightarrow> (nat \<Rightarrow> real) \<Rightarrow> string \<Rightarrow> int \<Rightarrow> seconds \<Rightarrow> 'w
   \<Rightarrow> (py_exc + 'a) \<times> 'w \<times> seconds list" where
  "retry_async coro slp jit operation max_retries base_delay w =
     retry_loop coro slp jit operation max_retries base_delay 0 [] w"

declare retry_loop.simps [simp del]


subsection \<open>Delays\<close>

lemma compute_delay_bounds:
  assumes "0 \<le> base" "0 \<le> u" "u \<le> 1"
  shows "base * 2 ^ n \<le> compute_delay n base refused overwhelmed u \<and>
    compute_delay n base refused overwhelmed u \<le> 1.5 * max (base * 2 ^ n) 30 \<and>
    (refused \<longrightarrow> 10 \<le> compute_delay n base refused overwhelmed u) \<and>
    (overwhelmed \<longrightarrow> 30 \<le> compute_delay n base refused overwhelmed u)"
proof -
  let ?d0 = "base * 2 ^ n"
  define d1 where "d1 = (if refused then max ?d0 10 else ?d0)"
  define d2 where "d2 = (if overwhelmed then max d1 30 else d1)"
  have d: "?d0 \<le> d2" "d2 \<le> max ?d0 30" "0 \<le> d2" "refused \<longrightarrow> 10 \<le> d2" "overwhelmed \<longrightarrow> 30 \<le> d2"
    using assms(1) by (auto simp: d1_def d2_def)
  have u: "0 \<le> u * (d2 * 0.5)" "u * (d2 * 0.5) \<le> d2 * 0.5"
    using assms(2,3) d(3) by (auto intro: mult_left_le_one_le)
  have "compute_delay n base refused overwhelmed u = d2 + u * (d2 * 0.5)"
    by (simp add: compute_delay_def Let_def d1_def d2_def)
  then show ?thesis using d u by auto
qed


subsection \<open>A scripted coroutine\<close>

text \<open>
  The coroutine is observed only through its results, so a script of results is the general case:
  each call takes the next one. What is left of the script says how many calls were made.
\<close>

fun scripted :: "(py_exc + 'a) list \<Rightarrow> (py_exc + 'a) \<times> (py_exc + 'a) list" where
  "scripted [] = (Inl (OtherError ''exhausted''), [])"
| "scripted (r # rs) = (r, rs)"

abbreviation retry_script where
  "retry_script jit operation max_retries base attempt errors rs \<equiv>
     retry_loop scripted (\<lambda>_ rs. rs) jit operation max_retries base attempt errors rs"

lemma retry_script_step:
  "int attempt < max_retries \<Longrightarrow> is_transient_netbox_error e \<Longrightarrow>
     fst (retry_script jit op max_retries base attempt errors (Inl e # rs)) =
     fst (retry_script jit op max_retries base (attempt + 1) (errors @ [attempt_text attempt max_retries e]) rs) \<and>
     fst (snd (retry_script jit op max_retries base attempt errors (Inl e # rs))) =
     fst (snd (retry_script jit op max_retries base (attempt + 1) (errors @ [attempt_text attempt max_retries e]) rs)) \<and>
     length (snd (snd (retry_script jit op max_retries base attempt errors (Inl e # rs)))) =
     Suc (length (snd (snd (retry_script jit op max_retries base (attempt + 1)
       (errors @ [attempt_text attempt max_retries e]) rs))))"
  by (subst (1 3 5) retry_loop.simps) (simp add: Let_def split: prod.splits)

fun attempt_texts :: "nat \<Rightarrow> int \<Rightarrow> py_exc list \<Rightarrow> string list" where
  "attempt_texts n max_retries [] = []"
| "attempt_texts n max_retries (e # es) = attempt_text n max_retries e # attempt_texts (n + 1) max_retries es"

lemma retry_script_prefix:
  assumes "list_all is_transient_netbox_error es" and "int (attempt + length es) \<le> max_retries"
  shows "fst (retry_script jit op max_retries base attempt errors (map Inl es @ rs)) =
      fst (retry_script jit op max_retries base (attempt + length es) (errors @ attempt_texts attempt max_retries es) rs) \<and>
    fst (snd (retry_script jit op max_retries base attempt errors (map Inl es @ rs))) =
      fst (snd (retry_script jit op max_retries base (attempt + length es) (errors @ attempt_texts attempt max_retries es) rs)) \<and>
    length (snd (snd (retry_script jit op max_retries base attempt errors (map Inl es @ rs)))) =
      length es + length (snd (snd (retry_script jit op max_retries base (attempt + length es)
        (errors @ attempt_texts attempt max_retries es) rs)))"
  using assms
proof (induct es arbitrary: attempt errors)
  case (Cons e es)
  then have lt: "int attempt < max_retries" and t: "is_transient_netbox_error e" by auto
  note s = retry_script_step [OF lt t, of jit op base errors "map Inl es @ rs"]
  from s Cons.hyps [of "attempt + 1" "errors @ [attempt_text attempt max_retries e]"] Cons.prems
  show ?case by simp
qed simp

text \<open>
  \<^bold>\<open>C12.\<close> The retry loop returns: after \<open>k\<close> transient failures, \<open>k\<close> at most \<open>max_retries\<close>, a success is
  returned as it is; a failure that is not transient, or the one of attempt \<open>max_retries + 1\<close>, ends the
  loop at once with an exception that carries its text. In both cases exactly \<open>k + 1\<close> calls are made
  and \<open>k\<close> delays slept.
\<close>

theorem retry_outcome:
  assumes "list_all is_transient_netbox_error es" "int (length es) \<le> max_retries"
    and "case r of Inr v \<Rightarrow> True | Inl e \<Rightarrow> \<not> is_transient_netbox_error e \<or> int (length es) = max_retries"
  shows "case retry_async scripted (\<lambda>_ rs. rs) jit op max_retries base (map Inl es @ r # rs) of
      (res, left, delays) \<Rightarrow>
        left = rs \<and> length delays = length es \<and>
        res = (case r of Inr v \<Rightarrow> Inr v
               | Inl e \<Rightarrow> Inl (retry_failure op (length es) (attempt_texts 0 max_retries es) e)) \<and>
        (\<forall>e. r = Inl e \<longrightarrow> (\<exists>x. res = Inl x \<and> exc_python x = Some (exc_str e)))"
proof -
  note p = retry_script_prefix [OF assms(1), of 0 max_retries jit op base "[]" "r # rs"]
  have "retry_script jit op max_retries base (length es) (attempt_texts 0 max_retries es) (r # rs) =
      (case r of Inr v \<Rightarrow> Inr v
       | Inl e \<Rightarrow> Inl (retry_failure op (length es) (attempt_texts 0 max_retries es) e), rs, [])"
    using assms(2,3) by (subst retry_loop.simps) (auto split: sum.splits)
  with p assms(2) show ?thesis
    by (auto simp: retry_async_def retry_failure_def proxbox_exc_def Let_def split: prod.splits sum.splits)
qed

theorem retry_outcome_witness:
  "retry_async scripted (\<lambda>_ rs. rs) (\<lambda>_. 0) ''sync'' 5 2
     [Inl (OtherError ''Connection refused''), Inr (7::nat), Inr 8] = (Inr 7, [Inr 8], [10]) \<and>
   fst (snd (retry_async scripted (\<lambda>_ rs. rs) (\<lambda>_. 0) ''sync'' 5 2
     [Inl (OtherError ''Bad request''), Inr (7::nat)])) = [Inr 7]"
proof -
  have t: "is_transient_netbox_error (OtherError ''Connection refused'')"
    "\<not> is_transient_netbox_error (OtherError ''Bad request'')" by code_simp+
  have "retry_async scripted (\<lambda>_ rs. rs) (\<lambda>_. 0) ''sync'' 5 2
     [Inl (OtherError ''Connection refused''), Inr (7::nat), Inr 8] = (Inr 7, [Inr 8], [10])" by code_simp
  then show ?thesis
    using retry_outcome [where es = "[OtherError ''Connection refused'']" and max_retries = 5 and r = "Inr (7::nat)"
        and jit = "\<lambda>_. 0" and op = "''sync''" and base = 2 and rs = "[Inr 8]"]
      retry_outcome [where es = "[]" and max_retries = 5 and r = "Inl (OtherError ''Bad request'')"
        and jit = "\<lambda>_. 0" and op = "''sync''" and base = 2 and rs = "[Inr (7::nat)]"] t
    by (auto split: prod.splits)
qed

end
