(* ===== verification/Get_Cache.thy ===== *)
theory Get_Cache
  imports Py_Values Expiring_Cache
begin

text \<open>
  The in-memory cache of NetBox GET responses (\<^verbatim>\<open>netbox_rest.py\<close>, from \<^verbatim>\<open>_netbox_get_cache\<close> to
  \<^verbatim>\<open>_invalidate_get_cache_for_record\<close>): keys, time to live, eviction by number of entries and by
  bytes, invalidation after writes and the counters. The module globals are the record
  \<open>get_cache\<close>; \<open>cache_config\<close> holds the three settings a call resolves; the identity of the client
  object (\<^verbatim>\<open>id(api)\<close>) and the clock are arguments.
\<close>

type_synonym get_key = "int \<times> string \<times> string"
type_synonym get_entry = "seconds \<times> nat \<times> pyobj list"

record get_cache =
  entries :: "(get_key, get_entry) pydict"
  hits :: nat
  misses :: nat
  invalidations :: nat
  evictions_ttl :: nat
  evictions_size :: nat
  evictions_bytes :: nat

record cache_config =
  cache_ttl :: seconds
  cache_max_entries :: nat
  cache_max_bytes :: nat


subsection \<open>Paths and keys\<close>

definition normalize_path :: "string \<Rightarrow> string" where
  "normalize_path path =
     (let p0 = py_strip path;
          p1 = (if py_startswith ''/'' p0 then p0 else ''/'' @ p0)
      in if py_endswith ''/'' p1 then p1 else p1 @ ''/'')"

definition detail_path :: "string \<Rightarrow> pyval \<Rightarrow> string" where
  "detail_path list_path record_id = normalize_path list_path @ py_str record_id @ ''/''"

definition serialize_query :: "pyobj option \<Rightarrow> string" where
  "serialize_query query =
     (case query of
        None \<Rightarrow> []
      | Some q \<Rightarrow> if q = [] then [] else json_dumps True '','' '':'' (PDict q))"

definition cache_key_of :: "int \<Rightarrow> string \<Rightarrow> pyobj option \<Rightarrow> get_key" where
  "cache_key_of api path query = (api, normalize_path path, serialize_query query)"

definition calculate_cache_entry_size :: "pyobj list \<Rightarrow> nat" where
  "calculate_cache_entry_size records = length (json_dumps False '', '' '': '' (PList (map PDict records)))"

definition path_segments :: "string \<Rightarrow> string list" where
  "path_segments path = py_split (CHR ''/'') (py_strip_char (CHR ''/'') path)"

definition is_detail_path :: "string \<Rightarrow> bool" where
  "is_detail_path path = py_isdigit (last (path_segments path))"

definition extract_list_path :: "string \<Rightarrow> string" where
  "extract_list_path path =
     (let normalized = normalize_path path;
          segments = path_segments normalized
      in if py_isdigit (last segments) then ''/'' @ py_join ''/'' (butlast segments) @ ''/'' else normalized)"


subsection \<open>Eviction\<close>

definition total_bytes :: "(get_key, get_entry) pydict \<Rightarrow> nat" where
  "total_bytes d = sum_list (map (\<lambda>(_, _, sz, _). sz) d)"

definition expired :: "seconds \<Rightarrow> seconds \<Rightarrow> get_entry \<Rightarrow> bool" where
  "expired ttl now e = (now - fst e \<ge> ttl)"

definition drop_expired :: "seconds \<Rightarrow> seconds \<Rightarrow> (get_key, get_entry) pydict \<Rightarrow> (get_key, get_entry) pydict" where
  "drop_expired ttl now d = dict_filter (\<lambda>_ e. \<not> expired ttl now e) d"

text \<open>The eviction loop of \<^verbatim>\<open>_prune_get_cache\<close> over the entries, oldest first.\<close>

fun prune_loop ::
  "bool \<Rightarrow> nat \<Rightarrow> nat \<Rightarrow> (get_key \<times> get_entry) list \<Rightarrow> nat \<Rightarrow> nat \<Rightarrow> get_cache \<Rightarrow> nat \<times> get_cache" where
  "prune_loop counting n_evict b_evict [] ev_n ev_b s = (ev_b, s)"
| "prune_loop counting n_evict b_evict ((key, _, sz, _) # rest) ev_n ev_b s =
     (if n_evict > 0 \<and> ev_n < n_evict
      then prune_loop counting n_evict b_evict rest (ev_n + 1) ev_b
             (s\<lparr>entries := dict_pop key (entries s),
                evictions_size := evictions_size s + (if counting then 1 else 0)\<rparr>)
      else if b_evict > 0 \<and> ev_b < b_evict
      then prune_loop counting n_evict b_evict rest ev_n (ev_b + sz)
             (s\<lparr>entries := dict_pop key (entries s),
                evictions_size := evictions_size s + (if counting then 1 else 0),
                evictions_bytes := evictions_bytes s + (if counting then sz else 0)\<rparr>)
      else (ev_b, s))"

definition prune_get_cache :: "cache_config \<Rightarrow> seconds \<Rightarrow> bool \<Rightarrow> get_cache \<Rightarrow> get_cache" where
  "prune_get_cache cfg now counting s =
     (if cache_ttl cfg \<le> 0 then s\<lparr>entries := []\<rparr>
      else
        let s1 = s\<lparr>entries := drop_expired (cache_ttl cfg) now (entries s)\<rparr>;
            n_evict = length (entries s1) - cache_max_entries cfg;
            b_evict = total_bytes (entries s1) - cache_max_bytes cfg
        in if n_evict > 0 \<or> b_evict > 0
           then case prune_loop counting n_evict b_evict (sort_key (\<lambda>(_, e). fst e) (entries s1)) 0 0 s1 of
                  (ev_b, s2) \<Rightarrow>
                    if counting \<and> b_evict > ev_b then s2\<lparr>evictions_bytes := evictions_bytes s2 + ev_b\<rparr> else s2
           else s1)"

text \<open>\<^verbatim>\<open>min(items, key=cached_at)\<close>: the first of the oldest entries.\<close>

definition oldest_entry :: "(get_key \<times> get_entry) list \<Rightarrow> get_key \<times> get_entry" where
  "oldest_entry d = foldl (\<lambda>m x. if fst (snd x) < fst (snd m) then x else m) (hd d) (tl d)"

text \<open>The loop of \<^verbatim>\<open>_write_get_cache\<close> that makes room for an entry of the given sz.\<close>

lemma foldl_choice: "(\<And>a b. f a b = a \<or> f a b = b) \<Longrightarrow> foldl f m xs \<in> insert m (set xs)"
proof (induct xs arbitrary: m)
  case (Cons x xs)
  from Cons.hyps [OF Cons.prems, of "f m x"] Cons.prems [of m x] show ?case by auto
qed simp

lemma oldest_entry_in: "d \<noteq> [] \<Longrightarrow> oldest_entry d \<in> set d"
  using foldl_choice [of "\<lambda>m x. if fst (snd x) < fst (snd m) then x else m" "hd d" "tl d"]
  by (cases d) (auto simp: oldest_entry_def)

lemma length_dict_pop_less: "(k, v) \<in> set d \<Longrightarrow> length (dict_pop k d) < length d"
  by (induct d) (auto simp: AList.delete_eq less_Suc_eq_le intro: length_filter_le)

function make_room :: "nat \<Rightarrow> nat \<Rightarrow> nat \<Rightarrow> int \<Rightarrow> get_cache \<Rightarrow> get_cache" where
  "make_room max_entries max_bytes entry_size current_bytes s =
     (if length (entries s) \<ge> max_entries \<or> current_bytes + int entry_size > int max_bytes
      then if entries s = [] then s
           else let (key, _, sz, _) = oldest_entry (entries s)
                in make_room max_entries max_bytes entry_size (current_bytes - int sz)
                     (s\<lparr>entries := dict_pop key (entries s),
                        evictions_size := evictions_size s + 1,
                        evictions_bytes := evictions_bytes s + sz\<rparr>)
      else s)"
  by pat_completeness auto
termination
proof (relation "measure (\<lambda>(_, _, _, _, s). length (entries s))", simp, goal_cases)
  case (1 max_entries max_bytes entry_size current_bytes s x key y z t sz u)
  then have "(key, z, sz, u) \<in> set (entries s)" using oldest_entry_in [of "entries s"] by auto
  then show ?case by (auto dest: length_dict_pop_less)
qed

declare make_room.simps [simp del]


subsection \<open>Reading and writing\<close>

definition read_key :: "cache_config \<Rightarrow> seconds \<Rightarrow> get_key \<Rightarrow> get_cache \<Rightarrow> pyobj list option \<times> get_cache" where
  "read_key cfg now key s0 =
     (let s = prune_get_cache cfg now False s0 in
      if cache_ttl cfg \<le> 0 then (None, s)
      else case map_of (entries s) key of
             None \<Rightarrow> (None, s\<lparr>misses := misses s + 1\<rparr>)
           | Some e \<Rightarrow>
               if expired (cache_ttl cfg) now e
               then (None, s\<lparr>entries := dict_pop key (entries s), misses := misses s + 1\<rparr>)
               else (Some (snd (snd e)), s\<lparr>hits := hits s + 1\<rparr>))"

definition read_get_cache ::
  "cache_config \<Rightarrow> seconds \<Rightarrow> int \<Rightarrow> string \<Rightarrow> pyobj option \<Rightarrow> get_cache \<Rightarrow> pyobj list option \<times> get_cache" where
  "read_get_cache cfg now api path query s = read_key cfg now (cache_key_of api path query) s"

definition write_key :: "cache_config \<Rightarrow> seconds \<Rightarrow> get_key \<Rightarrow> pyobj list \<Rightarrow> get_cache \<Rightarrow> get_cache" where
  "write_key cfg now key records s =
     (if cache_ttl cfg \<le> 0 then s
      else let entry_size = calculate_cache_entry_size records;
               fresh = drop_expired (cache_ttl cfg) now (entries s);
               s1 = s\<lparr>entries := fresh,
                      evictions_ttl := evictions_ttl s + (length (entries s) - length fresh)\<rparr>;
               s2 = make_room (cache_max_entries cfg) (cache_max_bytes cfg) entry_size
                      (int (total_bytes (entries s1))) s1
           in s2\<lparr>entries := dict_set key (now, entry_size, records) (entries s2)\<rparr>)"

definition write_get_cache ::
  "cache_config \<Rightarrow> seconds \<Rightarrow> int \<Rightarrow> string \<Rightarrow> pyobj option \<Rightarrow> pyobj list \<Rightarrow> get_cache \<Rightarrow> get_cache" where
  "write_get_cache cfg now api path query records s = write_key cfg now (cache_key_of api path query) records s"

definition empty_cache :: get_cache where
  "empty_cache =
     \<lparr>entries = [], hits = 0, misses = 0, invalidations = 0, evictions_ttl = 0, evictions_size = 0,
      evictions_bytes = 0\<rparr>"

definition clear_rest_get_cache :: "get_cache \<Rightarrow> get_cache" where
  "clear_rest_get_cache s = empty_cache"


subsection \<open>Invalidation\<close>

text \<open>Whether \<^verbatim>\<open>_invalidate_get_cache_for_path(api, path)\<close> removes a key.\<close>

definition path_invalidates :: "int \<Rightarrow> string \<Rightarrow> get_key \<Rightarrow> bool" where
  "path_invalidates api path key =
     (let normalized = normalize_path path;
          is_detail = is_detail_path normalized;
          list_path = (if is_detail then extract_list_path normalized else normalized);
          cached_path = fst (snd key)
      in if fst key \<noteq> api then False
         else if cached_path = normalized then True
         else if is_detail \<and> cached_path = list_path then True
         else if \<not> is_detail \<and> py_startswith normalized cached_path
         then let remainder = py_strip_char (CHR ''/'') (drop (length normalized) cached_path)
              in remainder \<noteq> [] \<and> CHR ''/'' \<notin> set remainder \<and> py_isdigit remainder
         else False)"

definition invalidate_get_cache_for_path :: "int \<Rightarrow> string \<Rightarrow> get_cache \<Rightarrow> get_cache" where
  "invalidate_get_cache_for_path api path s =
     (let to_remove = filter (path_invalidates api path) (map fst (entries s))
      in s\<lparr>entries := fold dict_pop to_remove (entries s),
           invalidations := invalidations s + length to_remove\<rparr>)"

text \<open>
  The path of \<^verbatim>\<open>urllib.parse.urlsplit(url)\<close>, for URLs without brackets in the host: scheme, network
  location, fragment and query are cut off in this order.
\<close>

definition url_clean :: "string \<Rightarrow> string" where
  "url_clean url =
     filter (\<lambda>ch. ch \<notin> {CHR 0x09, CHR 0x0A, CHR 0x0D}) (dropWhile (\<lambda>ch. (of_char ch :: nat) \<le> 32) url)"

definition ascii_alpha :: "char \<Rightarrow> bool" where
  "ascii_alpha ch = (let n = (of_char ch :: nat) in (65 \<le> n \<and> n \<le> 90) \<or> (97 \<le> n \<and> n \<le> 122))"

definition cut_scheme :: "string \<Rightarrow> string" where
  "cut_scheme url =
     (let scheme = takeWhile (\<lambda>ch. ch \<noteq> CHR '':'') url in
      if length scheme < length url \<and> scheme \<noteq> [] \<and> ascii_alpha (hd scheme) \<and>
         list_all (\<lambda>ch. ascii_alpha ch \<or> py_digit ch \<or> ch \<in> {CHR ''+'', CHR ''-'', CHR ''.''}) scheme
      then drop (length scheme + 1) url else url)"

definition urlsplit_path :: "string \<Rightarrow> string" where
  "urlsplit_path url =
     (let u1 = cut_scheme (url_clean url);
          u2 = (if py_startswith ''//'' u1
                then dropWhile (\<lambda>ch. ch \<notin> {CHR ''/'', CHR ''?'', CHR ''#''}) (drop 2 u1) else u1);
          u3 = takeWhile (\<lambda>ch. ch \<noteq> CHR ''#'') u2
      in takeWhile (\<lambda>ch. ch \<noteq> CHR ''?'') u3)"

definition invalidate_get_cache_for_record :: "int \<Rightarrow> string \<Rightarrow> pyobj \<Rightarrow> get_cache \<Rightarrow> get_cache" where
  "invalidate_get_cache_for_record api list_path record s =
     (let s1 = invalidate_get_cache_for_path api list_path s;
          s2 = (case obj_get record ''url'' of
                  PStr url \<Rightarrow>
                    if urlsplit_path url \<noteq> [] then invalidate_get_cache_for_path api (urlsplit_path url) s1 else s1
                | _ \<Rightarrow> s1);
          rid = obj_get record ''id''
      in if rid \<noteq> PNone then invalidate_get_cache_for_path api (detail_path list_path rid) s2 else s2)"

text \<open>The two figures \<^verbatim>\<open>get_cache_metrics\<close> computes from the entries.\<close>

definition oldest_age :: "seconds \<Rightarrow> get_cache \<Rightarrow> seconds" where
  "oldest_age now s =
     (if entries s = [] then 0 else Min (set (map (\<lambda>(_, e). now - fst e) (entries s))))"

definition current_bytes :: "get_cache \<Rightarrow> nat" where
  "current_bytes s = (if entries s = [] then 0 else total_bytes (entries s))"


subsection \<open>Eviction only removes\<close>

definition sub_dict :: "('k, 'v) pydict \<Rightarrow> ('k, 'v) pydict \<Rightarrow> bool" where
  "sub_dict d d' \<longleftrightarrow> (\<forall>k v. map_of d k = Some v \<longrightarrow> map_of d' k = Some v)"

lemma sub_dictD: "sub_dict d d' \<Longrightarrow> map_of d k = Some v \<Longrightarrow> map_of d' k = Some v"
  by (simp add: sub_dict_def)

lemma sub_dict_refl [simp]: "sub_dict d d"
  by (simp add: sub_dict_def)

lemma sub_dict_trans: "sub_dict a b \<Longrightarrow> sub_dict b c \<Longrightarrow> sub_dict a c"
  by (simp add: sub_dict_def)

lemma sub_dict_pop: "sub_dict (dict_pop k d) d"
  by (auto simp: sub_dict_def split: if_splits)

lemma drop_expired_wf [simp]: "dict_wf d \<Longrightarrow> dict_wf (drop_expired ttl now d)"
  by (simp add: drop_expired_def)

lemma map_of_drop_expired:
  "dict_wf d \<Longrightarrow> map_of (drop_expired ttl now d) k =
     (case map_of d k of None \<Rightarrow> None | Some e \<Rightarrow> if expired ttl now e then None else Some e)"
  by (auto simp: drop_expired_def map_of_dict_filter split: option.splits)

lemma sub_dict_drop_expired: "dict_wf d \<Longrightarrow> sub_dict (drop_expired ttl now d) d"
  by (auto simp: sub_dict_def map_of_drop_expired split: option.splits if_splits)

lemma prune_loop_sub:
  "dict_wf (entries s) \<Longrightarrow> prune_loop c n b xs i j s = (ev, s') \<Longrightarrow>
     dict_wf (entries s') \<and> sub_dict (entries s') (entries s)"
proof (induct c n b xs i j s rule: prune_loop.induct)
  case (2 c n b key x sz y rest i j s)
  then show ?case by (fastforce split: if_splits intro: sub_dict_trans [OF _ sub_dict_pop])
qed simp

lemma prune_sub:
  assumes "dict_wf (entries s)"
  shows "dict_wf (entries (prune_get_cache cfg now c s)) \<and> sub_dict (entries (prune_get_cache cfg now c s)) (entries s)"
proof -
  let ?s1 = "s\<lparr>entries := drop_expired (cache_ttl cfg) now (entries s)\<rparr>"
  have wf1: "dict_wf (entries ?s1)" and sub1: "sub_dict (entries ?s1) (entries s)"
    using assms by (auto intro: sub_dict_drop_expired)
  show ?thesis
    using wf1 sub1 prune_loop_sub [OF wf1]
    by (auto simp: prune_get_cache_def Let_def sub_dict_def split: prod.splits)
qed

lemma make_room_sub:
  "dict_wf (entries s) \<Longrightarrow>
     dict_wf (entries (make_room n b z c s)) \<and> sub_dict (entries (make_room n b z c s)) (entries s)"
proof (induct n b z c s rule: make_room.induct)
  case (1 n b z c s)
  show ?case
  proof (cases "(length (entries s) \<ge> n \<or> c + int z > int b) \<and> entries s \<noteq> []")
    case False
    then have "make_room n b z c s = s" by (subst make_room.simps) auto
    then show ?thesis using "1.prems" by simp
  next
    case True
    obtain key x sz y where o: "oldest_entry (entries s) = (key, x, sz, y)" by (metis prod.exhaust)
    let ?s' = "s\<lparr>entries := dict_pop key (entries s), evictions_size := evictions_size s + 1,
      evictions_bytes := evictions_bytes s + sz\<rparr>"
    have "make_room n b z c s = make_room n b z (c - int sz) ?s'"
      using True o by (subst make_room.simps) simp
    moreover have "dict_wf (entries (make_room n b z (c - int sz) ?s')) \<and>
        sub_dict (entries (make_room n b z (c - int sz) ?s')) (entries ?s')"
      using "1.hyps" [of "(key, x, sz, y)" key "(x, sz, y)" x "(sz, y)" sz y] True "1.prems" by (simp add: o)
    ultimately show ?thesis using sub_dict_pop [of key "entries s"] by (auto intro: sub_dict_trans)
  qed
qed

lemma int_total_bytes: "int (total_bytes d) = sum_list (map (\<lambda>(_, _, sz, _). int sz) d)"
  by (induct d) (auto simp: total_bytes_def)

lemma total_bytes_pop:
  assumes "dict_wf d" "(k, t, sz, v) \<in> set d"
  shows "int (total_bytes (dict_pop k d)) = int (total_bytes d) - int sz"
proof -
  from assms have "map_of d k = Some (t, sz, v)" by (simp add: map_of_mem_wf)
  from sum_list_dict_pop [OF assms(1) this, of "\<lambda>(_, _, sz, _). int sz"] show ?thesis
    by (simp add: int_total_bytes)
qed

lemma make_room_enough:
  assumes "dict_wf (entries s)" "c = int (total_bytes (entries s))"
  shows "entries (make_room n b z c s) = [] \<or>
    (length (entries (make_room n b z c s)) < n \<and> total_bytes (entries (make_room n b z c s)) + z \<le> b)"
  using assms
proof (induct n b z c s rule: make_room.induct)
  case (1 n b z c s)
  show ?case
  proof (cases "(length (entries s) \<ge> n \<or> c + int z > int b) \<and> entries s \<noteq> []")
    case False
    then have "make_room n b z c s = s" by (subst make_room.simps) auto
    then show ?thesis using False "1.prems" by auto
  next
    case True
    obtain key x sz y where o: "oldest_entry (entries s) = (key, x, sz, y)" by (metis prod.exhaust)
    then have "(key, x, sz, y) \<in> set (entries s)" using True oldest_entry_in [of "entries s"] by simp
    from total_bytes_pop [OF "1.prems"(1) this] "1.prems"(2)
    have c: "c - int sz = int (total_bytes (dict_pop key (entries s)))" by linarith
    let ?s' = "s\<lparr>entries := dict_pop key (entries s), evictions_size := evictions_size s + 1,
      evictions_bytes := evictions_bytes s + sz\<rparr>"
    have "make_room n b z c s = make_room n b z (c - int sz) ?s'"
      using True o by (subst make_room.simps) simp
    with "1.hyps" [of "(key, x, sz, y)" key "(x, sz, y)" x "(sz, y)" sz y] True "1.prems" c show ?thesis by (simp add: o)
  qed
qed

lemma total_bytes_set: "total_bytes (dict_set k (t, z, v) d) \<le> total_bytes d + z"
  by (induct d) (auto simp: total_bytes_def)

lemma length_dict_set: "length (dict_set k v d) \<le> Suc (length d)"
  by (induct d) auto

text \<open>
  A write keeps the cache within its limits: at most the configured number of entries, and at
  most the configured bytes, or exactly the one new entry when that entry alone is larger.
\<close>

theorem write_within_limits:
  assumes "dict_wf (entries s)" "cache_ttl cfg > 0" "cache_max_entries cfg \<ge> 1"
  shows "let s' = write_get_cache cfg now api path query records s in
    length (entries s') \<le> cache_max_entries cfg \<and>
    (total_bytes (entries s') \<le> cache_max_bytes cfg \<or>
     entries s' = [(cache_key_of api path query, now, calculate_cache_entry_size records, records)]) \<and>
    map_of (entries s') (cache_key_of api path query) = Some (now, calculate_cache_entry_size records, records)"
proof -
  define z where "z = calculate_cache_entry_size records"
  define key where "key = cache_key_of api path query"
  let ?fresh = "drop_expired (cache_ttl cfg) now (entries s)"
  let ?s1 = "s\<lparr>entries := ?fresh, evictions_ttl := evictions_ttl s + (length (entries s) - length ?fresh)\<rparr>"
  define d where "d = entries (make_room (cache_max_entries cfg) (cache_max_bytes cfg) z (int (total_bytes ?fresh)) ?s1)"
  have e: "entries (write_get_cache cfg now api path query records s) = dict_set key (now, z, records) d"
    using assms(2) by (simp add: write_get_cache_def write_key_def Let_def d_def z_def key_def)
  have "d = [] \<or> length d < cache_max_entries cfg \<and> total_bytes d + z \<le> cache_max_bytes cfg"
    using make_room_enough [of ?s1 "int (total_bytes ?fresh)"] assms(1) by (simp add: d_def)
  with total_bytes_set [of key now z records d] length_dict_set [of key "(now, z, records)" d] assms(3) show ?thesis
    unfolding Let_def e by (auto simp: z_def [symmetric] key_def [symmetric])
qed

definition demo_config :: cache_config where
  "demo_config = \<lparr>cache_ttl = 60, cache_max_entries = 2, cache_max_bytes = 4096\<rparr>"

definition demo_filled :: get_cache where
  "demo_filled =
     write_get_cache demo_config 2 7 ''/api/dcim/devices/5'' None [[(''id'', PInt 5)]]
       (write_get_cache demo_config 1 7 ''api/dcim/devices'' None [[(''id'', PInt 5)]] empty_cache)"

theorem write_within_limits_witness:
  "length (entries demo_filled) = 2 \<and>
   length (entries (write_get_cache demo_config 3 7 ''api/dcim/sites'' None [] demo_filled)) \<le> 2"
proof -
  have "dict_wf (entries demo_filled)" by code_simp
  moreover have "length (entries demo_filled) = 2" by code_simp
  ultimately show ?thesis
    using write_within_limits [of demo_filled demo_config 3 7 "''api/dcim/sites''" None "[]"]
    by (simp add: demo_config_def Let_def)
qed


subsection \<open>The cache as an expiring cache\<close>

definition cached_content :: "get_cache \<Rightarrow> get_key \<Rightarrow> (seconds \<times> pyobj list) option" where
  "cached_content s key = map_option (\<lambda>(t, _, records). (t, records)) (map_of (entries s) key)"

text \<open>Dropping: \<open>None\<close> clears the cache, \<open>Some (api, path)\<close> invalidates a path.\<close>

definition cache_drop :: "(int \<times> string) option \<Rightarrow> get_cache \<Rightarrow> get_cache" where
  "cache_drop d s =
     (case d of None \<Rightarrow> clear_rest_get_cache s | Some (api, path) \<Rightarrow> invalidate_get_cache_for_path api path s)"

lemma map_of_fold_pop: "map_of (fold dict_pop ks d) k = (if k \<in> set ks then None else map_of d k)"
  by (induct ks arbitrary: d) auto

lemma dict_wf_fold_pop: "dict_wf d \<Longrightarrow> dict_wf (fold dict_pop ks d)"
  by (induct ks arbitrary: d) auto

lemma invalidate_content:
  "map_of (entries (invalidate_get_cache_for_path api path s)) k =
     (if path_invalidates api path k then None else map_of (entries s) k)"
  by (auto simp: invalidate_get_cache_for_path_def map_of_fold_pop image_iff map_of_eq_None_iff)

lemma invalidate_wf: "dict_wf (entries s) \<Longrightarrow> dict_wf (entries (invalidate_get_cache_for_path api path s))"
  by (simp add: invalidate_get_cache_for_path_def dict_wf_fold_pop)

lemma cached_content_mono:
  "sub_dict (entries s') (entries s) \<Longrightarrow> cached_content s' k = Some c \<Longrightarrow> cached_content s k = Some c"
  by (auto simp: cached_content_def dest: sub_dictD)

lemma read_key_state:
  assumes "dict_wf (entries s)"
  shows "dict_wf (entries (snd (read_key cfg now key s))) \<and> sub_dict (entries (snd (read_key cfg now key s))) (entries s)"
  using prune_sub [OF assms, of cfg now False] sub_dict_pop [of key "entries (prune_get_cache cfg now False s)"]
  by (auto simp: read_key_def Let_def intro: sub_dict_trans split: option.splits)

lemma read_key_fresh:
  assumes "dict_wf (entries s)" "fst (read_key cfg now key s) = Some v"
  shows "\<exists>b. cached_content s key = Some (b, v) \<and> now < b + cache_ttl cfg"
  using assms prune_sub [OF assms(1), of cfg now False]
  by (auto simp: read_key_def Let_def cached_content_def expired_def dest: sub_dictD split: option.splits if_splits)

lemma write_key_state:
  assumes "dict_wf (entries s)"
  shows "dict_wf (entries (write_key cfg now key records s)) \<and>
    (map_of (entries (write_key cfg now key records s)) k = Some e \<longrightarrow>
       (k = key \<and> e = (now, calculate_cache_entry_size records, records)) \<or> map_of (entries s) k = Some e)"
proof (cases "cache_ttl cfg \<le> 0")
  case True
  with assms show ?thesis by (simp add: write_key_def)
next
  case False
  let ?fresh = "drop_expired (cache_ttl cfg) now (entries s)"
  let ?s1 = "s\<lparr>entries := ?fresh, evictions_ttl := evictions_ttl s + (length (entries s) - length ?fresh)\<rparr>"
  define m where "m = entries (make_room (cache_max_entries cfg) (cache_max_bytes cfg)
    (calculate_cache_entry_size records) (int (total_bytes ?fresh)) ?s1)"
  have "dict_wf (entries ?s1)" using assms by simp
  from make_room_sub [OF this] have "dict_wf m" "sub_dict m ?fresh" unfolding m_def by auto
  then have "dict_wf m \<and> sub_dict m (entries s)"
    using sub_dict_drop_expired [OF assms, of "cache_ttl cfg" now] by (auto intro: sub_dict_trans)
  moreover have "entries (write_key cfg now key records s) =
      dict_set key (now, calculate_cache_entry_size records, records) m"
    using False by (simp add: write_key_def Let_def m_def)
  ultimately show ?thesis by (auto simp: sub_dictD)
qed

lemma write_key_content:
  assumes "dict_wf (entries s)" "cached_content (write_key cfg t k v s) k' = Some c"
  shows "k' = k \<and> c = (t, v) \<or> cached_content s k' = Some c"
proof -
  from assms(2) obtain e where e: "map_of (entries (write_key cfg t k v s)) k' = Some e" "c = (fst e, snd (snd e))"
    by (auto simp: cached_content_def)
  with write_key_state [OF assms(1), of cfg t k v k' e] show ?thesis
    by (cases e) (auto simp: cached_content_def)
qed

interpretation getc: expiring_cache "\<lambda>s. dict_wf (entries s)" cached_content
  "read_key cfg" "write_key cfg" cache_drop "cache_ttl cfg" for cfg
proof unfold_locales
  fix s :: get_cache and t k v k' c d
  assume wf: "dict_wf (entries s)"
  show "dict_wf (entries (snd (read_key cfg t k s)))" using read_key_state [OF wf] by blast
  show "dict_wf (entries (write_key cfg t k v s))" using write_key_state [OF wf] by blast
  show "dict_wf (entries (cache_drop d s))"
    using wf by (auto simp: cache_drop_def clear_rest_get_cache_def empty_cache_def invalidate_wf split: option.splits)
  show "fst (read_key cfg t k s) = Some v \<Longrightarrow> \<exists>b. cached_content s k = Some (b, v) \<and> t < b + cache_ttl cfg"
    using read_key_fresh [OF wf] by blast
  show "cached_content (snd (read_key cfg t k s)) k' = Some c \<Longrightarrow> cached_content s k' = Some c"
    using read_key_state [OF wf] by (blast intro: cached_content_mono)
  show "cached_content (write_key cfg t k v s) k' = Some c \<Longrightarrow> k' = k \<and> c = (t, v) \<or> cached_content s k' = Some c"
    using write_key_content [OF wf] .
  show "cached_content (cache_drop d s) k' = Some c \<Longrightarrow> cached_content s k' = Some c"
    by (auto simp: cache_drop_def cached_content_def clear_rest_get_cache_def empty_cache_def invalidate_content
        split: option.splits if_splits)
qed

text \<open>
  \<^bold>\<open>C13.\<close> Whatever history of reads, writes, invalidations and clears the cache has seen, a read of a
  path and query returns records that were written for exactly that client, path and query less
  than the time to live before.
\<close>

theorem cached_read_was_written:
  assumes "fst (read_get_cache cfg now api path query
             (cache_exec (read_key cfg) (write_key cfg) cache_drop empty_cache ops)) = Some records"
  shows "\<exists>b. CWrite b (cache_key_of api path query) records \<in> set ops \<and> now < b + cache_ttl cfg"
  using getc.read_was_written [of empty_cache cfg now "cache_key_of api path query" ops records] assms
  by (simp add: read_get_cache_def empty_cache_def cached_content_def)

theorem cached_read_was_written_witness:
  "\<exists>b. CWrite b (cache_key_of 7 ''api/dcim/devices'' None) [[(''id'', PInt 5)]]
       \<in> set [CWrite 1 (cache_key_of 7 ''/api/dcim/devices/'' None) [[(''id'', PInt 5)]], CDrop (Some (7 :: int, ''api/dcim/sites''))]
     \<and> 60 < b + cache_ttl demo_config"
proof -
  let ?ops = "[CWrite 1 (cache_key_of 7 ''/api/dcim/devices/'' None) [[(''id'', PInt 5)]], CDrop (Some (7, ''api/dcim/sites''))]"
  have "fst (read_get_cache demo_config 60 7 ''api/dcim/devices'' None
      (cache_exec (read_key demo_config) (write_key demo_config) cache_drop empty_cache ?ops)) = Some [[(''id'', PInt 5)]]"
    by code_simp
  from cached_read_was_written [OF this] show ?thesis .
qed


subsection \<open>Nothing stale after a write\<close>

lemma normalize_ends:
  "normalize_path p \<noteq> [] \<and> hd (normalize_path p) = CHR ''/'' \<and> last (normalize_path p) = CHR ''/''"
  by (auto simp: normalize_path_def py_startswith_single py_endswith_single Let_def)

lemma normalize_id:
  assumes "p \<noteq> []" "hd p = CHR ''/''" "last p = CHR ''/''"
  shows "normalize_path p = p"
proof -
  have "\<not> py_space (CHR ''/'')" by code_simp
  then have "py_strip p = p" using assms by (intro py_strip_ends) auto
  then show ?thesis using assms by (simp add: normalize_path_def py_startswith_single py_endswith_single)
qed

lemma normalize_idem [simp]: "normalize_path (normalize_path p) = normalize_path p"
  using normalize_ends [of p] by (intro normalize_id) auto

lemma normalize_detail [simp]: "normalize_path (detail_path p rid) = detail_path p rid"
  using normalize_ends [of p] by (intro normalize_id) (auto simp: detail_path_def)

lemma path_invalidates_self: "path_invalidates api path (api, normalize_path path, q)"
  by (simp add: path_invalidates_def Let_def)

lemma path_invalidates_other_client: "api' \<noteq> api \<Longrightarrow> \<not> path_invalidates api path (api', p, q)"
  by (simp add: path_invalidates_def Let_def)

lemma read_of_absent:
  assumes "dict_wf (entries s)" "map_of (entries s) key = None"
  shows "fst (read_key cfg now key s) = None"
  using read_key_fresh [OF assms(1), of cfg now key] assms(2) by (cases "fst (read_key cfg now key s)") (auto simp: cached_content_def)

lemma record_invalidation:
  "\<exists>paths. invalidate_get_cache_for_record api list_path record s = fold (invalidate_get_cache_for_path api) paths s \<and>
     list_path \<in> set paths \<and> (obj_get record ''id'' \<noteq> PNone \<longrightarrow> detail_path list_path (obj_get record ''id'') \<in> set paths)"
proof -
  define urls where "urls = (case obj_get record ''url'' of PStr url \<Rightarrow> if urlsplit_path url \<noteq> [] then [urlsplit_path url] else [] | _ \<Rightarrow> [])"
  define ids where "ids = (if obj_get record ''id'' \<noteq> PNone then [detail_path list_path (obj_get record ''id'')] else [])"
  have "invalidate_get_cache_for_record api list_path record s =
      fold (invalidate_get_cache_for_path api) ([list_path] @ urls @ ids) s"
    by (auto simp: invalidate_get_cache_for_record_def urls_def ids_def Let_def split: pyval.splits)
  then show ?thesis by (intro exI [of _ "[list_path] @ urls @ ids"]) (auto simp: ids_def)
qed

lemma fold_invalidate_content:
  "map_of (entries (fold (invalidate_get_cache_for_path api) paths s)) k =
     (if list_ex (\<lambda>p. path_invalidates api p k) paths then None else map_of (entries s) k)"
  by (induct paths arbitrary: s) (auto simp: invalidate_content)

lemma fold_invalidate_wf:
  "dict_wf (entries s) \<Longrightarrow> dict_wf (entries (fold (invalidate_get_cache_for_path api) paths s))"
  by (induct paths arbitrary: s) (auto simp: invalidate_wf)

text \<open>
  \<^bold>\<open>C14.\<close> After a record of a collection is invalidated, no read of that client is answered from the
  cache for the collection, whatever the query, or for the record itself; entries of other client
  objects are as before.
\<close>

theorem no_stale_read_after_write:
  assumes "dict_wf (entries s)"
  shows "let s' = invalidate_get_cache_for_record api list_path record s in
    fst (read_get_cache cfg now api list_path query s') = None \<and>
    (obj_get record ''id'' \<noteq> PNone \<longrightarrow>
       fst (read_get_cache cfg now api (detail_path list_path (obj_get record ''id'')) query s') = None) \<and>
    (api' \<noteq> api \<longrightarrow> map_of (entries s') (api', p, q) = map_of (entries s) (api', p, q))"
proof -
  obtain paths where inv: "invalidate_get_cache_for_record api list_path record s = fold (invalidate_get_cache_for_path api) paths s"
    and lp: "list_path \<in> set paths"
    and dp: "obj_get record ''id'' \<noteq> PNone \<longrightarrow> detail_path list_path (obj_get record ''id'') \<in> set paths"
    using record_invalidation [of api list_path "record" s] by blast
  note wf = fold_invalidate_wf [OF assms, of api paths]
  have gone: "fst (read_get_cache cfg now api path query (fold (invalidate_get_cache_for_path api) paths s)) = None"
    if "path \<in> set paths" for path
    using that path_invalidates_self [of api path] unfolding read_get_cache_def cache_key_of_def
    by (intro read_of_absent wf) (auto simp: fold_invalidate_content list_ex_iff)
  show ?thesis unfolding Let_def inv
    using gone lp dp by (auto simp: fold_invalidate_content list_ex_iff path_invalidates_other_client)
qed

theorem no_stale_read_after_write_witness:
  "fst (read_get_cache demo_config 3 7 ''api/dcim/devices'' None demo_filled) = Some [[(''id'', PInt 5)]] \<and>
   fst (read_get_cache demo_config 3 7 ''api/dcim/devices'' None
     (invalidate_get_cache_for_record 7 ''/api/dcim/devices/'' [(''id'', PInt 5)] demo_filled)) = None"
proof -
  have k: "cache_key_of 7 ''/api/dcim/devices/'' None = cache_key_of 7 ''api/dcim/devices'' None" by code_simp
  have "dict_wf (entries demo_filled)" by code_simp
  from no_stale_read_after_write [OF this, of 7 "''/api/dcim/devices/''" "[(''id'', PInt 5)]" demo_config 3 None]
  have "fst (read_get_cache demo_config 3 7 ''/api/dcim/devices/'' None
     (invalidate_get_cache_for_record 7 ''/api/dcim/devices/'' [(''id'', PInt 5)] demo_filled)) = None"
    by (simp add: Let_def)
  moreover have "fst (read_get_cache demo_config 3 7 ''api/dcim/devices'' None demo_filled) = Some [[(''id'', PInt 5)]]"
    by code_simp
  ultimately show ?thesis by (simp add: read_get_cache_def k)
qed


subsection \<open>Observations\<close>

text \<open>The reported age of the oldest entry is the age of the newest.\<close>

lemma oldest_age_is_newest:
  "oldest_age 51 (write_key demo_config 50 (7, ''/b/'', []) [] (write_key demo_config 1 (7, ''/a/'', []) [] empty_cache)) = 1"
  by (simp add: oldest_age_def write_key_def demo_config_def empty_cache_def drop_expired_def dict_filter_def
      expired_def total_bytes_def calculate_cache_entry_size_def make_room.simps Let_def)

end
