(* ===== verification/Rest_Client.thy ===== *)
theory Rest_Client
  imports Transient_Retry Get_Cache
begin

text \<open>
  The NetBox REST client (\<^verbatim>\<open>netbox_rest.py\<close>): one request with its error handling, the retry loop
  around it, records and their single and bulk writes.

  What lies outside the repository is the environment record: the HTTP client of the NetBox SDK
  (\<open>request\<close>, a function on a world of its own), sleeping, the clock, the random jitter, and the
  resolved settings. A response is its status, its text and what \<^verbatim>\<open>response.json()\<close> gives (\<open>Inl\<close> the
  text of a decode error). An operation takes the world and the GET cache and returns a result or the
  exception raised, with both updated. The
  semaphore that bounds concurrent requests does not change what one operation does and is left
  out.
\<close>

record api_request =
  rq_method :: string
  rq_path :: string
  rq_query :: "pyobj option"
  rq_payload :: pyval

record api_response =
  rs_status :: int
  rs_text :: string
  rs_json :: "string + pyval"

record 'w netenv =
  request :: "api_request \<Rightarrow> 'w \<Rightarrow> (py_exc + api_response) \<times> 'w"
  sleep :: "seconds \<Rightarrow> 'w \<Rightarrow> 'w"
  clock :: "'w \<Rightarrow> seconds"
  jitter :: "'w \<Rightarrow> real"
  api_id :: int
  max_retries :: nat
  retry_delay :: seconds
  cache_cfg :: cache_config

record 'w rst =
  srv :: 'w
  gcache :: get_cache

type_synonym ('w, 'a) rest_op = "'w rst \<Rightarrow> (py_exc + 'a) \<times> 'w rst"

definition send :: "'w netenv \<Rightarrow> api_request \<Rightarrow> ('w, api_response) rest_op" where
  "send E rq s = (case request E rq (srv s) of (r, w) \<Rightarrow> (r, s\<lparr>srv := w\<rparr>))"

definition sleep_for :: "'w netenv \<Rightarrow> seconds \<Rightarrow> 'w rst \<Rightarrow> 'w rst" where
  "sleep_for E d s = s\<lparr>srv := sleep E d (srv s)\<rparr>"


subsection \<open>Errors of a request\<close>

definition handle_netbox_error :: "py_exc \<Rightarrow> string \<Rightarrow> py_exc" where
  "handle_netbox_error e operation =
     (case e of
        ProxboxException _ _ _ _ \<Rightarrow> e
      | OtherError text \<Rightarrow>
          if is_netbox_overwhelmed_error e
          then proxbox_exc ''NetBox is overwhelmed. Please retry in a few moments.''
                 (PStr (operation @ '' failed: '' @ text)) (Some text) None
          else proxbox_exc (''NetBox '' @ operation @ '' failed'') (PStr text) (Some text) None)"

text \<open>The non-empty items of an error list, dictionaries with their index.\<close>

definition error_parts :: "pyval list \<Rightarrow> string list" where
  "error_parts items =
     concat (map (\<lambda>(i, item).
         case item of
           PDict d \<Rightarrow> if d \<noteq> [] then [''item['' @ nat_str i @ '']: '' @ py_str item] else []
         | _ \<Rightarrow> if truthy item then [py_str item] else [])
       (zip [0..<length items] items))"

definition error_detail :: "api_response \<Rightarrow> string" where
  "error_detail r =
     (case rs_json r of
        Inr (PDict d) \<Rightarrow>
          py_str (py_or (py_or (obj_get d ''detail'') (obj_get d ''message'')) (PStr (rs_text r)))
      | Inr (PList items) \<Rightarrow>
          (let parts = error_parts items in if parts \<noteq> [] then py_join ''; '' parts else rs_text r)
      | _ \<Rightarrow> rs_text r)"

definition extract_payload :: "api_response \<Rightarrow> py_exc + pyval" where
  "extract_payload r =
     (if rs_status r < 200 \<or> rs_status r \<ge> 300
      then Inl (proxbox_exc ''NetBox REST request failed'' (PStr (error_detail r)) None
             (if rs_status r \<ge> 500 \<or> rs_status r \<in> {404, 501} then Some (rs_status r) else None))
      else if rs_text r = [] then Inr PNone
      else case rs_json r of
             Inr v \<Rightarrow> Inr v
           | Inl exc \<Rightarrow>
               Inl (proxbox_exc ''NetBox returned non-JSON success response'' (PStr (take 500 (rs_text r)))
                      (Some exc) None))"

text \<open>Send and wrap a transport error; \<open>call\<close> takes the body too.\<close>

definition send_wrapped :: "'w netenv \<Rightarrow> string \<Rightarrow> api_request \<Rightarrow> ('w, api_response) rest_op" where
  "send_wrapped E operation rq s =
     (case send E rq s of
        (Inl e, s') \<Rightarrow> (Inl (handle_netbox_error e operation), s')
      | (Inr r, s') \<Rightarrow> (Inr r, s'))"

definition call :: "'w netenv \<Rightarrow> string \<Rightarrow> api_request \<Rightarrow> ('w, pyval) rest_op" where
  "call E operation rq s =
     (case send_wrapped E operation rq s of
        (Inl e, s') \<Rightarrow> (Inl e, s')
      | (Inr r, s') \<Rightarrow> (extract_payload r, s'))"

definition is_duplicate_text :: "string \<Rightarrow> bool" where
  "is_duplicate_text t =
     list_ex (\<lambda>p. py_contains p (py_lower t))
       [''already exists'', ''must be unique'', ''make a unique set'', ''duplicate key value'', ''unique constraint'']"

fun is_duplicate_error :: "pyval \<Rightarrow> bool" where
  "is_duplicate_error (PDict d) = list_ex (\<lambda>(k, v). is_duplicate_error v) d"
| "is_duplicate_error (PList xs) = list_ex is_duplicate_error xs"
| "is_duplicate_error v = is_duplicate_text (py_str v)"


subsection \<open>The retry loop\<close>

definition compute_retry_delay :: "seconds \<Rightarrow> nat \<Rightarrow> py_exc \<Rightarrow> real \<Rightarrow> seconds" where
  "compute_retry_delay base_delay attempt e u =
     (let d0 = base_delay * 2 ^ attempt;
          d1 = (if is_connection_refused_error e then max d0 10 else d0);
          d2 = (if is_netbox_overwhelmed_error e then max d1 30 else d1)
      in d2 + u * (d2 * 0.5))"

definition back_off :: "'w netenv \<Rightarrow> nat \<Rightarrow> py_exc \<Rightarrow> 'w rst \<Rightarrow> 'w rst" where
  "back_off E attempt e s = sleep_for E (compute_retry_delay (retry_delay E) attempt e (jitter E (srv s))) s"

text \<open>
  \<^verbatim>\<open>for attempt in range(max_retries + 1)\<close>: \<open>left\<close> counts the attempts after this one. The statement
  after the loop is not reached.
\<close>

fun retry_from ::
  "'w netenv \<Rightarrow> (py_exc \<Rightarrow> bool) \<Rightarrow> ('w, 'a) rest_op \<Rightarrow> nat \<Rightarrow> nat \<Rightarrow> ('w, 'a) rest_op" where
  "retry_from E safe body attempt 0 s = body s"
| "retry_from E safe body attempt (Suc left) s =
     (case body s of
        (Inr v, s') \<Rightarrow> (Inr v, s')
      | (Inl e, s') \<Rightarrow>
          if \<not> safe e then (Inl e, s')
          else retry_from E safe body (attempt + 1) left (back_off E attempt e s'))"

definition with_retry :: "'w netenv \<Rightarrow> (py_exc \<Rightarrow> bool) \<Rightarrow> ('w, 'a) rest_op \<Rightarrow> ('w, 'a) rest_op" where
  "with_retry E safe body s = retry_from E safe body 0 (max_retries E) s"


subsection \<open>Records\<close>

record rest_record =
  rec_list_path :: string
  rec_data :: pyobj
  rec_dirty :: "string list"

definition new_record :: "string \<Rightarrow> pyobj \<Rightarrow> rest_record" where
  "new_record list_path values =
     \<lparr>rec_list_path = normalize_path list_path, rec_data = values, rec_dirty = []\<rparr>"

definition rec_id :: "rest_record \<Rightarrow> pyval" where
  "rec_id r = obj_get (rec_data r) ''id''"

definition rec_detail_path :: "rest_record \<Rightarrow> py_exc + string" where
  "rec_detail_path r =
     (let from_id = (if rec_id r = PNone
                     then Inl (proxbox_exc ''Cannot resolve detail path for unsaved NetBox record'' PNone None None)
                     else Inr (detail_path (rec_list_path r) (rec_id r)))
      in case obj_get (rec_data r) ''url'' of
           PStr url \<Rightarrow>
             if url \<noteq> [] \<and> urlsplit_path url \<noteq> [] then Inr (normalize_path (urlsplit_path url)) else from_id
         | _ \<Rightarrow> from_id)"

definition rec_set :: "string \<Rightarrow> pyval \<Rightarrow> rest_record \<Rightarrow> rest_record" where
  "rec_set name v r =
     r\<lparr>rec_data := dict_set name v (rec_data r),
       rec_dirty := (if name \<in> set (rec_dirty r) then rec_dirty r else rec_dirty r @ [name])\<rparr>"

definition dirty_payload :: "rest_record \<Rightarrow> pyobj" where
  "dirty_payload r =
     map (\<lambda>f. (f, obj_get (rec_data r) f)) (filter (\<lambda>f. map_of (rec_data r) f \<noteq> None) (rec_dirty r))"

definition rec_save :: "'w netenv \<Rightarrow> rest_record \<Rightarrow> ('w, rest_record) rest_op" where
  "rec_save E r s =
     (if dirty_payload r = [] then (Inr r, s)
      else case rec_detail_path r of
             Inl e \<Rightarrow> (Inl e, s)
           | Inr path \<Rightarrow>
               (case call E (''save record '' @ path)
                       \<lparr>rq_method = ''PATCH'', rq_path = path, rq_query = None, rq_payload = PDict (dirty_payload r)\<rparr> s of
                  (Inl e, s') \<Rightarrow> (Inl e, s')
                | (Inr (PDict d), s') \<Rightarrow>
                    (Inr (r\<lparr>rec_data := d, rec_dirty := []\<rparr>),
                     s'\<lparr>gcache := invalidate_get_cache_for_record (api_id E) (rec_list_path r) d (gcache s')\<rparr>)
                | (Inr _, s') \<Rightarrow>
                    (Inl (proxbox_exc ''NetBox returned invalid JSON for record update'' PNone None None), s')))"

definition rec_delete :: "'w netenv \<Rightarrow> rest_record \<Rightarrow> ('w, bool) rest_op" where
  "rec_delete E r s =
     (case rec_detail_path r of
        Inl e \<Rightarrow> (Inl e, s)
      | Inr path \<Rightarrow>
          (case send_wrapped E (''delete record '' @ path)
                  \<lparr>rq_method = ''DELETE'', rq_path = path, rq_query = None, rq_payload = PNone\<rparr> s of
             (Inl e, s') \<Rightarrow> (Inl e, s')
           | (Inr resp, s') \<Rightarrow>
               if rs_status resp \<notin> {200, 204}
               then (Inl (proxbox_exc ''NetBox REST request failed'' (PStr (rs_text resp)) None None), s')
               else (Inr True,
                     s'\<lparr>gcache := invalidate_get_cache_for_path (api_id E) path
                                    (invalidate_get_cache_for_path (api_id E) (rec_list_path r) (gcache s'))\<rparr>)))"


subsection \<open>Single and bulk writes\<close>

definition patch_request :: "'w netenv \<Rightarrow> string \<Rightarrow> int \<Rightarrow> pyobj \<Rightarrow> ('w, pyval) rest_op" where
  "patch_request E path record_id payload s =
     (let normalized = normalize_path path;
          dpath = detail_path normalized (PInt record_id)
      in case call E (''patch '' @ path)
                \<lparr>rq_method = ''PATCH'', rq_path = dpath, rq_query = None, rq_payload = PDict payload\<rparr> s of
           (Inl e, s') \<Rightarrow> (Inl e, s')
         | (Inr body, s') \<Rightarrow>
             (Inr body,
              s'\<lparr>gcache :=
                  (case body of
                     PDict d \<Rightarrow> invalidate_get_cache_for_record (api_id E) normalized d (gcache s')
                   | _ \<Rightarrow> invalidate_get_cache_for_path (api_id E) dpath
                           (invalidate_get_cache_for_path (api_id E) normalized (gcache s')))\<rparr>))"

definition rest_patch :: "'w netenv \<Rightarrow> string \<Rightarrow> int \<Rightarrow> pyobj \<Rightarrow> ('w, pyval) rest_op" where
  "rest_patch E path record_id payload s =
     with_retry E is_transient_netbox_error (patch_request E path record_id payload) s"

text \<open>The items of a bulk response: a list, or the \<open>results\<close> of an object, or the object itself.\<close>

definition bulk_items :: "string \<Rightarrow> pyval \<Rightarrow> py_exc + pyval list" where
  "bulk_items what body =
     (case body of
        PList xs \<Rightarrow> Inr xs
      | PDict d \<Rightarrow>
          (case map_of d ''results'' of
             None \<Rightarrow> Inr [body]
           | Some (PList xs) \<Rightarrow> Inr xs
           | Some (PStr t) \<Rightarrow> Inr (map (\<lambda>ch. PStr [ch]) t)
           | Some (PDict e) \<Rightarrow> Inr (map (\<lambda>(k, v). PStr k) e)
           | Some v \<Rightarrow> Inl (OtherError ''object is not iterable''))
      | _ \<Rightarrow> Inl (proxbox_exc (''NetBox bulk '' @ what @ '' response was not JSON'') PNone None None))"

definition dict_items :: "pyval list \<Rightarrow> pyobj list" where
  "dict_items xs = List.map_filter (\<lambda>v. case v of PDict d \<Rightarrow> Some d | _ \<Rightarrow> None) xs"

definition bulk_request ::
  "'w netenv \<Rightarrow> string \<Rightarrow> string \<Rightarrow> string \<Rightarrow> pyobj list \<Rightarrow> ('w, rest_record list) rest_op" where
  "bulk_request E what verb path payloads s =
     (let normalized = normalize_path path
      in case call E (''bulk '' @ what @ '' '' @ path)
                \<lparr>rq_method = verb, rq_path = normalized, rq_query = None, rq_payload = PList (map PDict payloads)\<rparr> s of
           (Inl e, s') \<Rightarrow> (Inl e, s')
         | (Inr body, s') \<Rightarrow>
             (case bulk_items what body of
                Inl e \<Rightarrow> (Inl e, s')
              | Inr items \<Rightarrow>
                  (Inr (map (new_record normalized) (dict_items items)),
                   s'\<lparr>gcache := fold (invalidate_get_cache_for_record (api_id E) normalized) (dict_items items)
                                  (gcache s')\<rparr>)))"

definition rest_bulk_create :: "'w netenv \<Rightarrow> string \<Rightarrow> pyobj list \<Rightarrow> ('w, rest_record list) rest_op" where
  "rest_bulk_create E path payloads s =
     (if payloads = [] then (Inr [], s)
      else with_retry E is_connection_refused_error (bulk_request E ''create'' ''POST'' path payloads) s)"

definition rest_bulk_patch :: "'w netenv \<Rightarrow> string \<Rightarrow> pyobj list \<Rightarrow> ('w, rest_record list) rest_op" where
  "rest_bulk_patch E path updates s =
     (if updates = [] then (Inr [], s)
      else with_retry E is_transient_netbox_error (bulk_request E ''patch'' ''PATCH'' path updates) s)"

definition delete_single_request :: "'w netenv \<Rightarrow> string \<Rightarrow> int \<Rightarrow> ('w, nat) rest_op" where
  "delete_single_request E list_path record_id s =
     (let dpath = list_path @ int_str record_id @ ''/''
      in case send_wrapped E (''delete record '' @ dpath)
                \<lparr>rq_method = ''DELETE'', rq_path = dpath, rq_query = None, rq_payload = PNone\<rparr> s of
           (Inl e, s') \<Rightarrow> (Inl e, s')
         | (Inr resp, s') \<Rightarrow>
             if rs_status resp \<notin> {200, 204}
             then (Inl (proxbox_exc ''NetBox REST delete failed'' (PStr (error_detail resp)) None None), s')
             else (Inr 1,
                   s'\<lparr>gcache := invalidate_get_cache_for_path (api_id E) dpath
                                  (invalidate_get_cache_for_path (api_id E) list_path (gcache s'))\<rparr>))"

definition delete_single_record :: "'w netenv \<Rightarrow> string \<Rightarrow> int \<Rightarrow> ('w, nat) rest_op" where
  "delete_single_record E list_path record_id s =
     with_retry E is_transient_netbox_error (delete_single_request E list_path record_id) s"

definition bulk_delete_request :: "'w netenv \<Rightarrow> string \<Rightarrow> int list \<Rightarrow> ('w, nat) rest_op" where
  "bulk_delete_request E path unique_ids s =
     (let normalized = normalize_path path
      in case send_wrapped E (''bulk delete '' @ path)
                \<lparr>rq_method = ''DELETE'', rq_path = normalized, rq_query = None,
                 rq_payload = PList (map (\<lambda>i. PDict [(''id'', PInt i)]) unique_ids)\<rparr> s of
           (Inl e, s') \<Rightarrow> (Inl e, s')
         | (Inr resp, s') \<Rightarrow>
             if rs_status resp < 200 \<or> rs_status resp \<ge> 300
             then (Inl (proxbox_exc ''NetBox REST bulk delete failed'' (PStr (error_detail resp)) None None), s')
             else (Inr (length unique_ids),
                   s'\<lparr>gcache := invalidate_get_cache_for_path (api_id E) normalized (gcache s')\<rparr>))"

text \<open>\<^verbatim>\<open>list(dict.fromkeys(ids))\<close>: the first occurrences.\<close>

fun unique_in_order :: "'a list \<Rightarrow> 'a list" where
  "unique_in_order [] = []"
| "unique_in_order (x # xs) = x # filter (\<lambda>y. y \<noteq> x) (unique_in_order xs)"

definition rest_bulk_delete :: "'w netenv \<Rightarrow> string \<Rightarrow> int list \<Rightarrow> ('w, nat) rest_op" where
  "rest_bulk_delete E path ids s =
     (if ids = [] then (Inr 0, s)
      else let unique_ids = unique_in_order ids
           in if length unique_ids = 1 then delete_single_record E (normalize_path path) (hd unique_ids) s
              else with_retry E is_transient_netbox_error (bulk_delete_request E path unique_ids) s)"


subsection \<open>Which requests an operation makes\<close>

text \<open>An environment that keeps the log of its requests with their outcomes.\<close>

type_synonym request_log = "(api_request \<times> (py_exc + api_response)) list"

definition logged :: "'w netenv \<Rightarrow> ('w \<times> request_log) netenv" where
  "logged E =
     \<lparr>request = (\<lambda>rq (w, l). case request E rq w of (r, w') \<Rightarrow> (r, w', l @ [(rq, r)])),
      sleep = (\<lambda>d (w, l). (sleep E d w, l)), clock = (\<lambda>(w, l). clock E w), jitter = (\<lambda>(w, l). jitter E w),
      api_id = api_id E, max_retries = max_retries E, retry_delay = retry_delay E, cache_cfg = cache_cfg E\<rparr>"

definition log_of :: "('w \<times> request_log) rst \<Rightarrow> request_log" where
  "log_of s = snd (srv s)"

text \<open>The exception a request's outcome becomes, if any.\<close>

definition outcome_error :: "string \<Rightarrow> py_exc + api_response \<Rightarrow> py_exc option" where
  "outcome_error operation out =
     (case out of
        Inl e \<Rightarrow> Some (handle_netbox_error e operation)
      | Inr resp \<Rightarrow> (case extract_payload resp of Inl x \<Rightarrow> Some x | Inr _ \<Rightarrow> None))"

lemma max_retries_logged [simp]: "max_retries (logged E) = max_retries E"
  and api_id_logged [simp]: "api_id (logged E) = api_id E"
  by (simp_all add: logged_def)

lemma log_back_off [simp]: "log_of (back_off (logged E) n e s) = log_of s"
  by (cases "srv s") (simp add: back_off_def sleep_for_def log_of_def logged_def)

lemma log_cache [simp]: "log_of (s\<lparr>gcache := c\<rparr>) = log_of s"
  by (simp add: log_of_def)

lemma log_send:
  "\<exists>out. send (logged E) rq s = (out, snd (send (logged E) rq s)) \<and>
         log_of (snd (send (logged E) rq s)) = log_of s @ [(rq, out)]"
  by (cases "srv s") (auto simp: send_def log_of_def logged_def split: prod.splits)

text \<open>\<open>one_request\<close>: the operation makes exactly this request, and an error comes with an outcome in \<open>Q\<close>.\<close>

definition one_request ::
  "('w \<times> request_log, 'a) rest_op \<Rightarrow> api_request \<Rightarrow> (py_exc \<Rightarrow> py_exc + api_response \<Rightarrow> bool) \<Rightarrow> bool" where
  "one_request body rq Q \<longleftrightarrow>
     (\<forall>s. \<exists>out. log_of (snd (body s)) = log_of s @ [(rq, out)] \<and> (\<forall>e. fst (body s) = Inl e \<longrightarrow> Q e out))"

lemma one_request_weaken: "one_request body rq Q \<Longrightarrow> (\<And>e out. Q e out \<Longrightarrow> Q' e out) \<Longrightarrow> one_request body rq Q'"
  by (fastforce simp: one_request_def)

lemma one_request_call: "one_request (call (logged E) op rq) rq (\<lambda>e out. outcome_error op out = Some e)"
  unfolding one_request_def
proof
  fix s
  obtain out s' where o: "send (logged E) rq s = (out, s')" "log_of s' = log_of s @ [(rq, out)]"
    using log_send [of E rq s] by (cases "send (logged E) rq s") auto
  then show "\<exists>out. log_of (snd (call (logged E) op rq s)) = log_of s @ [(rq, out)] \<and>
      (\<forall>e. fst (call (logged E) op rq s) = Inl e \<longrightarrow> outcome_error op out = Some e)"
    by (intro exI [of _ out]) (cases out, auto simp: call_def send_wrapped_def outcome_error_def split: sum.splits)
qed

lemma retry_from_again:
  "fst (body s) = Inl e \<Longrightarrow> safe e \<Longrightarrow>
     retry_from E safe body a (Suc n) s = retry_from E safe body (a + 1) n (back_off E a e (snd (body s)))"
  by (cases "body s") simp

lemma retry_from_log:
  assumes "one_request body rq Q"
  shows "\<exists>outs. log_of (snd (retry_from (logged E) safe body a n s)) = log_of s @ map (Pair rq) outs \<and>
    outs \<noteq> [] \<and> length outs \<le> Suc n \<and> (\<forall>out \<in> set (butlast outs). \<exists>e. safe e \<and> Q e out) \<and>
    (\<forall>e. fst (retry_from (logged E) safe body a n s) = Inl e \<longrightarrow> Q e (last outs))"
proof (induct n arbitrary: a s)
  case 0
  from assms obtain out where "log_of (snd (body s)) = log_of s @ [(rq, out)]" "\<forall>e. fst (body s) = Inl e \<longrightarrow> Q e out"
    by (auto simp: one_request_def)
  then show ?case by (intro exI [of _ "[out]"]) simp
next
  case (Suc n)
  from assms obtain out where out: "log_of (snd (body s)) = log_of s @ [(rq, out)]"
    and Q: "\<forall>e. fst (body s) = Inl e \<longrightarrow> Q e out" by (auto simp: one_request_def)
  show ?case
  proof (cases "\<exists>e. fst (body s) = Inl e \<and> safe e")
    case False
    then have "log_of (snd (retry_from (logged E) safe body a (Suc n) s)) = log_of s @ map (Pair rq) [out]"
      "fst (retry_from (logged E) safe body a (Suc n) s) = fst (body s)"
      using out by (auto split: prod.splits sum.splits)
    with Q show ?thesis by (intro exI [of _ "[out]"]) simp
  next
    case True
    then obtain e where e: "fst (body s) = Inl e" "safe e" by blast
    let ?s' = "back_off (logged E) a e (snd (body s))"
    obtain outs where o: "log_of (snd (retry_from (logged E) safe body (a + 1) n ?s')) = log_of ?s' @ map (Pair rq) outs"
      "outs \<noteq> []" "length outs \<le> Suc n" "\<forall>out \<in> set (butlast outs). \<exists>e. safe e \<and> Q e out"
      "\<forall>e. fst (retry_from (logged E) safe body (a + 1) n ?s') = Inl e \<longrightarrow> Q e (last outs)"
      using Suc [of "a + 1" ?s'] by blast
    have "log_of (snd (retry_from (logged E) safe body a (Suc n) s)) = log_of s @ map (Pair rq) (out # outs)"
      using o(1) out e by (simp add: retry_from_again [of body s e safe] del: retry_from.simps)
    moreover have "fst (retry_from (logged E) safe body a (Suc n) s) = fst (retry_from (logged E) safe body (a + 1) n ?s')"
      using e by (simp add: retry_from_again [of body s e safe] del: retry_from.simps)
    ultimately show ?thesis using o e Q by (intro exI [of _ "out # outs"]) (auto simp del: retry_from.simps)
  qed
qed

lemma one_request_bulk:
  "one_request (bulk_request (logged E) what verb path payloads)
     \<lparr>rq_method = verb, rq_path = normalize_path path, rq_query = None, rq_payload = PList (map PDict payloads)\<rparr>
     (\<lambda>e out. outcome_error (''bulk '' @ what @ '' '' @ path) out = Some e \<or>
        e = proxbox_exc (''NetBox bulk '' @ what @ '' response was not JSON'') PNone None None \<or>
        e = OtherError ''object is not iterable'')"
  unfolding one_request_def
proof
  fix s
  let ?op = "''bulk '' @ what @ '' '' @ path"
  let ?rq = "\<lparr>rq_method = verb, rq_path = normalize_path path, rq_query = None, rq_payload = PList (map PDict payloads)\<rparr>"
  obtain out where c: "log_of (snd (call (logged E) ?op ?rq s)) = log_of s @ [(?rq, out)]"
    "\<forall>e. fst (call (logged E) ?op ?rq s) = Inl e \<longrightarrow> outcome_error ?op out = Some e"
    using one_request_call [of E ?op ?rq] by (auto simp: one_request_def)
  obtain r s' where call: "call (logged E) ?op ?rq s = (r, s')" by force
  show "\<exists>out. log_of (snd (bulk_request (logged E) what verb path payloads s)) = log_of s @ [(?rq, out)] \<and>
      (\<forall>e. fst (bulk_request (logged E) what verb path payloads s) = Inl e \<longrightarrow>
         outcome_error ?op out = Some e \<or>
         e = proxbox_exc (''NetBox bulk '' @ what @ '' response was not JSON'') PNone None None \<or>
         e = OtherError ''object is not iterable'')"
  proof (cases r)
    case (Inl e)
    with c call show ?thesis by (intro exI [of _ out]) (simp add: bulk_request_def)
  next
    case (Inr body)
    have "fst (bulk_request (logged E) what verb path payloads s) = Inl e \<Longrightarrow> bulk_items what body = Inl e" for e
      using call Inr by (auto simp: bulk_request_def Let_def split: sum.splits)
    moreover have "bulk_items what body = Inl e \<Longrightarrow>
        e = proxbox_exc (''NetBox bulk '' @ what @ '' response was not JSON'') PNone None None \<or>
        e = OtherError ''object is not iterable''" for e
      by (auto simp: bulk_items_def split: pyval.splits option.splits)
    moreover have "log_of (snd (bulk_request (logged E) what verb path payloads s)) = log_of s'"
      using call Inr by (auto simp: bulk_request_def Let_def split: sum.splits)
    ultimately show ?thesis using c call by (intro exI [of _ out]) auto
  qed
qed

lemma with_retry_log:
  assumes "one_request body rq Q"
  shows "\<exists>outs. log_of (snd (with_retry (logged E) safe body s)) = log_of s @ map (Pair rq) outs \<and>
    outs \<noteq> [] \<and> length outs \<le> Suc (max_retries E) \<and> (\<forall>out \<in> set (butlast outs). \<exists>e. safe e \<and> Q e out) \<and>
    (\<forall>e. fst (with_retry (logged E) safe body s) = Inl e \<longrightarrow> Q e (last outs))"
  using retry_from_log [OF assms, of E safe 0 "max_retries E" s] by (simp add: with_retry_def)

lemma malformed_bulk_not_refused:
  "\<not> is_connection_refused_error (proxbox_exc ''NetBox bulk create response was not JSON'' PNone None None)"
  "\<not> is_connection_refused_error (OtherError ''object is not iterable'')"
  by code_simp+

text \<open>
  A bulk create sends its POST again only after an attempt that failed as connection refused, so
  never after a lost response that may have created the records, and makes at most
  \<open>max_retries + 1\<close> requests, all of them the same.
\<close>

theorem bulk_create_retries_only_refused:
  "\<exists>outs. log_of (snd (rest_bulk_create (logged E) path payloads s)) =
       log_of s @ map (Pair \<lparr>rq_method = ''POST'', rq_path = normalize_path path, rq_query = None,
                               rq_payload = PList (map PDict payloads)\<rparr>) outs \<and>
     length outs \<le> max_retries E + 1 \<and>
     (\<forall>out \<in> set (butlast outs). \<exists>e. outcome_error (''bulk create '' @ path) out = Some e \<and> is_connection_refused_error e)"
proof (cases "payloads = []")
  case True
  then show ?thesis by (intro exI [of _ "[]"]) (simp add: rest_bulk_create_def)
next
  case False
  obtain outs where o: "log_of (snd (rest_bulk_create (logged E) path payloads s)) =
       log_of s @ map (Pair \<lparr>rq_method = ''POST'', rq_path = normalize_path path, rq_query = None,
                               rq_payload = PList (map PDict payloads)\<rparr>) outs"
      "length outs \<le> Suc (max_retries E)"
    and q: "\<forall>out \<in> set (butlast outs). \<exists>e. is_connection_refused_error e \<and>
        (outcome_error (''bulk '' @ ''create'' @ '' '' @ path) out = Some e \<or>
         e = proxbox_exc (''NetBox bulk '' @ ''create'' @ '' response was not JSON'') PNone None None \<or>
         e = OtherError ''object is not iterable'')"
    using with_retry_log [OF one_request_bulk [of E "''create''" "''POST''" path payloads],
        of E is_connection_refused_error s] False
    unfolding rest_bulk_create_def by auto
  from q malformed_bulk_not_refused
  have "\<forall>out \<in> set (butlast outs). \<exists>e. outcome_error (''bulk create '' @ path) out = Some e \<and> is_connection_refused_error e"
    by fastforce
  with o show ?thesis by auto
qed

text \<open>A server that follows a script of outcomes; its clock stands still.\<close>

fun script_request ::
  "api_request \<Rightarrow> (py_exc + api_response) list \<Rightarrow> (py_exc + api_response) \<times> (py_exc + api_response) list" where
  "script_request rq [] = (Inl (OtherError ''script ended''), [])"
| "script_request rq (out # outs) = (out, outs)"

definition scripted_env :: "nat \<Rightarrow> (py_exc + api_response) list netenv" where
  "scripted_env n =
     \<lparr>request = script_request,
      sleep = (\<lambda>d w. w), clock = (\<lambda>w. 0), jitter = (\<lambda>w. 0), api_id = 7, max_retries = n, retry_delay = 2,
      cache_cfg = \<lparr>cache_ttl = 60, cache_max_entries = 8, cache_max_bytes = 512\<rparr>\<rparr>"

definition json_response :: "int \<Rightarrow> pyval \<Rightarrow> api_response" where
  "json_response st v = \<lparr>rs_status = st, rs_text = ''json'', rs_json = Inr v\<rparr>"

definition start_state :: "'w \<Rightarrow> ('w \<times> request_log) rst" where
  "start_state w = \<lparr>srv = (w, []), gcache = empty_cache\<rparr>"

theorem bulk_create_retries_only_refused_witness:
  "(\<exists>outs. log_of (snd (rest_bulk_create (logged (scripted_env 5)) ''/api/x/'' [[(''name'', PStr ''a'')]]
       (start_state [Inl (OtherError ''Server disconnected''), Inr (json_response 201 (PList []))]))) = outs \<and>
     length outs = 1) \<and>
   (\<exists>outs :: (py_exc + api_response) list. length outs \<le> 6 \<and>
     length (log_of (snd (rest_bulk_create (logged (scripted_env 5)) ''/api/x/'' [[(''name'', PStr ''a'')]]
       (start_state [Inl (OtherError ''Connection refused''), Inr (json_response 201 (PList []))])))) = length outs)"
proof -
  have "length (log_of (snd (rest_bulk_create (logged (scripted_env 5)) ''/api/x/'' [[(''name'', PStr ''a'')]]
       (start_state [Inl (OtherError ''Server disconnected''), Inr (json_response 201 (PList []))])))) = 1"
    by code_simp
  moreover have "log_of (start_state w) = []" for w :: "(py_exc + api_response) list"
    by (simp add: start_state_def log_of_def)
  ultimately show ?thesis
    using bulk_create_retries_only_refused [of "scripted_env 5" "''/api/x/''" "[[(''name'', PStr ''a'')]]"
        "start_state [Inl (OtherError ''Connection refused''), Inr (json_response 201 (PList []))]"]
    by (auto simp: scripted_env_def)
qed

lemma unique_in_order_set [simp]: "set (unique_in_order xs) = set xs"
  by (induct xs) auto

lemma unique_in_order_distinct [simp]: "distinct (unique_in_order xs)"
  by (induct xs) auto

lemma retry_from_result:
  assumes "\<And>s v. fst (body s) = Inr v \<Longrightarrow> P v" and "fst (retry_from E safe body a n s) = Inr v"
  shows "P v"
  using assms(2)
proof (induct n arbitrary: a s)
  case 0
  then show ?case using assms(1) by simp
next
  case (Suc n)
  show ?case
  proof (cases "fst (body s)")
    case (Inr u)
    with Suc.prems have "u = v" by (cases "body s") auto
    with Inr assms(1) [of s v] show ?thesis by simp
  next
    case (Inl e)
    with Suc show ?thesis by (cases "body s"; cases "safe e") auto
  qed
qed

lemma delete_single_result:
  "fst (with_retry E safe (delete_single_request E path i) s) = Inr m \<Longrightarrow> m = 1"
  unfolding with_retry_def
  by (rule retry_from_result [where P = "\<lambda>m. m = 1"])
    (auto simp: delete_single_request_def Let_def split: prod.splits sum.splits if_splits)

lemma bulk_delete_result:
  "fst (with_retry E safe (bulk_delete_request E path ids) s) = Inr m \<Longrightarrow> m = length ids"
  unfolding with_retry_def
  by (rule retry_from_result [where P = "\<lambda>m. m = length ids"])
    (auto simp: bulk_delete_request_def Let_def split: prod.splits sum.splits if_splits)

text \<open>
  A bulk delete that succeeds reports the number of distinct ids it was given, whether it went
  through the detail path or through one request with a body, and that body names each id once.
\<close>

theorem bulk_delete_counts_ids:
  assumes "fst (rest_bulk_delete E path ids s) = Inr n"
  shows "n = card (set ids) \<and> distinct (unique_in_order ids) \<and> set (unique_in_order ids) = set ids"
proof -
  have c: "length (unique_in_order ids) = card (set ids)"
    using distinct_card [of "unique_in_order ids"] by simp
  have "n = length (unique_in_order ids)"
    using assms
    by (auto simp: rest_bulk_delete_def delete_single_record_def Let_def
        dest: delete_single_result bulk_delete_result split: if_splits)
  with c show ?thesis by simp
qed

theorem bulk_delete_counts_ids_witness:
  "fst (rest_bulk_delete (scripted_env 5) ''/api/x'' [3, 5, 3] \<lparr>srv = [Inr \<lparr>rs_status = 204, rs_text = [], rs_json = Inl []\<rparr>],
       gcache = empty_cache\<rparr>) = Inr 2 \<and> (2 :: nat) = card (set [3, 5, 3 :: int])"
proof -
  have "fst (rest_bulk_delete (scripted_env 5) ''/api/x'' [3, 5, 3] \<lparr>srv = [Inr \<lparr>rs_status = 204, rs_text = [], rs_json = Inl []\<rparr>],
       gcache = empty_cache\<rparr>) = Inr 2" by code_simp
  with bulk_delete_counts_ids [OF this] show ?thesis by blast
qed


subsection \<open>Wrapping keeps the class of an error\<close>

lemma py_contains_mono: "py_contains p s \<Longrightarrow> py_contains p (u @ s @ v)"
  unfolding py_contains_sublist by (metis append.assoc)

lemma wrapped_text: "\<exists>u. exc_str (handle_netbox_error (OtherError msg) op) = u @ msg"
  by (cases "msg = []") (auto simp: handle_netbox_error_def proxbox_exc_def)

lemma contains_wrapped:
  "py_contains p (py_lower (exc_str e)) \<Longrightarrow> py_contains p (py_lower (exc_str (handle_netbox_error e op)))"
proof (cases e)
  case (OtherError msg)
  assume "py_contains p (py_lower (exc_str e))"
  moreover obtain u where "exc_str (handle_netbox_error (OtherError msg) op) = u @ msg" using wrapped_text by blast
  ultimately show ?thesis
    using OtherError py_contains_mono [of p "py_lower msg" "py_lower u" "[]"] by (simp add: py_lower_append)
qed (simp add: handle_netbox_error_def)

lemma details_wrapped:
  "\<exists>u v. py_join '' '' (exc_details (handle_netbox_error (OtherError msg) op)) = u @ msg @ v"
proof -
  obtain u where "exc_str (handle_netbox_error (OtherError msg) op) = u @ msg" using wrapped_text by blast
  then have "py_join '' '' (exc_details (handle_netbox_error (OtherError msg) op)) =
      u @ msg @ '' '' @ py_join '' '' (tl (exc_details (handle_netbox_error (OtherError msg) op)))"
    by (auto simp: handle_netbox_error_def proxbox_exc_def)
  then show ?thesis by blast
qed

text \<open>
  Wrapping a transport error into a \<^verbatim>\<open>ProxboxException\<close> keeps what the retry loops decide on: a
  transient error stays transient, a refused connection stays refused and an overload stays an
  overload.
\<close>

theorem wrapping_keeps_class:
  "(is_transient_netbox_error e \<longrightarrow> is_transient_netbox_error (handle_netbox_error e op)) \<and>
   (is_connection_refused_error e \<longrightarrow> is_connection_refused_error (handle_netbox_error e op)) \<and>
   (is_netbox_overwhelmed_error e \<longrightarrow> is_netbox_overwhelmed_error (handle_netbox_error e op))"
proof (intro conjI impI)
  assume "is_transient_netbox_error e"
  then show "is_transient_netbox_error (handle_netbox_error e op)"
    using contains_wrapped unfolding is_transient_netbox_error_def list_ex_iff by blast
next
  assume "is_connection_refused_error e"
  then show "is_connection_refused_error (handle_netbox_error e op)"
    using contains_wrapped unfolding is_connection_refused_error_def Let_def by blast
next
  assume o: "is_netbox_overwhelmed_error e"
  show "is_netbox_overwhelmed_error (handle_netbox_error e op)"
  proof (cases e)
    case (OtherError msg)
    obtain u v where uv: "py_join '' '' (exc_details (handle_netbox_error e op)) = u @ msg @ v"
      using details_wrapped OtherError by blast
    from o OtherError obtain i where "i \<in> set overload_indicators" "py_contains i (py_lower msg)"
      by (auto simp: is_netbox_overwhelmed_error_def list_ex_iff)
    then show ?thesis using py_contains_mono [of i "py_lower msg" "py_lower u" "py_lower v"] uv
      by (auto simp: is_netbox_overwhelmed_error_def list_ex_iff py_lower_append)
  qed (use o in \<open>simp add: handle_netbox_error_def\<close>)
qed

theorem wrapping_keeps_class_witness:
  "is_transient_netbox_error (OtherError ''Cannot connect to host'') \<and>
   is_transient_netbox_error (handle_netbox_error (OtherError ''Cannot connect to host'') ''list /api/x/'')"
proof -
  have "is_transient_netbox_error (OtherError ''Cannot connect to host'')" by code_simp
  with wrapping_keeps_class [of "OtherError ''Cannot connect to host''" "''list /api/x/''"] show ?thesis by blast
qed

end
