(* ===== verification/Rest_List.thy ===== *)
theory Rest_List
  imports Rest_Client
begin

text \<open>
  Listing a NetBox collection (\<^verbatim>\<open>netbox_rest.py\<close>, from \<^verbatim>\<open>_parse_next_link\<close> to \<^verbatim>\<open>rest_first_async\<close> and
  \<^verbatim>\<open>rest_list_paginated_async\<close>): the traversal follows the server's \<^verbatim>\<open>next\<close> links, checks every page
  against what the previous ones declared, and returns the whole collection or an exception,
  never a part of it. The loop of the traversal is total: each round counts a page and the hard
  page limit stops it.
\<close>

subsection \<open>Links and cursors\<close>

definition urlsplit_query :: "string \<Rightarrow> string" where
  "urlsplit_query url =
     (let u1 = cut_scheme (url_clean url);
          u2 = (if py_startswith ''//'' u1
                then dropWhile (\<lambda>ch. ch \<notin> {CHR ''/'', CHR ''?'', CHR ''#''}) (drop 2 u1) else u1);
          u3 = takeWhile (\<lambda>ch. ch \<noteq> CHR ''#'') u2
      in drop 1 (dropWhile (\<lambda>ch. ch \<noteq> CHR ''?'') u3))"

definition hex_nat :: "char \<Rightarrow> nat option" where
  "hex_nat ch =
     (let n = (of_char ch :: nat) in
      if 48 \<le> n \<and> n \<le> 57 then Some (n - 48)
      else if 65 \<le> n \<and> n \<le> 70 then Some (n - 55)
      else if 97 \<le> n \<and> n \<le> 102 then Some (n - 87)
      else None)"

fun unquote :: "string \<Rightarrow> string" where
  "unquote (p # a # b # rest) =
     (if p = CHR ''%'' then
        case (hex_nat a, hex_nat b) of
          (Some x, Some y) \<Rightarrow> char_of (16 * x + y) # unquote rest
        | _ \<Rightarrow> p # unquote (a # b # rest)
      else p # unquote (a # b # rest))"
| "unquote s = s"

definition unquote_plus :: "string \<Rightarrow> string" where
  "unquote_plus s = unquote (map (\<lambda>ch. if ch = CHR ''+'' then CHR '' '' else ch) s)"

text \<open>\<^verbatim>\<open>parse_qsl(query, keep_blank_values=True)\<close>.\<close>

definition parse_qsl :: "string \<Rightarrow> (string \<times> string) list" where
  "parse_qsl q =
     map (\<lambda>part. (unquote_plus (takeWhile (\<lambda>ch. ch \<noteq> CHR ''='') part),
                  unquote_plus (drop 1 (dropWhile (\<lambda>ch. ch \<noteq> CHR ''='') part))))
       (filter (\<lambda>part. part \<noteq> []) (py_split (CHR ''&'') q))"

definition add_query_value :: "string \<times> string \<Rightarrow> pyobj \<Rightarrow> pyobj" where
  "add_query_value kv query =
     (case obj_get query (fst kv) of
        PNone \<Rightarrow> dict_set (fst kv) (PStr (snd kv)) query
      | PList vs \<Rightarrow> dict_set (fst kv) (PList (vs @ [PStr (snd kv)])) query
      | v \<Rightarrow> dict_set (fst kv) (PList [v, PStr (snd kv)]) query)"

definition parse_next_link :: "pyval \<Rightarrow> (string \<times> pyobj) option" where
  "parse_next_link v =
     (case v of
        PStr url \<Rightarrow>
          if url = [] \<or> urlsplit_path url = [] then None
          else Some (urlsplit_path url, fold add_query_value (parse_qsl (urlsplit_query url)) [])
      | _ \<Rightarrow> None)"

definition pagination_record_signature :: "pyobj \<Rightarrow> string \<times> string" where
  "pagination_record_signature r =
     (let rid = obj_get r ''id'' in
      if rid \<noteq> PNone \<and> rid \<noteq> PStr [] then (''id'', py_str rid)
      else (''record'', json_dumps True '','' '':'' (PDict r)))"

definition pagination_protocol_error :: "string \<Rightarrow> string \<Rightarrow> py_exc" where
  "pagination_protocol_error path what =
     proxbox_exc ''NetBox returned invalid pagination data''
       (PStr (what @ '' while listing '' @ path @ ''; refusing to return a partial collection.'')) None (Some 502)"

definition not_advancing_error :: "string \<Rightarrow> string \<Rightarrow> py_exc" where
  "not_advancing_error path what =
     proxbox_exc ''NetBox pagination did not advance''
       (PStr (what @ '' while listing '' @ path @ ''; refusing to return a partial collection.'')) None (Some 502)"

definition offset_value :: "pyval \<Rightarrow> int option" where
  "offset_value v =
     (case v of
        PInt i \<Rightarrow> if i \<ge> 0 then Some i else None
      | PStr t \<Rightarrow> if py_isdigit t then Some (int (digits_val t)) else None
      | _ \<Rightarrow> None)"

definition pagination_offset :: "pyobj \<Rightarrow> int option" where
  "pagination_offset query =
     (case map_of query ''offset'' of
        None \<Rightarrow> None
      | Some (PList [v]) \<Rightarrow> offset_value v
      | Some v \<Rightarrow> offset_value v)"

definition validated_pagination_offset :: "string \<Rightarrow> pyobj \<Rightarrow> bool \<Rightarrow> string \<Rightarrow> py_exc + int" where
  "validated_pagination_offset path query required label =
     (let bad = pagination_protocol_error path (label @ '' did not contain exactly one non-negative integer offset'')
      in if map_of query ''offset'' = None then (if required then Inl bad else Inr 0)
         else case pagination_offset query of None \<Rightarrow> Inl bad | Some n \<Rightarrow> Inr n)"

definition value_texts :: "pyval \<Rightarrow> string list" where
  "value_texts v = sort (map py_str (case v of PList vs \<Rightarrow> vs | _ \<Rightarrow> [v]))"

definition pagination_query_multimap :: "pyobj option \<Rightarrow> (string \<times> string list) list" where
  "pagination_query_multimap query =
     sort_key fst
       (map (\<lambda>(k, v). (k, value_texts v))
         (filter (\<lambda>(k, v). k \<noteq> ''limit'' \<and> k \<noteq> ''offset'') (case query of None \<Rightarrow> [] | Some q \<Rightarrow> q)))"

definition pagination_count :: "string \<Rightarrow> pyobj \<Rightarrow> py_exc + int" where
  "pagination_count path payload =
     (let bad = pagination_protocol_error path
                  ''NetBox returned a paginated object without a non-negative integer count''
      in case obj_get payload ''count'' of
           PInt c \<Rightarrow> if c < 0 then Inl bad else Inr c
         | _ \<Rightarrow> Inl bad)"


subsection \<open>One page\<close>

record list_page =
  pg_results :: "pyobj list"
  pg_next :: "(string \<times> pyobj) option"
  pg_count :: "int option"

text \<open>\<^verbatim>\<open>item if isinstance(item, dict) else to_dict(item)\<close>: every other JSON value becomes the empty dictionary.\<close>

definition item_dict :: "pyval \<Rightarrow> pyobj" where
  "item_dict v = (case v of PDict d \<Rightarrow> d | _ \<Rightarrow> [])"

definition decode_items :: "string \<Rightarrow> pyval \<Rightarrow> pyval \<Rightarrow> int option \<Rightarrow> py_exc + list_page" where
  "decode_items path results next_link cnt =
     (case results of
        PList items \<Rightarrow>
          if next_link \<noteq> PNone \<and> parse_next_link next_link = None
          then Inl (pagination_protocol_error path ''NetBox returned a non-null invalid next link'')
          else Inr \<lparr>pg_results = map item_dict items, pg_next = parse_next_link next_link, pg_count = cnt\<rparr>
      | _ \<Rightarrow> Inl (pagination_protocol_error path ''NetBox REST list response did not contain a results list''))"

definition decode_page :: "string \<Rightarrow> pyval \<Rightarrow> py_exc + list_page" where
  "decode_page path payload =
     (case payload of
        PDict d \<Rightarrow>
          if map_of d ''results'' = None
          then Inl (pagination_protocol_error path ''NetBox returned an object without a results field'')
          else (case pagination_count path d of
                  Inl e \<Rightarrow> Inl e
                | Inr c \<Rightarrow> decode_items path (obj_get d ''results'') (obj_get d ''next'') (Some c))
      | PList items \<Rightarrow> decode_items path payload PNone None
      | _ \<Rightarrow> Inl (pagination_protocol_error path ''NetBox REST list response was not a JSON array/object''))"

definition page_request :: "'w netenv \<Rightarrow> string \<Rightarrow> string \<Rightarrow> pyobj option \<Rightarrow> ('w, list_page) rest_op" where
  "page_request E path page_path page_query s =
     (case call E (''list '' @ path)
             \<lparr>rq_method = ''GET'', rq_path = page_path, rq_query = page_query, rq_payload = PNone\<rparr> s of
        (Inl e, s') \<Rightarrow> (Inl e, s')
      | (Inr payload, s') \<Rightarrow> (decode_page path payload, s'))"

definition fetch_page :: "'w netenv \<Rightarrow> string \<Rightarrow> string \<Rightarrow> pyobj option \<Rightarrow> ('w, list_page) rest_op" where
  "fetch_page E path page_path page_query s =
     with_retry E is_transient_netbox_error (page_request E path page_path page_query) s"


subsection \<open>The traversal\<close>

definition hard_max_pages :: int where
  "hard_max_pages = 10000"

definition hard_max_records :: int where
  "hard_max_records = 1000000"

record list_call =
  lc_path :: string
  lc_normalized :: string
  lc_query :: "pyobj option"
  lc_initial_offset :: int
  lc_max_records :: "int option"
  lc_max_offset :: "int option"

record traversal =
  tr_agg :: "pyobj list"
  tr_query :: "pyobj option"
  tr_seen_pages :: "(string \<times> string) list"
  tr_seen :: "(string \<times> string) list"
  tr_pages :: int
  tr_expected :: "int option"
  tr_paginated :: "bool option"
  tr_offset :: int

datatype list_step = Refuse py_exc | Finished "pyobj list" | NextPage traversal

definition exceeds :: "int option \<Rightarrow> int \<Rightarrow> bool" where
  "exceeds bnd n = (case bnd of None \<Rightarrow> False | Some m \<Rightarrow> n > m)"

definition reaches :: "int option \<Rightarrow> int \<Rightarrow> bool" where
  "reaches bnd n = (case bnd of None \<Rightarrow> False | Some m \<Rightarrow> n \<ge> m)"

definition opt_int_str :: "int option \<Rightarrow> string" where
  "opt_int_str n = (case n of None \<Rightarrow> ''None'' | Some i \<Rightarrow> int_str i)"

text \<open>The checks on a page's content, up to \<^verbatim>\<open>aggregated.extend\<close>.\<close>

definition accept_page :: "list_call \<Rightarrow> traversal \<Rightarrow> list_page \<Rightarrow> py_exc + traversal" where
  "accept_page c t p =
     (let path = lc_path c;
          results = pg_results p;
          n = int (length results);
          expected = (if tr_paginated t = None then pg_count p else tr_expected t);
          sigs = map pagination_record_signature results;
          total = int (length (tr_agg t)) + n
      in if tr_paginated t \<noteq> None \<and> tr_paginated t \<noteq> Some (pg_count p \<noteq> None)
         then Inl (pagination_protocol_error path ''NetBox changed pagination response shape between pages'')
         else if tr_paginated t \<noteq> None \<and> pg_count p \<noteq> tr_expected t
         then Inl (pagination_protocol_error path
                (''NetBox changed pagination count from '' @ opt_int_str (tr_expected t) @ '' to '' @ opt_int_str (pg_count p)))
         else if results \<noteq> [] \<and> exceeds expected (tr_offset t + n)
         then Inl (pagination_protocol_error path ''Page results extended beyond the declared pagination count'')
         else if \<not> distinct sigs \<or> list_ex (\<lambda>sg. sg \<in> set (tr_seen t)) sigs
         then Inl (not_advancing_error path ''Overlapping record content'')
         else if total > hard_max_records
         then Inl (pagination_protocol_error path
                (''Pagination exceeded the hard record limit of '' @ int_str hard_max_records))
         else if exceeds (lc_max_records c) total
         then Inl (pagination_protocol_error path
                (''Pagination exceeded the explicit record limit of '' @ opt_int_str (lc_max_records c)))
         else Inr (t\<lparr>tr_agg := tr_agg t @ results, tr_seen := tr_seen t @ sigs, tr_pages := tr_pages t + 1,
                     tr_expected := expected, tr_paginated := Some (pg_count p \<noteq> None)\<rparr>))"

text \<open>The end of a collection: the aggregate must have the declared length.\<close>

definition finish_list :: "list_call \<Rightarrow> traversal \<Rightarrow> list_step" where
  "finish_list c t =
     (case tr_expected t of
        None \<Rightarrow> Finished (tr_agg t)
      | Some n \<Rightarrow>
          if int (length (tr_agg t)) \<noteq> max (n - lc_initial_offset c) 0
          then Refuse (pagination_protocol_error (lc_path c)
                 (''Final aggregate length '' @ int_str (int (length (tr_agg t))) @ '' did not match the declared count '' @
                  int_str n @ '' from initial offset '' @ int_str (lc_initial_offset c)))
          else Finished (tr_agg t))"

text \<open>The checks on a next link; \<open>n\<close> is the number of records of the page it came with.\<close>

definition advance_link :: "list_call \<Rightarrow> traversal \<Rightarrow> int \<Rightarrow> string \<Rightarrow> pyobj \<Rightarrow> list_step" where
  "advance_link c t n next_path next_query =
     (let path = lc_path c;
          total = int (length (tr_agg t))
      in if n = 0 then Refuse (not_advancing_error path ''NetBox returned an empty page with a next link'')
         else if normalize_path next_path \<noteq> lc_normalized c
         then Refuse (pagination_protocol_error path (''Pagination next link changed resource path to '' @ next_path))
         else if pagination_query_multimap (Some next_query) \<noteq> pagination_query_multimap (lc_query c)
         then Refuse (pagination_protocol_error path ''Pagination next link changed non-pagination query parameters'')
         else case validated_pagination_offset path next_query True ''Pagination next link'' of
           Inl e \<Rightarrow> Refuse e
         | Inr next_offset \<Rightarrow>
           if next_offset \<noteq> tr_offset t + n
           then Refuse (pagination_protocol_error path
                  (''NetBox pagination did not advance continuously: next offset '' @ int_str next_offset @
                   '', expected '' @ int_str (tr_offset t + n)))
           else if exceeds (lc_max_offset c) next_offset
           then Refuse (pagination_protocol_error path
                  (''Pagination next offset '' @ int_str next_offset @ '' exceeded the explicit maximum '' @
                   opt_int_str (lc_max_offset c)))
           else if reaches (lc_max_records c) total
           then Refuse (pagination_protocol_error path
                  (''Pagination reached the explicit record limit of '' @ opt_int_str (lc_max_records c) @
                   '' before the final page''))
           else if total \<ge> hard_max_records
           then Refuse (pagination_protocol_error path
                  (''Pagination reached the hard record limit of '' @ int_str hard_max_records @ '' before the final page''))
           else if tr_pages t \<ge> hard_max_pages
           then Refuse (pagination_protocol_error path
                  (''Pagination reached the hard limit of '' @ int_str hard_max_pages @ '' pages before the final page''))
           else if (lc_normalized c, serialize_query (Some next_query)) \<in> set (tr_seen_pages t)
           then Refuse (not_advancing_error path ''NetBox produced a repeated next link'')
           else NextPage (t\<lparr>tr_seen_pages := tr_seen_pages t @ [(lc_normalized c, serialize_query (Some next_query))],
                            tr_query := Some next_query, tr_offset := next_offset\<rparr>))"

definition list_step_of :: "list_call \<Rightarrow> traversal \<Rightarrow> list_page \<Rightarrow> list_step" where
  "list_step_of c t p =
     (case accept_page c t p of
        Inl e \<Rightarrow> Refuse e
      | Inr t' \<Rightarrow>
          (case pg_next p of
             None \<Rightarrow> finish_list c t'
           | Some (next_path, next_query) \<Rightarrow>
               advance_link c t' (int (length (pg_results p))) next_path next_query))"

lemma accept_page_pages: "accept_page c t p = Inr t' \<Longrightarrow> tr_pages t' = tr_pages t + 1"
  by (auto simp: accept_page_def Let_def split: if_splits)

lemma advance_link_pages: "advance_link c t n np nq = NextPage t' \<Longrightarrow> tr_pages t' = tr_pages t"
  by (auto simp: advance_link_def Let_def split: if_splits sum.splits)

lemma list_step_pages: "list_step_of c t p = NextPage t' \<Longrightarrow> tr_pages t' = tr_pages t + 1"
  by (auto simp: list_step_of_def finish_list_def dest!: advance_link_pages accept_page_pages
      split: sum.splits option.splits if_splits)

function traverse :: "'w netenv \<Rightarrow> list_call \<Rightarrow> traversal \<Rightarrow> ('w, pyobj list) rest_op" where
  "traverse E c t s =
     (if tr_pages t \<ge> hard_max_pages
      then (Inl (pagination_protocol_error (lc_path c)
                   (''Pagination exceeded the hard limit of '' @ int_str hard_max_pages @ '' pages'')), s)
      else case fetch_page E (lc_path c) (lc_normalized c) (tr_query t) s of
             (Inl e, s') \<Rightarrow> (Inl e, s')
           | (Inr p, s') \<Rightarrow>
               (case list_step_of c t p of
                  Refuse e \<Rightarrow> (Inl e, s')
                | Finished records \<Rightarrow> (Inr records, s')
                | NextPage t' \<Rightarrow> traverse E c t' s'))"
  by pat_completeness auto
termination
  by (relation "measure (\<lambda>(E, c, t, s). nat (hard_max_pages - tr_pages t))") (auto dest: list_step_pages)

declare traverse.simps [simp del]

definition first_traversal :: "list_call \<Rightarrow> traversal" where
  "first_traversal c =
     \<lparr>tr_agg = [], tr_query = lc_query c, tr_seen_pages = [], tr_seen = [], tr_pages = 0, tr_expected = None,
      tr_paginated = None, tr_offset = lc_initial_offset c\<rparr>"

definition list_uncached :: "'w netenv \<Rightarrow> list_call \<Rightarrow> ('w, rest_record list) rest_op" where
  "list_uncached E c s =
     (case traverse E c (first_traversal c) s of
        (Inl e, s') \<Rightarrow> (Inl e, s')
      | (Inr records, s') \<Rightarrow>
          (Inr (map (new_record (lc_normalized c)) records),
           s'\<lparr>gcache := write_get_cache (cache_cfg E) (clock E (srv s')) (api_id E) (lc_normalized c) (lc_query c) records
                          (gcache s')\<rparr>))"

definition list_from_cache :: "list_call \<Rightarrow> pyobj list \<Rightarrow> py_exc + rest_record list" where
  "list_from_cache c cached =
     (if exceeds (lc_max_records c) (int (length cached))
      then Inl (pagination_protocol_error (lc_path c)
             (''Cached collection exceeded the explicit record limit of '' @ opt_int_str (lc_max_records c)))
      else Inr (map (new_record (lc_normalized c)) cached))"

definition rest_list_traverse ::
  "'w netenv \<Rightarrow> string \<Rightarrow> pyobj option \<Rightarrow> int option \<Rightarrow> int option \<Rightarrow> ('w, rest_record list) rest_op" where
  "rest_list_traverse E path query max_records max_offset s =
     (case validated_pagination_offset path (case query of None \<Rightarrow> [] | Some q \<Rightarrow> q) False ''Initial query'' of
        Inl e \<Rightarrow> (Inl e, s)
      | Inr initial_offset \<Rightarrow>
          if exceeds max_offset initial_offset
          then (Inl (pagination_protocol_error path
                  (''Initial offset '' @ int_str initial_offset @ '' exceeded the explicit maximum '' @
                   opt_int_str max_offset)), s)
          else (case read_get_cache (cache_cfg E) (clock E (srv s)) (api_id E) (normalize_path path) query (gcache s) of
                  (Some cached, g) \<Rightarrow>
                    (list_from_cache
                       \<lparr>lc_path = path, lc_normalized = normalize_path path, lc_query = query,
                        lc_initial_offset = initial_offset, lc_max_records = max_records, lc_max_offset = max_offset\<rparr>
                       cached, s\<lparr>gcache := g\<rparr>)
                | (None, g) \<Rightarrow>
                    list_uncached E
                      \<lparr>lc_path = path, lc_normalized = normalize_path path, lc_query = query,
                       lc_initial_offset = initial_offset, lc_max_records = max_records, lc_max_offset = max_offset\<rparr>
                      (s\<lparr>gcache := g\<rparr>)))"

definition rest_list :: "'w netenv \<Rightarrow> string \<Rightarrow> pyobj option \<Rightarrow> ('w, rest_record list) rest_op" where
  "rest_list E path query s = rest_list_traverse E path query None None s"

definition rest_first :: "'w netenv \<Rightarrow> string \<Rightarrow> pyobj option \<Rightarrow> ('w, rest_record option) rest_op" where
  "rest_first E path query s =
     (case rest_list E path query s of
        (Inl e, s') \<Rightarrow> (Inl e, s')
      | (Inr [], s') \<Rightarrow> (Inr None, s')
      | (Inr (r # rs), s') \<Rightarrow> (Inr (Some r), s'))"

definition rest_list_paginated ::
  "'w netenv \<Rightarrow> string \<Rightarrow> pyobj option \<Rightarrow> int \<Rightarrow> int option \<Rightarrow> ('w, rest_record list) rest_op" where
  "rest_list_paginated E path base_query page_size max_offset s =
     (let size' = max 1 page_size;
          query = dict_set ''limit'' (PInt size') (case base_query of None \<Rightarrow> [] | Some q \<Rightarrow> q);
          max_offset' = map_option (max 0) max_offset
      in case validated_pagination_offset path query False ''Initial query'' of
           Inl e \<Rightarrow> (Inl e, s)
         | Inr initial_offset \<Rightarrow>
             if exceeds max_offset' initial_offset
             then (Inl (pagination_protocol_error path
                     (''Initial offset '' @ int_str initial_offset @ '' exceeded the explicit maximum '' @
                      opt_int_str max_offset')), s)
             else rest_list_traverse E path (Some query)
                    (map_option (\<lambda>m. m - initial_offset + size') max_offset') max_offset' s)"


subsection \<open>All of a collection or an exception\<close>

lemma send_gcache: "gcache (snd (send E rq s)) = gcache s"
  by (simp add: send_def split: prod.splits)

lemma call_gcache: "gcache (snd (call E op rq s)) = gcache s"
  using send_gcache [of E rq s] by (auto simp: call_def send_wrapped_def split: prod.splits sum.splits)

lemma page_request_gcache: "gcache (snd (page_request E path pp q s)) = gcache s"
  using call_gcache [of E "''list '' @ path" "\<lparr>rq_method = ''GET'', rq_path = pp, rq_query = q, rq_payload = PNone\<rparr>" s]
  by (auto simp: page_request_def split: prod.splits sum.splits)

lemma retry_from_gcache:
  assumes "\<And>s. gcache (snd (body s)) = gcache s"
  shows "gcache (snd (retry_from E safe body a n s)) = gcache s"
proof (induct n arbitrary: a s)
  case (Suc n)
  show ?case using assms [of s] Suc
    by (auto simp: back_off_def sleep_for_def split: prod.splits sum.splits)
qed (simp add: assms)

lemma fetch_page_gcache: "gcache (snd (fetch_page E path pp q s)) = gcache s"
  by (simp add: fetch_page_def with_retry_def retry_from_gcache page_request_gcache)

lemma traverse_gcache: "gcache (snd (traverse E c t s)) = gcache s"
proof (induct E c t s rule: traverse.induct)
  case (1 E c t s)
  show ?case
    using fetch_page_gcache [of E "lc_path c" "lc_normalized c" "tr_query t" s] 1
    by (subst traverse.simps) (auto split: prod.splits sum.splits list_step.splits)
qed

definition trav_inv :: "list_call \<Rightarrow> traversal \<Rightarrow> bool" where
  "trav_inv c t \<longleftrightarrow>
     tr_seen t = map pagination_record_signature (tr_agg t) \<and> distinct (tr_seen t) \<and>
     int (length (tr_agg t)) \<le> hard_max_records \<and> \<not> exceeds (lc_max_records c) (int (length (tr_agg t)))"

lemma accept_page_agg:
  assumes "accept_page c t p = Inr t'"
  shows "tr_agg t' = tr_agg t @ pg_results p \<and>
    tr_seen t' = tr_seen t @ map pagination_record_signature (pg_results p) \<and>
    distinct (map pagination_record_signature (pg_results p)) \<and>
    (\<forall>sg \<in> set (map pagination_record_signature (pg_results p)). sg \<notin> set (tr_seen t)) \<and>
    int (length (tr_agg t')) \<le> hard_max_records \<and> \<not> exceeds (lc_max_records c) (int (length (tr_agg t'))) \<and>
    tr_paginated t' \<noteq> None \<and> tr_expected t' = (if tr_paginated t = None then pg_count p else tr_expected t)"
  using assms by (auto simp: accept_page_def Let_def list_ex_iff split: if_splits)

lemma accept_page_inv:
  assumes "trav_inv c t" "accept_page c t p = Inr t'"
  shows "trav_inv c t' \<and> tr_paginated t' \<noteq> None \<and>
    tr_expected t' = (if tr_paginated t = None then pg_count p else tr_expected t)"
proof -
  note a = accept_page_agg [OF assms(2)]
  have "set (tr_seen t) \<inter> set (map pagination_record_signature (pg_results p)) = {}" using a by blast
  moreover have "distinct (tr_seen t)" using assms(1) unfolding trav_inv_def by blast
  ultimately have "distinct (tr_seen t')" using a by simp
  moreover have "tr_seen t' = map pagination_record_signature (tr_agg t')" using a assms(1) by (simp add: trav_inv_def)
  ultimately show ?thesis using a unfolding trav_inv_def by blast
qed

lemma advance_link_inv:
  "advance_link c t n np nq = NextPage t' \<Longrightarrow>
     trav_inv c t' = trav_inv c t \<and> tr_paginated t' = tr_paginated t \<and> tr_expected t' = tr_expected t"
  by (auto simp: advance_link_def trav_inv_def Let_def split: if_splits sum.splits)

definition list_complete :: "list_call \<Rightarrow> int option \<Rightarrow> pyobj list \<Rightarrow> bool" where
  "list_complete c declared records \<longleftrightarrow>
     distinct (map pagination_record_signature records) \<and> int (length records) \<le> hard_max_records \<and>
     \<not> exceeds (lc_max_records c) (int (length records)) \<and>
     (case declared of None \<Rightarrow> True | Some n \<Rightarrow> int (length records) = max (n - lc_initial_offset c) 0)"

lemma finish_list_complete:
  "trav_inv c t \<Longrightarrow> finish_list c t = Finished records \<Longrightarrow> list_complete c (tr_expected t) records"
  by (auto simp: finish_list_def trav_inv_def list_complete_def split: option.splits if_splits)

lemma step_shapes [simp]: "finish_list c t \<noteq> NextPage t'" "advance_link c t n np nq \<noteq> Finished rs"
  by (auto simp: finish_list_def advance_link_def Let_def split: option.splits sum.splits)

lemma traverse_complete:
  assumes "trav_inv c t" "tr_paginated t \<noteq> None" "fst (traverse E c t s) = Inr records"
  shows "list_complete c (tr_expected t) records"
  using assms
proof (induct E c t s rule: traverse.induct)
  case (1 E c t s)
  have "\<not> tr_pages t \<ge> hard_max_pages" using "1.prems"(3) by (subst (asm) traverse.simps) (auto split: if_splits)
  moreover obtain p s' where f: "fetch_page E (lc_path c) (lc_normalized c) (tr_query t) s = (Inr p, s')"
    using "1.prems"(3) by (subst (asm) traverse.simps) (auto split: if_splits prod.splits sum.splits)
  moreover obtain t1 where a: "accept_page c t p = Inr t1"
    using "1.prems"(3) f by (subst (asm) traverse.simps) (auto simp: list_step_of_def split: if_splits sum.splits)
  note inv1 = accept_page_inv [OF "1.prems"(1) a]
  show ?case
  proof (cases "pg_next p")
    case None
    then have "finish_list c t1 = Finished records"
      using "1.prems"(3) f a calculation(1)
      by (subst (asm) traverse.simps) (auto simp: list_step_of_def finish_list_def split: list_step.splits option.splits if_splits)
    with finish_list_complete [of c t1 records] inv1 "1.prems"(2) show ?thesis by simp
  next
    case (Some np)
    obtain next_path next_query where np: "np = (next_path, next_query)" by force
    obtain t2 where adv: "advance_link c t1 (int (length (pg_results p))) next_path next_query = NextPage t2"
      and rec: "fst (traverse E c t2 s') = Inr records"
      using "1.prems"(3) f a calculation(1) Some np
      by (subst (asm) traverse.simps)
        (auto simp: list_step_of_def advance_link_def Let_def split: if_splits sum.splits)
    have "list_step_of c t p = NextPage t2" using a Some np adv by (simp add: list_step_of_def)
    with "1.hyps" [OF calculation(1) f [symmetric] refl this] rec inv1 advance_link_inv [OF adv] "1.prems"(2) show ?thesis by auto
  qed
qed

lemma first_traversal_inv:
  "\<not> exceeds (lc_max_records c) 0 \<Longrightarrow> trav_inv c (first_traversal c)"
  by (simp add: trav_inv_def first_traversal_def hard_max_records_def)

lemma exceeds_mono: "\<not> exceeds m a \<Longrightarrow> b \<le> a \<Longrightarrow> \<not> exceeds m b"
  by (auto simp: exceeds_def split: option.splits)

text \<open>The first page decides what the whole collection declares.\<close>

lemma traverse_first:
  assumes "tr_pages t < hard_max_pages" "fst (traverse E c t s) = Inr records"
  obtains p s' t1 where "fetch_page E (lc_path c) (lc_normalized c) (tr_query t) s = (Inr p, s')"
    and "accept_page c t p = Inr t1"
    and "finish_list c t1 = Finished records \<or>
         (\<exists>t2 n np nq. advance_link c t1 n np nq = NextPage t2 \<and> fst (traverse E c t2 s') = Inr records)"
proof -
  obtain p s' where f: "fetch_page E (lc_path c) (lc_normalized c) (tr_query t) s = (Inr p, s')"
    using assms by (subst (asm) traverse.simps) (auto split: if_splits prod.splits sum.splits)
  moreover obtain t1 where a: "accept_page c t p = Inr t1"
    using assms f by (subst (asm) traverse.simps) (auto simp: list_step_of_def split: if_splits sum.splits)
  moreover have "finish_list c t1 = Finished records \<or>
         (\<exists>t2 n np nq. advance_link c t1 n np nq = NextPage t2 \<and> fst (traverse E c t2 s') = Inr records)"
    using assms f a
    by (subst (asm) traverse.simps)
      (auto simp: list_step_of_def split: list_step.splits option.splits)
  ultimately show ?thesis using that by blast
qed

text \<open>
  \<^bold>\<open>C15.\<close> A traversal, against any server whatever, either raises and leaves the cache untouched, or
  returns records that are pairwise different, within the hard and the caller's limits, and as many
  as the first page declared from the initial offset on: a partial collection is neither returned
  nor cached.
\<close>

theorem list_all_or_nothing:
  assumes "list_uncached E c s = (r, s')"
  shows "(\<forall>e. r = Inl e \<longrightarrow> gcache s' = gcache s) \<and>
    (\<forall>rs. r = Inr rs \<longrightarrow>
       (\<exists>p s1. fetch_page E (lc_path c) (lc_normalized c) (lc_query c) s = (Inr p, s1) \<and>
          list_complete c (pg_count p) (map rec_data rs)))"
proof (intro conjI allI impI)
  fix e assume "r = Inl e"
  then show "gcache s' = gcache s"
    using assms traverse_gcache [of E c "first_traversal c" s]
    by (auto simp: list_uncached_def split: prod.splits sum.splits)
next
  fix rs assume "r = Inr rs"
  with assms obtain records where rs: "rs = map (new_record (lc_normalized c)) records"
    and t: "fst (traverse E c (first_traversal c) s) = Inr records"
    by (auto simp: list_uncached_def split: prod.splits sum.splits)
  have data: "map rec_data rs = records" by (simp add: rs new_record_def comp_def)
  have "tr_pages (first_traversal c) < hard_max_pages" by (simp add: first_traversal_def hard_max_pages_def)
  from traverse_first [OF this t] obtain p s1 t1
    where f0: "fetch_page E (lc_path c) (lc_normalized c) (tr_query (first_traversal c)) s = (Inr p, s1)"
      and a: "accept_page c (first_traversal c) p = Inr t1"
      and rest: "finish_list c t1 = Finished records \<or>
         (\<exists>t2 n np nq. advance_link c t1 n np nq = NextPage t2 \<and> fst (traverse E c t2 s1) = Inr records)"
    by blast
  from f0 have f: "fetch_page E (lc_path c) (lc_normalized c) (lc_query c) s = (Inr p, s1)"
    by (simp add: first_traversal_def)
  have "\<not> exceeds (lc_max_records c) 0"
    by (rule exceeds_mono [of _ "int (length (tr_agg t1))"]) (use accept_page_agg [OF a] in blast, simp)
  note inv = accept_page_inv [OF first_traversal_inv [OF this] a]
  have "tr_expected t1 = pg_count p" using inv by (simp add: first_traversal_def)
  with rest inv have "list_complete c (pg_count p) records"
    using finish_list_complete traverse_complete advance_link_inv by metis
  with f data show "\<exists>p s1. fetch_page E (lc_path c) (lc_normalized c) (lc_query c) s = (Inr p, s1) \<and>
      list_complete c (pg_count p) (map rec_data rs)" by auto
qed

definition demo_page :: "int \<Rightarrow> pyval \<Rightarrow> int list \<Rightarrow> api_response" where
  "demo_page n next_link ids =
     json_response 200 (PDict [(''count'', PInt n), (''next'', next_link),
                               (''results'', PList (map (\<lambda>i. PDict [(''id'', PInt i)]) ids))])"

definition demo_list :: list_call where
  "demo_list =
     \<lparr>lc_path = ''/api/x/'', lc_normalized = ''/api/x/'', lc_query = None, lc_initial_offset = 0,
      lc_max_records = None, lc_max_offset = None\<rparr>"

definition demo_pages :: "(py_exc + api_response) list" where
  "demo_pages =
     [Inr (demo_page 3 (PStr ''http://netbox/api/x/?limit=2&offset=2'') [1, 2]), Inr (demo_page 3 PNone [3])]"

theorem list_all_or_nothing_witness:
  "\<exists>rs s'. list_uncached (scripted_env 5) demo_list \<lparr>srv = demo_pages, gcache = empty_cache\<rparr> = (Inr rs, s') \<and>
     map rec_data rs = [[(''id'', PInt 1)], [(''id'', PInt 2)], [(''id'', PInt 3)]] \<and>
     list_complete demo_list (Some 3) (map rec_data rs)"
proof -
  let ?s = "\<lparr>srv = demo_pages, gcache = empty_cache\<rparr>"
  obtain r s' where u: "list_uncached (scripted_env 5) demo_list ?s = (r, s')" by force
  have m: "map_sum id (map rec_data) (fst (list_uncached (scripted_env 5) demo_list ?s)) =
      Inr [[(''id'', PInt 1)], [(''id'', PInt 2)], [(''id'', PInt 3)]]" by code_simp
  then obtain rs where r: "r = Inr rs" "map rec_data rs = [[(''id'', PInt 1)], [(''id'', PInt 2)], [(''id'', PInt 3)]]"
    using u by (cases r) auto
  from list_all_or_nothing [OF u] r obtain p s1
    where f: "fetch_page (scripted_env 5) ''/api/x/'' ''/api/x/'' None ?s = (Inr p, s1)"
      and c: "list_complete demo_list (pg_count p) (map rec_data rs)"
    by (auto simp: demo_list_def)
  have "map_sum id pg_count (fst (fetch_page (scripted_env 5) ''/api/x/'' ''/api/x/'' None ?s)) = Inr (Some 3)"
    by code_simp
  with f have "pg_count p = Some 3" by simp
  with c u r show ?thesis by auto
qed


subsection \<open>A paging server is read to the end\<close>

text \<open>
  The next link of a paging server repeats the query with the offset set: \<open>at_offset base n\<close>. The
  traversal compares such queries by their JSON text, so the text must tell offsets apart.
\<close>

definition at_offset :: "pyobj \<Rightarrow> int \<Rightarrow> pyobj" where
  "at_offset base n = dict_set ''offset'' (PStr (int_str n)) base"

lemma insort_key_map_fst:
  "(\<And>y. fst (g y) = fst y) \<Longrightarrow> insort_key fst (g x) (map g xs) = map g (insort_key fst x xs)"
  by (induct xs) auto

lemma sort_key_map_fst: "(\<And>y. fst (g y) = fst y) \<Longrightarrow> sort_key fst (map g xs) = map g (sort_key fst xs)"
  by (induct xs) (auto simp: insort_key_map_fst)

lemma replace_absent:
  "k \<notin> fst ` set d \<Longrightarrow> map (\<lambda>(k', w). if k' = k then (k', v) else (k', w)) d = d"
  by (induct d) auto

lemma dict_set_as_map:
  "dict_wf d \<Longrightarrow> dict_set k v d = map (\<lambda>(k', w). if k' = k then (k', v) else (k', w)) (dict_set k u d)"
proof (induct d)
  case (Cons x d)
  then show ?case by (cases x) (auto simp: dict_wf_def replace_absent)
qed simp

lemma sorted_dict_set_split:
  assumes "dict_wf d"
  obtains A B where "\<And>v. sort_key fst (dict_set k v d) = A @ (k, v) # B"
proof -
  fix u
  let ?S = "sort_key fst (dict_set k u d)"
  let ?g = "\<lambda>v (k', w). if k' = k then (k', v) else (k', w)"
  have "(k, u) \<in> set ?S" using map_of_SomeD [of "dict_set k u d" k u] by simp
  then obtain A B where AB: "?S = A @ (k, u) # B" by (meson split_list)
  have "distinct (map fst (dict_set k u d))" using dict_wf_set [OF assms] by (simp add: dict_wf_def)
  then have "distinct (map fst ?S)"
    by (simp add: distinct_map)
  with AB have notin: "k \<notin> fst ` set A" "k \<notin> fst ` set B" by (auto simp: image_iff)
  have idA: "map (?g v) A = A" "map (?g v) B = B" for v
    using notin by (simp_all add: replace_absent)
  have "sort_key fst (dict_set k v d) = map (?g v) (A @ (k, u) # B)" for v
    unfolding dict_set_as_map [OF assms, of k v u] AB [symmetric] by (rule sort_key_map_fst) auto
  with idA have "sort_key fst (dict_set k v d) = A @ (k, v) # B" for v by simp
  then show ?thesis using that by blast
qed

lemma py_join_split_at: "\<exists>P Q. \<forall>x. py_join sep (A @ x # B) = P @ x @ Q"
proof (induct A)
  case Nil
  show ?case by (rule exI [of _ "[]"], rule exI [of _ "case B of [] \<Rightarrow> [] | _ \<Rightarrow> sep @ py_join sep B"]) (cases B, auto)
next
  case (Cons a A)
  then obtain P Q where PQ: "\<forall>x. py_join sep (A @ x # B) = P @ x @ Q" by blast
  have "\<forall>x. py_join sep ((a # A) @ x # B) = (a @ sep @ P) @ x @ Q"
    using PQ by (cases A) auto
  then show ?case by blast
qed

lemma json_str_digits: "list_all (\<lambda>ch. py_digit ch \<or> ch = CHR ''-'') t \<Longrightarrow> concat (map json_char t) = t"
  by (induct t) (auto simp: json_char_def py_digit_def Let_def)

lemma int_str_chars: "list_all (\<lambda>ch. py_digit ch \<or> ch = CHR ''-'') (int_str i)"
  using nat_str_digits by (auto simp: int_str_def list_all_iff)

lemma json_str_int_inj: "json_str (int_str i) = json_str (int_str j) \<Longrightarrow> i = j"
  using json_str_digits [OF int_str_chars [of i]] json_str_digits [OF int_str_chars [of j]] int_str_inj [of i j]
  by (simp add: json_str_def Let_def)

lemma at_offset_text_inj:
  assumes "dict_wf base" "serialize_query (Some (at_offset base i)) = serialize_query (Some (at_offset base j))"
  shows "i = j"
proof -
  let ?f = "\<lambda>(k, v). (k, json_dumps True '','' '':'' v)"
  have m: "map ?f (dict_set k v d) = dict_set k (json_dumps True '','' '':'' v) (map ?f d)" for k v d
    by (induct d) auto
  have "dict_wf (map ?f base)" using assms(1) by (simp add: dict_wf_def comp_def split_beta)
  then obtain A B where AB: "\<And>v. sort_key fst (dict_set ''offset'' v (map ?f base)) = A @ (''offset'', v) # B"
    by (rule sorted_dict_set_split [of "map ?f base" "''offset''"]) blast
  let ?g = "\<lambda>(k, t). json_str k @ '':'' @ t"
  obtain P Q where PQ: "\<forall>x. py_join '','' (map ?g A @ x # map ?g B) = P @ x @ Q"
    using py_join_split_at by blast
  have ne: "at_offset base n \<noteq> []" for n by (cases base) (auto simp: at_offset_def)
  have "serialize_query (Some (at_offset base n)) =
      ''{'' @ P @ (json_str ''offset'' @ '':'' @ json_str (int_str n)) @ Q @ ''}''" for n
    using PQ AB [of "json_str (int_str n)"] ne [of n]
    by (simp add: serialize_query_def at_offset_def m Let_def)
  with assms(2) show ?thesis by (auto intro: json_str_int_inj)
qed

lemma at_offset_multimap:
  "pagination_query_multimap (Some (at_offset base n)) = pagination_query_multimap (Some base)"
proof -
  have "filter (\<lambda>(k, v). k \<noteq> ''limit'' \<and> k \<noteq> ''offset'') (dict_set ''offset'' v base) =
      filter (\<lambda>(k, v). k \<noteq> ''limit'' \<and> k \<noteq> ''offset'') base" for v
    by (induct base) auto
  then show ?thesis by (simp add: pagination_query_multimap_def at_offset_def)
qed

lemma at_offset_validated:
  "0 \<le> n \<Longrightarrow> validated_pagination_offset path (at_offset base n) required label = Inr n"
  by (simp add: validated_pagination_offset_def pagination_offset_def at_offset_def offset_value_def int_str_def)

text \<open>
  \<open>serves E c base items\<close>: to every cursor of the call the server answers with the declared total and
  a slice of \<open>items\<close> of its own choosing, not empty unless it is the last, and a next link to the
  following offset exactly when something is left.
\<close>

definition cursor :: "list_call \<Rightarrow> pyobj \<Rightarrow> pyobj option \<Rightarrow> int \<Rightarrow> bool" where
  "cursor c base q n \<longleftrightarrow> (q = lc_query c \<and> n = lc_initial_offset c) \<or> q = Some (at_offset base n)"

definition page_of :: "pyobj list \<Rightarrow> int \<Rightarrow> nat \<Rightarrow> pyval \<Rightarrow> api_response" where
  "page_of items n k next_link =
     json_response 200 (PDict [(''count'', PInt (int (length items))), (''next'', next_link),
                               (''results'', PList (map PDict (take k (drop (nat n) items))))])"

definition serves :: "'w netenv \<Rightarrow> list_call \<Rightarrow> pyobj \<Rightarrow> pyobj list \<Rightarrow> bool" where
  "serves E c base items \<longleftrightarrow>
     pagination_query_multimap (Some base) = pagination_query_multimap (lc_query c) \<and> dict_wf base \<and>
     (\<forall>q n w. cursor c base q n \<and> 0 \<le> n \<longrightarrow>
        (\<exists>k next_link w'.
           request E \<lparr>rq_method = ''GET'', rq_path = lc_normalized c, rq_query = q, rq_payload = PNone\<rparr> w
             = (Inr (page_of items n k next_link), w') \<and>
           (if nat n + k < length items
            then 0 < k \<and> (\<exists>np. parse_next_link next_link = Some (np, at_offset base (n + int k)) \<and>
                               normalize_path np = lc_normalized c)
            else next_link = PNone)))"

lemma retry_from_ok: "body s = (Inr v, s') \<Longrightarrow> retry_from E safe body a n s = (Inr v, s')"
  by (cases n) auto

lemma serves_fetch:
  assumes "serves E c base items" "cursor c base q n" "0 \<le> n"
  shows "\<exists>k nxt s'. fetch_page E (lc_path c) (lc_normalized c) q s =
      (Inr \<lparr>pg_results = take k (drop (nat n) items), pg_next = nxt, pg_count = Some (int (length items))\<rparr>, s') \<and>
    (if nat n + k < length items
     then 0 < k \<and> (\<exists>np. nxt = Some (np, at_offset base (n + int k)) \<and> normalize_path np = lc_normalized c)
     else nxt = None)"
proof -
  let ?rq = "\<lparr>rq_method = ''GET'', rq_path = lc_normalized c, rq_query = q, rq_payload = PNone\<rparr>"
  obtain k next_link w' where r: "request E ?rq (srv s) = (Inr (page_of items n k next_link), w')"
    and nxt: "if nat n + k < length items
      then 0 < k \<and> (\<exists>np. parse_next_link next_link = Some (np, at_offset base (n + int k)) \<and>
                         normalize_path np = lc_normalized c)
      else next_link = PNone"
    using assms unfolding serves_def by metis
  have "parse_next_link next_link \<noteq> None \<or> next_link = PNone" using nxt by (auto split: if_splits)
  then have "page_request E (lc_path c) (lc_normalized c) q s =
      (Inr \<lparr>pg_results = take k (drop (nat n) items), pg_next = parse_next_link next_link,
            pg_count = Some (int (length items))\<rparr>, s\<lparr>srv := w'\<rparr>)"
    using r by (auto simp: page_request_def call_def send_wrapped_def send_def page_of_def json_response_def
        extract_payload_def decode_page_def decode_items_def pagination_count_def obj_get_def item_dict_def comp_def)
  from retry_from_ok [of "page_request E (lc_path c) (lc_normalized c) q", OF this]
  have "fetch_page E (lc_path c) (lc_normalized c) q s =
      (Inr \<lparr>pg_results = take k (drop (nat n) items), pg_next = parse_next_link next_link,
            pg_count = Some (int (length items))\<rparr>, s\<lparr>srv := w'\<rparr>)"
    by (simp add: fetch_page_def with_retry_def)
  moreover have "parse_next_link PNone = None" by (simp add: parse_next_link_def)
  ultimately show ?thesis using nxt
    by (intro exI [of _ k] exI [of _ "parse_next_link next_link"] exI [of _ "s\<lparr>srv := w'\<rparr>"]) auto
qed

definition on_course :: "list_call \<Rightarrow> pyobj \<Rightarrow> pyobj list \<Rightarrow> traversal \<Rightarrow> bool" where
  "on_course c base items t \<longleftrightarrow>
     0 \<le> lc_initial_offset c \<and> lc_initial_offset c \<le> tr_offset t \<and>
     (nat (tr_offset t) \<le> length items \<or> tr_offset t = lc_initial_offset c) \<and>
     cursor c base (tr_query t) (tr_offset t) \<and>
     tr_agg t = take (nat (tr_offset t) - nat (lc_initial_offset c)) (drop (nat (lc_initial_offset c)) items) \<and>
     tr_seen t = map pagination_record_signature (tr_agg t) \<and>
     tr_pages t \<le> int (length (tr_agg t)) \<and> tr_pages t < hard_max_pages \<and>
     (tr_paginated t = None \<or> tr_paginated t = Some True \<and> tr_expected t = Some (int (length items))) \<and>
     (\<forall>x \<in> set (tr_seen_pages t). \<exists>n \<le> tr_offset t. x = (lc_normalized c, serialize_query (Some (at_offset base n))))"

definition unbounded :: "list_call \<Rightarrow> bool" where
  "unbounded c \<longleftrightarrow> lc_max_records c = None \<and> lc_max_offset c = None"

text \<open>The aggregate after a page is a longer prefix of the collection.\<close>

lemma slice_append:
  assumes "a \<le> j"
  shows "take (j - a) (drop a items) @ take k (drop j items) = take (j + k - a) (drop a items)"
proof -
  have "take (j - a) (drop a items) @ take k (drop (j - a) (drop a items)) = take (j - a + k) (drop a items)"
    by (rule take_add [symmetric])
  then show ?thesis using assms by (simp add: drop_drop)
qed

lemma accept_served:
  assumes on: "on_course c base items t" and ub: "unbounded c"
    and len: "length items \<le> 10000" and dist: "distinct (map pagination_record_signature items)"
    and p: "p = \<lparr>pg_results = take k (drop (nat (tr_offset t)) items), pg_next = nxt, pg_count = Some (int (length items))\<rparr>"
  shows "accept_page c t p =
    Inr (t\<lparr>tr_agg := tr_agg t @ pg_results p, tr_seen := tr_seen t @ map pagination_record_signature (pg_results p),
           tr_pages := tr_pages t + 1, tr_expected := Some (int (length items)), tr_paginated := Some True\<rparr>)"
proof -
  let ?j = "nat (tr_offset t)" and ?a = "nat (lc_initial_offset c)"
  let ?R = "take k (drop ?j items)"
  have aj: "?a \<le> ?j" and o: "0 \<le> tr_offset t" using on by (auto simp: on_course_def)
  have agg: "tr_agg t @ ?R = take (?j + k - ?a) (drop ?a items)"
    using slice_append [OF aj, of items k] on by (simp add: on_course_def)
  have "distinct (map pagination_record_signature (tr_agg t @ ?R))"
    unfolding agg using dist by (simp add: take_map drop_map [symmetric] flip: take_map drop_map)
  then have d: "distinct (map pagination_record_signature ?R)"
    and disj: "\<forall>sg \<in> set (map pagination_record_signature ?R). sg \<notin> set (tr_seen t)"
    using on by (auto simp: on_course_def)
  have "length (tr_agg t @ ?R) \<le> length items" unfolding agg by (auto simp: min_def)
  then have "length (tr_agg t @ ?R) \<le> 10000" using len by (rule order_trans)
  then have l: "int (length (tr_agg t)) + int (length ?R) \<le> 10000" by simp
  have e: "?R \<noteq> [] \<Longrightarrow> \<not> exceeds (Some (int (length items))) (tr_offset t + int (length ?R))"
  proof -
    assume "?R \<noteq> []"
    then have "?j < length items" by auto
    moreover have "length ?R \<le> length items - ?j" by simp
    ultimately have "tr_offset t + int (length ?R) \<le> int (length items)" using o by linarith
    then show ?thesis by (simp add: exceeds_def)
  qed
  have pag: "tr_paginated t = None \<or> tr_paginated t = Some True \<and> tr_expected t = Some (int (length items))"
    using on unfolding on_course_def by blast
  have x: "(if tr_paginated t = None then Some (int (length items)) else tr_expected t) = Some (int (length items))"
    "\<not> (tr_paginated t \<noteq> None \<and> tr_paginated t \<noteq> Some True)"
    "\<not> (tr_paginated t \<noteq> None \<and> Some (int (length items)) \<noteq> tr_expected t)"
    using pag by auto
  have q: "\<not> (\<not> distinct (map pagination_record_signature ?R) \<or>
      list_ex (\<lambda>sg. sg \<in> set (tr_seen t)) (map pagination_record_signature ?R))"
    using d disj unfolding list_ex_iff by blast
  have y: "\<not> (?R \<noteq> [] \<and> exceeds (Some (int (length items))) (tr_offset t + int (length ?R)))" using e by blast
  have z: "\<not> int (length (tr_agg t)) + int (length ?R) > hard_max_records"
    "\<not> exceeds (lc_max_records c) (int (length (tr_agg t)) + int (length ?R))"
    using l ub unfolding hard_max_records_def unbounded_def exceeds_def by auto
  show ?thesis
    unfolding accept_page_def Let_def p list_page.select_convs x option.simps simp_thms
    by (simp only: x y z q if_False simp_thms option.simps)
qed

lemma advance_served:
  assumes on: "on_course c base items t" and ub: "unbounded c" and sv: "serves E c base items"
    and len: "length items \<le> 10000" and k: "0 < k" "nat (tr_offset t) + k < length items"
    and t1: "t1 = t\<lparr>tr_agg := tr_agg t @ take k (drop (nat (tr_offset t)) items),
                   tr_seen := tr_seen t @ map pagination_record_signature (take k (drop (nat (tr_offset t)) items)),
                   tr_pages := tr_pages t + 1, tr_expected := Some (int (length items)), tr_paginated := Some True\<rparr>"
    and np: "normalize_path np = lc_normalized c"
  shows "\<exists>t2. advance_link c t1 (int k) np (at_offset base (tr_offset t + int k)) = NextPage t2 \<and>
    on_course c base items t2 \<and> tr_offset t2 = tr_offset t + int k"
proof -
  let ?j = "nat (tr_offset t)" and ?a = "nat (lc_initial_offset c)"
  define t2 where "t2 = t1\<lparr>tr_seen_pages := tr_seen_pages t1 @ [(lc_normalized c, serialize_query (Some (at_offset base (tr_offset t + int k))))],
    tr_query := Some (at_offset base (tr_offset t + int k)), tr_offset := tr_offset t + int k\<rparr>"
  have wf: "dict_wf base" and mm: "pagination_query_multimap (Some (at_offset base n)) = pagination_query_multimap (lc_query c)" for n
    using sv by (auto simp: serves_def at_offset_multimap)
  have o: "0 \<le> tr_offset t" and aj: "?a \<le> ?j" and jlen: "?j \<le> length items" using on k by (auto simp: on_course_def)
  have agg: "tr_agg t @ take k (drop ?j items) = take (?j + k - ?a) (drop ?a items)"
    using slice_append [OF aj, of items k] on by (simp add: on_course_def)
  have lagg: "length (tr_agg t1) = ?j + k - ?a" using k by (simp add: t1 agg)
  have lag: "length (tr_agg t) = ?j - ?a" using on jlen by (simp add: on_course_def)
  have pages: "tr_pages t1 \<le> int (length (tr_agg t1))" "int (length (tr_agg t1)) < 10000"
    using on k lagg lag len aj by (auto simp: on_course_def t1)
  have fresh: "(lc_normalized c, serialize_query (Some (at_offset base (tr_offset t + int k)))) \<notin> set (tr_seen_pages t1)"
  proof
    assume "(lc_normalized c, serialize_query (Some (at_offset base (tr_offset t + int k)))) \<in> set (tr_seen_pages t1)"
    then obtain n where "n \<le> tr_offset t"
      "serialize_query (Some (at_offset base (tr_offset t + int k))) = serialize_query (Some (at_offset base n))"
      using on by (auto simp: on_course_def t1)
    with at_offset_text_inj [OF wf this(2)] k(1) show False by simp
  qed
  have "advance_link c t1 (int k) np (at_offset base (tr_offset t + int k)) = NextPage t2"
    using ub np k(1) mm fresh pages o
    by (simp add: advance_link_def at_offset_validated unbounded_def exceeds_def reaches_def Let_def t1 t2_def
        hard_max_records_def hard_max_pages_def)
  moreover have "on_course c base items t2"
  proof -
    have seen: "\<forall>x \<in> set (tr_seen_pages t2). \<exists>n \<le> tr_offset t2. x = (lc_normalized c, serialize_query (Some (at_offset base n)))"
    proof
      fix x assume "x \<in> set (tr_seen_pages t2)"
      then consider "x \<in> set (tr_seen_pages t)"
        | "x = (lc_normalized c, serialize_query (Some (at_offset base (tr_offset t2))))"
        by (auto simp: t1 t2_def)
      then show "\<exists>n \<le> tr_offset t2. x = (lc_normalized c, serialize_query (Some (at_offset base n)))"
      proof cases
        case 1
        with on obtain n where "n \<le> tr_offset t" "x = (lc_normalized c, serialize_query (Some (at_offset base n)))"
          by (auto simp: on_course_def)
        then show ?thesis by (intro exI [of _ n]) (simp add: t2_def)
      qed blast
    qed
    have "tr_agg t2 = take (nat (tr_offset t2) - ?a) (drop ?a items)"
      using agg o by (simp add: t1 t2_def nat_add_distrib)
    moreover have "tr_seen t2 = map pagination_record_signature (tr_agg t2)"
      using on unfolding on_course_def by (simp add: t1 t2_def)
    moreover have "0 \<le> lc_initial_offset c" "lc_initial_offset c \<le> tr_offset t2" "nat (tr_offset t2) \<le> length items"
      using on k o by (auto simp: on_course_def t2_def nat_add_distrib)
    moreover have "tr_pages t2 \<le> int (length (tr_agg t2))" "tr_pages t2 < hard_max_pages"
      using pages by (auto simp: t2_def hard_max_pages_def)
    moreover have "cursor c base (tr_query t2) (tr_offset t2)" "tr_paginated t2 = Some True"
      "tr_expected t2 = Some (int (length items))"
      by (auto simp: t1 t2_def cursor_def)
    ultimately show ?thesis using seen unfolding on_course_def by blast
  qed
  ultimately show ?thesis by (auto simp: t2_def)
qed

lemma finish_served:
  assumes on: "on_course c base items t" and k: "\<not> nat (tr_offset t) + k < length items"
    and t1: "tr_agg t1 = tr_agg t @ take k (drop (nat (tr_offset t)) items)" "tr_expected t1 = Some (int (length items))"
  shows "finish_list c t1 = Finished (drop (nat (lc_initial_offset c)) items)"
proof -
  let ?j = "nat (tr_offset t)" and ?a = "nat (lc_initial_offset c)"
  have aj: "?a \<le> ?j" and a0: "0 \<le> lc_initial_offset c" using on by (auto simp: on_course_def)
  have "tr_agg t1 = take (?j + k - ?a) (drop ?a items)"
    using slice_append [OF aj, of items k] on unfolding t1(1) on_course_def by metis
  then have agg: "tr_agg t1 = drop ?a items" using k by simp
  have "int (length (drop ?a items)) = max (int (length items) - lc_initial_offset c) 0" using a0 by simp
  then show ?thesis by (simp add: finish_list_def t1(2) agg)
qed

lemma traverse_served:
  assumes "serves E c base items" "unbounded c" "length items \<le> 10000"
    and "distinct (map pagination_record_signature items)" and "on_course c base items t"
  shows "fst (traverse E c t s) = Inr (drop (nat (lc_initial_offset c)) items)"
  using assms(5)
proof (induct "length items - nat (tr_offset t)" arbitrary: t s rule: less_induct)
  case less
  note on = less.prems
  have cur: "cursor c base (tr_query t) (tr_offset t)" and o: "0 \<le> tr_offset t" and pg: "tr_pages t < hard_max_pages"
    using on by (auto simp: on_course_def)
  obtain k nxt s' where f: "fetch_page E (lc_path c) (lc_normalized c) (tr_query t) s =
      (Inr \<lparr>pg_results = take k (drop (nat (tr_offset t)) items), pg_next = nxt, pg_count = Some (int (length items))\<rparr>, s')"
    and nxt: "if nat (tr_offset t) + k < length items
      then 0 < k \<and> (\<exists>np. nxt = Some (np, at_offset base (tr_offset t + int k)) \<and> normalize_path np = lc_normalized c)
      else nxt = None"
    using serves_fetch [OF assms(1) cur o, of s] by blast
  let ?p = "\<lparr>pg_results = take k (drop (nat (tr_offset t)) items), pg_next = nxt, pg_count = Some (int (length items))\<rparr>"
  define t1 where "t1 = t\<lparr>tr_agg := tr_agg t @ take k (drop (nat (tr_offset t)) items),
      tr_seen := tr_seen t @ map pagination_record_signature (take k (drop (nat (tr_offset t)) items)),
      tr_pages := tr_pages t + 1, tr_expected := Some (int (length items)), tr_paginated := Some True\<rparr>"
  have a: "accept_page c t ?p = Inr t1"
    using accept_served [OF on assms(2,3,4) refl, of k nxt] by (simp add: t1_def)
  show ?case
  proof (cases "nat (tr_offset t) + k < length items")
    case False
    then have "list_step_of c t ?p = Finished (drop (nat (lc_initial_offset c)) items)"
      using nxt a finish_served [OF on False, of t1] by (simp add: list_step_of_def t1_def)
    then show ?thesis using f pg by (subst traverse.simps) simp
  next
    case True
    with nxt obtain np where k: "0 < k" and np: "nxt = Some (np, at_offset base (tr_offset t + int k))"
      "normalize_path np = lc_normalized c" by auto
    obtain t2 where adv: "advance_link c t1 (int k) np (at_offset base (tr_offset t + int k)) = NextPage t2"
      and on2: "on_course c base items t2" and o2: "tr_offset t2 = tr_offset t + int k"
      using advance_served [OF on assms(2,1,3) k True t1_def np(2)] by blast
    have len: "length (take k (drop (nat (tr_offset t)) items)) = k" using True by simp
    have step: "list_step_of c t ?p = NextPage t2" using a np adv len by (simp add: list_step_of_def)
    have "length items - nat (tr_offset t2) < length items - nat (tr_offset t)"
      using True k o unfolding o2 by (simp add: nat_add_distrib)
    from less.hyps [OF this on2] show ?thesis using f pg step by (subst traverse.simps) simp
  qed
qed

text \<open>
  \<^bold>\<open>C16.\<close> From a server that pages a collection of at most 10000 different records, in slices of any
  sizes it chooses, an uncached list call returns exactly the collection from the initial offset
  on, in order.
\<close>

theorem list_returns_collection:
  assumes "serves E c base items" "unbounded c" "0 \<le> lc_initial_offset c" "length items \<le> 10000"
    and "distinct (map pagination_record_signature items)"
  shows "fst (list_uncached E c s) = Inr (map (new_record (lc_normalized c)) (drop (nat (lc_initial_offset c)) items))"
proof -
  have "on_course c base items (first_traversal c)"
    using assms(3) by (simp add: on_course_def first_traversal_def cursor_def hard_max_pages_def)
  from traverse_served [OF assms(1,2,4,5) this, of s] show ?thesis
    by (auto simp: list_uncached_def split: prod.splits)
qed

text \<open>A server that pages two records at a time, reading the offset of the query.\<close>

definition demo_items :: "pyobj list" where
  "demo_items = map (\<lambda>i. [(''id'', PInt i)]) [1, 2, 3]"

definition two_page_request :: "api_request \<Rightarrow> unit \<Rightarrow> (py_exc + api_response) \<times> unit" where
  "two_page_request rq w =
     (let n = (case rq_query rq of None \<Rightarrow> 0 | Some q \<Rightarrow> (case pagination_offset q of None \<Rightarrow> 0 | Some i \<Rightarrow> i))
      in (Inr (page_of demo_items n 2
            (if nat n + 2 < 3 then PStr (''http://netbox/api/x/?offset='' @ int_str (n + 2)) else PNone)), w))"

definition two_page_env :: "unit netenv" where
  "two_page_env =
     \<lparr>request = two_page_request, sleep = (\<lambda>d w. w), clock = (\<lambda>w. 0), jitter = (\<lambda>w. 0), api_id = 7, max_retries = 5,
      retry_delay = 2, cache_cfg = \<lparr>cache_ttl = 60, cache_max_entries = 8, cache_max_bytes = 512\<rparr>\<rparr>"

lemma two_page_serves: "serves two_page_env demo_list [] demo_items"
proof -
  have link: "parse_next_link (PStr ''http://netbox/api/x/?offset=2'') = Some (''/api/x/'', at_offset [] 2)" by code_simp
  have norm: "normalize_path ''/api/x/'' = ''/api/x/''" and two: "int_str 2 = ''2''" by code_simp+
  have "\<exists>k next_link w'.
      request two_page_env \<lparr>rq_method = ''GET'', rq_path = lc_normalized demo_list, rq_query = q, rq_payload = PNone\<rparr> w
        = (Inr (page_of demo_items n k next_link), w') \<and>
      (if nat n + k < length demo_items
       then 0 < k \<and> (\<exists>np. parse_next_link next_link = Some (np, at_offset [] (n + int k)) \<and>
                          normalize_path np = lc_normalized demo_list)
       else next_link = PNone)" if "cursor demo_list [] q n" "0 \<le> n" for q n w
  proof -
    have off: "(case q of None \<Rightarrow> 0 | Some q' \<Rightarrow> (case pagination_offset q' of None \<Rightarrow> 0 | Some i \<Rightarrow> i)) = n"
      using that by (auto simp: cursor_def demo_list_def at_offset_def pagination_offset_def offset_value_def int_str_def)
    show ?thesis
    proof (cases "n = 0")
      case True
      then show ?thesis using off link norm
        by (intro exI [of _ 2] exI [of _ "PStr ''http://netbox/api/x/?offset=2''"] exI [of _ "()"])
          (auto simp: two_page_env_def two_page_request_def demo_list_def demo_items_def two)
    next
      case False
      then have "\<not> nat n + 2 < 3" using that(2) by linarith
      then show ?thesis using off
        by (intro exI [of _ 2] exI [of _ PNone] exI [of _ "()"])
          (auto simp: two_page_env_def two_page_request_def demo_items_def)
    qed
  qed
  moreover have "pagination_query_multimap (Some []) = pagination_query_multimap (lc_query demo_list)" by code_simp
  ultimately show ?thesis unfolding serves_def by (simp add: dict_wf_def)
qed

theorem list_returns_collection_witness:
  "fst (list_uncached two_page_env demo_list \<lparr>srv = (), gcache = empty_cache\<rparr>) =
     Inr (map (new_record ''/api/x/'') demo_items)"
proof -
  have "unbounded demo_list" "0 \<le> lc_initial_offset demo_list" "lc_normalized demo_list = ''/api/x/''"
    "lc_initial_offset demo_list = 0" "length demo_items \<le> 10000"
    by (simp_all add: unbounded_def demo_list_def demo_items_def)
  moreover have "distinct (map pagination_record_signature demo_items)" by code_simp
  ultimately show ?thesis
    using list_returns_collection [OF two_page_serves, of "\<lparr>srv = (), gcache = empty_cache\<rparr>"] by simp
qed


subsection \<open>Observations\<close>

text \<open>An item of a page that is no object is not refused: it becomes an empty record.\<close>

lemma non_object_item_accepted:
  "map_sum id pg_results (decode_page ''/api/x/'' (PList [PInt 5])) = Inr [[]]"
  by code_simp

end
