(* ===== verification/Rest_Reconcile.thy ===== *)
theory Rest_Reconcile
  imports Rest_List
begin

text \<open>
  Creating and reconciling NetBox records (\<^verbatim>\<open>netbox_rest.py\<close>, \<^verbatim>\<open>rest_create_async\<close> to
  \<^verbatim>\<open>rest_reconcile_async_with_status\<close>, and \<^verbatim>\<open>ensure_tag_async\<close>): look a record up, create it, or patch the
  fields that differ.

  A schema is \<open>None\<close> for \<^verbatim>\<open>dict\<close>, or the function that validates a payload and dumps it without nulls
  (pydantic, not under the repository); the normalizer of a current record is the caller's function. Records are
  values: an operation that changes a record in place returns it changed. The sets of field names
  are lists. A \<^verbatim>\<open>TypeError\<close> for an unhashable lookup value is an \<open>OtherError\<close>.
\<close>

type_synonym normalizer = "pyobj \<Rightarrow> py_exc + pyobj"


subsection \<open>Lookups\<close>

definition present :: "pyval \<Rightarrow> bool" where
  "present v = (v \<noteq> PNone \<and> v \<noteq> PStr [])"

definition present_items :: "pyobj \<Rightarrow> pyobj" where
  "present_items d = filter (\<lambda>(k, v). present v) d"

fun hashable :: "pyval \<Rightarrow> bool" where
  "hashable (PList _) = False"
| "hashable (PDict _) = False"
| "hashable _ = True"

definition unhashable_error :: py_exc where
  "unhashable_error = OtherError ''unhashable type''"

type_synonym lookup_key = "(string \<times> pyval) list"

definition same_key :: "lookup_key \<Rightarrow> lookup_key \<Rightarrow> bool" where
  "same_key a b = list_all2 (\<lambda>(k, v) (k', v'). k = k' \<and> py_eq v v') a b"

definition add_candidate :: "pyobj \<Rightarrow> py_exc + pyobj list \<Rightarrow> py_exc + pyobj list" where
  "add_candidate c acc =
     (case acc of
        Inl e \<Rightarrow> Inl e
      | Inr cs \<Rightarrow>
          (let normalized = present_items c in
           if normalized = [] then Inr cs
           else if \<not> list_all (\<lambda>(k, v). hashable v) normalized then Inl unhashable_error
           else if list_ex (\<lambda>c'. same_key (sort_key fst c') (sort_key fst normalized)) cs then Inr cs
           else Inr (cs @ [normalized])))"

definition candidate_reuse_lookups :: "pyobj \<Rightarrow> pyobj \<Rightarrow> py_exc + pyobj list" where
  "candidate_reuse_lookups lookup payload =
     (let single = map (\<lambda>f. [(f, obj_get payload f)])
            (filter (\<lambda>f. present (obj_get payload f)) [''slug'', ''name'', ''model'']);
          by_site = (if present (obj_get payload ''name'') \<and> present (obj_get payload ''site'')
                     then [[(''name'', obj_get payload ''name''), (''site_id'', obj_get payload ''site'')]] else []);
          by_model = (if present (obj_get payload ''manufacturer'') \<and> present (obj_get payload ''model'')
                      then [[(''manufacturer_id'', obj_get payload ''manufacturer''), (''model'', obj_get payload ''model'')]]
                      else [])
      in fold add_candidate ([lookup] @ single @ by_site @ by_model) (Inr []))"


subsection \<open>Create\<close>

definition create_request :: "'w netenv \<Rightarrow> string \<Rightarrow> pyobj \<Rightarrow> ('w, rest_record) rest_op" where
  "create_request E path payload s =
     (case call E (''create '' @ path)
             \<lparr>rq_method = ''POST'', rq_path = normalize_path path, rq_query = None, rq_payload = PDict payload\<rparr> s of
        (Inl e, s') \<Rightarrow> (Inl e, s')
      | (Inr (PDict body), s') \<Rightarrow>
          (Inr (new_record (normalize_path path) body),
           s'\<lparr>gcache := invalidate_get_cache_for_record (api_id E) (normalize_path path) body (gcache s')\<rparr>)
      | (Inr _, s') \<Rightarrow>
          (Inl (proxbox_exc ''NetBox REST create response was not a JSON object'' PNone None None), s'))"

definition first_two :: "pyobj \<Rightarrow> pyobj option" where
  "first_two query = Some (dict_set ''limit'' (PInt 2) query)"

definition is_already_created ::
  "'w netenv \<Rightarrow> string \<Rightarrow> pyobj option \<Rightarrow> 'w rst \<Rightarrow> rest_record option \<times> 'w rst" where
  "is_already_created E path lookup s =
     (case lookup of
        None \<Rightarrow> (None, s)
      | Some l \<Rightarrow>
          if l = [] then (None, s)
          else (case rest_first E path (first_two l) s of
                  (Inl e, s') \<Rightarrow> (None, s')
                | (Inr r, s') \<Rightarrow> (r, s')))"

definition safe_create_retry :: "pyobj option \<Rightarrow> py_exc \<Rightarrow> bool" where
  "safe_create_retry lookup e = (lookup \<noteq> None \<and> is_transient_netbox_error e \<or> is_connection_refused_error e)"

text \<open>The attempts from \<open>attempt\<close> on, with \<open>left\<close> more after this one.\<close>

fun create_from ::
  "'w netenv \<Rightarrow> string \<Rightarrow> pyobj \<Rightarrow> pyobj option \<Rightarrow> nat \<Rightarrow> nat \<Rightarrow> ('w, rest_record) rest_op" where
  "create_from E path payload lookup attempt left s =
     (case (if attempt > 0 then is_already_created E path lookup s else (None, s)) of
        (Some existing, s1) \<Rightarrow> (Inr existing, s1)
      | (None, s1) \<Rightarrow>
          (case create_request E path payload s1 of
             (Inr r, s2) \<Rightarrow> (Inr r, s2)
           | (Inl e, s2) \<Rightarrow>
               (case left of
                  0 \<Rightarrow> (Inl e, s2)
                | Suc left' \<Rightarrow>
                    if \<not> safe_create_retry lookup e then (Inl e, s2)
                    else create_from E path payload lookup (attempt + 1) left' (back_off E attempt e s2))))"

declare create_from.simps [simp del]

definition rest_create :: "'w netenv \<Rightarrow> string \<Rightarrow> pyobj \<Rightarrow> pyobj option \<Rightarrow> ('w, rest_record) rest_op" where
  "rest_create E path payload lookup s = create_from E path payload lookup 0 (max_retries E) s"

text \<open>The first candidate lookup that finds a record.\<close>

fun first_existing :: "'w netenv \<Rightarrow> string \<Rightarrow> pyobj list \<Rightarrow> ('w, rest_record option) rest_op" where
  "first_existing E path [] s = (Inr None, s)"
| "first_existing E path (c # cs) s =
     (case rest_first E path (first_two c) s of
        (Inl e, s') \<Rightarrow> (Inl e, s')
      | (Inr (Some r), s') \<Rightarrow> (Inr (Some r), s')
      | (Inr None, s') \<Rightarrow> first_existing E path cs s')"

definition ensure_after_failure ::
  "'w netenv \<Rightarrow> string \<Rightarrow> pyobj list \<Rightarrow> py_exc \<Rightarrow> ('w, rest_record) rest_op" where
  "ensure_after_failure E path candidates err s =
     (case err of
        OtherError _ \<Rightarrow> (Inl err, s)
      | ProxboxException _ detail _ _ \<Rightarrow>
          if \<not> is_duplicate_error detail then (Inl err, s)
          else (case first_existing E path candidates s of
                  (Inl e, s') \<Rightarrow> (Inl e, s')
                | (Inr (Some r), s') \<Rightarrow> (Inr r, s')
                | (Inr None, s') \<Rightarrow> (Inl err, s')))"

definition rest_ensure :: "'w netenv \<Rightarrow> string \<Rightarrow> pyobj \<Rightarrow> pyobj \<Rightarrow> ('w, rest_record) rest_op" where
  "rest_ensure E path lookup payload s =
     (case candidate_reuse_lookups lookup payload of
        Inl e \<Rightarrow> (Inl e, s)
      | Inr candidates \<Rightarrow>
          (case first_existing E path candidates s of
             (Inl e, s') \<Rightarrow> (Inl e, s')
           | (Inr (Some r), s') \<Rightarrow> (Inr r, s')
           | (Inr None, s') \<Rightarrow>
               (case rest_create E path payload (Some lookup) s' of
                  (Inr r, s'') \<Rightarrow> (Inr r, s'')
                | (Inl e, s'') \<Rightarrow> ensure_after_failure E path candidates e s'')))"


subsection \<open>What to patch\<close>

definition drop_nulls :: "pyobj \<Rightarrow> pyobj" where
  "drop_nulls d = filter (\<lambda>(k, v). v \<noteq> PNone) d"

definition schema_dump :: "normalizer option \<Rightarrow> normalizer" where
  "schema_dump schema d = (case schema of None \<Rightarrow> Inr (drop_nulls d) | Some validate \<Rightarrow> validate d)"

definition current_payload :: "normalizer option \<Rightarrow> normalizer \<Rightarrow> rest_record \<Rightarrow> py_exc + pyobj" where
  "current_payload schema nrm r =
     (case nrm (rec_data r) of Inl e \<Rightarrow> Inl e | Inr d \<Rightarrow> schema_dump schema d)"

definition patch_payload :: "pyobj \<Rightarrow> pyobj \<Rightarrow> string list \<Rightarrow> string list option \<Rightarrow> pyobj" where
  "patch_payload desired current nullable patchable =
     (let differing = filter (\<lambda>(k, v). \<not> py_eq (obj_get current k) v) desired;
          nulled = fold (\<lambda>f d. if obj_get current f \<noteq> PNone \<and> map_of desired f = None then dict_set f PNone d else d)
                     nullable differing
      in case patchable of
           None \<Rightarrow> nulled
         | Some allowed \<Rightarrow> filter (\<lambda>(k, v). k \<in> set allowed) nulled)"

definition set_fields :: "pyobj \<Rightarrow> rest_record \<Rightarrow> rest_record" where
  "set_fields flds r = fold (\<lambda>(k, v). rec_set k v) flds r"


subsection \<open>Reconcile one record\<close>

datatype reconcile_status = Created | Updated | Unchanged

record recon_call =
  rc_path :: string
  rc_lookup :: pyobj
  rc_payload :: pyobj
  rc_schema :: "normalizer option"
  rc_normalize :: normalizer
  rc_patchable :: "string list option"
  rc_nullable :: "string list"
  rc_strict :: bool
  rc_field_map :: "(string, string) pydict"

definition lookup_candidates :: "recon_call \<Rightarrow> pyobj \<Rightarrow> py_exc + pyobj list" where
  "lookup_candidates c desired =
     (if rc_strict c then Inr [rc_lookup c] else candidate_reuse_lookups (rc_lookup c) desired)"

definition query_candidate :: "recon_call \<Rightarrow> pyobj \<Rightarrow> pyobj" where
  "query_candidate c candidate =
     (if rc_field_map c = [] then candidate
      else fold (\<lambda>(k, v). dict_set (case map_of (rc_field_map c) k of None \<Rightarrow> k | Some k' \<Rightarrow> k') v) candidate [])"

definition invalid_choice :: "py_exc \<Rightarrow> bool" where
  "invalid_choice e =
     (case e of
        OtherError _ \<Rightarrow> False
      | ProxboxException _ detail _ _ \<Rightarrow> py_contains ''Select a valid choice'' (py_str detail))"

fun find_among :: "'w netenv \<Rightarrow> recon_call \<Rightarrow> pyobj list \<Rightarrow> ('w, rest_record option) rest_op" where
  "find_among E c [] s = (Inr None, s)"
| "find_among E c (candidate # cs) s =
     (case rest_first E (rc_path c) (first_two (query_candidate c candidate)) s of
        (Inl e, s') \<Rightarrow> if invalid_choice e then (Inr None, s') else (Inl e, s')
      | (Inr (Some r), s') \<Rightarrow> (Inr (Some r), s')
      | (Inr None, s') \<Rightarrow> find_among E c cs s')"

definition find_existing :: "'w netenv \<Rightarrow> recon_call \<Rightarrow> pyobj \<Rightarrow> ('w, rest_record option) rest_op" where
  "find_existing E c desired s =
     (case lookup_candidates c desired of
        Inl e \<Rightarrow> (Inl e, s)
      | Inr cs \<Rightarrow> find_among E c cs s)"

definition matches_candidate :: "pyobj \<Rightarrow> pyobj \<Rightarrow> bool" where
  "matches_candidate current candidate = list_all (\<lambda>(k, v). py_eq (obj_get current k) v) candidate"

definition scan_match :: "recon_call \<Rightarrow> pyobj list \<Rightarrow> rest_record \<Rightarrow> bool" where
  "scan_match c candidates r =
     (case current_payload (rc_schema c) (rc_normalize c) r of
        Inl e \<Rightarrow> False
      | Inr current \<Rightarrow> list_ex (matches_candidate current) candidates)"

definition scan_existing :: "'w netenv \<Rightarrow> recon_call \<Rightarrow> pyobj \<Rightarrow> ('w, rest_record option) rest_op" where
  "scan_existing E c desired s =
     (case lookup_candidates c desired of
        Inl e \<Rightarrow> (Inl e, s)
      | Inr cs \<Rightarrow>
          (case rest_list_paginated E (rc_path c) (Some [(''offset'', PInt 0)]) 200 (Some 10000) s of
             (Inl e, s') \<Rightarrow> (Inl e, s')
           | (Inr rs, s') \<Rightarrow> (Inr (find (scan_match c cs) rs), s')))"

definition reconcile_existing ::
  "'w netenv \<Rightarrow> recon_call \<Rightarrow> pyobj \<Rightarrow> rest_record \<Rightarrow> ('w, rest_record \<times> reconcile_status) rest_op" where
  "reconcile_existing E c desired r s =
     (case current_payload (rc_schema c) (rc_normalize c) r of
        Inl e \<Rightarrow> (Inl e, s)
      | Inr current \<Rightarrow>
          (case patch_payload desired current (rc_nullable c) (rc_patchable c) of
             [] \<Rightarrow> (Inr (r, Unchanged), s)
           | p # ps \<Rightarrow>
               (case rec_save E (set_fields (p # ps) r) s of
                  (Inl e, s') \<Rightarrow> (Inl e, s')
                | (Inr r', s') \<Rightarrow> (Inr (r', Updated), s'))))"

text \<open>One attempt to find the record NetBox reported as a duplicate.\<close>

definition refetch :: "'w netenv \<Rightarrow> recon_call \<Rightarrow> pyobj \<Rightarrow> ('w, rest_record option) rest_op" where
  "refetch E c desired s0 =
     (let s = s0\<lparr>gcache := invalidate_get_cache_for_path (api_id E) (normalize_path (rc_path c)) (gcache s0)\<rparr>
      in case find_existing E c desired s of
           (Inl e, s') \<Rightarrow> (Inl e, s')
         | (Inr (Some r), s') \<Rightarrow> (Inr (Some r), s')
         | (Inr None, s') \<Rightarrow> scan_existing E c desired s')"

definition duplicate_refetch_attempts :: nat where
  "duplicate_refetch_attempts = 3"

fun resolve_duplicate ::
  "'w netenv \<Rightarrow> recon_call \<Rightarrow> pyobj \<Rightarrow> nat \<Rightarrow> nat \<Rightarrow> ('w, rest_record \<times> reconcile_status) rest_op" where
  "resolve_duplicate E c desired attempt 0 s =
     (Inr (new_record (normalize_path (rc_path c)) desired, Unchanged), s)"
| "resolve_duplicate E c desired attempt (Suc left) s =
     (case refetch E c desired s of
        (Inl e, s') \<Rightarrow> (Inl e, s')
      | (Inr (Some r), s') \<Rightarrow> reconcile_existing E c desired r s'
      | (Inr None, s') \<Rightarrow>
          resolve_duplicate E c desired (attempt + 1) left
            (if left > 0 then sleep_for E (0.1 * (real attempt + 1)) s' else s'))"

definition create_or_resolve ::
  "'w netenv \<Rightarrow> recon_call \<Rightarrow> pyobj \<Rightarrow> ('w, rest_record \<times> reconcile_status) rest_op" where
  "create_or_resolve E c desired s =
     (case rest_create E (rc_path c) desired None s of
        (Inr r, s') \<Rightarrow> (Inr (r, Created), s')
      | (Inl (OtherError t), s') \<Rightarrow> (Inl (OtherError t), s')
      | (Inl (ProxboxException m detail p st), s') \<Rightarrow>
          if \<not> is_duplicate_error detail then (Inl (ProxboxException m detail p st), s')
          else resolve_duplicate E c desired 0 duplicate_refetch_attempts s')"

text \<open>The argument \<^verbatim>\<open>existing_record\<close>: \<open>None\<close> when it is not given.\<close>

definition rest_reconcile_impl ::
  "'w netenv \<Rightarrow> recon_call \<Rightarrow> rest_record option option \<Rightarrow> ('w, rest_record \<times> reconcile_status) rest_op" where
  "rest_reconcile_impl E c existing_record s =
     (case schema_dump (rc_schema c) (rc_payload c) of
        Inl e \<Rightarrow> (Inl e, s)
      | Inr desired \<Rightarrow>
          (case (case existing_record of None \<Rightarrow> find_existing E c desired s | Some r \<Rightarrow> (Inr r, s)) of
             (Inl e, s') \<Rightarrow> (Inl e, s')
           | (Inr (Some r), s') \<Rightarrow> reconcile_existing E c desired r s'
           | (Inr None, s') \<Rightarrow> create_or_resolve E c desired s'))"

definition rest_reconcile ::
  "'w netenv \<Rightarrow> recon_call \<Rightarrow> rest_record option option \<Rightarrow> ('w, rest_record) rest_op" where
  "rest_reconcile E c existing_record s =
     (case rest_reconcile_impl E c existing_record s of
        (Inl e, s') \<Rightarrow> (Inl e, s')
      | (Inr (r, _), s') \<Rightarrow> (Inr r, s'))"

definition rest_reconcile_with_status ::
  "'w netenv \<Rightarrow> recon_call \<Rightarrow> rest_record option option \<Rightarrow> ('w, rest_record \<times> reconcile_status) rest_op" where
  "rest_reconcile_with_status E c existing_record s = rest_reconcile_impl E c existing_record s"


subsection \<open>Tags\<close>

text \<open>A tag is a record or a dictionary; both are read as a dictionary.\<close>

definition nested_tag_payload :: "pyobj \<Rightarrow> pyobj list" where
  "nested_tag_payload tag =
     (let slug = obj_get tag ''slug''; name = obj_get tag ''name''; color = obj_get tag ''color''
      in if \<not> truthy slug \<or> \<not> truthy name then []
         else [[(''name'', name), (''slug'', slug)] @ (if truthy color then [(''color'', color)] else [])])"

definition is_hex_char :: "char \<Rightarrow> bool" where
  "is_hex_char ch = (ch \<in> set ''0123456789abcdef'')"

definition normalize_tag_color :: "string \<Rightarrow> string" where
  "normalize_tag_color color =
     (let normalized = py_lower (dropWhile (\<lambda>ch. ch = CHR ''#'') (py_strip color))
      in if length normalized = 3 \<and> list_all is_hex_char normalized
         then concat (map (\<lambda>ch. [ch, ch]) normalized) else normalized)"

definition tag_fields :: normalizer where
  "tag_fields r =
     Inr [(''name'', obj_get r ''name''), (''slug'', obj_get r ''slug''), (''color'', obj_get r ''color''),
          (''description'', obj_get r ''description'')]"

definition tag_call :: "normalizer option \<Rightarrow> string \<Rightarrow> string \<Rightarrow> string \<Rightarrow> string \<Rightarrow> recon_call" where
  "tag_call tag_schema name slug color description =
     \<lparr>rc_path = ''/api/extras/tags/'', rc_lookup = [(''slug'', PStr slug)],
      rc_payload = [(''name'', PStr name), (''slug'', PStr slug), (''color'', PStr (normalize_tag_color color)),
                    (''description'', PStr description)],
      rc_schema = tag_schema, rc_normalize = tag_fields,
      rc_patchable = Some [''name'', ''color'', ''description''], rc_nullable = [], rc_strict = False, rc_field_map = []\<rparr>"

definition ensure_tag ::
  "'w netenv \<Rightarrow> normalizer option \<Rightarrow> string \<Rightarrow> string \<Rightarrow> string \<Rightarrow> string \<Rightarrow> ('w, rest_record) rest_op" where
  "ensure_tag E tag_schema name slug color description s =
     (case rest_reconcile E (tag_call tag_schema name slug color description) None s of
        (Inr r, s') \<Rightarrow> (Inr r, s')
      | (Inl (OtherError t), s') \<Rightarrow> (Inl (OtherError t), s')
      | (Inl (ProxboxException m detail p st), s') \<Rightarrow>
          if \<not> is_duplicate_error detail then (Inl (ProxboxException m detail p st), s')
          else (case rest_first E ''/api/extras/tags/'' (Some [(''slug'', PStr slug)]) s' of
                  (Inl e, s2) \<Rightarrow> (Inl e, s2)
                | (Inr (Some r), s2) \<Rightarrow> (Inr r, s2)
                | (Inr None, s2) \<Rightarrow>
                    (case rest_first E ''/api/extras/tags/'' (Some [(''name'', PStr name)]) s2 of
                       (Inl e, s3) \<Rightarrow> (Inl e, s3)
                     | (Inr (Some r), s3) \<Rightarrow> (Inr r, s3)
                     | (Inr None, s3) \<Rightarrow> (Inl (ProxboxException m detail p st), s3))))"


subsection \<open>The patch is minimal and converges\<close>

lemma dict_wf_fold_set [simp]: "dict_wf d \<Longrightarrow> dict_wf (fold (\<lambda>(k, v). dict_set k v) p d)"
  by (induct p arbitrary: d) auto

lemma map_of_fold_set:
  "dict_wf p \<Longrightarrow> map_of (fold (\<lambda>(k, v). dict_set k v) p d) k = (case map_of p k of Some v \<Rightarrow> Some v | None \<Rightarrow> map_of d k)"
proof (induct p arbitrary: d)
  case (Cons kv p)
  then have "map_of p (fst kv) = None" by (cases kv) (auto simp: dict_wf_def map_of_eq_None_iff)
  with Cons show ?case by (cases kv) (auto simp: dict_wf_def split: option.splits)
qed simp

lemma fold_null_wf: "dict_wf d \<Longrightarrow> dict_wf (fold (\<lambda>f d. if P f then dict_set f PNone d else d) fs d)"
  by (induct fs arbitrary: d) auto

lemma map_of_fold_null:
  "map_of (fold (\<lambda>f d. if P f then dict_set f PNone d else d) fs d) k =
     (if k \<in> set fs \<and> P k then Some PNone else map_of d k)"
  by (induct fs arbitrary: d) auto

definition allows :: "string list option \<Rightarrow> string \<Rightarrow> bool" where
  "allows patchable k = (case patchable of None \<Rightarrow> True | Some allowed \<Rightarrow> k \<in> set allowed)"

lemma patch_payload_wf: "dict_wf desired \<Longrightarrow> dict_wf (patch_payload desired current nullable patchable)"
  by (auto simp: patch_payload_def Let_def fold_null_wf split: option.splits)

lemma map_of_patch:
  assumes "dict_wf desired"
  shows "map_of (patch_payload desired current nullable patchable) k =
    (if \<not> allows patchable k then None
     else case map_of desired k of
            Some v \<Rightarrow> if py_eq (obj_get current k) v then None else Some v
          | None \<Rightarrow> if k \<in> set nullable \<and> obj_get current k \<noteq> PNone then Some PNone else None)"
  using assms
  by (auto simp: patch_payload_def Let_def allows_def map_of_fold_null fold_null_wf map_of_filter_wf split: option.splits)

lemma obj_get_drop_nulls: "dict_wf d \<Longrightarrow> obj_get (drop_nulls d) k = obj_get d k"
  by (auto simp: obj_get_def drop_nulls_def map_of_filter_wf split: option.splits)

text \<open>What a server holds that stores the fields of a PATCH as they were sent.\<close>

definition stored_after :: "pyobj \<Rightarrow> pyobj \<Rightarrow> pyobj" where
  "stored_after patch current = drop_nulls (fold (\<lambda>(k, v). dict_set k v) patch current)"

lemma obj_get_stored:
  "dict_wf patch \<Longrightarrow> dict_wf current \<Longrightarrow>
     obj_get (stored_after patch current) k = (case map_of patch k of Some v \<Rightarrow> v | None \<Rightarrow> obj_get current k)"
  by (simp add: stored_after_def obj_get_drop_nulls) (auto simp: obj_get_def map_of_fold_set split: option.splits)

lemma map_of_None_Nil: "(\<And>k. map_of d k = None) \<Longrightarrow> d = []"
  by (metis map_of_eq_empty_iff ext)

text \<open>
  \<^bold>\<open>C17.\<close> A reconcile patches no more than it must and settles in one step. Every field of the patch
  is patchable and either carries the desired value where the current one differs, or clears a field
  named nullable that the desired payload no longer has; every patchable difference is in it. Once the
  server stores the patch, the next reconcile of the same payload has nothing to patch.
\<close>

theorem patch_minimal_and_converges:
  assumes "obj_wf desired" "dict_wf current"
  shows "(\<forall>k v. map_of (patch_payload desired current nullable patchable) k = Some v \<longleftrightarrow>
      allows patchable k \<and>
      (map_of desired k = Some v \<and> \<not> py_eq (obj_get current k) v \<or>
       map_of desired k = None \<and> v = PNone \<and> k \<in> set nullable \<and> obj_get current k \<noteq> PNone)) \<and>
    patch_payload desired (stored_after (patch_payload desired current nullable patchable) current) nullable patchable = []"
proof
  from assms have wf: "dict_wf desired" by simp
  show "\<forall>k v. map_of (patch_payload desired current nullable patchable) k = Some v \<longleftrightarrow>
      allows patchable k \<and>
      (map_of desired k = Some v \<and> \<not> py_eq (obj_get current k) v \<or>
       map_of desired k = None \<and> v = PNone \<and> k \<in> set nullable \<and> obj_get current k \<noteq> PNone)"
    by (auto simp: map_of_patch [OF wf] split: option.splits)
  let ?p = "patch_payload desired current nullable patchable"
  have refl: "map_of desired k = Some v \<Longrightarrow> py_eq v v" for k v
    using obj_wf_get [OF assms(1), of k] by (simp add: obj_get_def)
  have "map_of (patch_payload desired (stored_after ?p current) nullable patchable) k = None" for k
    using refl [of k] wf assms(2)
    by (auto simp: map_of_patch obj_get_stored patch_payload_wf split: option.splits)
  then show "patch_payload desired (stored_after ?p current) nullable patchable = []" by (rule map_of_None_Nil)
qed

theorem patch_minimal_and_converges_witness:
  "patch_payload [(''name'', PStr ''a''), (''vcpus'', PInt 2)] [(''name'', PStr ''a''), (''vcpus'', PFloat 400 2), (''bridge'', PInt 7)]
     [''bridge''] None = [(''vcpus'', PInt 2), (''bridge'', PNone)] \<and>
   patch_payload [(''name'', PStr ''a''), (''vcpus'', PInt 2)]
     (stored_after [(''vcpus'', PInt 2), (''bridge'', PNone)]
        [(''name'', PStr ''a''), (''vcpus'', PFloat 400 2), (''bridge'', PInt 7)]) [''bridge''] None = []"
proof -
  have "patch_payload [(''name'', PStr ''a''), (''vcpus'', PInt 2)] [(''name'', PStr ''a''), (''vcpus'', PFloat 400 2), (''bridge'', PInt 7)]
     [''bridge''] None = [(''vcpus'', PInt 2), (''bridge'', PNone)]" by code_simp
  then show ?thesis
    using patch_minimal_and_converges [of "[(''name'', PStr ''a''), (''vcpus'', PInt 2)]"
        "[(''name'', PStr ''a''), (''vcpus'', PFloat 400 2), (''bridge'', PInt 7)]" "[''bridge'']" None]
    by (simp add: obj_wf_def dict_wf_def)
qed


subsection \<open>The writes of a reconcile\<close>

text \<open>The requests of a log that may change NetBox.\<close>

definition writes :: "request_log \<Rightarrow> request_log" where
  "writes l = filter (\<lambda>(rq, out). rq_method rq \<noteq> ''GET'') l"

text \<open>\<open>reads_only\<close>: an operation that sends nothing but GET requests.\<close>

definition reads_only :: "('w \<times> request_log, 'a) rest_op \<Rightarrow> bool" where
  "reads_only body = (\<forall>s. writes (log_of (snd (body s))) = writes (log_of s))"

lemma reads_onlyD: "reads_only body \<Longrightarrow> body s = (r, s') \<Longrightarrow> writes (log_of s') = writes (log_of s)"
  unfolding reads_only_def by (metis snd_conv)

lemma writes_append [simp]: "writes (l @ l') = writes l @ writes l'"
  by (simp add: writes_def)

lemma log_sleep [simp]: "log_of (sleep_for (logged E) d s) = log_of s"
  by (cases "srv s") (simp add: sleep_for_def log_of_def logged_def)

lemma page_request_reads: "reads_only (page_request (logged E) path pp q)"
  unfolding reads_only_def
proof
  fix s
  let ?rq = "\<lparr>rq_method = ''GET'', rq_path = pp, rq_query = q, rq_payload = PNone\<rparr>"
  obtain out where "log_of (snd (call (logged E) (''list '' @ path) ?rq s)) = log_of s @ [(?rq, out)]"
    using one_request_call [of E "''list '' @ path" ?rq] by (auto simp: one_request_def)
  then show "writes (log_of (snd (page_request (logged E) path pp q s))) = writes (log_of s)"
    by (auto simp: page_request_def writes_def split: prod.splits sum.splits)
qed

lemma retry_from_reads:
  assumes "reads_only body"
  shows "reads_only (retry_from (logged E) safe body a n)"
  unfolding reads_only_def
proof
  fix s
  show "writes (log_of (snd (retry_from (logged E) safe body a n s))) = writes (log_of s)"
  proof (induct n arbitrary: a s)
    case (Suc n)
    show ?case using Suc reads_onlyD [OF assms, of s] by (auto split: prod.splits sum.splits)
  qed (use assms in \<open>simp add: reads_only_def\<close>)
qed

lemma fetch_page_reads: "reads_only (fetch_page (logged E) path pp q)"
  using retry_from_reads [OF page_request_reads] by (simp add: reads_only_def fetch_page_def with_retry_def)

lemma traverse_reads: "writes (log_of (snd (traverse (logged E) c t s))) = writes (log_of s)"
proof (induct "logged E" c t s rule: traverse.induct)
  case (1 c t s)
  show ?case
    using 1 reads_onlyD [OF fetch_page_reads, of E "lc_path c" "lc_normalized c" "tr_query t" s]
    by (subst traverse.simps) (auto split: prod.splits sum.splits list_step.splits)
qed

lemma list_traverse_reads: "reads_only (rest_list_traverse (logged E) path query mr mo)"
  unfolding reads_only_def
proof
  fix s
  show "writes (log_of (snd (rest_list_traverse (logged E) path query mr mo s))) = writes (log_of s)"
    using traverse_reads [of E]
    by (auto simp: rest_list_traverse_def list_uncached_def split: prod.splits sum.splits option.splits)
      (metis log_cache snd_conv)+
qed

lemma rest_first_reads: "reads_only (rest_first (logged E) path query)"
  unfolding reads_only_def
proof
  fix s
  obtain r s' where l: "rest_list (logged E) path query s = (r, s')" by force
  then have "writes (log_of s') = writes (log_of s)"
    using reads_onlyD [OF list_traverse_reads] by (auto simp: rest_list_def)
  then show "writes (log_of (snd (rest_first (logged E) path query s))) = writes (log_of s)"
    using l by (auto simp: rest_first_def split: sum.splits list.splits)
qed

lemma rest_list_paginated_reads: "reads_only (rest_list_paginated (logged E) path q n mo)"
  by (simp add: reads_only_def rest_list_paginated_def Let_def list_traverse_reads [unfolded reads_only_def, rule_format]
      split: sum.splits)

lemma find_among_reads: "writes (log_of (snd (find_among (logged E) c cs s))) = writes (log_of s)"
proof (induct cs arbitrary: s)
  case (Cons candidate cs)
  show ?case
    using Cons reads_onlyD [OF rest_first_reads, of E "rc_path c" "first_two (query_candidate c candidate)" s]
    by (auto split: prod.splits sum.splits option.splits)
qed simp

lemma find_existing_reads: "reads_only (find_existing (logged E) c desired)"
  by (auto simp: reads_only_def find_existing_def find_among_reads split: sum.splits)

lemma scan_existing_reads: "reads_only (scan_existing (logged E) c desired)"
  unfolding reads_only_def
proof
  fix s
  show "writes (log_of (snd (scan_existing (logged E) c desired s))) = writes (log_of s)"
    using reads_onlyD [OF rest_list_paginated_reads, of E "rc_path c" "Some [(''offset'', PInt 0)]" 200 "Some 10000" s]
    by (auto simp: scan_existing_def split: sum.splits prod.splits)
qed

lemma refetch_reads: "reads_only (refetch (logged E) c desired)"
  unfolding reads_only_def
proof
  fix s0 :: "('a \<times> request_log) rst"
  let ?s = "s0\<lparr>gcache := invalidate_get_cache_for_path (api_id E) (normalize_path (rc_path c)) (gcache s0)\<rparr>"
  obtain r s' where f: "find_existing (logged E) c desired ?s = (r, s')" by force
  then have w: "writes (log_of s') = writes (log_of s0)"
    using reads_onlyD [OF find_existing_reads] by fastforce
  show "writes (log_of (snd (refetch (logged E) c desired s0))) = writes (log_of s0)"
    using f w scan_existing_reads [of E c desired]
    by (auto simp: refetch_def Let_def reads_only_def split: sum.splits option.splits)
qed

lemma create_no_lookup:
  "create_from E path payload None a n s = retry_from E is_connection_refused_error (create_request E path payload) a n s"
  by (induct n arbitrary: a s)
    (subst create_from.simps, auto simp: is_already_created_def safe_create_retry_def split: prod.splits sum.splits)+

abbreviation create_rq :: "string \<Rightarrow> pyobj \<Rightarrow> api_request" where
  "create_rq path payload \<equiv>
     \<lparr>rq_method = ''POST'', rq_path = normalize_path path, rq_query = None, rq_payload = PDict payload\<rparr>"

abbreviation not_an_object :: py_exc where
  "not_an_object \<equiv> proxbox_exc ''NetBox REST create response was not a JSON object'' PNone None None"

lemma one_request_create:
  "one_request (create_request (logged E) path payload) (create_rq path payload)
     (\<lambda>e out. outcome_error (''create '' @ path) out = Some e \<or> e = not_an_object)"
  unfolding one_request_def
proof
  fix s
  let ?op = "''create '' @ path" and ?rq = "create_rq path payload"
  obtain out where c: "log_of (snd (call (logged E) ?op ?rq s)) = log_of s @ [(?rq, out)]"
    "\<forall>e. fst (call (logged E) ?op ?rq s) = Inl e \<longrightarrow> outcome_error ?op out = Some e"
    using one_request_call [of E ?op ?rq] by (auto simp: one_request_def)
  obtain r s' where call: "call (logged E) ?op ?rq s = (r, s')" by force
  have "log_of (snd (create_request (logged E) path payload s)) = log_of s' \<and>
      (\<forall>e. fst (create_request (logged E) path payload s) = Inl e \<longrightarrow> r = Inl e \<or> e = not_an_object)"
    using call by (cases r) (auto simp: create_request_def split: pyval.splits)
  with c call show "\<exists>out. log_of (snd (create_request (logged E) path payload s)) = log_of s @ [(?rq, out)] \<and>
      (\<forall>e. fst (create_request (logged E) path payload s) = Inl e \<longrightarrow> outcome_error ?op out = Some e \<or> e = not_an_object)"
    by (intro exI [of _ out]) auto
qed

lemma not_an_object_class: "\<not> is_connection_refused_error not_an_object" "\<not> is_duplicate_error PNone"
  by code_simp+

lemma create_writes:
  "\<exists>posts. log_of (snd (rest_create (logged E) path payload None s)) = log_of s @ map (Pair (create_rq path payload)) posts \<and>
     posts \<noteq> [] \<and> length posts \<le> max_retries E + 1 \<and>
     (\<forall>out \<in> set (butlast posts). \<exists>e. outcome_error (''create '' @ path) out = Some e \<and> is_connection_refused_error e) \<and>
     (\<forall>e. fst (rest_create (logged E) path payload None s) = Inl e \<longrightarrow>
        outcome_error (''create '' @ path) (last posts) = Some e \<or> e = not_an_object)"
  using with_retry_log [OF one_request_create [of E path payload], of E is_connection_refused_error s] not_an_object_class(1)
  unfolding rest_create_def with_retry_def create_no_lookup max_retries_logged
  by (elim exE conjE) (intro exI conjI, assumption, assumption, simp, blast, blast)

lemma set_fields_dirty:
  "dict_wf p \<Longrightarrow> set (rec_dirty r) \<inter> fst ` set p = {} \<Longrightarrow>
     rec_dirty (set_fields p r) = rec_dirty r @ map fst p \<and>
     (\<forall>k. map_of (rec_data (set_fields p r)) k = (case map_of p k of Some v \<Rightarrow> Some v | None \<Rightarrow> map_of (rec_data r) k))"
proof (induct p arbitrary: r)
  case (Cons kv p)
  obtain k v where kv: "kv = (k, v)" by force
  from Cons.prems kv have "dict_wf p" "k \<notin> fst ` set p" by (auto simp: dict_wf_def)
  moreover from this have "map_of p k = None" by (simp add: map_of_eq_None_iff)
  ultimately show ?case using Cons.hyps [of "rec_set k v r"] Cons.prems kv
    by (auto simp: set_fields_def rec_set_def split: option.splits)
qed (simp add: set_fields_def)

lemma dirty_payload_set_fields:
  assumes "dict_wf p" "rec_dirty r = []"
  shows "dirty_payload (set_fields p r) = p"
proof -
  note d = set_fields_dirty [OF assms(1), of r]
  have m: "(k, v) \<in> set p \<Longrightarrow> map_of p k = Some v" for k v using assms(1) by (simp add: map_of_mem_wf)
  have "dirty_payload (set_fields p r) = map (\<lambda>f. (f, obj_get (rec_data (set_fields p r)) f))
      (filter (\<lambda>f. map_of (rec_data (set_fields p r)) f \<noteq> None) (map fst p))"
    using d assms(2) by (simp add: dirty_payload_def)
  also have "\<dots> = map (\<lambda>(k, v). (k, obj_get (rec_data (set_fields p r)) k)) p"
    using d assms(2) m by (auto simp: filter_map comp_def intro!: map_cong filter_True)
  also have "\<dots> = p"
    using d assms(2) m by (intro map_idI) (auto simp: obj_get_def)
  finally show ?thesis .
qed

text \<open>The PATCH requests a reconcile may send: at most one, with the patch of a current record as its body.\<close>

definition patches_ok :: "recon_call \<Rightarrow> pyobj \<Rightarrow> request_log \<Rightarrow> bool" where
  "patches_ok c desired patches =
     (length patches \<le> 1 \<and>
      (\<forall>(rq, out) \<in> set patches. rq_method rq = ''PATCH'' \<and>
         (\<exists>r current. current_payload (rc_schema c) (rc_normalize c) r = Inr current \<and>
            rq_payload rq = PDict (patch_payload desired current (rc_nullable c) (rc_patchable c)))))"

definition fits_status :: "py_exc + rest_record \<times> reconcile_status \<Rightarrow> (py_exc + api_response) list \<Rightarrow> request_log \<Rightarrow> bool" where
  "fits_status res posts patches =
     (case res of
        Inl _ \<Rightarrow> True
      | Inr (r, st) \<Rightarrow>
          (case st of Created \<Rightarrow> posts \<noteq> [] \<and> patches = [] | Updated \<Rightarrow> patches \<noteq> [] | Unchanged \<Rightarrow> patches = []))"

lemma save_writes:
  assumes "dirty_payload r \<noteq> []"
  shows "\<exists>patches. log_of (snd (rec_save (logged E) r s)) = log_of s @ patches \<and> length patches \<le> 1 \<and>
    (\<forall>(rq, out) \<in> set patches. rq_method rq = ''PATCH'' \<and> rq_payload rq = PDict (dirty_payload r)) \<and>
    (\<forall>r'. fst (rec_save (logged E) r s) = Inr r' \<longrightarrow> patches \<noteq> [])"
proof (cases "rec_detail_path r")
  case (Inl e)
  with assms show ?thesis by (intro exI [of _ "[]"]) (simp add: rec_save_def)
next
  case (Inr path)
  let ?rq = "\<lparr>rq_method = ''PATCH'', rq_path = path, rq_query = None, rq_payload = PDict (dirty_payload r)\<rparr>"
  obtain out where o: "log_of (snd (call (logged E) (''save record '' @ path) ?rq s)) = log_of s @ [(?rq, out)]"
    using one_request_call [of E "''save record '' @ path" ?rq] by (auto simp: one_request_def)
  obtain x s' where call: "call (logged E) (''save record '' @ path) ?rq s = (x, s')" by force
  have "log_of (snd (rec_save (logged E) r s)) = log_of s'"
    using assms Inr call by (cases x) (auto simp: rec_save_def split: pyval.splits)
  with o call show ?thesis by (intro exI [of _ "[(?rq, out)]"]) simp
qed

lemma reconcile_existing_writes:
  assumes "dict_wf desired" "rec_dirty r = []"
  shows "\<exists>patches. writes (log_of (snd (reconcile_existing (logged E) c desired r s))) = writes (log_of s) @ patches \<and>
    patches_ok c desired patches \<and> fits_status (fst (reconcile_existing (logged E) c desired r s)) posts patches"
proof (cases "current_payload (rc_schema c) (rc_normalize c) r")
  case (Inl e)
  then show ?thesis by (intro exI [of _ "[]"]) (simp add: reconcile_existing_def patches_ok_def fits_status_def)
next
  case (Inr current)
  let ?p = "patch_payload desired current (rc_nullable c) (rc_patchable c)"
  show ?thesis
  proof (cases "?p = []")
    case True
    with Inr show ?thesis
      by (intro exI [of _ "[]"]) (simp add: reconcile_existing_def patches_ok_def fits_status_def)
  next
    case False
    have d: "dirty_payload (set_fields ?p r) = ?p"
      using dirty_payload_set_fields [OF patch_payload_wf [OF assms(1)] assms(2)] .
    obtain res s' where sv: "rec_save (logged E) (set_fields ?p r) s = (res, s')" by force
    obtain patches where p: "log_of s' = log_of s @ patches" "length patches \<le> 1"
      "\<forall>(rq, out) \<in> set patches. rq_method rq = ''PATCH'' \<and> rq_payload rq = PDict ?p"
      "\<forall>r'. res = Inr r' \<longrightarrow> patches \<noteq> []"
      using save_writes [of "set_fields ?p r" E s] False d sv by auto
    have "reconcile_existing (logged E) c desired r s =
        (case res of Inl e \<Rightarrow> (Inl e, s') | Inr r' \<Rightarrow> (Inr (r', Updated), s'))"
      using False Inr sv by (cases ?p) (simp_all add: reconcile_existing_def split: sum.splits)
    moreover have "writes patches = patches" using p(3) by (auto simp: writes_def filter_id_conv)
    moreover have "patches_ok c desired patches" using p(2,3) Inr by (fastforce simp: patches_ok_def)
    ultimately show ?thesis using p(1,4)
      by (intro exI [of _ patches]) (auto simp: fits_status_def split: sum.splits)
  qed
qed

lemma new_record_clean [simp]: "rec_dirty (new_record p d) = []"
  by (simp add: new_record_def)

lemma list_traverse_clean:
  "rest_list_traverse E path query mr mo s = (Inr rs, s') \<Longrightarrow> r \<in> set rs \<Longrightarrow> rec_dirty r = []"
  by (auto simp: rest_list_traverse_def list_uncached_def list_from_cache_def split: sum.splits if_splits prod.splits option.splits)

lemma rest_first_clean: "rest_first E path query s = (Inr (Some r), s') \<Longrightarrow> rec_dirty r = []"
  by (auto simp: rest_first_def rest_list_def dest: list_traverse_clean split: prod.splits sum.splits list.splits)

lemma paginated_clean: "rest_list_paginated E path q n mo s = (Inr rs, s') \<Longrightarrow> r \<in> set rs \<Longrightarrow> rec_dirty r = []"
  by (auto simp: rest_list_paginated_def Let_def dest: list_traverse_clean split: sum.splits if_splits)

lemma find_among_clean: "find_among E c cs s = (Inr (Some r), s') \<Longrightarrow> rec_dirty r = []"
  by (induct cs arbitrary: s) (auto dest: rest_first_clean split: prod.splits sum.splits option.splits if_splits)

lemma find_existing_clean: "find_existing E c desired s = (Inr (Some r), s') \<Longrightarrow> rec_dirty r = []"
  by (auto simp: find_existing_def dest: find_among_clean split: sum.splits)

lemma refetch_clean: "refetch E c desired s = (Inr (Some r), s') \<Longrightarrow> rec_dirty r = []"
  by (auto simp: refetch_def scan_existing_def Let_def find_Some_iff dest!: find_existing_clean paginated_clean nth_mem
      split: sum.splits option.splits prod.splits)

lemma resolve_duplicate_writes:
  assumes "dict_wf desired"
  shows "\<exists>patches. writes (log_of (snd (resolve_duplicate (logged E) c desired a n s))) = writes (log_of s) @ patches \<and>
    patches_ok c desired patches \<and> fits_status (fst (resolve_duplicate (logged E) c desired a n s)) posts patches"
proof (induct n arbitrary: a s)
  case 0
  show ?case by (intro exI [of _ "[]"]) (simp add: patches_ok_def fits_status_def)
next
  case (Suc n)
  obtain res s' where f: "refetch (logged E) c desired s = (res, s')" by force
  then have w: "writes (log_of s') = writes (log_of s)" by (rule reads_onlyD [OF refetch_reads])
  consider (err) e where "res = Inl e" | (found) r where "res = Inr (Some r)" | (again) "res = Inr None"
    by (cases res) auto
  then show ?case
  proof cases
    case err
    with f w show ?thesis by (intro exI [of _ "[]"]) (simp add: patches_ok_def fits_status_def)
  next
    case found
    then have "rec_dirty r = []" using refetch_clean f by fastforce
    from reconcile_existing_writes [OF assms this, of E c s' posts] found f w show ?thesis by simp
  next
    case again
    with Suc [of "a + 1" "if n > 0 then sleep_for (logged E) (0.1 * (real a + 1)) s' else s'"] f w show ?thesis by auto
  qed
qed

text \<open>The POST requests of a reconcile: each one but the last was refused before it reached NetBox.\<close>

definition posts_ok :: "nat \<Rightarrow> string \<Rightarrow> (py_exc + api_response) list \<Rightarrow> bool" where
  "posts_ok retries path posts =
     (length posts \<le> retries + 1 \<and>
      (\<forall>out \<in> set (butlast posts). \<exists>e. outcome_error (''create '' @ path) out = Some e \<and> is_connection_refused_error e))"

definition ends_in_duplicate :: "string \<Rightarrow> (py_exc + api_response) list \<Rightarrow> bool" where
  "ends_in_duplicate path posts =
     (case outcome_error (''create '' @ path) (last posts) of
        Some (ProxboxException _ detail _ _) \<Rightarrow> is_duplicate_error detail
      | _ \<Rightarrow> False)"

lemma create_or_resolve_writes:
  assumes "dict_wf desired"
  shows "\<exists>posts patches.
    writes (log_of (snd (create_or_resolve (logged E) c desired s))) =
      writes (log_of s) @ map (Pair (create_rq (rc_path c) desired)) posts @ patches \<and>
    posts_ok (max_retries E) (rc_path c) posts \<and> patches_ok c desired patches \<and>
    (posts \<noteq> [] \<and> patches \<noteq> [] \<longrightarrow> ends_in_duplicate (rc_path c) posts) \<and>
    fits_status (fst (create_or_resolve (logged E) c desired s)) posts patches"
proof -
  obtain res s' where cr: "rest_create (logged E) (rc_path c) desired None s = (res, s')" by force
  obtain posts where l: "log_of s' = log_of s @ map (Pair (create_rq (rc_path c) desired)) posts" and ne: "posts \<noteq> []"
    and ok: "posts_ok (max_retries E) (rc_path c) posts"
    and err: "\<forall>e. res = Inl e \<longrightarrow> outcome_error (''create '' @ rc_path c) (last posts) = Some e \<or> e = not_an_object"
    using create_writes [of E "rc_path c" desired s] cr by (auto simp: posts_ok_def)
  have w: "writes (log_of s') = writes (log_of s) @ map (Pair (create_rq (rc_path c) desired)) posts"
    using l by (simp add: writes_def)
  have no_patch: "patches_ok c desired []" by (simp add: patches_ok_def)
  consider (ok) r where "res = Inr r" | (other) e where "res = Inl e" "\<And>m d p st. e = ProxboxException m d p st \<Longrightarrow> \<not> is_duplicate_error d"
    | (dup) m d p st where "res = Inl (ProxboxException m d p st)" "is_duplicate_error d"
    by (cases res) (metis, metis)
  then show ?thesis
  proof cases
    case ok
    then show ?thesis using cr w \<open>posts_ok _ _ posts\<close> no_patch ne
      by (intro exI [of _ posts] exI [of _ "[]"]) (simp add: create_or_resolve_def fits_status_def)
  next
    case other
    then have "create_or_resolve (logged E) c desired s = (Inl e, s')"
      using cr by (cases e) (auto simp: create_or_resolve_def)
    with w \<open>posts_ok _ _ posts\<close> no_patch show ?thesis
      by (intro exI [of _ posts] exI [of _ "[]"]) (simp add: fits_status_def)
  next
    case dup
    then have "ends_in_duplicate (rc_path c) posts"
      using err not_an_object_class(2) by (auto simp: ends_in_duplicate_def proxbox_exc_def)
    with dup cr w \<open>posts_ok _ _ posts\<close>
      resolve_duplicate_writes [OF assms, of E c 0 duplicate_refetch_attempts s' posts]
    show ?thesis by (intro exI [of _ posts]) (auto simp: create_or_resolve_def)
  qed
qed

text \<open>
  \<^bold>\<open>C18.\<close> The writes of a reconcile, against any server: POST requests of the desired payload, at most
  \<open>max_retries + 1\<close> and every one but the last refused before it reached NetBox, then at most one
  PATCH whose body is the patch of a current record; a PATCH follows a POST only when NetBox answered
  the POST as a duplicate. The reported status agrees: \<open>Created\<close> means the record was posted and not
  patched, \<open>Updated\<close> that a patch was sent, \<open>Unchanged\<close> that none was.
\<close>

theorem reconcile_writes:
  assumes "schema_dump (rc_schema c) (rc_payload c) = Inr desired" "dict_wf desired"
    and "\<And>r. existing = Some (Some r) \<Longrightarrow> rec_dirty r = []"
  shows "\<exists>posts patches.
    writes (log_of (snd (rest_reconcile_with_status (logged E) c existing s))) =
      writes (log_of s) @ map (Pair \<lparr>rq_method = ''POST'', rq_path = normalize_path (rc_path c), rq_query = None,
                                      rq_payload = PDict desired\<rparr>) posts @ patches \<and>
    posts_ok (max_retries E) (rc_path c) posts \<and> patches_ok c desired patches \<and>
    (posts \<noteq> [] \<and> patches \<noteq> [] \<longrightarrow> ends_in_duplicate (rc_path c) posts) \<and>
    fits_status (fst (rest_reconcile_with_status (logged E) c existing s)) posts patches"
proof -
  let ?look = "case existing of None \<Rightarrow> find_existing (logged E) c desired s | Some r \<Rightarrow> (Inr r, s)"
  obtain res s' where f: "?look = (res, s')" by force
  have w: "writes (log_of s') = writes (log_of s)"
    using f reads_onlyD [OF find_existing_reads, of E c desired s] by (auto split: option.splits)
  have clean: "res = Inr (Some r) \<Longrightarrow> rec_dirty r = []" for r
    using f find_existing_clean [of "logged E" c desired s r s'] assms(3) by (auto split: option.splits)
  have no_post: "posts_ok (max_retries E) (rc_path c) []" by (simp add: posts_ok_def)
  have impl: "rest_reconcile_with_status (logged E) c existing s =
      (case res of Inl e \<Rightarrow> (Inl e, s') | Inr None \<Rightarrow> create_or_resolve (logged E) c desired s'
       | Inr (Some r) \<Rightarrow> reconcile_existing (logged E) c desired r s')"
    using assms(1) f by (simp add: rest_reconcile_with_status_def rest_reconcile_impl_def split: option.splits sum.splits)
  consider (err) e where "res = Inl e" | (found) r where "res = Inr (Some r)" | (none) "res = Inr None" by (cases res) auto
  then show ?thesis
  proof cases
    case err
    with impl w no_post show ?thesis
      by (intro exI [of _ "[]"]) (simp add: fits_status_def patches_ok_def)
  next
    case found
    from reconcile_existing_writes [OF assms(2) clean [OF this], of E c s' "[]"] obtain patches where
      "writes (log_of (snd (reconcile_existing (logged E) c desired r s'))) = writes (log_of s') @ patches"
      "patches_ok c desired patches" "fits_status (fst (reconcile_existing (logged E) c desired r s')) [] patches" by blast
    with impl found w no_post show ?thesis by (auto intro!: exI [of _ "[] :: (py_exc + api_response) list"])
  next
    case none
    with create_or_resolve_writes [OF assms(2), of E c s'] impl w show ?thesis by simp
  qed
qed

text \<open>A NetBox that holds no record and answers a POST with the record it created.\<close>

definition demo_call :: recon_call where
  "demo_call =
     \<lparr>rc_path = ''/api/x/'', rc_lookup = [(''name'', PStr ''a'')], rc_payload = [(''name'', PStr ''a''), (''role'', PNone)],
      rc_schema = None, rc_normalize = Inr, rc_patchable = None, rc_nullable = [], rc_strict = True, rc_field_map = []\<rparr>"

definition demo_script :: "(py_exc + api_response) list" where
  "demo_script =
     [Inr (json_response 200 (PDict [(''count'', PInt 0), (''next'', PNone), (''results'', PList [])])),
      Inl (OtherError ''Connection refused''),
      Inr (json_response 201 (PDict [(''id'', PInt 4), (''name'', PStr ''a'')]))]"

theorem reconcile_writes_witness:
  "(\<exists>posts patches.
      writes (log_of (snd (rest_reconcile_with_status (logged (scripted_env 5)) demo_call None (start_state demo_script)))) =
        map (Pair \<lparr>rq_method = ''POST'', rq_path = ''/api/x/'', rq_query = None, rq_payload = PDict [(''name'', PStr ''a'')]\<rparr>) posts
          @ patches \<and> posts \<noteq> [] \<and> patches = [] \<and> posts_ok 5 ''/api/x/'' posts) \<and>
   (case fst (rest_reconcile_with_status (logged (scripted_env 5)) demo_call None (start_state demo_script)) of
      Inr (r, st) \<Rightarrow> st = Created | _ \<Rightarrow> False)"
proof -
  have c: "case fst (rest_reconcile_with_status (logged (scripted_env 5)) demo_call None (start_state demo_script)) of
      Inr (r, st) \<Rightarrow> st = Created | _ \<Rightarrow> False"
    "schema_dump (rc_schema demo_call) (rc_payload demo_call) = Inr [(''name'', PStr ''a'')]"
    "normalize_path (rc_path demo_call) = ''/api/x/''"
    by code_simp+
  have l: "writes (log_of (start_state demo_script)) = []" "max_retries (scripted_env 5) = 5" "rc_path demo_call = ''/api/x/''"
    by (simp_all add: writes_def log_of_def start_state_def scripted_env_def demo_call_def)
  show ?thesis
    using c l reconcile_writes [OF c(2), of None "scripted_env 5" "start_state demo_script"]
    by (auto simp: dict_wf_def fits_status_def split: sum.splits prod.splits reconcile_status.splits)
qed


subsection \<open>A retry that reads a cached lookup\<close>

text \<open>
  A server that keeps the records it is sent and loses its answer to the first POST. \<open>rest_ensure\<close> looks
  the record up, finds nothing and the empty answer is cached under the same query; the lookup before
  the second POST is answered from the cache, so the record is created twice. Without the cache the
  second lookup finds it.
\<close>

fun lossy_request :: "api_request \<Rightarrow> pyval list \<Rightarrow> (py_exc + api_response) \<times> pyval list" where
  "lossy_request rq w =
     (if rq_method rq = ''POST''
      then (if w = [] then Inl (OtherError ''Server disconnected'') else Inr (json_response 201 (PDict [(''id'', PInt 2)])),
            w @ [rq_payload rq])
      else (Inr (json_response 200 (PDict [(''count'', PInt (int (length w))), (''next'', PNone), (''results'', PList w)])), w))"

definition lossy_env :: "seconds \<Rightarrow> pyval list netenv" where
  "lossy_env ttl =
     \<lparr>request = lossy_request, sleep = (\<lambda>d w. w), clock = (\<lambda>w. 0), jitter = (\<lambda>w. 0), api_id = 7, max_retries = 2,
      retry_delay = 2, cache_cfg = \<lparr>cache_ttl = ttl, cache_max_entries = 8, cache_max_bytes = 512\<rparr>\<rparr>"

lemma ensure_retry_reads_cached_lookup:
  "length (srv (snd (rest_ensure (lossy_env 60) ''/api/x/'' [(''name'', PStr ''a'')] [(''name'', PStr ''a'')]
     \<lparr>srv = [], gcache = empty_cache\<rparr>))) = 2"
  "length (srv (snd (rest_ensure (lossy_env 0) ''/api/x/'' [(''name'', PStr ''a'')] [(''name'', PStr ''a'')]
     \<lparr>srv = [], gcache = empty_cache\<rparr>))) = 1"
  by code_simp+

text \<open>With an empty lookup there is nothing to look up, and the transient failure is retried all the same.\<close>

lemma empty_lookup_retries_blindly:
  "length (srv (snd (rest_create (lossy_env 0) ''/api/x/'' [(''name'', PStr ''a'')] (Some []) \<lparr>srv = [], gcache = empty_cache\<rparr>))) = 2"
  "length (srv (snd (rest_create (lossy_env 0) ''/api/x/'' [(''name'', PStr ''a'')] None \<lparr>srv = [], gcache = empty_cache\<rparr>))) = 1"
  by code_simp+


subsection \<open>Tag colours\<close>

lemma hex_plain:
  assumes "is_hex_char (lower_char ch)"
  shows "\<not> py_space ch \<and> ch \<noteq> CHR ''#''"
proof (rule ccontr)
  assume "\<not> (\<not> py_space ch \<and> ch \<noteq> CHR ''#'')"
  then have "(of_char ch :: nat) < 48" by (auto simp: py_space_def Let_def)
  moreover from this have "lower_char ch = ch" by (simp add: lower_char_def)
  moreover have "is_hex_char x \<Longrightarrow> (48 :: nat) \<le> of_char x" for x by (auto simp: is_hex_char_def)
  ultimately show False using assms by fastforce
qed

lemma tag_color_core:
  assumes "list_all is_hex_char (py_lower t)" "t \<noteq> []"
  shows "py_lower (dropWhile (\<lambda>ch. ch = CHR ''#'') (py_strip (replicate n (CHR ''#'') @ t))) = py_lower t"
proof -
  from assms(1) have p: "list_all (\<lambda>ch. \<not> py_space ch \<and> ch \<noteq> CHR ''#'') t"
    using hex_plain by (auto simp: list_all_iff py_lower_def)
  have "\<not> py_space (CHR ''#'')" by code_simp
  then have "list_all (\<lambda>ch. \<not> py_space ch) (replicate n (CHR ''#''))" by (induct n) (simp_all del: One_nat_def)
  moreover from p have "list_all (\<lambda>ch. \<not> py_space ch) t" by (rule list.pred_mono_strong) blast
  ultimately have "list_all (\<lambda>ch. \<not> py_space ch) (replicate n (CHR ''#'') @ t)" by (simp only: list_all_append)
  then have "py_strip (replicate n (CHR ''#'') @ t) = replicate n (CHR ''#'') @ t" by (rule py_strip_no_space)
  moreover from p assms(2) have "dropWhile (\<lambda>ch. ch = CHR ''#'') (replicate n (CHR ''#'') @ t) = t"
    by (cases t) (auto simp: dropWhile_append)
  ultimately show ?thesis by simp
qed

text \<open>
  Six hexadecimal digits in any case and behind any number of \<open>#\<close> become the same digits in lower case;
  three become six, each one doubled.
\<close>

lemma tag_color_normal_form:
  assumes "list_all is_hex_char (py_lower t)"
  shows "length t = 6 \<Longrightarrow> normalize_tag_color (replicate n (CHR ''#'') @ t) = py_lower t"
    and "length t = 3 \<Longrightarrow> normalize_tag_color (replicate n (CHR ''#'') @ t) = concat (map (\<lambda>ch. [ch, ch]) (py_lower t))"
proof -
  have len: "length (py_lower t) = length t" by (simp add: py_lower_def)
  show "length t = 6 \<Longrightarrow> normalize_tag_color (replicate n (CHR ''#'') @ t) = py_lower t"
    "length t = 3 \<Longrightarrow> normalize_tag_color (replicate n (CHR ''#'') @ t) = concat (map (\<lambda>ch. [ch, ch]) (py_lower t))"
    using tag_color_core [OF assms, of n] assms len by (cases t, simp, simp add: normalize_tag_color_def Let_def)+
qed

end
