(* ===== verification/Runtime_Settings.thy ===== *)
theory Runtime_Settings
  imports Py_Values
begin

text \<open>
  The resolution of configuration values (\<^verbatim>\<open>runtime_settings.py\<close>, and \<^verbatim>\<open>NetBoxRestConfig\<close> of
  \<^verbatim>\<open>netbox_rest.py\<close>): an environment variable, then the plugin settings stored in NetBox, then the
  dflt, with bounds. The process environment and the settings document (\<open>None\<close> when it cannot be
  loaded) are one record. A finite float is a real number: rounding to 53 bits and the overflow of
  huge literals to infinity are not modelled, infinities and \<^verbatim>\<open>nan\<close> are.
\<close>

record runtime =
  environ :: "(string, string) pydict"
  settings :: "pyobj option"

datatype pyfloat = Fin real | PosInf | NegInf | NaN


subsection \<open>\<^verbatim>\<open>float(v)\<close>\<close>

definition digit_part :: "string \<Rightarrow> (nat \<times> nat) option" where
  "digit_part s = map_option (\<lambda>n. (n, length (filter (\<lambda>ch. ch \<noteq> CHR ''_'') s))) (py_int_digits s)"

definition mantissa :: "string \<Rightarrow> real option" where
  "mantissa s =
     (let ip = takeWhile (\<lambda>ch. ch \<noteq> CHR ''.'') s;
          fp = drop 1 (dropWhile (\<lambda>ch. ch \<noteq> CHR ''.'') s);
          part = (\<lambda>p. if p = [] then Some (0, 0) else digit_part p)
      in if ip = [] \<and> fp = [] then None
         else case (part ip, part fp) of
           (Some (i, _), Some (f, k)) \<Rightarrow> Some (of_nat i + of_nat f / 10 ^ k)
         | _ \<Rightarrow> None)"

definition signed_digits :: "string \<Rightarrow> int option" where
  "signed_digits s =
     (case s of
        [] \<Rightarrow> None
      | ch # r \<Rightarrow>
          if ch = CHR ''-'' then map_option (\<lambda>n. - int n) (py_int_digits r)
          else map_option int (py_int_digits (if ch = CHR ''+'' then r else s)))"

definition scale10 :: "int \<Rightarrow> real \<Rightarrow> real" where
  "scale10 e x = (if e \<ge> 0 then x * 10 ^ nat e else x / 10 ^ nat (- e))"

definition unsigned_float :: "string \<Rightarrow> pyfloat option" where
  "unsigned_float s =
     (let l = py_lower s;
          m = takeWhile (\<lambda>ch. ch \<noteq> CHR ''e'') l;
          ex = dropWhile (\<lambda>ch. ch \<noteq> CHR ''e'') l
      in if l = ''inf'' \<or> l = ''infinity'' then Some PosInf
         else if l = ''nan'' then Some NaN
         else case (mantissa m, if ex = [] then Some 0 else signed_digits (tl ex)) of
           (Some x, Some e) \<Rightarrow> Some (Fin (scale10 e x))
         | _ \<Rightarrow> None)"

fun float_uminus :: "pyfloat \<Rightarrow> pyfloat" where
  "float_uminus (Fin r) = Fin (- r)"
| "float_uminus PosInf = NegInf"
| "float_uminus NegInf = PosInf"
| "float_uminus NaN = NaN"

definition py_float :: "string \<Rightarrow> pyfloat option" where
  "py_float s =
     (case py_strip s of
        [] \<Rightarrow> None
      | ch # r \<Rightarrow>
          if ch = CHR ''-'' then map_option float_uminus (unsigned_float r)
          else unsigned_float (if ch = CHR ''+'' then r else ch # r))"

fun py_float_of :: "pyval \<Rightarrow> pyfloat option" where
  "py_float_of (PBool b) = Some (Fin (of_bool b))"
| "py_float_of (PInt i) = Some (Fin (of_int i))"
| "py_float_of (PFloat n k) = Some (Fin (of_int n / 10 ^ k))"
| "py_float_of (PStr s) = py_float s"
| "py_float_of _ = None"

text \<open>\<^verbatim>\<open>a < b\<close>; a comparison with \<^verbatim>\<open>nan\<close> is false.\<close>

fun float_less :: "pyfloat \<Rightarrow> pyfloat \<Rightarrow> bool" where
  "float_less (Fin a) (Fin b) = (a < b)"
| "float_less NegInf b = (b \<noteq> NegInf \<and> b \<noteq> NaN)"
| "float_less a PosInf = (a \<noteq> PosInf \<and> a \<noteq> NaN)"
| "float_less _ _ = False"

text \<open>\<^verbatim>\<open>max(a, b)\<close>: the second argument replaces the first only when it is greater.\<close>

definition float_max :: "pyfloat \<Rightarrow> pyfloat \<Rightarrow> pyfloat" where
  "float_max a b = (if float_less a b then b else a)"


subsection \<open>The resolvers\<close>

definition environ_text :: "runtime \<Rightarrow> string \<Rightarrow> string" where
  "environ_text rt env = py_strip (case map_of (environ rt) env of None \<Rightarrow> [] | Some raw \<Rightarrow> raw)"

definition clamp_int :: "int \<Rightarrow> int option \<Rightarrow> int option \<Rightarrow> int" where
  "clamp_int value minimum maximum =
     (case minimum of
        Some lo \<Rightarrow>
          if value < lo then lo
          else (case maximum of Some hi \<Rightarrow> if value > hi then hi else value | None \<Rightarrow> value)
      | None \<Rightarrow> (case maximum of Some hi \<Rightarrow> if value > hi then hi else value | None \<Rightarrow> value))"

definition clamp_float :: "pyfloat \<Rightarrow> pyfloat option \<Rightarrow> pyfloat option \<Rightarrow> pyfloat" where
  "clamp_float value minimum maximum =
     (case minimum of
        Some lo \<Rightarrow>
          if float_less value lo then lo
          else (case maximum of Some hi \<Rightarrow> if float_less hi value then hi else value | None \<Rightarrow> value)
      | None \<Rightarrow> (case maximum of Some hi \<Rightarrow> if float_less hi value then hi else value | None \<Rightarrow> value))"

text \<open>\<^verbatim>\<open>settings.get(key)\<close> when it is neither absent, null nor empty.\<close>

definition settings_value :: "runtime \<Rightarrow> string \<Rightarrow> pyval option" where
  "settings_value rt key =
     (case settings rt of
        None \<Rightarrow> None
      | Some d \<Rightarrow> (let v = obj_get d key in if v = PNone \<or> v = PStr [] then None else Some v))"

definition get_int :: "runtime \<Rightarrow> string \<Rightarrow> string \<Rightarrow> int \<Rightarrow> int option \<Rightarrow> int option \<Rightarrow> int" where
  "get_int rt settings_key env dflt minimum maximum =
     (let raw = environ_text rt env;
          from_env = (if raw = [] then None else py_int raw)
      in case from_env of
           Some n \<Rightarrow> clamp_int n minimum maximum
         | None \<Rightarrow>
             (case settings_value rt settings_key of
                None \<Rightarrow> clamp_int dflt minimum maximum
              | Some v \<Rightarrow>
                  (case py_int_of v of
                     Some n \<Rightarrow> clamp_int n minimum maximum
                   | None \<Rightarrow> clamp_int dflt minimum maximum)))"

definition get_float ::
  "runtime \<Rightarrow> string \<Rightarrow> string \<Rightarrow> pyfloat \<Rightarrow> pyfloat option \<Rightarrow> pyfloat option \<Rightarrow> pyfloat" where
  "get_float rt settings_key env dflt minimum maximum =
     (let raw = environ_text rt env;
          from_env = (if raw = [] then None else py_float raw)
      in case from_env of
           Some x \<Rightarrow> clamp_float x minimum maximum
         | None \<Rightarrow>
             (case settings_value rt settings_key of
                None \<Rightarrow> clamp_float dflt minimum maximum
              | Some v \<Rightarrow>
                  (case py_float_of v of
                     Some x \<Rightarrow> clamp_float x minimum maximum
                   | None \<Rightarrow> clamp_float dflt minimum maximum)))"

definition true_words :: "string list" where
  "true_words = [''1'', ''true'', ''yes'', ''on'']"

definition false_words :: "string list" where
  "false_words = [''0'', ''false'', ''no'', ''off'']"

definition get_plugin_bool :: "runtime \<Rightarrow> string \<Rightarrow> bool \<Rightarrow> bool" where
  "get_plugin_bool rt settings_key dflt =
     (case settings rt of
        None \<Rightarrow> dflt
      | Some d \<Rightarrow>
          (case obj_get d settings_key of
             PBool b \<Rightarrow> b
           | PStr t \<Rightarrow> if py_strip t \<noteq> [] then py_lower (py_strip t) \<in> set true_words else dflt
           | PInt i \<Rightarrow> i \<noteq> 0
           | PFloat n k \<Rightarrow> n \<noteq> 0
           | _ \<Rightarrow> dflt))"

definition get_bool :: "runtime \<Rightarrow> string \<Rightarrow> string \<Rightarrow> bool \<Rightarrow> bool" where
  "get_bool rt settings_key env dflt =
     (let raw = py_lower (environ_text rt env)
      in if raw \<in> set true_words then True
         else if raw \<in> set false_words then False
         else get_plugin_bool rt settings_key dflt)"

definition get_plugin_str :: "runtime \<Rightarrow> string \<Rightarrow> string \<Rightarrow> string" where
  "get_plugin_str rt settings_key dflt =
     (case settings rt of
        None \<Rightarrow> dflt
      | Some d \<Rightarrow>
          (case obj_get d settings_key of
             PNone \<Rightarrow> dflt
           | v \<Rightarrow> if py_strip (py_str v) \<noteq> [] then py_strip (py_str v) else dflt))"

definition get_str :: "runtime \<Rightarrow> string \<Rightarrow> string \<Rightarrow> string \<Rightarrow> string" where
  "get_str rt settings_key env dflt =
     (let raw = environ_text rt env in if raw \<noteq> [] then raw else get_plugin_str rt settings_key dflt)"


subsection \<open>The configuration of the NetBox client\<close>

record netbox_rest_config =
  cfg_max_concurrent :: int
  cfg_max_retries :: int
  cfg_retry_delay :: pyfloat

definition resolve_int :: "runtime \<Rightarrow> string \<Rightarrow> string \<Rightarrow> int \<Rightarrow> int \<Rightarrow> int" where
  "resolve_int rt key env dflt minimum =
     (let raw = environ_text rt env;
          from_env = (if raw = [] then None else py_int raw)
      in case from_env of
           Some n \<Rightarrow> max minimum n
         | None \<Rightarrow>
             (case settings rt of
                None \<Rightarrow> dflt
              | Some d \<Rightarrow>
                  (case py_int_of (case map_of d key of None \<Rightarrow> PInt dflt | Some v \<Rightarrow> v) of
                     Some n \<Rightarrow> max minimum n
                   | None \<Rightarrow> dflt)))"

definition resolve_float :: "runtime \<Rightarrow> string \<Rightarrow> string \<Rightarrow> pyfloat \<Rightarrow> pyfloat \<Rightarrow> pyfloat" where
  "resolve_float rt key env dflt minimum =
     (let raw = environ_text rt env;
          from_env = (if raw = [] then None else py_float raw)
      in case from_env of
           Some x \<Rightarrow> float_max minimum x
         | None \<Rightarrow>
             (case settings rt of
                None \<Rightarrow> dflt
              | Some d \<Rightarrow>
                  (case (case map_of d key of None \<Rightarrow> Some dflt | Some v \<Rightarrow> py_float_of v) of
                     Some x \<Rightarrow> float_max minimum x
                   | None \<Rightarrow> dflt)))"

definition config_from_runtime :: "runtime \<Rightarrow> netbox_rest_config" where
  "config_from_runtime rt =
     \<lparr>cfg_max_concurrent = resolve_int rt ''netbox_max_concurrent'' ''PROXBOX_NETBOX_MAX_CONCURRENT'' 1 1,
      cfg_max_retries = resolve_int rt ''netbox_max_retries'' ''PROXBOX_NETBOX_MAX_RETRIES'' 5 0,
      cfg_retry_delay =
        resolve_float rt ''netbox_retry_delay'' ''PROXBOX_NETBOX_RETRY_DELAY'' (Fin 2) (Fin 0)\<rparr>"

text \<open>\<open>None\<close> is the dropped module global; the first access after that builds the configuration anew.\<close>

definition get_netbox_rest_config ::
  "runtime \<Rightarrow> netbox_rest_config option \<Rightarrow> netbox_rest_config \<times> netbox_rest_config option" where
  "get_netbox_rest_config rt cached =
     (case cached of
        Some c \<Rightarrow> (c, Some c)
      | None \<Rightarrow> (config_from_runtime rt, Some (config_from_runtime rt)))"

definition resolve_get_cache_ttl :: "runtime \<Rightarrow> pyfloat" where
  "resolve_get_cache_ttl rt =
     get_float rt ''netbox_get_cache_ttl'' ''PROXBOX_NETBOX_GET_CACHE_TTL'' (Fin 60) (Some (Fin 0)) None"

definition resolve_get_cache_max_entries :: "runtime \<Rightarrow> int" where
  "resolve_get_cache_max_entries rt =
     get_int rt ''netbox_get_cache_max_entries'' ''PROXBOX_NETBOX_GET_CACHE_MAX_ENTRIES'' 4096 (Some 1) None"

definition resolve_get_cache_max_bytes :: "runtime \<Rightarrow> int" where
  "resolve_get_cache_max_bytes rt =
     get_int rt ''netbox_get_cache_max_bytes'' ''PROXBOX_NETBOX_GET_CACHE_MAX_BYTES'' (50 * 1024 * 1024) (Some 1024) None"

definition normalize_bulk_batch_size :: "runtime \<Rightarrow> int option \<Rightarrow> int" where
  "normalize_bulk_batch_size rt batch_size =
     (case batch_size of
        Some n \<Rightarrow> max 1 n
      | None \<Rightarrow> get_int rt ''bulk_batch_size'' ''PROXBOX_BULK_BATCH_SIZE'' 50 (Some 1) None)"

definition normalize_bulk_batch_delay_ms :: "runtime \<Rightarrow> int option \<Rightarrow> int" where
  "normalize_bulk_batch_delay_ms rt delay_ms =
     (case delay_ms of
        Some n \<Rightarrow> max 0 n
      | None \<Rightarrow> get_int rt ''bulk_batch_delay_ms'' ''PROXBOX_BULK_BATCH_DELAY_MS'' 500 (Some 0) None)"


subsection \<open>Bounds and precedence\<close>

lemma clamp_int_bounds:
  assumes "\<And>lo hi. minimum = Some lo \<Longrightarrow> maximum = Some hi \<Longrightarrow> lo \<le> hi"
  shows "(\<forall>lo. minimum = Some lo \<longrightarrow> lo \<le> clamp_int n minimum maximum) \<and>
    (\<forall>hi. maximum = Some hi \<longrightarrow> clamp_int n minimum maximum \<le> hi)"
  using assms by (cases minimum; cases maximum) (auto simp: clamp_int_def)

lemma clamp_int_id: "lo \<le> n \<Longrightarrow> n \<le> hi \<Longrightarrow> clamp_int n (Some lo) (Some hi) = n"
  by (simp add: clamp_int_def)

lemma get_int_clamped: "\<exists>n. get_int rt key env dflt minimum maximum = clamp_int n minimum maximum"
  by (auto simp: get_int_def Let_def split: option.splits)

lemma get_int_minimum: "lo \<le> get_int rt key env dflt (Some lo) None"
  using get_int_clamped [of rt key env dflt "Some lo" None] by (auto simp: clamp_int_def)

lemma normalize_bulk_batch_size_pos: "1 \<le> normalize_bulk_batch_size rt n"
  by (auto simp: normalize_bulk_batch_size_def get_int_minimum split: option.splits)

lemma normalize_bulk_batch_delay_nonneg: "0 \<le> normalize_bulk_batch_delay_ms rt n"
  by (auto simp: normalize_bulk_batch_delay_ms_def get_int_minimum split: option.splits)

lemma py_int_Nil [simp]: "py_int [] = None"
  by (simp add: py_int_def)

lemma get_int_from_env: "py_int (environ_text rt env) = Some n \<Longrightarrow> get_int rt key env d lo hi = clamp_int n lo hi"
  by (auto simp: get_int_def Let_def)

lemma get_int_from_settings:
  "py_int (environ_text rt env) = None \<Longrightarrow> settings_value rt key = Some v \<Longrightarrow> py_int_of v = Some n \<Longrightarrow>
     get_int rt key env d lo hi = clamp_int n lo hi"
  by (simp add: get_int_def Let_def)

lemma get_int_from_default:
  "py_int (environ_text rt env) = None \<Longrightarrow> (\<And>v. settings_value rt key = Some v \<Longrightarrow> py_int_of v = None) \<Longrightarrow>
     get_int rt key env d lo hi = clamp_int d lo hi"
  by (cases "settings_value rt key") (simp_all add: get_int_def Let_def)

text \<open>
  An integer setting stays within its bounds whatever the environment and the stored settings
  hold, and follows the documented order: an environment variable that reads as an integer decides,
  then a stored value that does, then the default; a text that is no integer is skipped, and a
  deciding value within the bounds is returned unchanged.
\<close>

theorem int_setting_resolution:
  assumes "lo \<le> hi"
  shows "lo \<le> get_int rt key env d (Some lo) (Some hi) \<and> get_int rt key env d (Some lo) (Some hi) \<le> hi \<and>
    (\<forall>n. py_int (environ_text rt env) = Some n \<and> lo \<le> n \<and> n \<le> hi \<longrightarrow> get_int rt key env d (Some lo) (Some hi) = n) \<and>
    (\<forall>v n. py_int (environ_text rt env) = None \<and> settings_value rt key = Some v \<and> py_int_of v = Some n \<and> lo \<le> n \<and> n \<le> hi
       \<longrightarrow> get_int rt key env d (Some lo) (Some hi) = n) \<and>
    (py_int (environ_text rt env) = None \<and> (\<forall>v. settings_value rt key = Some v \<longrightarrow> py_int_of v = None) \<and> lo \<le> d \<and> d \<le> hi
       \<longrightarrow> get_int rt key env d (Some lo) (Some hi) = d)"
proof (intro conjI allI impI)
  obtain n where n: "get_int rt key env d (Some lo) (Some hi) = clamp_int n (Some lo) (Some hi)"
    using get_int_clamped by blast
  show "lo \<le> get_int rt key env d (Some lo) (Some hi)" "get_int rt key env d (Some lo) (Some hi) \<le> hi"
    using assms clamp_int_bounds [of "Some lo" "Some hi" n] by (simp_all add: n)
qed (auto simp: get_int_from_env get_int_from_settings get_int_from_default clamp_int_id)

theorem int_setting_resolution_witness:
  "get_int \<lparr>environ = [(''N'', '' 12 '')], settings = Some [(''n'', PInt 7)]\<rparr> ''n'' ''N'' 5 (Some 1) (Some 20) = 12 \<and>
   get_int \<lparr>environ = [(''N'', ''many'')], settings = Some [(''n'', PStr ''7'')]\<rparr> ''n'' ''N'' 5 (Some 1) (Some 20) = 7 \<and>
   get_int \<lparr>environ = [], settings = None\<rparr> ''n'' ''N'' 5 (Some 1) (Some 20) = 5"
proof -
  have e: "py_int (environ_text \<lparr>environ = [(''N'', '' 12 '')], settings = Some [(''n'', PInt 7)]\<rparr> ''N'') = Some 12"
    "py_int (environ_text \<lparr>environ = [(''N'', ''many'')], settings = Some [(''n'', PStr ''7'')]\<rparr> ''N'') = None"
    "settings_value \<lparr>environ = [(''N'', ''many'')], settings = Some [(''n'', PStr ''7'')]\<rparr> ''n'' = Some (PStr ''7'')"
    "py_int_of (PStr ''7'') = Some 7"
    "py_int (environ_text \<lparr>environ = [], settings = None\<rparr> ''N'') = None"
    "settings_value \<lparr>environ = [], settings = None\<rparr> ''n'' = None"
    by code_simp+
  show ?thesis
    using int_setting_resolution [of 1 20 "\<lparr>environ = [(''N'', '' 12 '')], settings = Some [(''n'', PInt 7)]\<rparr>" "''n''" "''N''" 5]
      int_setting_resolution [of 1 20 "\<lparr>environ = [(''N'', ''many'')], settings = Some [(''n'', PStr ''7'')]\<rparr>" "''n''" "''N''" 5]
      int_setting_resolution [of 1 20 "\<lparr>environ = [], settings = None\<rparr>" "''n''" "''N''" 5] e
    by auto
qed

lemma resolve_int_minimum: "minimum \<le> dflt \<Longrightarrow> minimum \<le> resolve_int rt key env dflt minimum"
  by (auto simp: resolve_int_def Let_def split: option.splits)

lemma float_max_floor: "float_max (Fin lo) x = Fin lo \<or> (x \<noteq> NaN \<and> float_less (Fin lo) x \<and> float_max (Fin lo) x = x)"
  by (cases x) (auto simp: float_max_def)

lemma float_less_asym: "float_less a b \<Longrightarrow> \<not> float_less b a"
  by (cases a; cases b) auto

lemma resolve_float_minimum:
  assumes "lo \<le> d"
  shows "resolve_float rt key env (Fin d) (Fin lo) \<noteq> NaN \<and> \<not> float_less (resolve_float rt key env (Fin d) (Fin lo)) (Fin lo)"
proof -
  have "(\<exists>x. resolve_float rt key env (Fin d) (Fin lo) = float_max (Fin lo) x) \<or> resolve_float rt key env (Fin d) (Fin lo) = Fin d"
    by (auto simp: resolve_float_def Let_def split: option.splits)
  then show ?thesis
  proof
    assume "\<exists>x. resolve_float rt key env (Fin d) (Fin lo) = float_max (Fin lo) x"
    then obtain x where "resolve_float rt key env (Fin d) (Fin lo) = float_max (Fin lo) x" ..
    with float_max_floor [of lo x] float_less_asym [of "Fin lo" x] show ?thesis by auto
  qed (use assms in simp)
qed

text \<open>
  Whatever the environment and the stored settings hold, the NetBox client runs with a
  configuration it can work with: at least one concurrent request, a number of retries that is not
  negative, a retry delay that is a number and not negative, room for at least one cache entry of 1024
  bytes, bulk batches of at least one record and a delay between them that is not negative.
\<close>

theorem client_config_sane:
  "1 \<le> cfg_max_concurrent (config_from_runtime rt) \<and> 0 \<le> cfg_max_retries (config_from_runtime rt) \<and>
   cfg_retry_delay (config_from_runtime rt) \<noteq> NaN \<and> \<not> float_less (cfg_retry_delay (config_from_runtime rt)) (Fin 0) \<and>
   1 \<le> resolve_get_cache_max_entries rt \<and> 1024 \<le> resolve_get_cache_max_bytes rt \<and>
   1 \<le> normalize_bulk_batch_size rt n \<and> 0 \<le> normalize_bulk_batch_delay_ms rt k"
  using resolve_float_minimum [of 0 2 rt] resolve_int_minimum [of 1 1 rt] resolve_int_minimum [of 0 5 rt]
  by (simp add: config_from_runtime_def resolve_get_cache_max_entries_def resolve_get_cache_max_bytes_def get_int_minimum
      normalize_bulk_batch_size_pos normalize_bulk_batch_delay_nonneg)

text \<open>
  The lower bound of the cache's time to live does not stop \<^verbatim>\<open>nan\<close>: the comparisons of the clamp are
  false on it. (An age is never greater than or equal to \<^verbatim>\<open>nan\<close>, so no entry expires.)
\<close>

lemma cache_ttl_can_be_nan:
  "resolve_get_cache_ttl \<lparr>environ = [(''PROXBOX_NETBOX_GET_CACHE_TTL'', ''nan'')], settings = None\<rparr> = NaN"
  by code_simp

end
