(* ===== verification/Bulk_Reconcile.thy ===== *)
theory Bulk_Reconcile
  imports Rest_Reconcile Runtime_Settings
begin

text \<open>
  The bulk reconciler (\<^verbatim>\<open>netbox_rest.py\<close>, \<^verbatim>\<open>rest_bulk_reconcile_async\<close> and
  \<^verbatim>\<open>rest_bulk_reconcile_phases_async\<close>): index the existing records by their lookup fields, split the
  desired payloads into records to create, to patch and to keep, and run the two kinds of writes in
  batches, one record at a time where a batch fails.
\<close>


subsection \<open>Lookup keys\<close>

definition build_lookup_dict :: "pyobj \<Rightarrow> string list \<Rightarrow> pyobj" where
  "build_lookup_dict payload lookup_fields =
     fold (\<lambda>f d. if present (obj_get payload f) then dict_set f (obj_get payload f) d else d) lookup_fields []"

text \<open>The keys of a dictionary differ, so sorting its items never compares two values.\<close>

definition lookup_tuple :: "pyobj \<Rightarrow> lookup_key option" where
  "lookup_tuple lookup =
     (let normalized = present_items lookup in if normalized = [] then None else Some (sort_key fst normalized))"


subsection \<open>Reconcile in bulk\<close>

record bulk_result =
  br_records :: "rest_record list"
  br_created :: nat
  br_updated :: nat
  br_unchanged :: nat
  br_failed :: nat

record bulk_call =
  bc_path :: string
  bc_payloads :: "pyobj list"
  bc_lookup_fields :: "string list"
  bc_schema :: "normalizer option"
  bc_normalize :: normalizer
  bc_patchable :: "string list option"
  bc_batch_size :: "int option"
  bc_batch_delay_ms :: "int option"
  bc_selector :: "(rest_record list \<Rightarrow> rest_record option) option"
  bc_base_query :: "pyobj option"
  bc_field_map :: "(string, string) pydict"
  bc_strict :: bool
  bc_nullable :: "string list"
  bc_fallback :: bool

type_synonym entry = "pyobj \<times> pyobj"

definition key_hashable :: "lookup_key \<Rightarrow> bool" where
  "key_hashable key = list_all (\<lambda>(k, v). hashable v) key"

text \<open>The desired payloads with a lookup, the first of every key; the accumulator holds the keys seen.\<close>

fun desired_entries :: "bulk_call \<Rightarrow> pyobj list \<Rightarrow> lookup_key list \<Rightarrow> py_exc + entry list" where
  "desired_entries c [] seen = Inr []"
| "desired_entries c (payload # rest) seen =
     (case schema_dump (bc_schema c) payload of
        Inl e \<Rightarrow> Inl e
      | Inr desired \<Rightarrow>
          (case lookup_tuple (build_lookup_dict desired (bc_lookup_fields c)) of
             None \<Rightarrow> desired_entries c rest seen
           | Some key \<Rightarrow>
               if \<not> key_hashable key then Inl unhashable_error
               else if list_ex (same_key key) seen then desired_entries c rest seen
               else (case desired_entries c rest (key # seen) of
                       Inl e \<Rightarrow> Inl e
                     | Inr es \<Rightarrow> Inr ((desired, build_lookup_dict desired (bc_lookup_fields c)) # es))))"

text \<open>\<^verbatim>\<open>existing_groups.setdefault(key, []).append(record)\<close>; equal keys are one key.\<close>

type_synonym groups = "(lookup_key \<times> rest_record list) list"

fun add_to_group :: "lookup_key \<Rightarrow> rest_record \<Rightarrow> groups \<Rightarrow> groups" where
  "add_to_group key r [] = [(key, [r])]"
| "add_to_group key r ((k, rs) # gs) = (if same_key k key then (k, rs @ [r]) # gs else (k, rs) # add_to_group key r gs)"

fun group_of :: "lookup_key \<Rightarrow> groups \<Rightarrow> rest_record list" where
  "group_of key [] = []"
| "group_of key ((k, rs) # gs) = (if same_key k key then rs else group_of key gs)"

fun existing_groups :: "bulk_call \<Rightarrow> rest_record list \<Rightarrow> groups \<Rightarrow> py_exc + groups" where
  "existing_groups c [] gs = Inr gs"
| "existing_groups c (r # rs) gs =
     (case current_payload (bc_schema c) (bc_normalize c) r of
        Inl e \<Rightarrow> existing_groups c rs gs
      | Inr current \<Rightarrow>
          (case lookup_tuple (build_lookup_dict current (bc_lookup_fields c)) of
             None \<Rightarrow> existing_groups c rs gs
           | Some key \<Rightarrow>
               if \<not> key_hashable key then Inl unhashable_error
               else existing_groups c rs (add_to_group key r gs)))"

definition select_existing :: "bulk_call \<Rightarrow> groups \<Rightarrow> lookup_key \<Rightarrow> rest_record option" where
  "select_existing c gs key =
     (case group_of key gs of
        [] \<Rightarrow> None
      | r # rs \<Rightarrow>
          (case bc_selector c of
             None \<Rightarrow> Some r
           | Some selector \<Rightarrow> (case selector (r # rs) of Some chosen \<Rightarrow> Some chosen | None \<Rightarrow> Some r)))"

record bulk_plan =
  to_create :: "entry list"
  to_patch :: "(rest_record \<times> pyobj) list"
  kept :: "rest_record list"

definition empty_plan :: bulk_plan where
  "empty_plan = \<lparr>to_create = [], to_patch = [], kept = []\<rparr>"

definition plan_entry :: "bulk_call \<Rightarrow> groups \<Rightarrow> entry \<Rightarrow> bulk_plan \<Rightarrow> py_exc + bulk_plan" where
  "plan_entry c gs e p =
     (case lookup_tuple (snd e) of
        None \<Rightarrow> Inr p
      | Some key \<Rightarrow>
          (case select_existing c gs key of
             None \<Rightarrow> Inr (p\<lparr>to_create := to_create p @ [e]\<rparr>)
           | Some r \<Rightarrow>
               (case current_payload (bc_schema c) (bc_normalize c) r of
                  Inl err \<Rightarrow> Inl err
                | Inr current \<Rightarrow>
                    (case patch_payload (fst e) current (bc_nullable c) (bc_patchable c) of
                       [] \<Rightarrow> Inr (p\<lparr>kept := kept p @ [r]\<rparr>)
                     | f # fs \<Rightarrow> Inr (p\<lparr>to_patch := to_patch p @ [(r, f # fs)]\<rparr>)))))"

fun plan_entries :: "bulk_call \<Rightarrow> groups \<Rightarrow> entry list \<Rightarrow> bulk_plan \<Rightarrow> py_exc + bulk_plan" where
  "plan_entries c gs [] p = Inr p"
| "plan_entries c gs (e # es) p =
     (case plan_entry c gs e p of Inl err \<Rightarrow> Inl err | Inr p' \<Rightarrow> plan_entries c gs es p')"

definition entry_call :: "bulk_call \<Rightarrow> entry \<Rightarrow> recon_call" where
  "entry_call c e =
     \<lparr>rc_path = bc_path c, rc_lookup = snd e, rc_payload = fst e, rc_schema = bc_schema c,
      rc_normalize = bc_normalize c, rc_patchable = bc_patchable c, rc_nullable = bc_nullable c,
      rc_strict = bc_strict c, rc_field_map = bc_field_map c\<rparr>"

definition count_status :: "rest_record \<times> reconcile_status \<Rightarrow> bulk_result \<Rightarrow> bulk_result" where
  "count_status rs b =
     (let b' = b\<lparr>br_records := br_records b @ [fst rs]\<rparr>
      in case snd rs of
           Created \<Rightarrow> b'\<lparr>br_created := br_created b + 1\<rparr>
         | Updated \<Rightarrow> b'\<lparr>br_updated := br_updated b + 1\<rparr>
         | Unchanged \<Rightarrow> b'\<lparr>br_unchanged := br_unchanged b + 1\<rparr>)"

fun create_each :: "'w netenv \<Rightarrow> bulk_call \<Rightarrow> entry list \<Rightarrow> bulk_result \<Rightarrow> 'w rst \<Rightarrow> bulk_result \<times> 'w rst" where
  "create_each E c [] b s = (b, s)"
| "create_each E c (e # es) b s =
     (case rest_reconcile_with_status E (entry_call c e) None s of
        (Inr rs, s') \<Rightarrow> create_each E c es (count_status rs b) s'
      | (Inl _, s') \<Rightarrow> create_each E c es (b\<lparr>br_failed := br_failed b + 1\<rparr>) s')"

definition create_batch :: "'w netenv \<Rightarrow> bulk_call \<Rightarrow> entry list \<Rightarrow> bulk_result \<Rightarrow> ('w, bulk_result) rest_op" where
  "create_batch E c batch b s =
     (case rest_bulk_create E (bc_path c) (map fst batch) s of
        (Inr rs, s') \<Rightarrow>
          (Inr (b\<lparr>br_records := br_records b @ rs, br_created := br_created b + length rs\<rparr>), s')
      | (Inl e, s') \<Rightarrow>
          if \<not> bc_fallback c then (Inl e, s')
          else (case create_each E c batch b s' of (b', s'') \<Rightarrow> (Inr b', s'')))"

fun patch_each ::
  "'w netenv \<Rightarrow> (rest_record \<times> pyobj) list \<Rightarrow> bulk_result \<Rightarrow> 'w rst \<Rightarrow> bulk_result \<times> 'w rst" where
  "patch_each E [] b s = (b, s)"
| "patch_each E ((r, flds) # rest) b s =
     (if flds = [] then patch_each E rest (b\<lparr>br_records := br_records b @ [r]\<rparr>) s
      else case rec_save E (set_fields flds r) s of
             (Inr r', s') \<Rightarrow>
               patch_each E rest (b\<lparr>br_records := br_records b @ [r'], br_updated := br_updated b + 1\<rparr>) s'
           | (Inl _, s') \<Rightarrow> patch_each E rest (b\<lparr>br_failed := br_failed b + 1\<rparr>) s')"

text \<open>\<^verbatim>\<open>{"id": record.id, **patch_payload}\<close> for the records that have an id.\<close>

definition with_ids :: "(rest_record \<times> pyobj) list \<Rightarrow> pyobj list" where
  "with_ids batch =
     map (\<lambda>(r, flds). fold (\<lambda>(k, v). dict_set k v) flds [(''id'', rec_id r)])
       (filter (\<lambda>(r, flds). rec_id r \<noteq> PNone) batch)"

definition patch_batch ::
  "'w netenv \<Rightarrow> bulk_call \<Rightarrow> (rest_record \<times> pyobj) list \<Rightarrow> bulk_result \<Rightarrow> ('w, bulk_result) rest_op" where
  "patch_batch E c batch b s =
     (case rest_bulk_patch E (bc_path c) (with_ids batch) s of
        (Inr rs, s') \<Rightarrow>
          (Inr (b\<lparr>br_records := br_records b @ rs, br_updated := br_updated b + length rs\<rparr>), s')
      | (Inl e, s') \<Rightarrow>
          if \<not> bc_fallback c then (Inl e, s')
          else (case patch_each E batch b s' of (b', s'') \<Rightarrow> (Inr b', s'')))"

text \<open>
  \<^verbatim>\<open>for offset in range(0, len(items), size)\<close>: the batches in order, with a pause between two of them.
  The size is at least one (\<open>normalize_bulk_batch_size_pos\<close>).
\<close>

function in_batches ::
  "'w netenv \<Rightarrow> nat \<Rightarrow> int \<Rightarrow> ('e list \<Rightarrow> bulk_result \<Rightarrow> ('w, bulk_result) rest_op) \<Rightarrow> 'e list \<Rightarrow> bulk_result
   \<Rightarrow> ('w, bulk_result) rest_op" where
  "in_batches E n delay_ms body items b s =
     (if items = [] \<or> n = 0 then (Inr b, s)
      else case body (take n items) b s of
             (Inl e, s') \<Rightarrow> (Inl e, s')
           | (Inr b', s') \<Rightarrow>
               in_batches E n delay_ms body (drop n items) b'
                 (if n < length items \<and> delay_ms > 0 then sleep_for E (real_of_int delay_ms / 1000) s' else s'))"
  by pat_completeness auto
termination
  by (relation "measure (\<lambda>(E, n, d, body, items, b, s). length items)") auto

declare in_batches.simps [simp del]

definition bulk_plan_of :: "bulk_call \<Rightarrow> entry list \<Rightarrow> rest_record list \<Rightarrow> py_exc + bulk_plan" where
  "bulk_plan_of c desired existing =
     (case existing_groups c existing [] of
        Inl e \<Rightarrow> Inl e
      | Inr gs \<Rightarrow> plan_entries c gs desired empty_plan)"

definition run_plan :: "'w netenv \<Rightarrow> runtime \<Rightarrow> bulk_call \<Rightarrow> bulk_plan \<Rightarrow> ('w, bulk_result) rest_op" where
  "run_plan E rt c p s =
     (let n = nat (normalize_bulk_batch_size rt (bc_batch_size c));
          d = normalize_bulk_batch_delay_ms rt (bc_batch_delay_ms c);
          b = \<lparr>br_records = kept p, br_created = 0, br_updated = 0, br_unchanged = length (kept p), br_failed = 0\<rparr>
      in case in_batches E n d (create_batch E c) (to_create p) b s of
           (Inl e, s') \<Rightarrow> (Inl e, s')
         | (Inr b', s') \<Rightarrow> in_batches E n d (patch_batch E c) (to_patch p) b' s')"

definition rest_bulk_reconcile :: "'w netenv \<Rightarrow> runtime \<Rightarrow> bulk_call \<Rightarrow> ('w, bulk_result) rest_op" where
  "rest_bulk_reconcile E rt c s =
     (if bc_payloads c = []
      then (Inr \<lparr>br_records = [], br_created = 0, br_updated = 0, br_unchanged = 0, br_failed = 0\<rparr>, s)
      else case desired_entries c (bc_payloads c) [] of
             Inl e \<Rightarrow> (Inl e, s)
           | Inr desired \<Rightarrow>
               (case rest_list_paginated E (bc_path c) (bc_base_query c) 200 None s of
                  (Inl e, s') \<Rightarrow> (Inl e, s')
                | (Inr existing, s') \<Rightarrow>
                    (case bulk_plan_of c desired existing of
                       Inl e \<Rightarrow> (Inl e, s')
                     | Inr p \<Rightarrow> run_plan E rt c p s')))"

text \<open>The phases run in order; the name of a phase is its key in the results.\<close>

fun rest_bulk_reconcile_phases ::
  "'w netenv \<Rightarrow> runtime \<Rightarrow> (string \<times> bulk_call) list \<Rightarrow> (string, bulk_result) pydict
   \<Rightarrow> ('w, (string, bulk_result) pydict) rest_op" where
  "rest_bulk_reconcile_phases E rt [] results s = (Inr results, s)"
| "rest_bulk_reconcile_phases E rt ((name, c) # phases) results s =
     (case rest_bulk_reconcile E rt (c\<lparr>bc_base_query := None, bc_fallback := True\<rparr>) s of
        (Inl e, s') \<Rightarrow> (Inl e, s')
      | (Inr b, s') \<Rightarrow> rest_bulk_reconcile_phases E rt phases (dict_set name b results) s')"


subsection \<open>Keys compare as an equivalence\<close>

lemma py_eq_number: "py_num v = Some a \<Longrightarrow> py_eq v w \<longleftrightarrow> (\<exists>b. py_num w = Some b \<and> num_eq a b)"
  by (cases v) (auto split: option.splits)

lemma py_eq_plain: "hashable v \<Longrightarrow> py_num v = None \<Longrightarrow> py_eq v w \<longleftrightarrow> w = v"
  by (cases v) auto

lemma hashable_number: "py_num v = Some a \<Longrightarrow> hashable v"
  by (cases v) auto

lemma hashable_eq_sym: "hashable v \<Longrightarrow> py_eq v w \<Longrightarrow> hashable w \<and> py_eq w v"
  by (cases "py_num v") (auto simp: py_eq_plain py_eq_number hashable_number num_eq_sym)

lemma hashable_eq_trans:
  assumes "hashable v" "py_eq u v" "py_eq v w"
  shows "py_eq u w"
proof (cases "py_num v")
  case None
  with assms show ?thesis using py_eq_plain [of v w] by simp
next
  case (Some b)
  with assms(3) obtain c where c: "py_num w = Some c" "num_eq b c" by (auto simp: py_eq_number)
  show ?thesis
  proof (cases "py_num u")
    case (Some a)
    with assms(2) \<open>py_num v = Some b\<close> c show ?thesis by (auto simp: py_eq_number intro: num_eq_trans)
  next
    case None
    with assms(2) \<open>py_num v = Some b\<close> show ?thesis by (cases u; cases v) auto
  qed
qed

lemma same_key_sym:
  assumes "key_hashable a" "same_key a b"
  shows "key_hashable b \<and> same_key b a"
  using assms(2,1) unfolding same_key_def key_hashable_def
proof (induct rule: list_all2_induct)
  case (Cons x a y b)
  moreover obtain k v k' v' where "x = (k, v)" "y = (k', v')" by force
  moreover from calculation have "hashable v'" "py_eq v' v" using hashable_eq_sym [of v v'] by simp_all
  ultimately show ?case by simp
qed simp

lemma same_key_trans:
  assumes "key_hashable b" "same_key a b" "same_key b c"
  shows "same_key a c"
  unfolding same_key_def list_all2_conv_all_nth
proof (intro conjI allI impI)
  from assms show "length a = length c" by (simp add: same_key_def list_all2_conv_all_nth)
  fix i assume "i < length a"
  with assms have "i < length b" "fst (a ! i) = fst (b ! i)" "py_eq (snd (a ! i)) (snd (b ! i))"
    "fst (b ! i) = fst (c ! i)" "py_eq (snd (b ! i)) (snd (c ! i))"
    by (simp_all add: same_key_def list_all2_conv_all_nth case_prod_beta)
  moreover from this have "hashable (snd (b ! i))"
    using assms(1) by (auto simp: key_hashable_def list_all_length case_prod_beta)
  ultimately show "(case a ! i of (k, v) \<Rightarrow> (\<lambda>(k', v'). k = k' \<and> py_eq v v')) (c ! i)"
    using hashable_eq_trans by (auto simp: case_prod_beta)
qed

lemma hashable_eq_refl: "hashable v \<Longrightarrow> py_eq v v"
  by (cases v) auto

lemma same_key_refl: "key_hashable a \<Longrightarrow> same_key a a"
  by (induct a) (auto simp: same_key_def key_hashable_def hashable_eq_refl)


subsection \<open>The index of the existing records\<close>

definition record_key :: "bulk_call \<Rightarrow> rest_record \<Rightarrow> lookup_key option" where
  "record_key c r =
     (case current_payload (bc_schema c) (bc_normalize c) r of
        Inl _ \<Rightarrow> None
      | Inr current \<Rightarrow> lookup_tuple (build_lookup_dict current (bc_lookup_fields c)))"

text \<open>Every group is not empty and holds records seen so far under its key; every record with a key is in a group.\<close>

definition group_ok :: "bulk_call \<Rightarrow> rest_record list \<Rightarrow> lookup_key \<Rightarrow> rest_record list \<Rightarrow> bool" where
  "group_ok c seen k rs =
     (rs \<noteq> [] \<and> key_hashable k \<and>
      (\<forall>r \<in> set rs. r \<in> set seen \<and> (\<exists>kr. record_key c r = Some kr \<and> same_key k kr)))"

definition groups_inv :: "bulk_call \<Rightarrow> rest_record list \<Rightarrow> groups \<Rightarrow> bool" where
  "groups_inv c seen gs =
     ((\<forall>k rs. (k, rs) \<in> set gs \<longrightarrow> group_ok c seen k rs) \<and>
      (\<forall>r \<in> set seen. \<forall>kr. record_key c r = Some kr \<longrightarrow> (\<exists>k rs. (k, rs) \<in> set gs \<and> r \<in> set rs \<and> same_key k kr)))"

lemma groups_inv_ok: "groups_inv c seen gs \<Longrightarrow> (k, rs) \<in> set gs \<Longrightarrow> group_ok c seen k rs"
  by (simp add: groups_inv_def)

lemma groups_inv_in:
  "groups_inv c seen gs \<Longrightarrow> r \<in> set seen \<Longrightarrow> record_key c r = Some kr \<Longrightarrow>
     \<exists>k rs. (k, rs) \<in> set gs \<and> r \<in> set rs \<and> same_key k kr"
  by (simp add: groups_inv_def)

lemma group_ok_mono: "group_ok c seen k rs \<Longrightarrow> group_ok c (seen @ [r]) k rs"
  by (auto simp: group_ok_def)

lemma group_ok_snoc:
  "group_ok c seen k rs \<Longrightarrow> record_key c r = Some key \<Longrightarrow> same_key k key \<Longrightarrow> group_ok c (seen @ [r]) k (rs @ [r])"
  by (auto simp: group_ok_def)

lemma add_to_group_new:
  "key_hashable key \<Longrightarrow> \<exists>k rs. (k, rs) \<in> set (add_to_group key r gs) \<and> r \<in> set rs \<and> same_key k key"
proof (induct gs)
  case (Cons g gs)
  show ?case
  proof (cases "same_key (fst g) key")
    case True
    then show ?thesis by (cases g) (auto intro!: exI [of _ "fst g"])
  next
    case False
    with Cons show ?thesis by (cases g) auto
  qed
qed (auto simp: same_key_refl)

lemma add_to_group_old: "(k, rs) \<in> set gs \<Longrightarrow> \<exists>rs'. (k, rs') \<in> set (add_to_group key r gs) \<and> set rs \<subseteq> set rs'"
proof (induct gs)
  case (Cons g gs)
  show ?case
  proof (cases "(k, rs) = g")
    case True
    then show ?thesis by (cases "same_key k key") (fastforce intro: exI [of _ "rs @ [r]"], fastforce)
  next
    case False
    with Cons show ?thesis by (cases g) auto
  qed
qed simp

lemma add_to_group_members:
  "(k, rs') \<in> set (add_to_group key r gs) \<Longrightarrow>
     (k = key \<and> rs' = [r]) \<or> (k, rs') \<in> set gs \<or> (\<exists>rs. (k, rs) \<in> set gs \<and> rs' = rs @ [r] \<and> same_key k key)"
  by (induct gs) (auto split: if_splits)

lemma groups_inv_add:
  assumes inv: "groups_inv c seen gs" and key: "record_key c r = Some key" "key_hashable key"
  shows "groups_inv c (seen @ [r]) (add_to_group key r gs)"
  unfolding groups_inv_def
proof (intro conjI ballI allI impI)
  fix k rs' assume "(k, rs') \<in> set (add_to_group key r gs)"
  then consider "k = key" "rs' = [r]" | "(k, rs') \<in> set gs"
    | rs where "(k, rs) \<in> set gs" "rs' = rs @ [r]" "same_key k key"
    using add_to_group_members by blast
  then show "group_ok c (seen @ [r]) k rs'"
  proof cases
    case 1
    with key show ?thesis by (simp add: group_ok_def same_key_refl)
  next
    case 2
    with groups_inv_ok [OF inv] show ?thesis by (blast intro: group_ok_mono)
  next
    case 3
    with groups_inv_ok [OF inv] key(1) show ?thesis by (auto intro: group_ok_snoc)
  qed
next
  fix r' kr assume r': "r' \<in> set (seen @ [r])" "record_key c r' = Some kr"
  show "\<exists>k rs. (k, rs) \<in> set (add_to_group key r gs) \<and> r' \<in> set rs \<and> same_key k kr"
  proof (cases "r' = r")
    case True
    with add_to_group_new [OF key(2), of r gs] key(1) r'(2) show ?thesis by simp
  next
    case False
    with groups_inv_in [OF inv, of r' kr] r' obtain k rs where "(k, rs) \<in> set gs" "r' \<in> set rs" "same_key k kr" by auto
    with add_to_group_old [of k rs gs key r] show ?thesis by blast
  qed
qed

lemma groups_inv_skip: "groups_inv c seen gs \<Longrightarrow> record_key c r = None \<Longrightarrow> groups_inv c (seen @ [r]) gs"
  by (auto simp: groups_inv_def intro: group_ok_mono)

lemma existing_groups_inv:
  "existing_groups c rs gs = Inr gs' \<Longrightarrow> groups_inv c seen gs \<Longrightarrow> groups_inv c (seen @ rs) gs'"
proof (induct rs arbitrary: seen gs)
  case (Cons r rs)
  consider (none) "record_key c r = None" "existing_groups c rs gs = Inr gs'"
    | (some) key where "record_key c r = Some key" "key_hashable key" "existing_groups c rs (add_to_group key r gs) = Inr gs'"
    using Cons.prems(1) by (auto simp: record_key_def split: sum.splits option.splits if_splits)
  then show ?case
  proof cases
    case none
    with Cons.hyps [of gs "seen @ [r]"] groups_inv_skip [OF Cons.prems(2)] show ?thesis by simp
  next
    case some
    with Cons.hyps [of "add_to_group key r gs" "seen @ [r]"] groups_inv_add [OF Cons.prems(2)] show ?thesis by simp
  qed
qed simp

lemma group_of_found: "(k, rs) \<in> set gs \<Longrightarrow> same_key k key \<Longrightarrow> \<exists>k'. (k', group_of key gs) \<in> set gs \<and> same_key k' key"
  by (induct gs) auto

lemma group_of_member: "r \<in> set (group_of key gs) \<Longrightarrow> \<exists>k. (k, group_of key gs) \<in> set gs \<and> same_key k key"
  by (induct gs) (auto split: if_splits)

lemma group_of_existing:
  assumes inv: "groups_inv c existing gs" and "r \<in> set existing" "record_key c r = Some kr" "same_key kr key"
  shows "group_of key gs \<noteq> []"
proof -
  from groups_inv_in [OF inv assms(2,3)] obtain k rs where k: "(k, rs) \<in> set gs" "same_key k kr" by blast
  with groups_inv_ok [OF inv] have "key_hashable kr" using same_key_sym unfolding group_ok_def by blast
  with k assms(4) have "same_key k key" using same_key_trans by blast
  with group_of_found [OF k(1)] obtain k' where "(k', group_of key gs) \<in> set gs" by blast
  with groups_inv_ok [OF inv] show ?thesis unfolding group_ok_def by blast
qed


subsection \<open>What the plan does with every payload\<close>

definition entry_key :: "entry \<Rightarrow> lookup_key option" where
  "entry_key e = lookup_tuple (snd e)"

text \<open>\<open>e'\<close>, later in the list, does not have the key of \<open>e\<close>.\<close>

definition other_key :: "entry \<Rightarrow> entry \<Rightarrow> bool" where
  "other_key e e' = (\<forall>k k'. entry_key e = Some k \<and> entry_key e' = Some k' \<longrightarrow> \<not> same_key k' k)"

lemma desired_entries_keys:
  "desired_entries c ps seen = Inr es \<Longrightarrow>
     (\<forall>e \<in> set es. \<exists>k. entry_key e = Some k \<and> key_hashable k \<and> \<not> list_ex (same_key k) seen) \<and> sorted_wrt other_key es"
proof (induct ps arbitrary: seen es)
  case (Cons p ps)
  then obtain desired where d: "schema_dump (bc_schema c) p = Inr desired" by (auto split: sum.splits)
  let ?l = "build_lookup_dict desired (bc_lookup_fields c)"
  consider (skip) "desired_entries c ps seen = Inr es"
    | (take) key es' where "lookup_tuple ?l = Some key" "key_hashable key" "\<not> list_ex (same_key key) seen"
        "desired_entries c ps (key # seen) = Inr es'" "es = (desired, ?l) # es'"
    using Cons.prems d by (auto split: option.splits if_splits sum.splits)
  then show ?case
  proof cases
    case skip
    then show ?thesis by (rule Cons.hyps)
  next
    case take
    with Cons.hyps [OF take(4)] show ?thesis by (fastforce simp: entry_key_def other_key_def)
  qed
qed simp

definition creates :: "bulk_call \<Rightarrow> groups \<Rightarrow> entry \<Rightarrow> bool" where
  "creates c gs e = (case entry_key e of None \<Rightarrow> False | Some k \<Rightarrow> group_of k gs = [])"

text \<open>The patch of a record for an entry.\<close>

definition patches :: "bulk_call \<Rightarrow> groups \<Rightarrow> entry \<Rightarrow> rest_record \<times> pyobj \<Rightarrow> bool" where
  "patches c gs e rp =
     (\<exists>k current. entry_key e = Some k \<and> select_existing c gs k = Some (fst rp) \<and>
        current_payload (bc_schema c) (bc_normalize c) (fst rp) = Inr current \<and>
        snd rp = patch_payload (fst e) current (bc_nullable c) (bc_patchable c) \<and> snd rp \<noteq> [])"

lemma select_existing_None: "select_existing c gs k = None \<longleftrightarrow> group_of k gs = []"
  by (auto simp: select_existing_def split: list.splits option.splits)

lemma plan_entries_effect:
  assumes "\<And>e. e \<in> set es \<Longrightarrow> \<exists>k. entry_key e = Some k" and "plan_entries c gs es p = Inr p'"
  shows "\<exists>ps ks. to_create p' = to_create p @ filter (creates c gs) es \<and> to_patch p' = to_patch p @ ps \<and>
    kept p' = kept p @ ks \<and> length (filter (creates c gs) es) + length ps + length ks = length es \<and>
    (\<forall>rp \<in> set ps. \<exists>e \<in> set es. patches c gs e rp)"
  using assms
proof (induct es arbitrary: p)
  case (Cons e es)
  then obtain p1 where p1: "plan_entry c gs e p = Inr p1" "plan_entries c gs es p1 = Inr p'" by (auto split: sum.splits)
  from Cons.prems(1) [of e] obtain k where k: "entry_key e = Some k" by auto
  from Cons.hyps [OF _ p1(2)] Cons.prems(1) obtain ps ks where IH:
    "to_create p' = to_create p1 @ filter (creates c gs) es" "to_patch p' = to_patch p1 @ ps" "kept p' = kept p1 @ ks"
    "length (filter (creates c gs) es) + length ps + length ks = length es"
    "\<forall>rp \<in> set ps. \<exists>e \<in> set es. patches c gs e rp" by auto
  consider (create) "group_of k gs = []" "p1 = p\<lparr>to_create := to_create p @ [e]\<rparr>"
    | (keep) r where "group_of k gs \<noteq> []" "p1 = p\<lparr>kept := kept p @ [r]\<rparr>"
    | (patch) rp where "group_of k gs \<noteq> []" "p1 = p\<lparr>to_patch := to_patch p @ [rp]\<rparr>" "patches c gs e rp"
    using p1(1) k select_existing_None [of c gs k]
    by (auto simp: plan_entry_def entry_key_def patches_def split: option.splits sum.splits list.splits)
  moreover have cr: "creates c gs e \<longleftrightarrow> group_of k gs = []" using k by (simp add: creates_def)
  ultimately show ?case
  proof cases
    case create
    with IH cr show ?thesis by (intro exI [of _ ps] exI [of _ ks]) auto
  next
    case keep
    with IH cr show ?thesis by (intro exI [of _ ps] exI [of _ "r # ks"]) auto
  next
    case patch
    with IH cr show ?thesis by (intro exI [of _ "rp # ps"] exI [of _ ks]) auto
  qed
qed simp

lemma bulk_plan_effect:
  assumes "desired_entries c payloads [] = Inr desired" "bulk_plan_of c desired existing = Inr p"
  obtains gs where "groups_inv c existing gs" "to_create p = filter (creates c gs) desired"
    "length (to_create p) + length (to_patch p) + length (kept p) = length desired"
    "\<forall>rp \<in> set (to_patch p). \<exists>e \<in> set desired. patches c gs e rp"
proof -
  from assms(2) obtain gs where gs: "existing_groups c existing [] = Inr gs" "plan_entries c gs desired empty_plan = Inr p"
    by (auto simp: bulk_plan_of_def split: sum.splits)
  have keys: "\<And>e. e \<in> set desired \<Longrightarrow> \<exists>k. entry_key e = Some k" using desired_entries_keys [OF assms(1)] by blast
  have "groups_inv c [] []" by (simp add: groups_inv_def)
  from existing_groups_inv [OF gs(1) this] have "groups_inv c existing gs" by simp
  moreover from plan_entries_effect [OF keys gs(2)] obtain ps ks where
    "to_create p = filter (creates c gs) desired" "to_patch p = ps" "kept p = ks"
    "length (filter (creates c gs) desired) + length ps + length ks = length desired"
    "\<forall>rp \<in> set ps. \<exists>e \<in> set desired. patches c gs e rp" by (auto simp: empty_plan_def)
  ultimately show ?thesis using that by simp
qed

lemma selected_record_key:
  assumes inv: "groups_inv c existing gs" and "bc_selector c = None" "select_existing c gs k = Some r"
  shows "r \<in> set existing \<and> (\<exists>kr. record_key c r = Some kr \<and> same_key kr k)"
proof -
  from assms(2,3) have r: "r \<in> set (group_of k gs)" by (auto simp: select_existing_def split: list.splits)
  with group_of_member obtain kg where kg: "(kg, group_of k gs) \<in> set gs" "same_key kg k" by blast
  with groups_inv_ok [OF inv] r obtain kr where "r \<in> set existing" "record_key c r = Some kr" "same_key kg kr" "key_hashable kg"
    unfolding group_ok_def by blast
  with kg(2) same_key_sym same_key_trans show ?thesis by blast
qed


text \<open>A NetBox that lists one record and answers every write with what it was sent.\<close>

definition echo_request :: "api_request \<Rightarrow> unit \<Rightarrow> (py_exc + api_response) \<times> unit" where
  "echo_request rq w =
     (Inr (json_response 200
        (if rq_method rq = ''GET''
         then PDict [(''count'', PInt 1), (''next'', PNone),
                     (''results'', PList [PDict [(''id'', PInt 1), (''name'', PStr ''a''), (''n'', PInt 1)]])]
         else rq_payload rq)), w)"

definition echo_env :: "unit netenv" where
  "echo_env =
     \<lparr>request = echo_request, sleep = (\<lambda>d w. w), clock = (\<lambda>w. 0), jitter = (\<lambda>w. 0), api_id = 7, max_retries = 2,
      retry_delay = 2, cache_cfg = \<lparr>cache_ttl = 60, cache_max_entries = 8, cache_max_bytes = 512\<rparr>\<rparr>"

definition demo_bulk :: bulk_call where
  "demo_bulk =
     \<lparr>bc_path = ''/api/x/'',
      bc_payloads = [[(''name'', PStr ''a''), (''n'', PInt 2)], [(''name'', PStr ''b'')], [(''name'', PStr ''b''), (''n'', PInt 3)]],
      bc_lookup_fields = [''name''], bc_schema = None, bc_normalize = Inr, bc_patchable = None, bc_batch_size = Some 1,
      bc_batch_delay_ms = Some 0, bc_selector = None, bc_base_query = None, bc_field_map = [], bc_strict = True,
      bc_nullable = [], bc_fallback = True\<rparr>"

abbreviation demo_existing :: rest_record where
  "demo_existing \<equiv> new_record ''/api/x/'' [(''id'', PInt 1), (''name'', PStr ''a''), (''n'', PInt 1)]"



subsection \<open>The counts of a bulk reconcile\<close>

definition balanced :: "bulk_result \<Rightarrow> bool" where
  "balanced b = (length (br_records b) = br_created b + br_updated b + br_unchanged b)"

definition accounted :: "bulk_result \<Rightarrow> nat" where
  "accounted b = br_created b + br_updated b + br_unchanged b + br_failed b"

lemma in_batches_balanced:
  assumes "\<And>batch b s b' s'. set batch \<subseteq> set items \<Longrightarrow> balanced b \<Longrightarrow> body batch b s = (Inr b', s') \<Longrightarrow> balanced b'"
    and "in_batches E n d body items b s = (Inr b', s')" "balanced b"
  shows "balanced b'"
  using assms
proof (induct E n d body items b s rule: in_batches.induct)
  case (1 E n d body items b s)
  show ?case
  proof (cases "items = [] \<or> n = 0")
    case True
    with "1.prems" show ?thesis by (auto simp: in_batches.simps)
  next
    case False
    obtain r s1 where r: "body (take n items) b s = (r, s1)" by force
    with "1.prems"(2) False obtain b1 where b1: "r = Inr b1" by (cases r) (auto simp: in_batches.simps [of E n d body items])
    let ?s = "if n < length items \<and> d > 0 then sleep_for E (real_of_int d / 1000) s1 else s1"
    have rest: "in_batches E n d body (drop n items) b1 ?s = (Inr b', s')"
      using "1.prems"(2) False r b1 by (subst (asm) in_batches.simps) simp
    have "balanced b1" using "1.prems"(1) [OF set_take_subset "1.prems"(3)] r b1 by simp
    moreover have "set batch \<subseteq> set items" if "set batch \<subseteq> set (drop n items)" for batch
      using that set_drop_subset [of n items] by blast
    ultimately show ?thesis using "1.hyps" [OF _ r [symmetric] b1 _ rest] "1.prems"(1) False r b1 by blast
  qed
qed

lemma in_batches_accounted:
  assumes "\<And>batch b s b' s'. set batch \<subseteq> set items \<Longrightarrow> body batch b s = (Inr b', s') \<Longrightarrow> accounted b' = accounted b + length batch"
    and "in_batches E n d body items b s = (Inr b', s')" "n > 0"
  shows "accounted b' = accounted b + length items"
  using assms
proof (induct E n d body items b s rule: in_batches.induct)
  case (1 E n d body items b s)
  show ?case
  proof (cases "items = []")
    case True
    with "1.prems" show ?thesis by (auto simp: in_batches.simps)
  next
    case False
    obtain r s1 where r: "body (take n items) b s = (r, s1)" by force
    with "1.prems"(2,3) False obtain b1 where b1: "r = Inr b1" by (cases r) (auto simp: in_batches.simps [of E n d body items])
    let ?s = "if n < length items \<and> d > 0 then sleep_for E (real_of_int d / 1000) s1 else s1"
    have rest: "in_batches E n d body (drop n items) b1 ?s = (Inr b', s')"
      using "1.prems"(2,3) False r b1 by (subst (asm) in_batches.simps) simp
    have "accounted b1 = accounted b + length (take n items)" using "1.prems"(1) [OF set_take_subset] r b1 by blast
    moreover have "set batch \<subseteq> set items" if "set batch \<subseteq> set (drop n items)" for batch
      using that set_drop_subset [of n items] by blast
    ultimately show ?thesis using "1.hyps" [OF _ r [symmetric] b1 _ rest] "1.prems"(1,3) False r b1 by simp
  qed
qed

lemma create_each_counts:
  "create_each E c es b s = (b', s') \<Longrightarrow> (balanced b \<longrightarrow> balanced b') \<and> accounted b' = accounted b + length es"
proof (induct es arbitrary: b s)
  case (Cons e es)
  obtain r s1 where r: "rest_reconcile_with_status E (entry_call c e) None s = (r, s1)" by force
  show ?case
  proof (cases r)
    case (Inl x)
    with Cons.hyps [of "b\<lparr>br_failed := br_failed b + 1\<rparr>" s1] Cons.prems r show ?thesis
      by (simp add: balanced_def accounted_def)
  next
    case (Inr rs)
    with Cons.hyps [of "count_status rs b" s1] Cons.prems r show ?thesis
      by (cases "snd rs") (auto simp: balanced_def accounted_def count_status_def Let_def)
  qed
qed simp

lemma patch_each_counts:
  assumes "\<And>rp. rp \<in> set batch \<Longrightarrow> snd rp \<noteq> []" and "patch_each E batch b s = (b', s')"
  shows "(balanced b \<longrightarrow> balanced b') \<and> accounted b' = accounted b + length batch"
  using assms
proof (induct batch arbitrary: b s)
  case (Cons rp batch)
  obtain r flds where rp: "rp = (r, flds)" by force
  with Cons.prems(1) [of rp] have ne: "flds \<noteq> []" by simp
  obtain x s1 where x: "rec_save E (set_fields flds r) s = (x, s1)" by force
  have IH: "patch_each E batch b1 s1 = (b', s') \<Longrightarrow> (balanced b1 \<longrightarrow> balanced b') \<and> accounted b' = accounted b1 + length batch" for b1
    using Cons.hyps Cons.prems(1) by simp
  show ?case
  proof (cases x)
    case (Inl e)
    with IH [of "b\<lparr>br_failed := br_failed b + 1\<rparr>"] Cons.prems(2) rp ne x show ?thesis
      by (simp add: balanced_def accounted_def)
  next
    case (Inr r')
    with IH [of "b\<lparr>br_records := br_records b @ [r'], br_updated := br_updated b + 1\<rparr>"] Cons.prems(2) rp ne x show ?thesis
      by (simp add: balanced_def accounted_def)
  qed
qed simp

text \<open>A server that answers a bulk write with one object per record; every record it lists has an id.\<close>

definition answers_bulk :: "'w netenv \<Rightarrow> string \<Rightarrow> bool" where
  "answers_bulk E path =
     ((\<forall>ps s rs s'. rest_bulk_create E path ps s = (Inr rs, s') \<longrightarrow> length rs = length ps) \<and>
      (\<forall>ps s rs s'. rest_bulk_patch E path ps s = (Inr rs, s') \<longrightarrow> length rs = length ps))"

lemma create_batch_counts:
  "create_batch E c batch b s = (Inr b', s') \<Longrightarrow>
     (balanced b \<longrightarrow> balanced b') \<and> (answers_bulk E (bc_path c) \<longrightarrow> accounted b' = accounted b + length batch)"
  by (auto simp: create_batch_def balanced_def accounted_def answers_bulk_def
      dest!: create_each_counts split: prod.splits sum.splits if_splits) fastforce+

lemma with_ids_length: "(\<And>rp. rp \<in> set batch \<Longrightarrow> rec_id (fst rp) \<noteq> PNone) \<Longrightarrow> length (with_ids batch) = length batch"
  by (simp add: with_ids_def case_prod_beta filter_id_conv)

lemma patch_batch_counts:
  assumes "\<And>rp. rp \<in> set batch \<Longrightarrow> snd rp \<noteq> []" and "patch_batch E c batch b s = (Inr b', s')"
  shows "(balanced b \<longrightarrow> balanced b') \<and>
    (answers_bulk E (bc_path c) \<and> (\<forall>rp \<in> set batch. rec_id (fst rp) \<noteq> PNone) \<longrightarrow> accounted b' = accounted b + length batch)"
proof -
  obtain r s1 where r: "rest_bulk_patch E (bc_path c) (with_ids batch) s = (r, s1)" by force
  show ?thesis
  proof (cases r)
    case (Inl e)
    with assms(2) r have "patch_each E batch b s1 = (b', s')" by (auto simp: patch_batch_def split: if_splits prod.splits)
    with patch_each_counts [OF assms(1)] show ?thesis by blast
  next
    case (Inr rs)
    with assms(2) r have b': "b' = b\<lparr>br_records := br_records b @ rs, br_updated := br_updated b + length rs\<rparr>"
      by (simp add: patch_batch_def)
    moreover have "answers_bulk E (bc_path c) \<Longrightarrow> length rs = length (with_ids batch)"
      using r Inr unfolding answers_bulk_def by blast
    ultimately show ?thesis using with_ids_length [of batch] by (auto simp: balanced_def accounted_def)
  qed
qed

lemma run_plan_counts:
  assumes "run_plan E rt c p s = (Inr b, s')" and ne: "\<And>rp. rp \<in> set (to_patch p) \<Longrightarrow> snd rp \<noteq> []"
  shows "balanced b \<and>
    (answers_bulk E (bc_path c) \<and> (\<forall>rp \<in> set (to_patch p). rec_id (fst rp) \<noteq> PNone) \<longrightarrow>
       accounted b = length (to_create p) + length (to_patch p) + length (kept p))"
proof -
  let ?n = "nat (normalize_bulk_batch_size rt (bc_batch_size c))"
  let ?d = "normalize_bulk_batch_delay_ms rt (bc_batch_delay_ms c)"
  let ?b = "\<lparr>br_records = kept p, br_created = 0, br_updated = 0, br_unchanged = length (kept p), br_failed = 0\<rparr>"
  have n: "?n > 0" using normalize_bulk_batch_size_pos [of rt "bc_batch_size c"] by simp
  from assms(1) obtain b1 s1 where b1: "in_batches E ?n ?d (create_batch E c) (to_create p) ?b s = (Inr b1, s1)"
    and b: "in_batches E ?n ?d (patch_batch E c) (to_patch p) b1 s1 = (Inr b, s')"
    by (auto simp: run_plan_def Let_def split: prod.splits sum.splits)
  have pb: "(balanced b0 \<longrightarrow> balanced b') \<and>
      (answers_bulk E (bc_path c) \<and> (\<forall>rp \<in> set batch. rec_id (fst rp) \<noteq> PNone) \<longrightarrow> accounted b' = accounted b0 + length batch)"
    if "set batch \<subseteq> set (to_patch p)" "patch_batch E c batch b0 s0 = (Inr b', s'')" for batch b0 s0 b' s''
    by (rule patch_batch_counts [OF _ that(2)]) (use that(1) ne in blast)
  have "balanced ?b" by (simp add: balanced_def)
  from in_batches_balanced [OF _ b1 this] create_batch_counts have "balanced b1" by blast
  from in_batches_balanced [OF _ b this] pb have "balanced b" by blast
  moreover have "accounted b = length (to_create p) + length (to_patch p) + length (kept p)"
    if a: "answers_bulk E (bc_path c)" and ids: "\<forall>rp \<in> set (to_patch p). rec_id (fst rp) \<noteq> PNone"
  proof -
    from in_batches_accounted [OF _ b1 n] create_batch_counts a have "accounted b1 = accounted ?b + length (to_create p)" by blast
    moreover have "accounted b = accounted b1 + length (to_patch p)"
    proof (rule in_batches_accounted [OF _ b n])
      fix batch b0 s0 b' s''
      assume "set batch \<subseteq> set (to_patch p)" "patch_batch E c batch b0 s0 = (Inr b', s'')"
      with pb [of batch b0 s0 b' s''] a ids show "accounted b' = accounted b0 + length batch" by blast
    qed
    ultimately show ?thesis by (simp add: accounted_def)
  qed
  ultimately show ?thesis by blast
qed


lemma echo_bulk:
  "rest_bulk_create echo_env path ps s = (Inr rs, s') \<Longrightarrow> length rs = length ps"
  "rest_bulk_patch echo_env path ps s = (Inr rs, s') \<Longrightarrow> length rs = length ps"
proof -
  have items: "dict_items (map PDict ps) = ps" by (induct ps) (auto simp: dict_items_def List.map_filter_def)
  have "verb \<noteq> ''GET'' \<Longrightarrow> \<exists>s'. bulk_request echo_env what verb path ps s = (Inr (map (new_record (normalize_path path)) ps), s')"
    for what verb
    by (simp add: bulk_request_def Let_def call_def send_wrapped_def send_def echo_env_def echo_request_def json_response_def
        extract_payload_def bulk_items_def items)
  then obtain s1 s2 where
    "bulk_request echo_env ''create'' ''POST'' path ps s = (Inr (map (new_record (normalize_path path)) ps), s1)"
    "bulk_request echo_env ''patch'' ''PATCH'' path ps s = (Inr (map (new_record (normalize_path path)) ps), s2)" by fastforce
  then show "rest_bulk_create echo_env path ps s = (Inr rs, s') \<Longrightarrow> length rs = length ps"
    "rest_bulk_patch echo_env path ps s = (Inr rs, s') \<Longrightarrow> length rs = length ps"
    by (auto simp: rest_bulk_create_def rest_bulk_patch_def with_retry_def retry_from_ok split: if_splits)
qed


end
