(* ===== verification/Vm_Identity.thy ===== *)
theory Vm_Identity
  imports Rest_List
begin

text \<open>
  The identity of virtual machines across NetBox and Proxmox (\<^verbatim>\<open>services/sync/vmid_helpers.py\<close> and the
  identity part of \<^verbatim>\<open>services/sync/vm_helpers.py\<close>): reading VMID, endpoint, node and type from a record in
  any of its known layouts, relation ids and names, and the lookup of explicitly selected virtual
  machines by id in bounded chunks. Records, sessions and status rows are dictionaries of their fields.
\<close>

subsection \<open>Fields of a record\<close>

definition normalize_vmid :: "pyval \<Rightarrow> string option" where
  "normalize_vmid v =
     (case v of
        PNone \<Rightarrow> None
      | _ \<Rightarrow> (let t = py_strip (py_str v) in if t = [] then None else Some t))"

definition normalize_positive_int :: "pyval \<Rightarrow> int option" where
  "normalize_positive_int v =
     (case normalize_vmid v of
        None \<Rightarrow> None
      | Some t \<Rightarrow> (case py_int t of Some i \<Rightarrow> if i > 0 then Some i else None | None \<Rightarrow> None))"

text \<open>\<^verbatim>\<open>for key in keys: ... return\<close>: the first key whose value reads as something.\<close>

fun first_of :: "(pyval \<Rightarrow> 'a option) \<Rightarrow> string list \<Rightarrow> pyobj \<Rightarrow> 'a option" where
  "first_of read [] d = None"
| "first_of read (k # ks) d = (case read (obj_get d k) of Some x \<Rightarrow> Some x | None \<Rightarrow> first_of read ks d)"

definition custom_fields_of :: "pyobj \<Rightarrow> pyobj" where
  "custom_fields_of vm = (case obj_get vm ''custom_fields'' of PDict d \<Rightarrow> d | _ \<Rightarrow> [])"

definition extract_proxmox_vmid :: "pyobj \<Rightarrow> string option" where
  "extract_proxmox_vmid vm =
     (case first_of normalize_vmid [''cf_proxmox_vm_id'', ''proxmox_vm_id'', ''cf_proxmox_vmid'', ''proxmox_vmid''] vm of
        Some t \<Rightarrow> Some t
      | None \<Rightarrow>
          first_of normalize_vmid [''proxmox_vm_id'', ''cf_proxmox_vm_id'', ''proxmox_vmid'', ''cf_proxmox_vmid'']
            (custom_fields_of vm))"

definition extract_proxmox_endpoint_id :: "pyobj \<Rightarrow> int option" where
  "extract_proxmox_endpoint_id vm =
     (case first_of normalize_positive_int [''cf_proxmox_endpoint_id'', ''proxmox_endpoint_id''] vm of
        Some i \<Rightarrow> Some i
      | None \<Rightarrow>
          first_of normalize_positive_int [''proxmox_endpoint_id'', ''cf_proxmox_endpoint_id''] (custom_fields_of vm))"

definition extract_proxmox_node :: "pyobj \<Rightarrow> string option" where
  "extract_proxmox_node vm =
     (case first_of normalize_vmid [''cf_proxmox_node'', ''proxmox_node''] vm of
        Some t \<Rightarrow> Some t
      | None \<Rightarrow> first_of normalize_vmid [''proxmox_node'', ''cf_proxmox_node''] (custom_fields_of vm))"

definition extract_proxmox_session_endpoint_id :: "pyobj \<Rightarrow> int option" where
  "extract_proxmox_session_endpoint_id session =
     first_of normalize_positive_int [''db_endpoint_id'', ''endpoint_id'', ''proxmox_endpoint_id''] session"

definition select_proxmox_sessions_by_endpoint :: "pyobj list \<Rightarrow> int option \<Rightarrow> pyobj list" where
  "select_proxmox_sessions_by_endpoint sessions endpoint_id =
     (case endpoint_id of
        None \<Rightarrow> sessions
      | Some i \<Rightarrow> filter (\<lambda>s. extract_proxmox_session_endpoint_id s = Some i) sessions)"

definition guest_type :: "pyval \<Rightarrow> string option" where
  "guest_type v =
     (let t = py_lower (py_strip (py_str v))
      in if truthy v \<and> (t = ''qemu'' \<or> t = ''lxc'') then Some t else None)"

definition extract_proxmox_vm_type :: "pyobj \<Rightarrow> string option" where
  "extract_proxmox_vm_type vm =
     (case first_of guest_type [''cf_proxmox_vm_type'', ''proxmox_vm_type''] vm of
        Some t \<Rightarrow> Some t
      | None \<Rightarrow> first_of guest_type [''proxmox_vm_type'', ''cf_proxmox_vm_type''] (custom_fields_of vm))"

text \<open>\<^verbatim>\<open>isinstance(v, int)\<close> holds for booleans too.\<close>

definition int_or_digits :: "pyval \<Rightarrow> int option" where
  "int_or_digits v =
     (case v of
        PInt i \<Rightarrow> Some i
      | PBool b \<Rightarrow> Some (of_bool b)
      | PStr t \<Rightarrow> if py_isdigit t then Some (int (digits_val t)) else None
      | _ \<Rightarrow> None)"

definition relation_id :: "pyval \<Rightarrow> int option" where
  "relation_id v =
     (case v of
        PDict d \<Rightarrow> first_of int_or_digits [''id'', ''value''] d
      | _ \<Rightarrow> int_or_digits v)"

definition truthy_str :: "pyval \<Rightarrow> string option" where
  "truthy_str v = (if truthy v then Some (py_str v) else None)"

definition relation_name :: "pyval \<Rightarrow> string option" where
  "relation_name v =
     (case v of
        PDict d \<Rightarrow> first_of truthy_str [''name'', ''display'', ''label'', ''value''] d
      | PStr t \<Rightarrow> if py_strip t \<noteq> [] then Some (py_strip t) else None
      | _ \<Rightarrow> None)"


subsection \<open>Selected ids\<close>

function chunks :: "nat \<Rightarrow> 'a list \<Rightarrow> 'a list list" where
  "chunks n xs = (if xs = [] \<or> n = 0 then [] else take n xs # chunks n (drop n xs))"
  by pat_completeness auto
termination
  by (relation "measure (\<lambda>(n, xs). length xs)") auto

declare chunks.simps [simp del]

definition chunk_id :: "pyval \<Rightarrow> int option" where
  "chunk_id v =
     (case v of
        PInt i \<Rightarrow> if i > 0 then Some i else None
      | PStr t \<Rightarrow> (case py_int t of Some i \<Rightarrow> if i > 0 then Some i else None | None \<Rightarrow> None)
      | _ \<Rightarrow> None)"

definition chunk_netbox_multi_value_ids :: "pyval list \<Rightarrow> int \<Rightarrow> py_exc + int list list" where
  "chunk_netbox_multi_value_ids values chunk_size =
     (if chunk_size < 1 then Inl (OtherError ''chunk_size must be at least 1'')
      else Inr (chunks (nat chunk_size) (sort (remdups (List.map_filter chunk_id values)))))"

definition netbox_multi_value_id_chunk_size :: int where
  "netbox_multi_value_id_chunk_size = 100"

definition default_chunks :: "pyval list \<Rightarrow> int list list" where
  "default_chunks values =
     (case chunk_netbox_multi_value_ids values netbox_multi_value_id_chunk_size of Inl _ \<Rightarrow> [] | Inr cs \<Rightarrow> cs)"

definition selector_error :: py_exc where
  "selector_error = OtherError ''netbox_vm_ids must be a comma-separated list of positive integers''"

definition parse_selected_netbox_vm_ids :: "pyval \<Rightarrow> py_exc + int list option" where
  "parse_selected_netbox_vm_ids v =
     (case v of
        PNone \<Rightarrow> Inr None
      | PStr t \<Rightarrow>
          (let parts = map py_strip (py_split (CHR '','') t)
           in if list_ex (\<lambda>p. \<not> py_isdigit p \<or> digits_val p < 1) parts then Inl selector_error
              else Inr (Some (concat (default_chunks (map PStr parts)))))
      | _ \<Rightarrow> Inl selector_error)"


subsection \<open>Looking the selected machines up\<close>

definition ints_repr :: "int list \<Rightarrow> string" where
  "ints_repr xs = py_repr (PList (map PInt xs))"

definition selected_lookup_error :: "int list \<Rightarrow> py_exc \<Rightarrow> py_exc" where
  "selected_lookup_error chunk e =
     proxbox_exc ''Unable to resolve explicitly selected NetBox VMs''
       (PStr (''Selected VM id chunk '' @ ints_repr chunk @ '': '' @ exc_str e)) None (Some 502)"

definition selected_data_error :: "int list \<Rightarrow> pyval \<Rightarrow> py_exc" where
  "selected_data_error requested received =
     proxbox_exc ''NetBox returned invalid selected VM data''
       (PStr (''Expected one of NetBox VM ids '' @ ints_repr (sort requested) @ '', received record id '' @
              py_repr received @ ''.'')) None (Some 502)"

fun index_selected :: "int list \<Rightarrow> pyobj list \<Rightarrow> (int, pyobj) pydict \<Rightarrow> py_exc + (int, pyobj) pydict" where
  "index_selected requested [] acc = Inr acc"
| "index_selected requested (p # ps) acc =
     (case relation_id (obj_get p ''id'') of
        None \<Rightarrow> Inl (selected_data_error requested (obj_get p ''id''))
      | Some i \<Rightarrow>
          if i \<notin> set requested then Inl (selected_data_error requested (obj_get p ''id''))
          else index_selected requested ps (dict_setdefault i p acc))"

fun fetch_chunks ::
  "'w netenv \<Rightarrow> int list \<Rightarrow> int list list \<Rightarrow> (int, pyobj) pydict \<Rightarrow> ('w, (int, pyobj) pydict) rest_op" where
  "fetch_chunks E requested [] acc s = (Inr acc, s)"
| "fetch_chunks E requested (c # cs) acc s =
     (case rest_list E ''/api/virtualization/virtual-machines/''
             (Some [(''id'', PList (map (\<lambda>i. PStr (int_str i)) c))]) s of
        (Inl e, s') \<Rightarrow> (Inl (selected_lookup_error c e), s')
      | (Inr rs, s') \<Rightarrow>
          (case index_selected requested (map rec_data rs) acc of
             Inl e \<Rightarrow> (Inl e, s')
           | Inr acc' \<Rightarrow> fetch_chunks E requested cs acc' s'))"

definition list_netbox_virtual_machines_by_ids ::
  "'w netenv \<Rightarrow> pyval list \<Rightarrow> ('w, pyobj list) rest_op" where
  "list_netbox_virtual_machines_by_ids E ids s =
     (let cs = default_chunks ids
      in if cs = [] then (Inr [], s)
         else case fetch_chunks E (concat cs) cs [] s of
                (Inl e, s') \<Rightarrow> (Inl e, s')
              | (Inr acc, s') \<Rightarrow> (Inr (map snd (sort_key fst acc)), s'))"

definition coverage_error :: "string \<Rightarrow> string \<Rightarrow> py_exc" where
  "coverage_error operation detail =
     proxbox_exc (''Unable to resolve explicitly selected NetBox VMs for '' @ operation) (PStr detail) None (Some 502)"

definition coverage_details :: "int list \<Rightarrow> int list \<Rightarrow> pyval list \<Rightarrow> string list" where
  "coverage_details missing unexpected invalid =
     (if missing \<noteq> [] then [''missing id(s): '' @ ints_repr missing] else []) @
     (if unexpected \<noteq> [] then [''unexpected id(s): '' @ ints_repr unexpected] else []) @
     (if invalid \<noteq> [] then [''invalid returned id(s): '' @ py_repr (PList invalid)] else [])"

definition require_selected_netbox_vm_coverage :: "pyobj list \<Rightarrow> pyval list \<Rightarrow> string \<Rightarrow> py_exc + pyobj list" where
  "require_selected_netbox_vm_coverage records ids operation =
     (let invalid_requested = filter (\<lambda>v. normalize_positive_int v = None) ids;
          requested = remdups (List.map_filter normalize_positive_int ids);
          record_id = (\<lambda>p. relation_id (obj_get p ''id''));
          good = filter (\<lambda>p. record_id p \<noteq> None) records;
          returned = remdups (List.map_filter record_id records);
          invalid = map (\<lambda>p. obj_get p ''id'') (filter (\<lambda>p. record_id p = None) records);
          missing = sort (filter (\<lambda>i. i \<notin> set returned) requested);
          unexpected = sort (filter (\<lambda>i. i \<notin> set requested) returned)
      in if invalid_requested \<noteq> []
         then Inl (coverage_error operation (''Invalid selected VM id(s): '' @ py_repr (PList invalid_requested) @ ''.''))
         else if requested = [] then Inl (coverage_error operation ''The explicit NetBox VM selection was empty.'')
         else if invalid \<noteq> [] \<or> missing \<noteq> [] \<or> unexpected \<noteq> []
         then Inl (coverage_error operation
                (''Selected lookup coverage mismatch; '' @ py_join ''; '' (coverage_details missing unexpected invalid) @ ''.''))
         else Inr good)"


subsection \<open>Chunks and the selector text\<close>

lemma concat_chunks: "n > 0 \<Longrightarrow> concat (chunks n xs) = xs"
proof (induct n xs rule: chunks.induct)
  case (1 n xs)
  then show ?case by (subst chunks.simps) auto
qed

lemma chunks_bounded: "c \<in> set (chunks n xs) \<Longrightarrow> c \<noteq> [] \<and> length c \<le> n"
proof (induct n xs rule: chunks.induct)
  case (1 n xs)
  from "1.prems" show ?case
    by (subst (asm) chunks.simps) (use "1.hyps" in \<open>auto split: if_splits\<close>)
qed

lemma default_chunks_eq: "default_chunks vs = chunks 100 (sort (remdups (List.map_filter chunk_id vs)))"
  by (simp add: default_chunks_def chunk_netbox_multi_value_ids_def netbox_multi_value_id_chunk_size_def)

lemma concat_default_chunks: "concat (default_chunks vs) = sort (remdups (List.map_filter chunk_id vs))"
  by (simp add: default_chunks_eq concat_chunks)

lemma py_split_no_sep: "c \<notin> set s \<Longrightarrow> py_split c s = [s]"
  by (induct s) auto

lemma py_split_append: "c \<notin> set s \<Longrightarrow> py_split c (s @ c # t) = s # py_split c t"
  by (induct s) auto

lemma py_split_join: "xs \<noteq> [] \<Longrightarrow> (\<And>x. x \<in> set xs \<Longrightarrow> c \<notin> set x) \<Longrightarrow> py_split c (py_join [c] xs) = xs"
proof (induct xs)
  case (Cons x xs)
  show ?case
  proof (cases xs)
    case Nil
    with Cons.prems show ?thesis by (simp add: py_split_no_sep)
  next
    case (Cons y ys)
    with Cons.hyps Cons.prems show ?thesis by (simp add: py_split_append)
  qed
qed simp

lemma positive_int_str: "i > 0 \<Longrightarrow> int_str i = nat_str (nat i)"
  by (simp add: int_str_def)

lemma comma_not_in_nat_str: "CHR '','' \<notin> set (nat_str n)"
proof -
  have "list_all (\<lambda>ch. ch \<noteq> CHR '','') (nat_str n)" by (rule nat_str_list_all) (simp add: digit_char_neq)
  then show ?thesis by (auto simp: list_all_iff)
qed

text \<open>
  \<^bold>\<open>C21.\<close> Printing a selection and reading it back gives the selection: a comma-separated list of positive
  ids parses to exactly those ids, in order and without repetitions, and the requests made for them
  carry between one and 100 ids each, every id in one of them.
\<close>

theorem selected_ids_round_trip:
  assumes "ids \<noteq> []" "\<And>i. i \<in> set ids \<Longrightarrow> i > 0"
  shows "parse_selected_netbox_vm_ids (PStr (py_join '','' (map int_str ids))) = Inr (Some (sort (remdups ids))) \<and>
    concat (default_chunks (map PInt ids)) = sort (remdups ids) \<and>
    (\<forall>c \<in> set (default_chunks (map PInt ids)). c \<noteq> [] \<and> length c \<le> 100)"
proof -
  let ?parts = "map int_str ids"
  have str: "map int_str ids = map (\<lambda>i. nat_str (nat i)) ids" using assms(2) by (simp add: positive_int_str)
  have split: "py_split (CHR '','') (py_join '','' ?parts) = ?parts"
    using assms(1) by (intro py_split_join) (auto simp: str comma_not_in_nat_str)
  have strip: "map py_strip ?parts = ?parts" by (simp add: str)
  have ok: "\<not> list_ex (\<lambda>p. \<not> py_isdigit p \<or> digits_val p < 1) ?parts"
  proof -
    have "\<not> (\<not> py_isdigit (nat_str (nat i)) \<or> digits_val (nat_str (nat i)) < 1)" if "i \<in> set ids" for i
      using assms(2) [OF that] by simp
    then show ?thesis by (auto simp: str list_ex_iff)
  qed
  have ids1: "List.map_filter chunk_id (map PStr ?parts) = ids"
    using assms(2) by (induct ids) (auto simp: List.map_filter_def chunk_id_def)
  have ids2: "List.map_filter chunk_id (map PInt ids) = ids"
    using assms(2) by (induct ids) (auto simp: List.map_filter_def chunk_id_def)
  show ?thesis
    using ok by (auto simp: parse_selected_netbox_vm_ids_def Let_def split strip concat_default_chunks ids1 ids2 simp del: map_map
        dest: chunks_bounded simp: default_chunks_eq concat_chunks)
qed

theorem selected_ids_round_trip_witness:
  "parse_selected_netbox_vm_ids (PStr ''7,3,7'') = Inr (Some [3, 7]) \<and> concat (default_chunks [PInt 7, PInt 3, PInt 7]) = [3, 7]"
proof -
  have "py_join '','' (map int_str [7, 3, 7]) = ''7,3,7''" "sort (remdups [7, 3, 7 :: int]) = [3, 7]" by code_simp+
  moreover have "i > 0" if "i \<in> set [7, 3, 7 :: int]" for i using that by auto
  ultimately show ?thesis using selected_ids_round_trip [of "[7, 3, 7]"] by simp
qed


subsection \<open>The lookup returns only what was asked for\<close>

lemma index_selected_keys:
  "index_selected requested ps acc = Inr acc' \<Longrightarrow> dict_wf acc \<Longrightarrow>
     (\<And>i p. (i, p) \<in> set acc \<Longrightarrow> i \<in> set requested \<and> relation_id (obj_get p ''id'') = Some i) \<Longrightarrow>
     dict_wf acc' \<and> (\<forall>(i, p) \<in> set acc'. i \<in> set requested \<and> relation_id (obj_get p ''id'') = Some i)"
proof (induct ps arbitrary: acc)
  case (Cons p ps)
  then obtain i where i: "relation_id (obj_get p ''id'') = Some i" "i \<in> set requested"
    "index_selected requested ps (dict_setdefault i p acc) = Inr acc'"
    by (auto split: option.splits if_splits)
  have "(j, q) \<in> set (dict_setdefault i p acc) \<Longrightarrow> j \<in> set requested \<and> relation_id (obj_get q ''id'') = Some j" for j q
    using i Cons.prems(3) by (auto simp: dict_setdefault_def split: option.splits if_splits)
  with Cons.hyps [OF i(3)] Cons.prems(2) show ?case by blast
qed auto

lemma fetch_chunks_keys:
  "fst (fetch_chunks E requested cs acc s) = Inr acc' \<Longrightarrow> dict_wf acc \<Longrightarrow>
     (\<And>i p. (i, p) \<in> set acc \<Longrightarrow> i \<in> set requested \<and> relation_id (obj_get p ''id'') = Some i) \<Longrightarrow>
     dict_wf acc' \<and> (\<forall>(i, p) \<in> set acc'. i \<in> set requested \<and> relation_id (obj_get p ''id'') = Some i)"
proof (induct cs arbitrary: acc s)
  case (Cons c cs)
  obtain r s' where r: "rest_list E ''/api/virtualization/virtual-machines/''
      (Some [(''id'', PList (map (\<lambda>i. PStr (int_str i)) c))]) s = (r, s')" by fastforce
  with Cons.prems(1) obtain rs where rs: "r = Inr rs" by (cases r) simp_all
  with r Cons.prems(1) obtain acc1 where "index_selected requested (map rec_data rs) acc = Inr acc1"
    "fst (fetch_chunks E requested cs acc1 s') = Inr acc'"
    by (cases "index_selected requested (map rec_data rs) acc") simp_all
  with Cons.hyps [of acc1 s'] index_selected_keys [of requested "map rec_data rs" acc acc1] Cons.prems(2,3) show ?case by blast
qed auto

lemma list_by_ids_requested:
  assumes "fst (list_netbox_virtual_machines_by_ids E ids s) = Inr vms" "p \<in> set vms"
  shows "\<exists>i \<in> set (List.map_filter chunk_id ids). relation_id (obj_get p ''id'') = Some i"
proof (cases "default_chunks ids = []")
  case True
  with assms show ?thesis by (simp add: list_netbox_virtual_machines_by_ids_def)
next
  case False
  let ?cs = "default_chunks ids"
  from False assms(1) obtain acc where acc: "fst (fetch_chunks E (concat ?cs) ?cs [] s) = Inr acc" "vms = map snd (sort_key fst acc)"
    by (auto simp: list_netbox_virtual_machines_by_ids_def Let_def split: prod.splits sum.splits)
  from fetch_chunks_keys [OF acc(1)] have "\<forall>(i, p) \<in> set acc. i \<in> set (concat ?cs) \<and> relation_id (obj_get p ''id'') = Some i" by simp
  with acc(2) assms(2) show ?thesis by (auto simp: concat_default_chunks)
qed


lemma sort_eq_Nil [simp]: "sort_key f xs = [] \<longleftrightarrow> xs = []"
  by (metis length_0_conv length_sort)

lemma in_map_filter: "i \<in> set (List.map_filter f xs) \<longleftrightarrow> (\<exists>x \<in> set xs. f x = Some i)"
  by (auto simp: List.map_filter_def image_iff)

lemma set_Some_map_filter: "None \<notin> set (map f xs) \<Longrightarrow> set (map f xs) = Some ` set (List.map_filter f xs)"
  by (induct xs) (auto simp: List.map_filter_def)

text \<open>
  The check of a selected lookup passes exactly when the selection was not empty, every selected
  id is a positive integer, and the ids of the returned records are precisely the selected ones;
  it then returns all the records, and otherwise it is an error.
\<close>

theorem selected_coverage_exact:
  "(case require_selected_netbox_vm_coverage records ids operation of
      Inr good \<Rightarrow> good = records | Inl e \<Rightarrow> \<exists>d. e = coverage_error operation d) \<and>
   (require_selected_netbox_vm_coverage records ids operation = Inr records \<longleftrightarrow>
      ids \<noteq> [] \<and> None \<notin> set (map normalize_positive_int ids) \<and>
      set (map (\<lambda>p. relation_id (obj_get p ''id'')) records) = set (map normalize_positive_int ids))"
proof -
  let ?rid = "\<lambda>p :: pyobj. relation_id (obj_get p ''id'')" and ?n = normalize_positive_int
  let ?req = "List.map_filter ?n ids" and ?ret = "List.map_filter ?rid records"
  define ok where "ok \<longleftrightarrow> None \<notin> set (map ?n ids) \<and> ?req \<noteq> [] \<and> None \<notin> set (map ?rid records) \<and> set ?req = set ?ret"
  have valid: "filter (\<lambda>v. ?n v = None) ids = [] \<longleftrightarrow> None \<notin> set (map ?n ids)"
    and bad: "filter (\<lambda>p. ?rid p = None) records = [] \<longleftrightarrow> None \<notin> set (map ?rid records)"
    by (force simp: filter_empty_conv)+
  have "filter (\<lambda>p. ?rid p \<noteq> None) records = records" if "None \<notin> set (map ?rid records)"
    using that by (force simp: filter_id_conv)
  moreover have sub: "filter (\<lambda>i. i \<notin> set xs) (remdups ys) = [] \<longleftrightarrow> set ys \<subseteq> set xs" for xs ys :: "int list"
    by (auto simp: filter_empty_conv)
  ultimately have "require_selected_netbox_vm_coverage records ids operation = Inr records \<longleftrightarrow> ok"
    "case require_selected_netbox_vm_coverage records ids operation of
       Inr good \<Rightarrow> good = records | Inl e \<Rightarrow> \<exists>d. e = coverage_error operation d"
    unfolding require_selected_netbox_vm_coverage_def Let_def ok_def sort_eq_Nil map_is_Nil_conv valid bad sub
      remdups_eq_nil_iff set_remdups set_eq_subset by auto
  moreover have "ok \<longleftrightarrow> ids \<noteq> [] \<and> None \<notin> set (map ?n ids) \<and> set (map ?rid records) = set (map ?n ids)"
    (is "_ \<longleftrightarrow> ?spec")
  proof
    assume ok
    then have none: "None \<notin> set (map ?n ids)" "None \<notin> set (map ?rid records)" and "?req \<noteq> []" and eq: "set ?req = set ?ret"
      by (simp_all add: ok_def)
    moreover have "set (map ?n ids) = Some ` set ?req" by (rule set_Some_map_filter [OF none(1)])
    moreover have "set (map ?rid records) = Some ` set ?ret" by (rule set_Some_map_filter [OF none(2)])
    ultimately show ?spec by auto
  next
    assume spec: ?spec
    then have none: "None \<notin> set (map ?n ids)" "None \<notin> set (map ?rid records)" by auto
    have "Some ` set ?req = Some ` set ?ret"
      using set_Some_map_filter [OF none(1)] set_Some_map_filter [OF none(2)] spec by simp
    then have "set ?req = set ?ret" by (simp add: inj_image_eq_iff)
    moreover have "?req \<noteq> []" using spec set_Some_map_filter [OF none(1)] by auto
    ultimately show ok using none by (simp add: ok_def)
  qed
  ultimately show ?thesis by simp
qed

end
