(* ===== verification/Index_Laws.thy ===== *)
theory Index_Laws
  imports Py_Prelude
begin

text \<open>
  Two contracts several components share when they index a list of records in one pass: a grouping
  index keeps every item under its key (\<^verbatim>\<open>d.setdefault(key, []).append(item)\<close>), a first-wins index keeps the
  first item of each key (\<^verbatim>\<open>d.setdefault(key, item)\<close>). Records without a key are left out. A client looks
  a key up after the pass; the lemmas say what it finds in terms of the list. Also here: the list
  comprehension whose element expression may raise.
\<close>

locale grouping_index =
  fixes add :: "'r \<Rightarrow> ('k, 'v list) pydict \<Rightarrow> ('k, 'v list) pydict"
    and key :: "'r \<Rightarrow> 'k option"
    and item :: "'r \<Rightarrow> 'v"
  assumes add_law: "add r d = (case key r of None \<Rightarrow> d | Some k \<Rightarrow> dict_append k (item r) d)"
begin

lemma lookup_fold:
  "map_of (fold add rs d) k =
     (case (map_of d k, map item (filter (\<lambda>r. key r = Some k) rs)) of
        (None, []) \<Rightarrow> None | (None, xs) \<Rightarrow> Some xs | (Some ys, xs) \<Rightarrow> Some (ys @ xs))"
proof (induct rs arbitrary: d)
  case (Cons r rs)
  show ?case using Cons [of "add r d"] by (auto simp: add_law py_dict split: option.splits list.splits)
qed (simp split: option.splits)

lemma lookup:
  "map_of (fold add rs []) k =
     (let xs = map item (filter (\<lambda>r. key r = Some k) rs) in if xs = [] then None else Some xs)"
  by (simp add: lookup_fold Let_def split: list.splits)

lemma fold_wf: "dict_wf d \<Longrightarrow> dict_wf (fold add rs d)"
  by (induct rs arbitrary: d) (auto simp: add_law split: option.splits)

end

locale first_index =
  fixes add :: "'r \<Rightarrow> ('k, 'r) pydict \<Rightarrow> ('k, 'r) pydict"
    and key :: "'r \<Rightarrow> 'k option"
  assumes add_law: "add r d = (case key r of None \<Rightarrow> d | Some k \<Rightarrow> dict_setdefault k r d)"
begin

lemma lookup_fold:
  "map_of (fold add rs d) k =
     (case map_of d k of Some x \<Rightarrow> Some x | None \<Rightarrow> List.find (\<lambda>r. key r = Some k) rs)"
proof (induct rs arbitrary: d)
  case (Cons r rs)
  show ?case using Cons [of "add r d"] by (auto simp: add_law py_dict split: option.splits)
qed (simp split: option.splits)

lemma lookup: "map_of (fold add rs []) k = List.find (\<lambda>r. key r = Some k) rs"
  by (simp add: lookup_fold)

lemma fold_wf: "dict_wf d \<Longrightarrow> dict_wf (fold add rs d)"
  by (induct rs arbitrary: d) (auto simp: add_law split: option.splits)

lemma values_from: "snd ` set (fold add rs d) \<subseteq> set rs \<union> snd ` set d"
proof (induct rs arbitrary: d)
  case (Cons r rs)
  have "snd ` set (add r d) \<subseteq> insert r (snd ` set d)" by (auto simp: add_law dict_setdefault_def split: option.splits)
  with Cons [of "add r d"] show ?case by auto
qed simp

end

lemma find_in: "List.find P xs = Some x \<Longrightarrow> x \<in> set xs \<and> P x"
  by (induct xs) (auto split: if_splits)

lemma find_filter: "List.find P (filter Q xs) = List.find (\<lambda>x. Q x \<and> P x) xs"
  by (induct xs) auto

text \<open>\<^verbatim>\<open>[f(x) for x in xs]\<close> where \<^verbatim>\<open>f\<close> may raise: the first exception is the result.\<close>

fun map_all :: "('a \<Rightarrow> 'e + 'b) \<Rightarrow> 'a list \<Rightarrow> 'e + 'b list" where
  "map_all f [] = Inr []"
| "map_all f (x # xs) =
     (case f x of
        Inl e \<Rightarrow> Inl e
      | Inr y \<Rightarrow> (case map_all f xs of Inl e \<Rightarrow> Inl e | Inr ys \<Rightarrow> Inr (y # ys)))"

lemma map_all_Inr: "map_all f xs = Inr ys \<longleftrightarrow> list_all2 (\<lambda>x y. f x = Inr y) xs ys"
proof (induct xs arbitrary: ys)
  case (Cons x xs)
  show ?case
  proof
    assume "map_all f (x # xs) = Inr ys"
    then show "list_all2 (\<lambda>x y. f x = Inr y) (x # xs) ys" by (auto simp: Cons [symmetric] split: sum.splits)
  next
    assume "list_all2 (\<lambda>x y. f x = Inr y) (x # xs) ys"
    then obtain y zs where "ys = y # zs" "f x = Inr y" "map_all f xs = Inr zs" by (auto simp: list_all2_Cons1 Cons)
    then show "map_all f (x # xs) = Inr ys" by simp
  qed
qed auto

end
