(* ===== verification/Sidecar_State.thy ===== *)
theory Sidecar_State
  imports Rest_Reconcile Runtime_Settings Index_Laws
begin

text \<open>
  The typed sync-state sidecars of the NetBox plugin (\<^verbatim>\<open>services/sync/sync_state_writer.py\<close> and
  \<^verbatim>\<open>services/sync/sync_state_reader.py\<close>): best-effort upserts of the row that belongs to a parent object,
  and the resolution of a virtual machine from the sidecar rows and, while they are enabled, the legacy
  custom fields. The two module-level memos of unavailable routes are part of the state. Every
  exception is caught inside, so the operations return plain values; log messages are left out.
  \<open>legacy\<close> is the answer of \<^verbatim>\<open>custom_fields_enabled()\<close>.
\<close>

record 'w syncst =
  net :: "'w rst"
  writer_unavailable :: "string list"
  reader_unavailable :: "string list"

text \<open>A REST operation run inside the synchronization state.\<close>

definition on_net :: "('w, 'a) rest_op \<Rightarrow> 'w syncst \<Rightarrow> (py_exc + 'a) \<times> 'w syncst" where
  "on_net body s = (case body (net s) of (r, n) \<Rightarrow> (r, s\<lparr>net := n\<rparr>))"


subsection \<open>Record ids and texts\<close>

text \<open>
  \<^verbatim>\<open>_record_id\<close> of a JSON value. A mapping answers with its first key of \<^verbatim>\<open>id\<close>, \<^verbatim>\<open>pk\<close>, whatever its value
  is; the attribute, getter and serializer probes find nothing on the other values.
\<close>

fun record_id :: "pyval \<Rightarrow> int option" where
  "record_id (PDict ((k, v) # d)) =
     (if k = ''id'' then record_id v
      else if map_of d ''id'' = None \<and> k = ''pk'' then record_id v
      else record_id (PDict d))"
| "record_id v = py_int_of v"

text \<open>\<^verbatim>\<open>_record_id\<close> of a \<^verbatim>\<open>RestRecord\<close>: the attributes \<^verbatim>\<open>id\<close> and \<^verbatim>\<open>pk\<close>, the first that is not \<^verbatim>\<open>None\<close>.\<close>

definition rest_record_id :: "rest_record \<Rightarrow> int option" where
  "rest_record_id r =
     (if rec_id r \<noteq> PNone then record_id (rec_id r) else record_id (obj_get (rec_data r) ''pk''))"

definition text_or_blank :: "pyval \<Rightarrow> string" where
  "text_or_blank v = py_strip (py_str (py_or v (PStr [])))"

definition without_none :: "pyobj \<Rightarrow> pyobj" where
  "without_none payload = filter (\<lambda>(k, v). v \<noteq> PNone) payload"

definition record_to_dict :: "pyval \<Rightarrow> pyobj option" where
  "record_to_dict v = (case v of PDict d \<Rightarrow> Some d | _ \<Rightarrow> None)"

definition is_sidecar_unavailable :: "py_exc \<Rightarrow> bool" where
  "is_sidecar_unavailable e =
     (case e of ProxboxException _ _ _ status \<Rightarrow> status \<in> {404, 501} | OtherError _ \<Rightarrow> False)"

definition conflict_markers :: "string list" where
  "conflict_markers =
     [''409'', ''conflict'', ''sync_state_conflict'', ''already has a proxbox sync-state row'',
      ''target parent already has'', ''already exists'', ''must be unique'', ''make a unique set'',
      ''duplicate key value'', ''unique constraint'']"

definition conflict_text :: "py_exc \<Rightarrow> string" where
  "conflict_text e =
     (case e of
        ProxboxException message detail _ status \<Rightarrow>
          py_join '' ''
            ((if status \<noteq> 0 then [int_str status] else []) @
             (if truthy detail then [py_str detail] else []) @
             (if message \<noteq> [] then [message] else []) @ [exc_str e])
      | OtherError t \<Rightarrow> t)"

definition is_sidecar_duplicate_conflict :: "py_exc \<Rightarrow> bool" where
  "is_sidecar_duplicate_conflict e = list_ex (\<lambda>m. py_contains m (py_lower (conflict_text e))) conflict_markers"


subsection \<open>Writing a sidecar row\<close>

definition vm_sync_state_path :: string where
  "vm_sync_state_path = ''/api/plugins/proxbox/sync-state/virtual-machines/''"

definition device_sync_state_path :: string where
  "device_sync_state_path = ''/api/plugins/proxbox/sync-state/devices/''"

definition cluster_sync_state_path :: string where
  "cluster_sync_state_path = ''/api/plugins/proxbox/sync-state/clusters/''"

definition virtual_disk_sync_state_path :: string where
  "virtual_disk_sync_state_path = ''/api/plugins/proxbox/sync-state/virtual-disks/''"

definition vm_interface_sync_state_path :: string where
  "vm_interface_sync_state_path = ''/api/plugins/proxbox/sync-state/vm-interfaces/''"

definition lookup_parent_sidecar ::
  "'w netenv \<Rightarrow> string \<Rightarrow> string \<Rightarrow> int \<Rightarrow> ('w, rest_record option) rest_op" where
  "lookup_parent_sidecar E path parent_field parent_id s =
     rest_first E path (Some [(parent_field @ ''_id'', PInt parent_id), (''limit'', PInt 2)]) s"

definition patch_parent_sidecar ::
  "'w netenv \<Rightarrow> string \<Rightarrow> rest_record \<Rightarrow> pyobj \<Rightarrow> ('w, pyobj option) rest_op" where
  "patch_parent_sidecar E path existing payload s =
     (case rest_record_id existing of
        None \<Rightarrow> (Inr None, s)
      | Some i \<Rightarrow>
          (case rest_patch E path i payload s of
             (Inl e, s') \<Rightarrow> (Inl e, s')
           | (Inr v, s') \<Rightarrow> (Inr (record_to_dict v), s')))"

text \<open>The handler of a failed create: a conflict is resolved by patching the row that is there now.\<close>

definition after_failed_create ::
  "'w netenv \<Rightarrow> string \<Rightarrow> string \<Rightarrow> int \<Rightarrow> pyobj \<Rightarrow> py_exc \<Rightarrow> ('w, pyobj option) rest_op" where
  "after_failed_create E path parent_field parent_id payload e s =
     (if \<not> is_sidecar_duplicate_conflict e then (Inl e, s)
      else case lookup_parent_sidecar E path parent_field parent_id
                  (s\<lparr>gcache := invalidate_get_cache_for_path (api_id E) path (gcache s)\<rparr>) of
             (Inl e', s') \<Rightarrow> (Inl e', s')
           | (Inr None, s') \<Rightarrow> (Inl e, s')
           | (Inr (Some existing), s') \<Rightarrow> patch_parent_sidecar E path existing payload s')"

definition create_parent_sidecar ::
  "'w netenv \<Rightarrow> string \<Rightarrow> string \<Rightarrow> int \<Rightarrow> pyobj \<Rightarrow> ('w, pyobj option) rest_op" where
  "create_parent_sidecar E path parent_field parent_id payload s =
     (case rest_create E path
             (fold (\<lambda>(k, v). dict_set k v) payload [(parent_field, PDict [(''id'', PInt parent_id)])])
             (Some [(parent_field @ ''_id'', PInt parent_id)]) s of
        (Inr r, s') \<Rightarrow> (Inr (Some (rec_data r)), s')
      | (Inl e, s') \<Rightarrow> after_failed_create E path parent_field parent_id payload e s')"

definition try_upsert_sidecar ::
  "'w netenv \<Rightarrow> string \<Rightarrow> string \<Rightarrow> int \<Rightarrow> pyobj \<Rightarrow> ('w, pyobj option) rest_op" where
  "try_upsert_sidecar E path parent_field parent_id payload s =
     (case lookup_parent_sidecar E path parent_field parent_id s of
        (Inl e, s') \<Rightarrow> (Inl e, s')
      | (Inr (Some existing), s') \<Rightarrow> patch_parent_sidecar E path existing payload s'
      | (Inr None, s') \<Rightarrow> create_parent_sidecar E path parent_field parent_id payload s')"

definition upsert_parent_sidecar ::
  "'w netenv \<Rightarrow> string \<Rightarrow> string \<Rightarrow> pyval \<Rightarrow> pyobj \<Rightarrow> 'w syncst \<Rightarrow> pyobj option \<times> 'w syncst" where
  "upsert_parent_sidecar E path parent_field parent_id payload s =
     (case record_id parent_id of
        None \<Rightarrow> (None, s)
      | Some i \<Rightarrow>
          if path \<in> set (writer_unavailable s) then (None, s)
          else (case on_net (try_upsert_sidecar E path parent_field i payload) s of
                  (Inr r, s') \<Rightarrow> (r, s')
                | (Inl e, s') \<Rightarrow>
                    (None,
                     if is_sidecar_unavailable e then s'\<lparr>writer_unavailable := path # writer_unavailable s'\<rparr>
                     else s')))"

definition reset_sidecar_availability_cache :: "'w syncst \<Rightarrow> 'w syncst" where
  "reset_sidecar_availability_cache s = s\<lparr>writer_unavailable := [], reader_unavailable := []\<rparr>"

definition vm_sidecar_payload_from_custom_fields :: "pyobj \<Rightarrow> pyobj" where
  "vm_sidecar_payload_from_custom_fields cf =
     (let base = without_none
            [(''proxmox_vm_id'', obj_get cf ''proxmox_vm_id''),
             (''proxmox_vm_type'', obj_get cf ''proxmox_vm_type''),
             (''proxmox_start_at_boot'', obj_get cf ''proxmox_start_at_boot''),
             (''proxmox_unprivileged_container'', obj_get cf ''proxmox_unprivileged_container''),
             (''proxmox_qemu_agent'', obj_get cf ''proxmox_qemu_agent''),
             (''proxmox_search_domain'', obj_get cf ''proxmox_search_domain''),
             (''proxmox_status'', obj_get cf ''proxmox_status''),
             (''proxmox_link'', obj_get cf ''proxmox_link''),
             (''proxmox_last_updated'', obj_get cf ''proxmox_last_updated''),
             (''proxmox_endpoint_raw_id'', obj_get cf ''proxmox_endpoint_id'')];
          p1 = (if map_of cf ''proxmox_node'' = None then base
                else dict_set ''proxmox_node_name'' (PStr (text_or_blank (obj_get cf ''proxmox_node''))) base)
      in if map_of cf ''proxmox_cluster'' = None then p1
         else dict_set ''proxmox_cluster_name'' (PStr (text_or_blank (obj_get cf ''proxmox_cluster''))) p1)"

definition write_virtual_machine_sync_state ::
  "'w netenv \<Rightarrow> pyval \<Rightarrow> pyobj option \<Rightarrow> bool \<Rightarrow> pyval \<Rightarrow> 'w syncst \<Rightarrow> pyobj option \<times> 'w syncst" where
  "write_virtual_machine_sync_state E vm_id custom_fields overwrite proxmox_vm_name s =
     (let state = (if overwrite then custom_fields else None);
          payload = (case state of None \<Rightarrow> [] | Some cf \<Rightarrow> vm_sidecar_payload_from_custom_fields cf);
          name = text_or_blank proxmox_vm_name
      in if name = [] \<and> state = None then (None, s)
         else upsert_parent_sidecar E vm_sync_state_path ''virtual_machine'' vm_id
                (if name = [] then payload else dict_set ''proxmox_vm_name'' (PStr name) payload) s)"

definition write_vm_last_run_sync_state ::
  "'w netenv \<Rightarrow> pyval \<Rightarrow> string \<Rightarrow> 'w syncst \<Rightarrow> pyobj option \<times> 'w syncst" where
  "write_vm_last_run_sync_state E vm_id run_id s =
     upsert_parent_sidecar E vm_sync_state_path ''virtual_machine'' vm_id [(''last_run_id'', PStr run_id)] s"

definition add_text :: "string \<Rightarrow> pyval \<Rightarrow> pyobj \<Rightarrow> pyobj" where
  "add_text k v payload = (if v = PNone then payload else dict_set k (PStr (text_or_blank v)) payload)"

definition write_device_sync_state ::
  "'w netenv \<Rightarrow> pyval \<Rightarrow> pyval \<Rightarrow> pyval \<Rightarrow> pyval \<Rightarrow> bool \<Rightarrow> 'w syncst \<Rightarrow> pyobj option \<times> 'w syncst" where
  "write_device_sync_state E device_id last_updated node_name cluster_name overwrite s =
     (if \<not> overwrite then (None, s)
      else upsert_parent_sidecar E device_sync_state_path ''device'' device_id
             (add_text ''proxmox_cluster_name'' cluster_name
               (add_text ''proxmox_node_name'' node_name (without_none [(''proxmox_last_updated'', last_updated)]))) s)"

definition write_cluster_sync_state ::
  "'w netenv \<Rightarrow> pyval \<Rightarrow> pyval \<Rightarrow> pyval \<Rightarrow> bool \<Rightarrow> 'w syncst \<Rightarrow> pyobj option \<times> 'w syncst" where
  "write_cluster_sync_state E cluster_id last_updated cluster_name overwrite s =
     (if \<not> overwrite then (None, s)
      else upsert_parent_sidecar E cluster_sync_state_path ''cluster'' cluster_id
             (add_text ''proxmox_cluster_name'' cluster_name (without_none [(''proxmox_last_updated'', last_updated)])) s)"

definition relation_ref_payload :: "string \<Rightarrow> int \<Rightarrow> pyobj" where
  "relation_ref_payload field i =
     [(field, PDict [(''id'', PInt i)]), (field @ ''_raw_id'', PNone), (field @ ''_raw_value'', PStr [])]"

definition write_virtual_disk_sync_state ::
  "'w netenv \<Rightarrow> pyval \<Rightarrow> pyval \<Rightarrow> bool \<Rightarrow> 'w syncst \<Rightarrow> pyobj option \<times> 'w syncst" where
  "write_virtual_disk_sync_state E disk_id storage_id overwrite s =
     (case record_id storage_id of
        None \<Rightarrow> (None, s)
      | Some i \<Rightarrow>
          if \<not> overwrite then (None, s)
          else upsert_parent_sidecar E virtual_disk_sync_state_path ''virtual_disk'' disk_id
                 (relation_ref_payload ''proxbox_storage'' i) s)"

definition write_vm_interface_sync_state ::
  "'w netenv \<Rightarrow> pyval \<Rightarrow> pyval \<Rightarrow> bool \<Rightarrow> 'w syncst \<Rightarrow> pyobj option \<times> 'w syncst" where
  "write_vm_interface_sync_state E interface_id bridge_id overwrite s =
     (case record_id bridge_id of
        None \<Rightarrow> (None, s)
      | Some i \<Rightarrow>
          if \<not> overwrite then (None, s)
          else upsert_parent_sidecar E vm_interface_sync_state_path ''vm_interface'' interface_id
                 (relation_ref_payload ''proxbox_bridge'' i) s)"


subsection \<open>Reading sidecar rows\<close>

definition virtual_machines_path :: string where
  "virtual_machines_path = ''/api/virtualization/virtual-machines/''"

definition custom_fields_enabled :: "runtime \<Rightarrow> bool option \<Rightarrow> bool" where
  "custom_fields_enabled rt enabled =
     (case enabled of Some b \<Rightarrow> b | None \<Rightarrow> get_plugin_bool rt ''custom_fields_enabled'' False)"

definition as_positive_int :: "pyval \<Rightarrow> int option" where
  "as_positive_int v = (case py_int_of v of Some i \<Rightarrow> if i > 0 then Some i else None | None \<Rightarrow> None)"

definition record_cluster_id :: "rest_record option \<Rightarrow> int option" where
  "record_cluster_id r = (case r of None \<Rightarrow> None | Some rec \<Rightarrow> record_id (obj_get (rec_data rec) ''cluster''))"

definition memoize_sidecar_failure :: "string \<Rightarrow> py_exc \<Rightarrow> 'w syncst \<Rightarrow> 'w syncst" where
  "memoize_sidecar_failure path e s =
     (if is_sidecar_unavailable e then s\<lparr>reader_unavailable := path # reader_unavailable s\<rparr> else s)"

definition read_sidecars :: "'w netenv \<Rightarrow> pyobj \<Rightarrow> int option \<Rightarrow> ('w, rest_record list) rest_op" where
  "read_sidecars E query page_size s =
     (case page_size of
        Some n \<Rightarrow> rest_list_paginated E vm_sync_state_path (Some query) n None s
      | None \<Rightarrow> rest_list E vm_sync_state_path (Some query) s)"

text \<open>The rows, \<open>None\<close> when they cannot be read, and whether the read failed on an available route.\<close>

definition scan_sidecars ::
  "'w netenv \<Rightarrow> pyobj \<Rightarrow> int option \<Rightarrow> 'w syncst \<Rightarrow> (rest_record list option \<times> bool) \<times> 'w syncst" where
  "scan_sidecars E query page_size s =
     (if vm_sync_state_path \<in> set (reader_unavailable s) then ((None, False), s)
      else case on_net (read_sidecars E query page_size) s of
             (Inr rows, s') \<Rightarrow> ((Some rows, False), s')
           | (Inl e, s') \<Rightarrow> ((None, \<not> is_sidecar_unavailable e), memoize_sidecar_failure vm_sync_state_path e s'))"

definition list_sidecars ::
  "'w netenv \<Rightarrow> pyobj \<Rightarrow> int option \<Rightarrow> 'w syncst \<Rightarrow> rest_record list option \<times> 'w syncst" where
  "list_sidecars E query page_size s =
     (if vm_sync_state_path \<in> set (reader_unavailable s) then (None, s)
      else case on_net (read_sidecars E query page_size) s of
             (Inr rows, s') \<Rightarrow> (Some rows, s')
           | (Inl e, s') \<Rightarrow> (None, memoize_sidecar_failure vm_sync_state_path e s'))"

definition first_sidecar :: "'w netenv \<Rightarrow> pyobj \<Rightarrow> 'w syncst \<Rightarrow> rest_record option \<times> 'w syncst" where
  "first_sidecar E query s =
     (case list_sidecars E (dict_set ''limit'' (PInt 2) query) None s of
        (Some [r], s') \<Rightarrow> (Some r, s')
      | (_, s') \<Rightarrow> (None, s'))"

definition fetch_vm_by_id :: "'w netenv \<Rightarrow> int \<Rightarrow> 'w syncst \<Rightarrow> rest_record option \<times> 'w syncst" where
  "fetch_vm_by_id E vm_id s =
     (case on_net (rest_first E virtual_machines_path (Some [(''id'', PInt vm_id), (''limit'', PInt 2)])) s of
        (Inr r, s') \<Rightarrow> (r, s')
      | (Inl e, s') \<Rightarrow> (None, s'))"


subsection \<open>The identity of a virtual machine\<close>

datatype id_source = Sidecar | Custom_fields

record vm_candidate =
  cand_id :: int
  cand_source :: id_source
  cand_record :: "rest_record option"

record vm_resolution =
  res_record :: rest_record
  res_id :: int
  res_source :: id_source

text \<open>
  The loop over the sidecar rows: the candidates, and whether a row was refused because the cluster of
  its virtual machine could not be verified.
\<close>

fun sidecar_candidates ::
  "'w netenv \<Rightarrow> int option \<Rightarrow> int option \<Rightarrow> rest_record list \<Rightarrow> 'w syncst \<Rightarrow> (vm_candidate list \<times> bool) \<times> 'w syncst" where
  "sidecar_candidates E endpoint_id cluster_id [] s = (([], False), s)"
| "sidecar_candidates E endpoint_id cluster_id (row # rows) s =
     (let data = rec_data row
      in if endpoint_id \<noteq> None \<and> as_positive_int (obj_get data ''proxmox_endpoint_raw_id'') \<noteq> endpoint_id
         then sidecar_candidates E endpoint_id cluster_id rows s
         else case record_id (obj_get data ''virtual_machine'') of
           None \<Rightarrow> sidecar_candidates E endpoint_id cluster_id rows s
         | Some vm_id \<Rightarrow>
             (case cluster_id of
                None \<Rightarrow>
                  (case sidecar_candidates E endpoint_id cluster_id rows s of
                     ((cs, refused), s') \<Rightarrow>
                       ((\<lparr>cand_id = vm_id, cand_source = Sidecar, cand_record = None\<rparr> # cs, refused), s'))
              | Some cluster \<Rightarrow>
                  (case fetch_vm_by_id E vm_id s of
                     (rec, s1) \<Rightarrow>
                       (case sidecar_candidates E endpoint_id cluster_id rows s1 of
                          ((cs, refused), s2) \<Rightarrow>
                            (case record_cluster_id rec of
                               None \<Rightarrow> ((cs, True), s2)
                             | Some c \<Rightarrow>
                                 if c \<noteq> cluster then ((cs, refused), s2)
                                 else ((\<lparr>cand_id = vm_id, cand_source = Sidecar, cand_record = rec\<rparr> # cs, refused), s2))))))"

definition sidecar_query :: "int \<Rightarrow> int option \<Rightarrow> int option \<Rightarrow> pyobj" where
  "sidecar_query proxmox_vm_id endpoint_id cluster_id =
     [(''proxmox_vm_id'', PInt proxmox_vm_id)] @
     (case endpoint_id of None \<Rightarrow> [] | Some e \<Rightarrow> [(''proxmox_endpoint_raw_id'', PInt e)]) @
     [(''limit'', PInt (if cluster_id = None then 2 else 50))]"

definition list_sidecar_vm_identity_candidates ::
  "'w netenv \<Rightarrow> int \<Rightarrow> int option \<Rightarrow> int option \<Rightarrow> 'w syncst \<Rightarrow> (vm_candidate list option \<times> bool) \<times> 'w syncst" where
  "list_sidecar_vm_identity_candidates E proxmox_vm_id endpoint_id cluster_id s =
     (case scan_sidecars E (sidecar_query proxmox_vm_id endpoint_id cluster_id) None s of
        ((None, failed), s') \<Rightarrow> ((None, failed), s')
      | ((Some rows, _), s') \<Rightarrow>
          (case sidecar_candidates E endpoint_id cluster_id rows s' of
             ((cs, refused), s'') \<Rightarrow> ((Some cs, refused), s'')))"

definition custom_field_query :: "int \<Rightarrow> int option \<Rightarrow> int option \<Rightarrow> pyobj option \<Rightarrow> pyobj" where
  "custom_field_query proxmox_vm_id endpoint_id cluster_id fallback =
     dict_set ''limit'' (PInt 2)
       (case fallback of
          Some q \<Rightarrow> q
        | None \<Rightarrow>
            [(''cf_proxmox_vm_id'', PInt proxmox_vm_id)] @
            (case (endpoint_id, cluster_id) of
               (Some e, _) \<Rightarrow> [(''cf_proxmox_endpoint_id'', PInt e)]
             | (None, Some c) \<Rightarrow> [(''cluster_id'', PInt c)]
             | (None, None) \<Rightarrow> []))"

definition custom_field_candidates :: "rest_record list \<Rightarrow> vm_candidate list" where
  "custom_field_candidates rs =
     List.map_filter (\<lambda>r.
         map_option (\<lambda>i. \<lparr>cand_id = i, cand_source = Custom_fields, cand_record = Some r\<rparr>) (rest_record_id r)) rs"

definition list_custom_field_vm_identity_candidates ::
  "'w netenv \<Rightarrow> int \<Rightarrow> int option \<Rightarrow> int option \<Rightarrow> pyobj option \<Rightarrow> 'w syncst \<Rightarrow>
     (vm_candidate list option \<times> bool) \<times> 'w syncst" where
  "list_custom_field_vm_identity_candidates E proxmox_vm_id endpoint_id cluster_id fallback s =
     (case on_net (rest_list E virtual_machines_path
             (Some (custom_field_query proxmox_vm_id endpoint_id cluster_id fallback))) s of
        (Inl e, s') \<Rightarrow> ((None, True), s')
      | (Inr rs, s') \<Rightarrow> ((Some (custom_field_candidates rs), False), s'))"

text \<open>The record of the one candidate id: a custom-field record, a hydrated sidecar record, or a fetch.\<close>

definition hydrate_candidate ::
  "'w netenv \<Rightarrow> vm_candidate list \<Rightarrow> int \<Rightarrow> 'w syncst \<Rightarrow> rest_record option \<times> 'w syncst" where
  "hydrate_candidate E cands i s =
     (case List.find (\<lambda>c. cand_id c = i \<and> cand_record c \<noteq> None \<and> cand_source c = Custom_fields) cands of
        Some c \<Rightarrow> (cand_record c, s)
      | None \<Rightarrow>
          (case List.find (\<lambda>c. cand_id c = i \<and> cand_record c \<noteq> None) cands of
             Some c \<Rightarrow> (cand_record c, s)
           | None \<Rightarrow> fetch_vm_by_id E i s))"

text \<open>The answer on the collected candidates; the second component says ambiguous or not verifiable.\<close>

definition decide_identity ::
  "'w netenv \<Rightarrow> vm_candidate list option \<Rightarrow> bool \<Rightarrow> vm_candidate list option \<Rightarrow> bool \<Rightarrow> 'w syncst \<Rightarrow>
     (vm_resolution option \<times> bool) \<times> 'w syncst" where
  "decide_identity E sidecars refused customs customs_failed s =
     (let cands = (case sidecars of None \<Rightarrow> [] | Some cs \<Rightarrow> cs) @ (case customs of None \<Rightarrow> [] | Some cs \<Rightarrow> cs)
      in if refused \<and> (customs = None \<or> customs = Some []) then ((None, True), s)
         else case remdups (map cand_id cands) of
           [] \<Rightarrow> ((None, customs_failed), s)
         | [i] \<Rightarrow>
             (case hydrate_candidate E cands i s of
                (None, s') \<Rightarrow> ((None, False), s')
              | (Some r, s') \<Rightarrow>
                  ((Some \<lparr>res_record = r, res_id = i, res_source = cand_source (hd cands)\<rparr>, False), s'))
         | _ \<Rightarrow> ((None, True), s))"

definition resolve_unique_vm_identity_candidate ::
  "'w netenv \<Rightarrow> bool \<Rightarrow> int \<Rightarrow> int option \<Rightarrow> int option \<Rightarrow> pyobj option \<Rightarrow> 'w syncst \<Rightarrow>
     (vm_resolution option \<times> bool) \<times> 'w syncst" where
  "resolve_unique_vm_identity_candidate E legacy proxmox_vm_id endpoint_id cluster_id fallback s =
     (case list_sidecar_vm_identity_candidates E proxmox_vm_id endpoint_id cluster_id s of
        ((sidecars, refused), s1) \<Rightarrow>
          if legacy
          then (case list_custom_field_vm_identity_candidates E proxmox_vm_id endpoint_id cluster_id fallback s1 of
                  ((customs, failed), s2) \<Rightarrow> decide_identity E sidecars refused customs failed s2)
          else if sidecars = None then ((None, True), s1)
          else decide_identity E sidecars refused None False s1)"

definition ambiguous_identity :: "int \<Rightarrow> int option \<Rightarrow> int option \<Rightarrow> py_exc" where
  "ambiguous_identity vmid endpoint_id cluster_id =
     proxbox_exc ''Refusing to create or bind a VM from ambiguous sync-state identity.''
       (PStr (''vmid='' @ int_str vmid @ '' endpoint_id='' @ opt_int_str endpoint_id @ '' cluster_id='' @
              opt_int_str cluster_id @ ''; sidecar/legacy identity was ambiguous or could not be verified'')) None None"

definition resolve_virtual_machine_by_sync_state ::
  "'w netenv \<Rightarrow> bool \<Rightarrow> pyval \<Rightarrow> int option \<Rightarrow> int option \<Rightarrow> pyobj option \<Rightarrow> bool \<Rightarrow> 'w syncst \<Rightarrow>
     (py_exc + vm_resolution option) \<times> 'w syncst" where
  "resolve_virtual_machine_by_sync_state E legacy proxmox_vm_id endpoint_id cluster_id fallback fail_on_ambiguous s =
     (case as_positive_int proxmox_vm_id of
        None \<Rightarrow> (Inr None, s)
      | Some vmid \<Rightarrow>
          (case resolve_unique_vm_identity_candidate E legacy vmid endpoint_id cluster_id fallback s of
             ((r, ambiguous), s') \<Rightarrow>
               if ambiguous \<and> fail_on_ambiguous then (Inl (ambiguous_identity vmid endpoint_id cluster_id), s')
               else (Inr r, s')))"

definition resolve_virtual_machine_id_by_sync_state ::
  "'w netenv \<Rightarrow> bool \<Rightarrow> pyval \<Rightarrow> int option \<Rightarrow> int option \<Rightarrow> pyobj option \<Rightarrow> 'w syncst \<Rightarrow> (py_exc + int option) \<times> 'w syncst" where
  "resolve_virtual_machine_id_by_sync_state E legacy proxmox_vm_id endpoint_id cluster_id fallback s =
     (case resolve_virtual_machine_by_sync_state E legacy proxmox_vm_id endpoint_id cluster_id fallback False s of
        (Inl e, s') \<Rightarrow> (Inl e, s')
      | (Inr r, s') \<Rightarrow> (Inr (map_option res_id r), s'))"

definition resolve_unique_virtual_machine_by_sync_state ::
  "'w netenv \<Rightarrow> bool \<Rightarrow> pyval \<Rightarrow> 'w syncst \<Rightarrow> (vm_resolution option \<times> bool) \<times> 'w syncst" where
  "resolve_unique_virtual_machine_by_sync_state E legacy proxmox_vm_id s =
     (case as_positive_int proxmox_vm_id of
        None \<Rightarrow> ((None, False), s)
      | Some vmid \<Rightarrow> resolve_unique_vm_identity_candidate E legacy vmid None None None s)"


subsection \<open>Names, runs and orphans read from the rows\<close>

definition resolve_vm_sidecar_by_parent_id :: "'w netenv \<Rightarrow> int \<Rightarrow> 'w syncst \<Rightarrow> pyobj option \<times> 'w syncst" where
  "resolve_vm_sidecar_by_parent_id E vm_id s =
     (case first_sidecar E [(''virtual_machine_id'', PInt vm_id)] s of
        (r, s') \<Rightarrow> (map_option rec_data r, s'))"

definition row_parent :: "rest_record \<Rightarrow> int option" where
  "row_parent row = record_id (obj_get (rec_data row) ''virtual_machine'')"

definition row_name :: "rest_record \<Rightarrow> string" where
  "row_name row = text_or_blank (obj_get (rec_data row) ''proxmox_vm_name'')"

definition collapse_vm_last_synced_name :: "string list \<Rightarrow> string option" where
  "collapse_vm_last_synced_name values = (case remdups values of [x] \<Rightarrow> Some x | _ \<Rightarrow> None)"

text \<open>The non-empty names of the rows of one parent.\<close>

definition parent_names :: "int \<Rightarrow> rest_record list \<Rightarrow> string list" where
  "parent_names parent rows =
     filter (\<lambda>n. n \<noteq> []) (map row_name (filter (\<lambda>row. rec_data row \<noteq> [] \<and> row_parent row = Some parent) rows))"

definition load_vm_last_synced_name :: "'w netenv \<Rightarrow> pyval \<Rightarrow> 'w syncst \<Rightarrow> string option \<times> 'w syncst" where
  "load_vm_last_synced_name E vm_id s =
     (case as_positive_int vm_id of
        None \<Rightarrow> (None, s)
      | Some parent \<Rightarrow>
          (case list_sidecars E [(''virtual_machine_id'', PInt parent)] None s of
             (None, s') \<Rightarrow> (None, s')
           | (Some rows, s') \<Rightarrow> (collapse_vm_last_synced_name (parent_names parent rows), s')))"

definition add_row_name :: "rest_record \<Rightarrow> (int, string list) pydict \<Rightarrow> (int, string list) pydict" where
  "add_row_name row names =
     (case row_parent row of
        None \<Rightarrow> names
      | Some parent \<Rightarrow> if rec_data row = [] \<or> row_name row = [] then names else dict_append parent (row_name row) names)"

definition collapsed_names :: "rest_record list \<Rightarrow> (int, string) pydict" where
  "collapsed_names rows =
     List.map_filter (\<lambda>(parent, values). map_option (Pair parent) (collapse_vm_last_synced_name values))
       (fold add_row_name rows [])"

definition load_vm_last_synced_names :: "'w netenv \<Rightarrow> int \<Rightarrow> 'w syncst \<Rightarrow> (int, string) pydict \<times> 'w syncst" where
  "load_vm_last_synced_names E page_size s =
     (case list_sidecars E [] (Some page_size) s of
        (None, s') \<Rightarrow> ([], s')
      | (Some rows, s') \<Rightarrow> (collapsed_names rows, s'))"

record identity_scan =
  scan_rows :: "pyobj list"
  scan_unavailable :: bool
  scan_failed :: bool

definition load_vm_sync_state_identities :: "'w netenv \<Rightarrow> 'w syncst \<Rightarrow> identity_scan \<times> 'w syncst" where
  "load_vm_sync_state_identities E s =
     (case scan_sidecars E [] (Some 200) s of
        ((None, failed), s') \<Rightarrow> (\<lparr>scan_rows = [], scan_unavailable = \<not> failed, scan_failed = failed\<rparr>, s')
      | ((Some rows, _), s') \<Rightarrow>
          (\<lparr>scan_rows = map rec_data rows, scan_unavailable = False, scan_failed = False\<rparr>, s'))"

definition text_or_none :: "pyval \<Rightarrow> string option" where
  "text_or_none v = (if text_or_blank v = [] then None else Some (text_or_blank v))"

definition legacy_last_run_id :: "bool \<Rightarrow> pyobj option \<Rightarrow> string \<Rightarrow> string option" where
  "legacy_last_run_id legacy vm_record custom_field_name =
     (case vm_record of
        None \<Rightarrow> None
      | Some d \<Rightarrow>
          if \<not> legacy then None
          else (case obj_get d ''custom_fields'' of PDict cf \<Rightarrow> text_or_none (obj_get cf custom_field_name) | _ \<Rightarrow> None))"

definition resolve_vm_last_run_id ::
  "'w netenv \<Rightarrow> bool \<Rightarrow> pyobj option \<Rightarrow> string \<Rightarrow> 'w syncst \<Rightarrow> string option \<times> 'w syncst" where
  "resolve_vm_last_run_id E legacy vm_record custom_field_name s =
     (case (case vm_record of None \<Rightarrow> None | Some d \<Rightarrow> record_id (PDict d)) of
        None \<Rightarrow> (legacy_last_run_id legacy vm_record custom_field_name, s)
      | Some vm_id \<Rightarrow>
          (case resolve_vm_sidecar_by_parent_id E vm_id s of
             (sidecar, s') \<Rightarrow>
               ((case sidecar of
                   Some d \<Rightarrow>
                     if map_of d ''last_run_id'' \<noteq> None then text_or_none (obj_get d ''last_run_id'')
                     else legacy_last_run_id legacy vm_record custom_field_name
                 | None \<Rightarrow> legacy_last_run_id legacy vm_record custom_field_name), s')))"

definition resolve_vm_last_synced_role_id :: "bool \<Rightarrow> pyobj option \<Rightarrow> string \<Rightarrow> int option" where
  "resolve_vm_last_synced_role_id legacy vm_record custom_field_name =
     (case vm_record of
        None \<Rightarrow> None
      | Some d \<Rightarrow>
          if \<not> legacy then None
          else (case obj_get d ''custom_fields'' of PDict cf \<Rightarrow> as_positive_int (obj_get cf custom_field_name) | _ \<Rightarrow> None))"

definition tag_text :: "pyval \<Rightarrow> pyval" where
  "tag_text tag = (case tag of PDict d \<Rightarrow> py_or (obj_get d ''slug'') (obj_get d ''name'') | _ \<Rightarrow> tag)"

definition record_has_any_tag_slug :: "pyobj \<Rightarrow> string list \<Rightarrow> bool" where
  "record_has_any_tag_slug d vm_slugs =
     (let wanted = filter (\<lambda>t. t \<noteq> []) (map py_strip vm_slugs)
      in case obj_get d ''tags'' of
           PList tags \<Rightarrow> list_ex (\<lambda>tag. text_or_blank (tag_text tag) \<in> set wanted) tags
         | _ \<Rightarrow> False)"

record orphan_scan =
  stale_candidates :: "pyobj list"
  current_vm_ids :: "int list"
  orphan_unavailable :: bool
  orphan_failed :: bool

text \<open>The loop over the rows: the stale records by id and the ids seen in this run.\<close>

fun scan_rows_for_orphans ::
  "'w netenv \<Rightarrow> string \<Rightarrow> string list \<Rightarrow> rest_record list \<Rightarrow> (int, pyobj) pydict \<Rightarrow> int list \<Rightarrow> 'w syncst \<Rightarrow>
     ((int, pyobj) pydict \<times> int list) \<times> 'w syncst" where
  "scan_rows_for_orphans E run_id slugs [] cands current s = ((cands, current), s)"
| "scan_rows_for_orphans E run_id slugs (row # rows) cands current s =
     (let data = rec_data row
      in case (map_of data ''last_run_id'', record_id (obj_get data ''virtual_machine'')) of
           (Some lr, Some vm_id) \<Rightarrow>
             if text_or_blank lr = run_id
             then scan_rows_for_orphans E run_id slugs rows cands (vm_id # current) s
             else if map_of cands vm_id \<noteq> None then scan_rows_for_orphans E run_id slugs rows cands current s
             else (case fetch_vm_by_id E vm_id s of
                     (None, s') \<Rightarrow> scan_rows_for_orphans E run_id slugs rows cands current s'
                   | (Some r, s') \<Rightarrow>
                       scan_rows_for_orphans E run_id slugs rows
                         (if record_has_any_tag_slug (rec_data r) slugs then dict_set vm_id (rec_data r) cands else cands)
                         current s')
         | _ \<Rightarrow> scan_rows_for_orphans E run_id slugs rows cands current s)"

definition scan_vm_sidecar_orphan_candidates ::
  "'w netenv \<Rightarrow> string \<Rightarrow> string list \<Rightarrow> 'w syncst \<Rightarrow> orphan_scan \<times> 'w syncst" where
  "scan_vm_sidecar_orphan_candidates E run_id slugs s =
     (case scan_sidecars E [] (Some 200) s of
        ((None, failed), s') \<Rightarrow>
          (\<lparr>stale_candidates = [], current_vm_ids = [], orphan_unavailable = \<not> failed, orphan_failed = failed\<rparr>, s')
      | ((Some rows, _), s') \<Rightarrow>
          (case scan_rows_for_orphans E run_id slugs rows [] [] s' of
             ((cands, current), s'') \<Rightarrow>
               (\<lparr>stale_candidates = map snd cands, current_vm_ids = current, orphan_unavailable = False,
                 orphan_failed = False\<rparr>, s'')))"

definition list_stale_vm_sidecar_candidates ::
  "'w netenv \<Rightarrow> string \<Rightarrow> string list \<Rightarrow> 'w syncst \<Rightarrow> pyobj list \<times> 'w syncst" where
  "list_stale_vm_sidecar_candidates E run_id slugs s =
     (case scan_vm_sidecar_orphan_candidates E run_id slugs s of (scan, s') \<Rightarrow> (stale_candidates scan, s'))"


subsection \<open>Identity is unique or refused\<close>

definition the_list :: "'a list option \<Rightarrow> 'a list" where
  "the_list xs = (case xs of None \<Rightarrow> [] | Some ys \<Rightarrow> ys)"

lemma sidecar_candidates_verified:
  "sidecar_candidates E endpoint_id cluster_id rows s = ((cs, refused), s') \<Longrightarrow> c \<in> set cs \<Longrightarrow>
     cand_source c = Sidecar \<and> (cluster_id = None \<or> record_cluster_id (cand_record c) = cluster_id)"
proof (induct rows arbitrary: s cs refused s')
  case (Cons row rows)
  obtain cs1 r1 s1 where rest: "sidecar_candidates E endpoint_id cluster_id rows s = ((cs1, r1), s1)"
    by (metis prod.collapse)
  show ?case
  proof (cases "record_id (obj_get (rec_data row) ''virtual_machine'')")
    case None
    with Cons show ?thesis by (auto simp: Let_def split: if_splits)
  next
    case (Some vm_id)
    obtain rec s2 where f: "fetch_vm_by_id E vm_id s = (rec, s2)" by fastforce
    obtain cs2 r2 s3 where rest2: "sidecar_candidates E endpoint_id cluster_id rows s2 = ((cs2, r2), s3)"
      by (metis prod.collapse)
    from Cons.prems Some f rest rest2 Cons.hyps [OF rest] Cons.hyps [OF rest2] show ?thesis
      by (auto simp: Let_def split: if_splits option.splits)
  qed
qed simp

lemma custom_field_candidates_source: "c \<in> set (custom_field_candidates rs) \<Longrightarrow> cand_source c = Custom_fields"
  by (auto simp: custom_field_candidates_def List.map_filter_def)

lemma list_sidecar_candidates_verified:
  assumes "list_sidecar_vm_identity_candidates E vmid endpoint_id cluster_id s = ((Some cs, refused), s')" "c \<in> set cs"
  shows "cand_source c = Sidecar \<and> (cluster_id = None \<or> record_cluster_id (cand_record c) = cluster_id)"
proof -
  obtain rows s1 where "sidecar_candidates E endpoint_id cluster_id rows s1 = ((cs, refused), s')"
    using assms(1) by (auto simp: list_sidecar_vm_identity_candidates_def split: prod.splits option.splits)
  then show ?thesis using assms(2) by (rule sidecar_candidates_verified)
qed

lemma remdups_single: "remdups xs = [x] \<Longrightarrow> set xs = {x}"
  by (metis list.set(1,2) set_remdups)

lemma remdups_many: "remdups xs = x # y # zs \<Longrightarrow> \<exists>a \<in> set xs. \<exists>b \<in> set xs. a \<noteq> b"
  by (metis distinct_length_2_or_more distinct_remdups list.set_intros(1,2) set_remdups)

lemma decide_identity_verdict:
  assumes "decide_identity E sidecars refused customs failed s = ((r, ambiguous), s')"
  shows "(ambiguous \<longleftrightarrow>
      refused \<and> the_list customs = [] \<or> failed \<and> the_list sidecars @ the_list customs = [] \<or>
      (\<exists>a \<in> set (the_list sidecars @ the_list customs). \<exists>b \<in> set (the_list sidecars @ the_list customs). cand_id a \<noteq> cand_id b)) \<and>
    (\<forall>v. r = Some v \<longrightarrow> \<not> ambiguous \<and> set (map cand_id (the_list sidecars @ the_list customs)) = {res_id v})"
proof -
  define cands where "cands = the_list sidecars @ the_list customs"
  have no_customs: "(customs = None \<or> customs = Some []) = (the_list customs = [])"
    by (cases customs) (simp_all add: the_list_def)
  have body: "decide_identity E sidecars refused customs failed s =
      (if refused \<and> the_list customs = [] then ((None, True), s)
       else case remdups (map cand_id cands) of
         [] \<Rightarrow> ((None, failed), s)
       | [i] \<Rightarrow>
           (case hydrate_candidate E cands i s of
              (None, s') \<Rightarrow> ((None, False), s')
            | (Some r, s') \<Rightarrow> ((Some \<lparr>res_record = r, res_id = i, res_source = cand_source (hd cands)\<rparr>, False), s'))
       | _ \<Rightarrow> ((None, True), s))"
    unfolding decide_identity_def Let_def cands_def the_list_def [symmetric] no_customs ..
  show ?thesis
  proof (cases "refused \<and> the_list customs = []")
    case True
    with assms body show ?thesis by auto
  next
    case False
    consider "cands = []" | i where "remdups (map cand_id cands) = [i]"
      | x y zs where "remdups (map cand_id cands) = x # y # zs"
      by (metis list.exhaust list.map_disc_iff remdups_eq_nil_iff)
    then show ?thesis
    proof cases
      case 1
      with assms body False show ?thesis by (auto simp flip: cands_def)
    next
      case 2
      have all: "cand_id ` set cands = {i}" using remdups_single [OF 2] by simp
      then have ne: "cands \<noteq> []" by auto
      have same: "\<not> (\<exists>a \<in> set cands. \<exists>b \<in> set cands. cand_id a \<noteq> cand_id b)" using all by (metis image_eqI singletonD)
      obtain h sh where h: "hydrate_candidate E cands i s = (h, sh)" by fastforce
      have "\<not> ambiguous" and r: "\<And>v. r = Some v \<Longrightarrow> res_id v = i"
        using assms False h unfolding body 2 by (auto split: option.splits)
      then show ?thesis using False ne all same unfolding cands_def [symmetric] set_map by blast
    next
      case 3
      have "\<exists>a \<in> set cands. \<exists>b \<in> set cands. cand_id a \<noteq> cand_id b" using remdups_many [OF 3] by auto
      with assms body False 3 show ?thesis by (auto simp flip: cands_def)
    qed
  qed
qed



subsection \<open>Names read in one pass and one by one\<close>

definition named_parent :: "rest_record \<Rightarrow> int option" where
  "named_parent row = (if rec_data row = [] \<or> row_name row = [] then None else row_parent row)"

interpretation names: grouping_index add_row_name named_parent row_name
  by unfold_locales (auto simp: add_row_name_def named_parent_def split: option.splits)

lemma named_rows: "map row_name (filter (\<lambda>row. named_parent row = Some parent) rows) = parent_names parent rows"
  by (induct rows) (auto simp: named_parent_def parent_names_def)

lemma map_of_map_filter:
  "dict_wf d \<Longrightarrow> map_of (List.map_filter (\<lambda>(k, v). map_option (Pair k) (f v)) d) k = Option.bind (map_of d k) f"
proof (induct d)
  case (Cons e d)
  obtain k' v where e: "e = (k', v)" by fastforce
  with Cons.prems have wf: "dict_wf d" "map_of d k' = None" by (auto simp: dict_wf_def map_of_eq_None_iff)
  show ?case using Cons.hyps [OF wf(1)] wf(2) by (cases "f v") (auto simp: e map_filter_simps)
qed (simp add: map_filter_simps)

text \<open>
  The names loaded in one pass over all rows are, for every virtual machine, the name the
  individual lookup finds in the same rows: the one non-empty name its rows agree on, and none when
  they disagree or are blank.
\<close>

theorem bulk_names_as_individual:
  "map_of (collapsed_names rows) parent = collapse_vm_last_synced_name (parent_names parent rows)"
  by (simp add: collapsed_names_def map_of_map_filter names.fold_wf names.lookup named_rows collapse_vm_last_synced_name_def
      Let_def)

text \<open>One sidecar row whose machine lies in the given cluster.\<close>

definition one_of :: "pyobj list \<Rightarrow> py_exc + api_response" where
  "one_of rows =
     Inr (json_response 200 (PDict [(''count'', PInt (int (length rows))), (''next'', PNone), (''results'', PList (map PDict rows))]))"

definition demo_row :: "int \<Rightarrow> pyobj" where
  "demo_row i = [(''id'', PInt i), (''proxmox_endpoint_raw_id'', PInt 1), (''virtual_machine'', PDict [(''id'', PInt 7)])]"

definition demo_sync :: "(py_exc + api_response) list \<Rightarrow> (py_exc + api_response) list syncst" where
  "demo_sync script =
     \<lparr>net = \<lparr>srv = script, gcache = empty_cache\<rparr>, writer_unavailable = [], reader_unavailable = []\<rparr>"

definition demo_identity :: "(py_exc + api_response) list syncst" where
  "demo_identity = demo_sync [one_of [demo_row 4], one_of [[(''id'', PInt 7), (''cluster'', PDict [(''id'', PInt 3)])]]]"



subsection \<open>Observations\<close>

text \<open>
  Two matches that name different machines are refused, but a single match whose machine cannot be
  fetched counts as absent, not as unverifiable.
\<close>

lemma unfetchable_identity_reads_absent:
  "fst (resolve_unique_vm_identity_candidate (scripted_env 0) False 100 (Some 1) None None
     (demo_sync [one_of [demo_row 4], Inl (OtherError ''Server disconnected'')])) = (None, False)"
  by code_simp

text \<open>An unavailable route is asked once: afterwards no upsert on it sends anything until the memo is reset.\<close>

lemma upsert_keeps_memo:
  "path \<in> set (writer_unavailable s) \<Longrightarrow> path \<in> set (writer_unavailable (snd (upsert_parent_sidecar E path' field pid payload s)))"
  by (auto simp: upsert_parent_sidecar_def on_net_def split: option.splits prod.splits sum.splits)

lemma upsert_skips_unavailable:
  assumes "path \<in> set (writer_unavailable s)"
  shows "net (snd (upsert_parent_sidecar E path field pid payload
    (fold (\<lambda>(p, f, i, d) s. snd (upsert_parent_sidecar E p f i d s)) calls s))) =
      net (fold (\<lambda>(p, f, i, d) s. snd (upsert_parent_sidecar E p f i d s)) calls s)"
proof -
  have "path \<in> set (writer_unavailable (fold (\<lambda>(p, f, i, d) s. snd (upsert_parent_sidecar E p f i d s)) calls s))"
    using assms by (induct calls arbitrary: s) (auto simp: upsert_keeps_memo)
  then show ?thesis by (simp add: upsert_parent_sidecar_def split: option.splits)
qed


end
