(* ===== verification/Vm_Selection.thy ===== *)
theory Vm_Selection
  imports Vm_Identity Sidecar_State "HOL-Library.Multiset"
begin

text \<open>
  The filter of a synchronization that was asked for selected virtual machines
  (\<^verbatim>\<open>services/sync/vm_filter.py\<close>): the selected NetBox records are joined with their sidecar rows, each is
  resolved to the endpoint, cluster, VMID and type it owns, and of the live cluster resources exactly
  the owned ones are kept. Sessions, status rows and resources are dictionaries of their fields; a
  set of endpoint ids is a list without repetitions.
\<close>

type_synonym resource_key = "int \<times> string \<times> int \<times> string"

record selected_owner =
  own_netbox_id :: int
  own_endpoint_id :: int
  own_cluster_name :: string
  own_vmid :: int
  own_vm_type :: string

definition resource_key :: "selected_owner \<Rightarrow> resource_key" where
  "resource_key ow = (own_endpoint_id ow, own_cluster_name ow, own_vmid ow, own_vm_type ow)"

definition normalize_cluster_name :: "pyval \<Rightarrow> string" where
  "normalize_cluster_name v = py_lower (text_or_blank v)"

type_synonym cluster_endpoints = "(string, int option list) pydict"

definition add_endpoint :: "int option \<Rightarrow> pyval \<Rightarrow> cluster_endpoints \<Rightarrow> cluster_endpoints" where
  "add_endpoint endpoint_id raw_name d =
     (let name = normalize_cluster_name raw_name
      in if name = [] then d
         else case map_of d name of
                None \<Rightarrow> d @ [(name, [endpoint_id])]
              | Some es \<Rightarrow> dict_set name (if endpoint_id \<in> set es then es else es @ [endpoint_id]) d)"

text \<open>Status rows are aligned with the sessions; a missing one has no name.\<close>

fun source_endpoint_ids_by_cluster :: "pyobj list \<Rightarrow> pyobj list \<Rightarrow> cluster_endpoints \<Rightarrow> cluster_endpoints" where
  "source_endpoint_ids_by_cluster [] statuses d = d"
| "source_endpoint_ids_by_cluster (session # sessions) statuses d =
     (let status = (case statuses of [] \<Rightarrow> [] | st # _ \<Rightarrow> st);
          endpoint_id = extract_proxmox_session_endpoint_id session
      in source_endpoint_ids_by_cluster sessions (tl statuses)
           (add_endpoint endpoint_id (obj_get session ''cluster_name'')
             (add_endpoint endpoint_id (obj_get session ''name'')
               (add_endpoint endpoint_id (obj_get status ''name'') d))))"

definition endpoints_of :: "cluster_endpoints \<Rightarrow> string \<Rightarrow> int option list" where
  "endpoints_of d name = (case map_of d name of None \<Rightarrow> [] | Some es \<Rightarrow> es)"

definition selection_error :: "string \<Rightarrow> py_exc" where
  "selection_error detail = proxbox_exc ''Unable to resolve explicitly selected VM ownership'' (PStr detail) None (Some 502)"

definition ids_text :: "int list \<Rightarrow> string" where
  "ids_text ids = py_join '', '' (map int_str (sort ids))"

fun requested_ids :: "pyval list \<Rightarrow> int list \<Rightarrow> py_exc + int list" where
  "requested_ids [] acc = Inr acc"
| "requested_ids (v # vs) acc =
     (case normalize_positive_int v of
        None \<Rightarrow> Inl (selection_error (''Invalid selected NetBox VM id: '' @ py_repr v @ ''.''))
      | Some i \<Rightarrow> requested_ids vs (if i \<in> set acc then acc else acc @ [i]))"


subsection \<open>Sidecar identities of the selected machines\<close>

definition relation_name_value :: "pyval \<Rightarrow> pyval" where
  "relation_name_value v = (case relation_name v of None \<Rightarrow> PNone | Some t \<Rightarrow> PStr t)"

definition selected_sidecar_cluster_name :: "pyobj \<Rightarrow> string" where
  "selected_sidecar_cluster_name sidecar =
     normalize_cluster_name (py_or (obj_get sidecar ''proxmox_cluster_name'') (relation_name_value (obj_get sidecar ''proxmox_cluster'')))"

definition vmid_of :: "pyobj \<Rightarrow> int option" where
  "vmid_of d = (case extract_proxmox_vmid d of None \<Rightarrow> None | Some t \<Rightarrow> normalize_positive_int (PStr t))"

definition overlay_selected_sidecar_identity :: "pyobj \<Rightarrow> pyobj \<Rightarrow> int \<Rightarrow> py_exc + pyobj" where
  "overlay_selected_sidecar_identity vm sidecar netbox_id =
     (let cluster_name = selected_sidecar_cluster_name sidecar
      in case (normalize_positive_int (obj_get sidecar ''proxmox_endpoint_raw_id''), vmid_of sidecar, extract_proxmox_vm_type sidecar) of
           (Some endpoint_id, Some vmid, Some vm_type) \<Rightarrow>
             if cluster_name = [] then
               Inl (selection_error (''NetBox VM id '' @ int_str netbox_id @
                 '' has incomplete or conflicting typed Proxbox sync-state ownership; endpoint, cluster, positive VMID, and VM type are required.''))
             else
               Inr (dict_set ''cluster''
                      (PDict ((case relation_id (obj_get vm ''cluster'') of None \<Rightarrow> [] | Some i \<Rightarrow> [(''id'', PInt i)]) @
                        [(''name'', PStr (py_strip (py_str (py_or (obj_get sidecar ''proxmox_cluster_name'') (PStr cluster_name)))))]))
                     (dict_set ''custom_fields''
                       (PDict (dict_set ''proxmox_vm_type'' (PStr vm_type)
                         (dict_set ''proxmox_vm_id'' (PInt vmid)
                           (dict_set ''proxmox_endpoint_id'' (PInt endpoint_id) (custom_fields_of vm))))) vm))
         | _ \<Rightarrow>
             Inl (selection_error (''NetBox VM id '' @ int_str netbox_id @
               '' has incomplete or conflicting typed Proxbox sync-state ownership; endpoint, cluster, positive VMID, and VM type are required.'')))"

definition hydrate_selected_vm_identity :: "(int, pyobj list) pydict \<Rightarrow> bool \<Rightarrow> pyobj \<Rightarrow> py_exc + pyobj" where
  "hydrate_selected_vm_identity sidecars legacy vm =
     (case relation_id (obj_get vm ''id'') of
        None \<Rightarrow> Inr vm
      | Some netbox_id \<Rightarrow>
          (case map_of sidecars netbox_id of
             Some (c # c' # cs) \<Rightarrow>
               Inl (selection_error (''NetBox VM id '' @ int_str netbox_id @
                 '' requires exactly one complete typed Proxbox sync-state owner; found '' @ nat_str (length cs + 2) @ ''.''))
           | Some [c] \<Rightarrow> overlay_selected_sidecar_identity vm c netbox_id
           | _ \<Rightarrow>
               if legacy then Inr vm
               else Inl (selection_error (''NetBox VM id '' @ int_str netbox_id @
                      '' has no typed Proxbox sync-state owner and legacy custom-field fallback is disabled.''))))"

definition add_sidecar_row :: "int list \<Rightarrow> pyobj \<Rightarrow> (int, pyobj list) pydict \<Rightarrow> (int, pyobj list) pydict" where
  "add_sidecar_row selected row d =
     (case relation_id (obj_get row ''virtual_machine'') of
        None \<Rightarrow> d
      | Some parent \<Rightarrow> if parent \<in> set selected then dict_append parent row d else d)"

definition hydrate_selected_sidecar_identities ::
  "'w netenv \<Rightarrow> bool \<Rightarrow> pyobj list \<Rightarrow> 'w syncst \<Rightarrow> (py_exc + pyobj list) \<times> 'w syncst" where
  "hydrate_selected_sidecar_identities E legacy vms s =
     (let selected = remdups (List.map_filter (\<lambda>vm. relation_id (obj_get vm ''id'')) vms)
      in if selected = [] then (Inr vms, s)
         else case load_vm_sync_state_identities E s of
           (scan, s') \<Rightarrow>
             if scan_failed scan \<or> scan_unavailable scan then
               (if legacy then Inr vms
                else Inl (selection_error (''Typed Proxbox VM sync-state lookup '' @
                       (if scan_failed scan then ''failed'' else ''is unavailable'') @
                       '' while resolving selected NetBox VM id(s): '' @ ids_text selected @ ''.'')), s')
             else (map_all (hydrate_selected_vm_identity (fold (add_sidecar_row selected) (scan_rows scan) []) legacy) vms, s'))"


subsection \<open>Owners\<close>

definition endpoint_texts :: "int option list \<Rightarrow> string" where
  "endpoint_texts es =
     py_repr (PList (map PStr (sort (map (\<lambda>e. case e of None \<Rightarrow> ''unknown'' | Some i \<Rightarrow> int_str i) es))))"

definition resolve_selected_owner :: "pyobj \<Rightarrow> int \<Rightarrow> cluster_endpoints \<Rightarrow> bool \<Rightarrow> py_exc + selected_owner" where
  "resolve_selected_owner vm netbox_id endpoints require_stored_endpoint =
     (let cluster_name = normalize_cluster_name (relation_name_value (obj_get vm ''cluster''));
          subject = ''NetBox VM id '' @ int_str netbox_id
      in case (vmid_of vm, extract_proxmox_vm_type vm) of
           (Some vmid, Some vm_type) \<Rightarrow>
             if cluster_name = [] then
               Inl (selection_error (subject @ '' has incomplete Proxmox ownership; cluster, positive VMID, and VM type are required, and endpoint identity must be stored or uniquely inferable.''))
             else (case endpoints_of endpoints cluster_name of
                 [] \<Rightarrow> Inl (selection_error (''No available Proxmox source owns cluster '' @ str_repr cluster_name @ '' for '' @ subject @ ''.''))
               | [Some source] \<Rightarrow>
                   (case extract_proxmox_endpoint_id vm of
                      None \<Rightarrow>
                        if require_stored_endpoint
                        then Inl (selection_error (subject @ '' has no stored Proxmox endpoint id; targeted sync requires endpoint, cluster, VMID, and VM type ownership.''))
                        else Inr \<lparr>own_netbox_id = netbox_id, own_endpoint_id = source, own_cluster_name = cluster_name,
                                  own_vmid = vmid, own_vm_type = vm_type\<rparr>
                    | Some endpoint_id \<Rightarrow>
                        if endpoint_id \<noteq> source
                        then Inl (selection_error (subject @ '' claims endpoint id '' @ int_str endpoint_id @ '', but cluster '' @
                               str_repr cluster_name @ '' is owned by endpoint id '' @ int_str source @ ''.''))
                        else Inr \<lparr>own_netbox_id = netbox_id, own_endpoint_id = endpoint_id, own_cluster_name = cluster_name,
                                  own_vmid = vmid, own_vm_type = vm_type\<rparr>)
               | es \<Rightarrow>
                   Inl (selection_error (''Cluster '' @ str_repr cluster_name @ '' for '' @ subject @
                     '' is ambiguous across endpoint ids '' @ endpoint_texts es @ ''.'')))
         | _ \<Rightarrow>
             Inl (selection_error (subject @ '' has incomplete Proxmox ownership; cluster, positive VMID, and VM type are required, and endpoint identity must be stored or uniquely inferable.'')))"

fun collect_owners ::
  "(int, pyobj) pydict \<Rightarrow> cluster_endpoints \<Rightarrow> bool \<Rightarrow> int list \<Rightarrow> (resource_key, int) pydict \<Rightarrow> selected_owner list \<Rightarrow>
     py_exc + selected_owner list" where
  "collect_owners records endpoints stored [] claimed owners = Inr owners"
| "collect_owners records endpoints stored (i # ids) claimed owners =
     (case map_of records i of
        None \<Rightarrow> Inl (OtherError ''KeyError'')
      | Some vm \<Rightarrow>
          (case resolve_selected_owner vm i endpoints stored of
             Inl e \<Rightarrow> Inl e
           | Inr ow \<Rightarrow>
               (case map_of claimed (resource_key ow) of
                  Some j \<Rightarrow>
                    if j \<noteq> i
                    then Inl (selection_error (''NetBox VM ids '' @ int_str j @ '' and '' @ int_str i @
                           '' claim the same Proxmox endpoint/cluster/VMID/type owner.''))
                    else collect_owners records endpoints stored ids (dict_set (resource_key ow) i claimed) (owners @ [ow])
                | None \<Rightarrow>
                    collect_owners records endpoints stored ids (dict_set (resource_key ow) i claimed) (owners @ [ow]))))"

definition records_by_id :: "pyobj list \<Rightarrow> (int, pyobj) pydict" where
  "records_by_id vms =
     fold (\<lambda>vm d. case relation_id (obj_get vm ''id'') of None \<Rightarrow> d | Some i \<Rightarrow> dict_set i vm d) vms []"

definition resolve_selected_owners :: "pyobj list \<Rightarrow> int list \<Rightarrow> cluster_endpoints \<Rightarrow> bool \<Rightarrow> py_exc + selected_owner list" where
  "resolve_selected_owners vms requested endpoints stored =
     (let records = records_by_id vms;
          missing = filter (\<lambda>i. map_of records i = None) (remdups requested)
      in if missing \<noteq> []
         then Inl (selection_error (''NetBox did not return explicitly selected VM id(s): '' @ ids_text missing @ ''.''))
         else collect_owners records endpoints stored requested [] [])"


subsection \<open>Live resources\<close>

text \<open>The owner key a live resource stands for, under the name of its cluster.\<close>

definition live_key :: "cluster_endpoints \<Rightarrow> string \<Rightarrow> pyval \<Rightarrow> resource_key option" where
  "live_key endpoints cluster_key resource =
     (case (endpoints_of endpoints (normalize_cluster_name (PStr cluster_key)), resource) of
        ([Some endpoint_id], PDict d) \<Rightarrow>
          (let vm_type = py_lower (text_or_blank (obj_get d ''type''))
           in case normalize_positive_int (obj_get d ''vmid'') of
                None \<Rightarrow> None
              | Some vmid \<Rightarrow>
                  if vm_type = ''qemu'' \<or> vm_type = ''lxc''
                  then Some (endpoint_id, normalize_cluster_name (PStr cluster_key), vmid, vm_type) else None)
      | _ \<Rightarrow> None)"

definition owner_of_resource ::
  "(resource_key, selected_owner) pydict \<Rightarrow> cluster_endpoints \<Rightarrow> string \<Rightarrow> pyval \<Rightarrow> selected_owner option" where
  "owner_of_resource owners endpoints cluster_key resource =
     (case live_key endpoints cluster_key resource of None \<Rightarrow> None | Some k \<Rightarrow> map_of owners k)"

definition count_match :: "int \<Rightarrow> (int, nat) pydict \<Rightarrow> (int, nat) pydict" where
  "count_match i counts = dict_set i ((case map_of counts i of None \<Rightarrow> 0 | Some n \<Rightarrow> n) + 1) counts"

text \<open>One entry of one cluster dictionary: the selected resources are appended and counted.\<close>

definition filter_entry ::
  "(resource_key, selected_owner) pydict \<Rightarrow> cluster_endpoints \<Rightarrow> string \<times> pyval \<Rightarrow> pyobj list \<times> (int, nat) pydict \<Rightarrow>
     pyobj list \<times> (int, nat) pydict" where
  "filter_entry owners endpoints entry acc =
     (case snd entry of
        PList resources \<Rightarrow>
          (let owned = (\<lambda>r. owner_of_resource owners endpoints (fst entry) r);
               selected = filter (\<lambda>r. owned r \<noteq> None) resources
           in (if selected = [] then fst acc else fst acc @ [[(fst entry, PList selected)]],
               fold (\<lambda>ow. count_match (own_netbox_id ow)) (List.map_filter owned resources) (snd acc)))
      | _ \<Rightarrow> acc)"

definition cluster_entries :: "pyval list \<Rightarrow> (string \<times> pyval) list" where
  "cluster_entries cluster_resources = concat (map (\<lambda>c. case c of PDict d \<Rightarrow> d | _ \<Rightarrow> []) cluster_resources)"

definition filter_cluster_resources_by_owners ::
  "pyval list \<Rightarrow> selected_owner list \<Rightarrow> cluster_endpoints \<Rightarrow> py_exc + pyobj list" where
  "filter_cluster_resources_by_owners cluster_resources owners endpoints =
     (let by_key = fold (\<lambda>ow. dict_set (resource_key ow) ow) owners [];
          counts0 = fold (\<lambda>ow. dict_set (own_netbox_id ow) 0) owners [];
          (filtered, counts) = fold (filter_entry by_key endpoints) (cluster_entries cluster_resources) ([], counts0);
          ambiguous = map fst (filter (\<lambda>(i, n). n > 1) counts);
          unresolved = map fst (filter (\<lambda>(i, n). n = 0) counts)
      in if ambiguous \<noteq> []
         then Inl (selection_error (''Multiple live Proxmox resources matched explicitly selected NetBox VM id(s): '' @ ids_text ambiguous @ ''.''))
         else if unresolved \<noteq> []
         then Inl (selection_error (''No exact live Proxmox resource matched explicitly selected NetBox VM id(s): '' @ ids_text unresolved @ ''.''))
         else Inr filtered)"

definition filter_selected ::
  "'w netenv \<Rightarrow> bool \<Rightarrow> pyobj list \<Rightarrow> int list \<Rightarrow> bool \<Rightarrow> pyval list \<Rightarrow> pyobj list \<Rightarrow> pyobj list \<Rightarrow> 'w syncst \<Rightarrow>
     (py_exc + pyobj list) \<times> 'w syncst" where
  "filter_selected E legacy vms requested stored cluster_resources pxs cluster_status s =
     (case hydrate_selected_sidecar_identities E legacy vms s of
        (Inl e, s') \<Rightarrow> (Inl e, s')
      | (Inr hydrated, s') \<Rightarrow>
          (let endpoints = source_endpoint_ids_by_cluster pxs cluster_status []
           in case resolve_selected_owners hydrated requested endpoints stored of
                Inl e \<Rightarrow> (Inl e, s')
              | Inr owners \<Rightarrow> (filter_cluster_resources_by_owners cluster_resources owners endpoints, s')))"

definition filter_cluster_resources_for_selected_vm ::
  "'w netenv \<Rightarrow> bool \<Rightarrow> pyobj \<Rightarrow> pyval list \<Rightarrow> pyval \<Rightarrow> pyobj list \<Rightarrow> pyobj list \<Rightarrow> 'w syncst \<Rightarrow> (py_exc + pyobj list) \<times> 'w syncst" where
  "filter_cluster_resources_for_selected_vm E legacy vm cluster_resources netbox_vm_id pxs cluster_status s =
     (case requested_ids [netbox_vm_id] [] of
        Inl e \<Rightarrow> (Inl e, s)
      | Inr requested \<Rightarrow> filter_selected E legacy [vm] requested True cluster_resources pxs cluster_status s)"

definition filter_cluster_resources_by_netbox_vm_ids ::
  "'w netenv \<Rightarrow> bool \<Rightarrow> pyval list \<Rightarrow> pyval list \<Rightarrow> pyobj list \<Rightarrow> pyobj list \<Rightarrow> 'w syncst \<Rightarrow> (py_exc + pyobj list) \<times> 'w syncst" where
  "filter_cluster_resources_by_netbox_vm_ids E legacy cluster_resources netbox_vm_ids pxs cluster_status s =
     (if netbox_vm_ids = [] then (Inr [], s)
      else case requested_ids netbox_vm_ids [] of
        Inl e \<Rightarrow> (Inl e, s)
      | Inr requested \<Rightarrow>
          (case on_net (list_netbox_virtual_machines_by_ids E (map PInt requested)) s of
             (Inl e, s') \<Rightarrow> (Inl e, s')
           | (Inr vms, s') \<Rightarrow> filter_selected E legacy vms requested False cluster_resources pxs cluster_status s'))"


subsection \<open>A selection is neither widened nor narrowed\<close>

text \<open>The resources of a list of cluster dictionaries, each with the name of its cluster.\<close>

definition entry_resources :: "string \<times> pyval \<Rightarrow> (string \<times> pyval) list" where
  "entry_resources e = (case snd e of PList rs \<Rightarrow> map (Pair (fst e)) rs | _ \<Rightarrow> [])"

definition flat_resources :: "pyobj list \<Rightarrow> (string \<times> pyval) list" where
  "flat_resources cs = concat (map (\<lambda>d. concat (map entry_resources d)) cs)"

definition matches ::
  "(resource_key, selected_owner) pydict \<Rightarrow> cluster_endpoints \<Rightarrow> (string \<times> pyval) list \<Rightarrow> ((string \<times> pyval) \<times> selected_owner) list" where
  "matches owners endpoints rs =
     List.map_filter (\<lambda>(k, r). map_option (Pair (k, r)) (owner_of_resource owners endpoints k r)) rs"

lemma matches_append [simp]: "matches ow en (xs @ ys) = matches ow en xs @ matches ow en ys"
  by (simp add: matches_def List.map_filter_def)

lemma matches_Nil [simp]: "matches ow en [] = []"
  by (simp add: matches_def map_filter_simps)

lemma matches_entry:
  "map fst (matches ow en (map (Pair k) rs)) = map (Pair k) (filter (\<lambda>r. owner_of_resource ow en k r \<noteq> None) rs)"
  "map snd (matches ow en (map (Pair k) rs)) = List.map_filter (owner_of_resource ow en k) rs"
  by (induct rs) (auto simp: matches_def map_filter_simps split: option.splits)

lemma filter_entry_flat:
  "flat_resources (fst (filter_entry ow en e acc)) = flat_resources (fst acc) @ map fst (matches ow en (entry_resources e))"
  "snd (filter_entry ow en e acc) =
     fold (\<lambda>x. count_match (own_netbox_id x)) (map snd (matches ow en (entry_resources e))) (snd acc)"
proof -
  show "flat_resources (fst (filter_entry ow en e acc)) = flat_resources (fst acc) @ map fst (matches ow en (entry_resources e))"
    by (cases "snd e") (auto simp: filter_entry_def entry_resources_def flat_resources_def Let_def matches_entry)
  show "snd (filter_entry ow en e acc) =
     fold (\<lambda>x. count_match (own_netbox_id x)) (map snd (matches ow en (entry_resources e))) (snd acc)"
    by (cases "snd e") (auto simp: filter_entry_def entry_resources_def Let_def matches_entry)
qed

lemma filter_entries_flat:
  "flat_resources (fst (fold (filter_entry ow en) es acc)) =
     flat_resources (fst acc) @ map fst (matches ow en (concat (map entry_resources es)))"
  "snd (fold (filter_entry ow en) es acc) =
     fold (\<lambda>x. count_match (own_netbox_id x)) (map snd (matches ow en (concat (map entry_resources es)))) (snd acc)"
  by (induct es arbitrary: acc) (auto simp: filter_entry_flat)

lemma map_of_count_fold:
  "map_of (fold (\<lambda>x. count_match (own_netbox_id x)) ms counts) i =
     (if i \<in> set (map own_netbox_id ms) then Some ((case map_of counts i of None \<Rightarrow> 0 | Some n \<Rightarrow> n) + count_list (map own_netbox_id ms) i)
      else map_of counts i)"
  by (induct ms arbitrary: counts) (auto simp: count_match_def split: option.splits)

lemma count_fold_wf: "dict_wf counts \<Longrightarrow> dict_wf (fold (\<lambda>x. count_match (own_netbox_id x)) ms counts)"
  by (induct ms arbitrary: counts) (auto simp: count_match_def)

lemma map_of_zero_fold:
  "map_of (fold (\<lambda>x. dict_set (own_netbox_id x) (0 :: nat)) os d) i = (if i \<in> set (map own_netbox_id os) then Some 0 else map_of d i)"
  by (induct os arbitrary: d) auto

lemma zero_fold_wf: "dict_wf d \<Longrightarrow> dict_wf (fold (\<lambda>x. dict_set (own_netbox_id x) (0 :: nat)) os d)"
  by (induct os arbitrary: d) auto

lemma map_of_key_fold:
  "map_of (fold (\<lambda>x. dict_set (resource_key x) x) os d) k = Some ow \<Longrightarrow>
     ow \<in> set os \<and> resource_key ow = k \<or> map_of d k = Some ow"
proof (induct os arbitrary: d)
  case (Cons x os)
  from Cons.hyps [of "dict_set (resource_key x) x d"] Cons.prems show ?case by (auto split: if_splits)
qed simp

lemma match_facts:
  assumes "(kr, ow) \<in> set (matches (fold (\<lambda>x. dict_set (resource_key x) x) os []) en rs)"
  shows "ow \<in> set os \<and> live_key en (fst kr) (snd kr) = Some (resource_key ow) \<and> kr \<in> set rs"
proof -
  obtain k r where kr: "kr = (k, r)" by fastforce
  with assms have "kr \<in> set rs" and ow: "owner_of_resource (fold (\<lambda>x. dict_set (resource_key x) x) os []) en k r = Some ow"
    by (auto simp: matches_def in_map_filter)
  then show ?thesis
    using map_of_key_fold [of os "[]" _ ow] by (auto simp: kr owner_of_resource_def split: option.splits)
qed

lemma distinct_count_list: "distinct xs \<Longrightarrow> x \<in> set xs \<Longrightarrow> count_list xs x = 1"
  by (induct xs) (auto simp: count_notin)

lemma mset_by_distinct_ids:
  assumes "set ms \<subseteq> set os" "distinct (map f os)" "mset (map f ms) = mset (map f os)"
  shows "mset (map g ms) = mset (map g os)"
proof -
  let ?h = "\<lambda>i. g (inv_into (set os) f i)"
  have inj: "inj_on f (set os)" using assms(2) by (simp add: distinct_map)
  have "map g xs = map ?h (map f xs)" if "set xs \<subseteq> set os" for xs
    using that inj by (auto simp: inv_into_f_f)
  then have "mset (map g xs) = image_mset ?h (mset (map f xs))" if "set xs \<subseteq> set os" for xs
    using that by (metis mset_map)
  then show ?thesis using assms(1,3) by (metis subset_refl)
qed

lemma filter_by_owners_exact:
  assumes "filter_cluster_resources_by_owners cluster_resources os en = Inr filtered" "distinct (map own_netbox_id os)"
  shows "mset (map (\<lambda>(k, r). live_key en k r) (flat_resources filtered)) = mset (map (Some \<circ> resource_key) os) \<and>
    set (flat_resources filtered) \<subseteq> set (flat_resources [cluster_entries cluster_resources])"
proof -
  let ?key = "fold (\<lambda>x. dict_set (resource_key x) x) os []" and ?zero = "fold (\<lambda>x. dict_set (own_netbox_id x) (0 :: nat)) os []"
  let ?rs = "concat (map entry_resources (cluster_entries cluster_resources))"
  define ms where "ms = matches ?key en ?rs"
  define counts where "counts = fold (\<lambda>x. count_match (own_netbox_id x)) (map snd ms) ?zero"
  obtain fl cn where f: "fold (filter_entry ?key en) (cluster_entries cluster_resources) ([], ?zero) = (fl, cn)" by fastforce
  have flat: "flat_resources fl = map fst ms" and cn: "cn = counts"
    using filter_entries_flat [of ?key en "cluster_entries cluster_resources" "([], ?zero)"]
    unfolding f ms_def counts_def by (simp_all add: flat_resources_def)
  have m: "snd x \<in> set os \<and> live_key en (fst (fst x)) (snd (fst x)) = Some (resource_key (snd x)) \<and> fst x \<in> set ?rs"
    if "x \<in> set ms" for x
    using match_facts [of "fst x" "snd x" os en ?rs] that by (simp add: ms_def)
  then have sub: "set (map snd ms) \<subseteq> set os" and src: "set (map fst ms) \<subseteq> set ?rs"
    by (simp_all add: image_subset_iff)
  have keys: "map (\<lambda>(k, r). live_key en k r) (map fst ms) = map (Some \<circ> resource_key) (map snd ms)"
    using m by (simp add: case_prod_beta)
  have "fl = filtered" and none: "filter (\<lambda>(i, n). n > 1) counts = []" "filter (\<lambda>(i, n). n = 0) counts = []"
    using assms(1) unfolding filter_cluster_resources_by_owners_def Let_def f cn prod.case by (simp_all split: if_splits)
  have "\<forall>(i, n) \<in> set counts. n = 1"
  proof clarify
    fix i n assume "(i, n) \<in> set counts"
    with none have "\<not> n > 1" "n \<noteq> 0" unfolding filter_empty_conv by auto
    then show "n = 1" by simp
  qed
  moreover have "dict_wf counts" unfolding counts_def by (intro count_fold_wf zero_fold_wf) simp
  ultimately have one: "map_of counts i = Some n \<Longrightarrow> n = 1" for i n by (auto dest: map_of_SomeD)
  have "count_list (map own_netbox_id (map snd ms)) i = count_list (map own_netbox_id os) i" for i
  proof (cases "i \<in> own_netbox_id ` set os")
    case True
    then have "map_of counts i = Some (count_list (map own_netbox_id (map snd ms)) i)"
      by (auto simp: counts_def map_of_count_fold map_of_zero_fold count_notin)
    from one [OF this] distinct_count_list [OF assms(2), of i] True show ?thesis by simp
  next
    case False
    then have "i \<notin> set (map own_netbox_id (map snd ms))" using sub by auto
    with False show ?thesis by (simp add: count_notin)
  qed
  then have "mset (map own_netbox_id (map snd ms)) = mset (map own_netbox_id os)"
    by (intro multiset_eqI) (simp only: count_mset)
  then have "mset (map (Some \<circ> resource_key) (map snd ms)) = mset (map (Some \<circ> resource_key) os)"
    by (rule mset_by_distinct_ids [OF sub assms(2)])
  moreover have "set (flat_resources filtered) \<subseteq> set (flat_resources [cluster_entries cluster_resources])"
    using src unfolding flat [unfolded \<open>fl = filtered\<close>] by (simp add: flat_resources_def)
  ultimately show ?thesis unfolding flat [unfolded \<open>fl = filtered\<close>] keys by blast
qed

lemma requested_ids_facts:
  "requested_ids vs acc = Inr requested \<Longrightarrow> distinct acc \<Longrightarrow>
     distinct requested \<and> Some ` set requested = Some ` set acc \<union> set (map normalize_positive_int vs)"
proof (induct vs arbitrary: acc)
  case (Cons v vs)
  then obtain i where i: "normalize_positive_int v = Some i"
    "requested_ids vs (if i \<in> set acc then acc else acc @ [i]) = Inr requested"
    by (auto split: option.splits)
  from Cons.hyps [OF i(2)] Cons.prems(2) i(1) show ?case by (auto split: if_splits)
qed simp

lemma resolved_owner_id: "resolve_selected_owner vm i en stored = Inr ow \<Longrightarrow> own_netbox_id ow = i"
  by (auto simp: resolve_selected_owner_def Let_def split: option.splits if_splits list.splits)

lemma collect_owners_facts:
  "collect_owners records en stored ids claimed os = Inr owners \<Longrightarrow> distinct (map own_netbox_id os @ ids) \<Longrightarrow>
     distinct (map resource_key os) \<Longrightarrow> (\<forall>ow \<in> set os. map_of claimed (resource_key ow) = Some (own_netbox_id ow)) \<Longrightarrow>
     map own_netbox_id owners = map own_netbox_id os @ ids \<and> distinct (map resource_key owners)"
proof (induct ids arbitrary: claimed os)
  case (Cons i ids)
  from Cons.prems(1) obtain vm ow where ow: "resolve_selected_owner vm i en stored = Inr ow"
    "map_of claimed (resource_key ow) = None \<or> map_of claimed (resource_key ow) = Some i"
    "collect_owners records en stored ids (dict_set (resource_key ow) i claimed) (os @ [ow]) = Inr owners"
    by (auto split: option.splits sum.splits if_splits)
  note id = resolved_owner_id [OF ow(1)]
  have fresh: "resource_key ow \<notin> set (map resource_key os)" using ow(2) Cons.prems(2,4) by force
  have "\<forall>x \<in> set (os @ [ow]). map_of (dict_set (resource_key ow) i claimed) (resource_key x) = Some (own_netbox_id x)"
    using Cons.prems(4) fresh id by (auto simp: image_iff)
  from Cons.hyps [OF ow(3) _ _ this] Cons.prems(2,3) fresh id show ?case by (auto simp: image_iff)
qed simp

lemma resolve_owners_facts:
  assumes "resolve_selected_owners vms requested en stored = Inr owners" "distinct requested"
  shows "map own_netbox_id owners = requested \<and> distinct (map resource_key owners)"
  using assms collect_owners_facts [of "records_by_id vms" en stored requested "[]" "[]" owners]
  by (auto simp: resolve_selected_owners_def Let_def split: if_splits)

lemma filter_selected_exact:
  assumes "fst (filter_selected E legacy vms requested stored cluster_resources pxs cluster_status s) = Inr filtered" "distinct requested"
  shows "\<exists>owners. map own_netbox_id owners = requested \<and> distinct (map resource_key owners) \<and>
    mset (map (\<lambda>(k, r). live_key (source_endpoint_ids_by_cluster pxs cluster_status []) k r) (flat_resources filtered)) =
      mset (map (Some \<circ> resource_key) owners) \<and>
    set (flat_resources filtered) \<subseteq> set (flat_resources [cluster_entries cluster_resources])"
proof -
  let ?en = "source_endpoint_ids_by_cluster pxs cluster_status []"
  obtain h s' where h: "hydrate_selected_sidecar_identities E legacy vms s = (h, s')" by fastforce
  with assms(1) obtain hydrated owners where o: "resolve_selected_owners hydrated requested ?en stored = Inr owners"
    "filter_cluster_resources_by_owners cluster_resources owners ?en = Inr filtered"
    by (cases h) (auto simp: filter_selected_def Let_def split: sum.splits)
  note ids = resolve_owners_facts [OF o(1) assms(2)]
  with filter_by_owners_exact [OF o(2)] assms(2) show ?thesis by auto
qed


text \<open>One selected machine among two live ones.\<close>

definition demo_vm :: pyobj where
  "demo_vm =
     [(''id'', PInt 7), (''cluster'', PDict [(''name'', PStr ''Lab'')]),
      (''custom_fields'', PDict [(''proxmox_vm_id'', PInt 100), (''proxmox_vm_type'', PStr ''qemu'')])]"

definition demo_clusters :: "pyval list" where
  "demo_clusters =
     [PDict [(''lab'', PList [PDict [(''vmid'', PInt 101), (''type'', PStr ''lxc'')],
                              PDict [(''vmid'', PInt 100), (''type'', PStr ''qemu'')]])]]"

definition demo_sessions :: "pyobj list" where
  "demo_sessions = [[(''db_endpoint_id'', PInt 1), (''name'', PStr ''lab'')]]"

lemma distinct_singleton: "distinct xs \<Longrightarrow> set xs = {a} \<Longrightarrow> xs = [a]"
  by (cases xs; cases "tl xs") auto


end
