(* ===== verification/Orphan_Sweep.thy ===== *)
theory Orphan_Sweep
  imports Sidecar_State
begin

text \<open>
  The removal of virtual machines that a full synchronization did not see any more
  (\<^verbatim>\<open>services/sync/orphan_sweep.py\<close>): the candidates come from the sidecar rows of earlier runs and, while
  legacy custom fields are enabled, from custom-field queries; they are deleted one by one unless the
  sweep is a dry run. The progress stream is the list of the events sent to it.
\<close>

definition vm_discovery_tag_slugs :: "string list" where
  "vm_discovery_tag_slugs = [''proxbox-discovered-qemu'', ''proxbox-discovered-lxc'']"

definition last_run_id_custom_field :: string where
  "last_run_id_custom_field = ''proxbox_last_run_id''"

definition coerce_int :: "pyval \<Rightarrow> int option" where
  "coerce_int v = (case v of PBool _ \<Rightarrow> None | PNone \<Rightarrow> None | _ \<Rightarrow> py_int_of v)"

definition sweep_custom_fields :: "pyobj \<Rightarrow> pyobj" where
  "sweep_custom_fields d = (case obj_get d ''custom_fields'' of PDict cf \<Rightarrow> cf | _ \<Rightarrow> [])"

definition tag_slugs :: "pyobj \<Rightarrow> string list" where
  "tag_slugs d =
     (case obj_get d ''tags'' of
        PList tags \<Rightarrow> sort (remdups (map py_str (filter truthy (map tag_text tags))))
      | _ \<Rightarrow> [])"

text \<open>The ids in a nested result; the set is a list.\<close>

fun extract_touched_vm_ids :: "pyval \<Rightarrow> int list" where
  "extract_touched_vm_ids (PDict d) =
     (case coerce_int (py_or (obj_get d ''id'') (obj_get d ''netbox_id'')) of None \<Rightarrow> [] | Some i \<Rightarrow> [i]) @
     concat (map (\<lambda>(k, v). if k = ''virtual_machine'' \<or> k = ''vm'' \<or> k = ''netbox_object'' then extract_touched_vm_ids v else []) d)"
| "extract_touched_vm_ids (PList vs) = concat (map extract_touched_vm_ids vs)"
| "extract_touched_vm_ids v = []"

definition normalized_vm_slugs :: "string list \<Rightarrow> string list" where
  "normalized_vm_slugs slugs = unique_in_order (filter (\<lambda>t. py_strip t \<noteq> []) slugs)"


subsection \<open>Candidates\<close>

definition add_stale :: "pyobj \<Rightarrow> (int, pyobj) pydict \<Rightarrow> (int, pyobj) pydict" where
  "add_stale c d = (case coerce_int (obj_get c ''id'') of None \<Rightarrow> d | Some i \<Rightarrow> dict_setdefault i c d)"

definition add_sidecar_orphan_candidates ::
  "'w netenv \<Rightarrow> string \<Rightarrow> string list \<Rightarrow> 'w syncst \<Rightarrow> (orphan_scan \<times> (int, pyobj) pydict) \<times> 'w syncst" where
  "add_sidecar_orphan_candidates E run_id slugs s =
     (case scan_vm_sidecar_orphan_candidates E run_id slugs s of
        (scan, s') \<Rightarrow> ((scan, if orphan_failed scan then [] else fold add_stale (stale_candidates scan) []), s'))"

definition sidecar_marks_current_run ::
  "'w netenv \<Rightarrow> bool \<Rightarrow> pyobj \<Rightarrow> string \<Rightarrow> int list option \<Rightarrow> 'w syncst \<Rightarrow> bool \<times> 'w syncst" where
  "sidecar_marks_current_run E legacy candidate run_id current s =
     (case current of
        None \<Rightarrow> (False, s)
      | Some ids \<Rightarrow>
          if coerce_int (obj_get candidate ''id'') \<in> Some ` set ids then (True, s)
          else (case resolve_vm_last_run_id E legacy (Some candidate) last_run_id_custom_field s of
                  (last_run_id, s') \<Rightarrow> (last_run_id = Some run_id, s')))"

fun add_legacy_records ::
  "'w netenv \<Rightarrow> bool \<Rightarrow> string \<Rightarrow> int list option \<Rightarrow> rest_record list \<Rightarrow> (int, pyobj) pydict \<Rightarrow> 'w syncst \<Rightarrow>
     (int, pyobj) pydict \<times> 'w syncst" where
  "add_legacy_records E legacy run_id current [] cands s = (cands, s)"
| "add_legacy_records E legacy run_id current (r # rs) cands s =
     (case coerce_int (obj_get (rec_data r) ''id'') of
        None \<Rightarrow> add_legacy_records E legacy run_id current rs cands s
      | Some i \<Rightarrow>
          if (case current of None \<Rightarrow> False | Some ids \<Rightarrow> i \<in> set ids)
          then add_legacy_records E legacy run_id current rs cands s
          else (case sidecar_marks_current_run E legacy (rec_data r) run_id current s of
                  (marked, s') \<Rightarrow>
                    add_legacy_records E legacy run_id current rs
                      (if marked then cands else dict_setdefault i (rec_data r) cands) s'))"

definition legacy_queries :: "string \<Rightarrow> string list \<Rightarrow> pyobj list" where
  "legacy_queries run_id slugs =
     concat (map (\<lambda>slug.
         [[(''tag'', PStr slug), (''cf_'' @ last_run_id_custom_field @ ''__nie'', PStr run_id)],
          [(''tag'', PStr slug), (''cf_'' @ last_run_id_custom_field @ ''__empty'', PBool True)]]) slugs)"

fun run_legacy_queries ::
  "'w netenv \<Rightarrow> bool \<Rightarrow> string \<Rightarrow> int list option \<Rightarrow> pyobj list \<Rightarrow> (int, pyobj) pydict \<Rightarrow> 'w syncst \<Rightarrow>
     (py_exc + (int, pyobj) pydict) \<times> 'w syncst" where
  "run_legacy_queries E legacy run_id current [] cands s = (Inr cands, s)"
| "run_legacy_queries E legacy run_id current (q # qs) cands s =
     (case on_net (rest_list_paginated E virtual_machines_path (Some q) 200 None) s of
        (Inl e, s') \<Rightarrow> (Inl e, s')
      | (Inr rs, s') \<Rightarrow>
          (case add_legacy_records E legacy run_id current rs cands s' of
             (cands', s'') \<Rightarrow> run_legacy_queries E legacy run_id current qs cands' s''))"

definition add_legacy_orphan_candidates ::
  "'w netenv \<Rightarrow> bool \<Rightarrow> string \<Rightarrow> string list \<Rightarrow> int list option \<Rightarrow> (int, pyobj) pydict \<Rightarrow> 'w syncst \<Rightarrow>
     (py_exc + (int, pyobj) pydict) \<times> 'w syncst" where
  "add_legacy_orphan_candidates E legacy run_id slugs current cands s =
     (if \<not> legacy then (Inr cands, s)
      else run_legacy_queries E legacy run_id current (legacy_queries run_id slugs) cands s)"

definition find_orphan_vms ::
  "'w netenv \<Rightarrow> bool \<Rightarrow> string \<Rightarrow> string list \<Rightarrow> 'w syncst \<Rightarrow> (py_exc + pyobj list) \<times> 'w syncst" where
  "find_orphan_vms E legacy run_id slugs s =
     (if run_id = [] then (Inl (OtherError ''run_id is required for orphan VM discovery''), s)
      else case add_sidecar_orphan_candidates E run_id (normalized_vm_slugs slugs) s of
        ((scan, cands), s') \<Rightarrow>
          if orphan_failed scan then (Inr (map snd cands), s')
          else (case add_legacy_orphan_candidates E legacy run_id (normalized_vm_slugs slugs)
                       (if orphan_unavailable scan then None else Some (current_vm_ids scan)) cands s' of
                  (Inl e, s'') \<Rightarrow> (Inl e, s'')
                | (Inr cands', s'') \<Rightarrow> (Inr (map snd cands'), s'')))"


subsection \<open>Deleting\<close>

definition candidate_item :: "string \<Rightarrow> pyobj \<Rightarrow> pyobj" where
  "candidate_item run_id c =
     (let cf = sweep_custom_fields c
      in [(''name'', PStr (py_str (py_or (py_or (obj_get c ''name'') (obj_get c ''display'')) (obj_get c ''id'')))),
          (''type'', PStr ''virtual_machine''),
          (''netbox_id'', (case coerce_int (obj_get c ''id'') of None \<Rightarrow> PNone | Some i \<Rightarrow> PInt i)),
          (''netbox_url'', py_or (obj_get c ''display_url'') (obj_get c ''url'')),
          (''extra'', PDict
            [(''reason'', PStr ''orphan''), (''run_id'', PStr run_id), (''stale_run_id'', obj_get cf last_run_id_custom_field),
             (''tag_slugs'', PList (map PStr (tag_slugs c))), (''vmid'', obj_get cf ''proxmox_vm_id'')])])"

definition is_not_found_error :: "py_exc \<Rightarrow> bool" where
  "is_not_found_error e =
     (let t = (case e of
                 ProxboxException message detail _ _ \<Rightarrow>
                   py_join '' '' ((if message \<noteq> [] then [message] else []) @ (if truthy detail then [py_str detail] else []))
               | OtherError msg \<Rightarrow> msg)
      in py_contains ''404'' (py_lower t) \<or> py_contains ''not found'' (py_lower t))"

datatype item_operation = Op_skipped | Op_would_delete | Op_failed | Op_deleted

datatype sweep_event =
    Item_progress (ev_item: pyobj) (ev_operation: item_operation) (ev_status: string) (ev_message: string)
      (ev_current: nat) (ev_total: nat) (ev_error: "string option") (ev_warning: "string option")
  | Phase_summary (sum_deleted: nat) (sum_failed: nat) (sum_skipped: nat) (sum_message: string)
  | Error_event string

definition str_quoted :: "string \<Rightarrow> string" where
  "str_quoted t = [CHR 0x27] @ t @ [CHR 0x27]"

definition item_name :: "pyobj \<Rightarrow> string" where
  "item_name item = py_str (obj_get item ''name'')"

definition touched_error :: "string \<Rightarrow> pyobj list \<Rightarrow> string" where
  "touched_error run_id invalid =
     ''Refusing to sweep orphan VMs because candidates were also touched by this run_id='' @ run_id @ '': '' @
     py_join '', '' (map (\<lambda>c. py_str (py_or (obj_get c ''name'') (obj_get c ''id''))) invalid)"

definition touched_candidates :: "int list \<Rightarrow> pyobj list \<Rightarrow> pyobj list" where
  "touched_candidates touched cands = filter (\<lambda>c. coerce_int (obj_get c ''id'') \<in> Some ` set touched) cands"

text \<open>The handler of a failed deletion: a machine that is gone is skipped, anything else ends the sweep.\<close>

fun sweep_from ::
  "'w netenv \<Rightarrow> string \<Rightarrow> bool \<Rightarrow> nat \<Rightarrow> nat \<Rightarrow> pyobj list \<Rightarrow> nat \<Rightarrow> nat \<Rightarrow> 'w syncst \<Rightarrow>
     ((py_exc + nat \<times> nat) \<times> sweep_event list) \<times> 'w syncst" where
  "sweep_from E run_id dry_run tot index [] deleted skipped s = ((Inr (deleted, skipped), []), s)"
| "sweep_from E run_id dry_run tot index (c # cs) deleted skipped s =
     (let item = candidate_item run_id c; name = item_name item;
          progress = (\<lambda>op status msg err warn. Item_progress item op status msg index tot err warn);
          continue = (\<lambda>ev d k s'. case sweep_from E run_id dry_run tot (index + 1) cs d k s' of
                                     ((r, evs), s'') \<Rightarrow> ((r, ev # evs), s''))
      in case coerce_int (obj_get c ''id'') of
           None \<Rightarrow>
             continue (progress Op_skipped ''skipped'' (''Skipped orphan VM '' @ str_quoted name @ '' because it has no NetBox ID'') None
               (Some ''Missing NetBox object ID'')) deleted (skipped + 1) s
         | Some i \<Rightarrow>
             if dry_run then
               continue (progress Op_would_delete ''completed'' (''Would delete orphan VM '' @ str_quoted name) None None)
                 deleted (skipped + 1) s
             else (case on_net (rest_bulk_delete E virtual_machines_path [i]) s of
                     (Inr _, s') \<Rightarrow>
                       continue (progress Op_deleted ''completed'' (''Deleted orphan VM '' @ str_quoted name) None None)
                         (deleted + 1) skipped s'
                   | (Inl e, s') \<Rightarrow>
                       if is_not_found_error e then
                         continue (progress Op_skipped ''skipped'' (''Skipped orphan VM '' @ str_quoted name @ '' because it was already gone'')
                           None (Some (exc_str e))) deleted (skipped + 1) s'
                       else
                         ((Inl (proxbox_exc ''Error while sweeping orphan virtual machines.'' (PStr (exc_str e)) None None),
                           [progress Op_failed ''failed'' (''Failed to delete orphan VM '' @ str_quoted name) (Some (exc_str e)) None,
                            Phase_summary deleted 1 skipped
                              (''Orphan VM sweep failed after deleting '' @ nat_str deleted @ '' of '' @ nat_str tot @ '' candidate(s)'')]), s')))"

record sweep_result =
  sw_enabled :: bool
  sw_run_id :: string
  sw_dry_run :: bool
  sw_candidates :: nat
  sw_deleted :: nat
  sw_failed :: nat
  sw_skipped :: nat

definition delete_orphan_vms ::
  "'w netenv \<Rightarrow> bool \<Rightarrow> string \<Rightarrow> bool \<Rightarrow> int list \<Rightarrow> pyobj list \<Rightarrow> 'w syncst \<Rightarrow>
     ((py_exc + sweep_result) \<times> sweep_event list) \<times> 'w syncst" where
  "delete_orphan_vms E enabled run_id dry_run touched cands s =
     (let invalid = touched_candidates touched cands; tot = length cands
      in if invalid \<noteq> []
         then ((Inl (proxbox_exc ''Orphan VM sweep invariant failed'' (PStr (touched_error run_id invalid)) None None),
                [Error_event (touched_error run_id invalid)]), s)
         else case sweep_from E run_id dry_run tot 1 cands 0 0 s of
           ((Inl e, evs), s') \<Rightarrow> ((Inl e, evs), s')
         | ((Inr (deleted, skipped), evs), s') \<Rightarrow>
             ((Inr \<lparr>sw_enabled = enabled, sw_run_id = run_id, sw_dry_run = dry_run, sw_candidates = tot,
                    sw_deleted = deleted, sw_failed = 0, sw_skipped = skipped\<rparr>,
               evs @ [Phase_summary deleted 0 skipped
                 (if dry_run then ''Orphan VM sweep dry-run completed: '' @ nat_str tot @ '' candidate(s), 0 deleted''
                  else ''Orphan VM sweep completed: '' @ nat_str deleted @ '' deleted, '' @ nat_str skipped @ '' skipped'')]), s'))"

definition run_orphan_vm_sweep ::
  "'w netenv \<Rightarrow> bool \<Rightarrow> string \<Rightarrow> bool \<Rightarrow> bool \<Rightarrow> int list \<Rightarrow> 'w syncst \<Rightarrow>
     ((py_exc + sweep_result) \<times> sweep_event list) \<times> 'w syncst" where
  "run_orphan_vm_sweep E legacy run_id enabled dry_run touched s =
     (if \<not> enabled \<and> \<not> dry_run
      then ((Inr \<lparr>sw_enabled = False, sw_run_id = run_id, sw_dry_run = False, sw_candidates = 0, sw_deleted = 0,
                  sw_failed = 0, sw_skipped = 0\<rparr>, []), s)
      else case find_orphan_vms E legacy run_id vm_discovery_tag_slugs s of
        (Inl e, s') \<Rightarrow> ((Inl e, []), s')
      | (Inr cands, s') \<Rightarrow> delete_orphan_vms E enabled run_id dry_run touched cands s')"


subsection \<open>Finding the candidates only reads\<close>

lemma on_net_reads:
  assumes "reads_only body" "on_net body s = (r, s')"
  shows "writes (log_of (net s')) = writes (log_of (net s))"
  using assms reads_onlyD [OF assms(1), of "net s"] by (auto simp: on_net_def split: prod.splits)

lemma fetch_vm_reads: "fetch_vm_by_id (logged E) i s = (r, s') \<Longrightarrow> writes (log_of (net s')) = writes (log_of (net s))"
  by (auto simp: fetch_vm_by_id_def dest: on_net_reads [OF rest_first_reads] split: prod.splits sum.splits)

lemma rest_list_reads: "reads_only (rest_list (logged E) path q)"
  using list_traverse_reads [of E path q None None] by (simp add: reads_only_def rest_list_def)

lemma read_sidecars_reads: "reads_only (read_sidecars (logged E) q n)"
  using rest_list_reads [of E] rest_list_paginated_reads [of E] by (auto simp: reads_only_def read_sidecars_def split: option.splits)

lemma net_memoize [simp]: "net (memoize_sidecar_failure p e s) = net s"
  by (simp add: memoize_sidecar_failure_def)

lemma scan_sidecars_reads: "scan_sidecars (logged E) q n s = (r, s') \<Longrightarrow> writes (log_of (net s')) = writes (log_of (net s))"
  by (auto simp: scan_sidecars_def dest: on_net_reads [OF read_sidecars_reads] split: if_splits prod.splits sum.splits)

lemma list_sidecars_reads: "list_sidecars (logged E) q n s = (r, s') \<Longrightarrow> writes (log_of (net s')) = writes (log_of (net s))"
  by (auto simp: list_sidecars_def dest: on_net_reads [OF read_sidecars_reads] split: if_splits prod.splits sum.splits)

lemma first_sidecar_reads: "first_sidecar (logged E) q s = (r, s') \<Longrightarrow> writes (log_of (net s')) = writes (log_of (net s))"
  by (auto simp: first_sidecar_def dest!: list_sidecars_reads split: prod.splits option.splits list.splits)

lemma last_run_id_reads: "resolve_vm_last_run_id (logged E) l r n s = (v, s') \<Longrightarrow> writes (log_of (net s')) = writes (log_of (net s))"
  by (auto simp: resolve_vm_last_run_id_def resolve_vm_sidecar_by_parent_id_def dest!: first_sidecar_reads
      split: prod.splits option.splits if_splits)

lemma scan_rows_reads:
  "scan_rows_for_orphans (logged E) run_id slugs rows cands current s = (r, s') \<Longrightarrow>
     writes (log_of (net s')) = writes (log_of (net s))"
proof (induct rows arbitrary: run_id cands current s)
  case (Cons row rows)
  show ?case
  proof (cases "(map_of (rec_data row) ''last_run_id'', record_id (obj_get (rec_data row) ''virtual_machine''))")
    case (Pair a b)
    obtain f sf where f: "fetch_vm_by_id (logged E) (the b) s = (f, sf)" by fastforce
    from Cons.prems Pair f fetch_vm_reads [OF f] show ?thesis
      by (cases a; cases b) (auto simp: Let_def dest!: Cons.hyps split: if_splits option.splits)
  qed
qed simp

lemma orphan_scan_reads:
  "scan_vm_sidecar_orphan_candidates (logged E) run_id slugs s = (r, s') \<Longrightarrow> writes (log_of (net s')) = writes (log_of (net s))"
  by (auto simp: scan_vm_sidecar_orphan_candidates_def dest!: scan_sidecars_reads scan_rows_reads split: prod.splits option.splits)

lemma legacy_records_reads:
  "add_legacy_records (logged E) l run_id current rs cands s = (r, s') \<Longrightarrow> writes (log_of (net s')) = writes (log_of (net s))"
proof (induct rs arbitrary: cands s)
  case (Cons x rs)
  then show ?case
    by (auto simp: sidecar_marks_current_run_def dest!: Cons.hyps last_run_id_reads split: option.splits if_splits prod.splits)
qed simp

lemma legacy_queries_reads:
  "run_legacy_queries (logged E) l run_id current qs cands s = (r, s') \<Longrightarrow> writes (log_of (net s')) = writes (log_of (net s))"
proof (induct qs arbitrary: cands s)
  case (Cons q qs)
  then show ?case
    by (auto dest!: Cons.hyps legacy_records_reads on_net_reads [OF rest_list_paginated_reads] split: prod.splits sum.splits)
qed simp

lemma find_orphans_reads:
  "find_orphan_vms (logged E) l run_id slugs s = (r, s') \<Longrightarrow> writes (log_of (net s')) = writes (log_of (net s))"
  by (auto simp: find_orphan_vms_def add_sidecar_orphan_candidates_def add_legacy_orphan_candidates_def
      dest!: orphan_scan_reads legacy_queries_reads split: if_splits prod.splits sum.splits)


subsection \<open>What a sweep deletes\<close>

definition delete_vm_request :: "int \<Rightarrow> api_request" where
  "delete_vm_request i =
     \<lparr>rq_method = ''DELETE'', rq_path = normalize_path virtual_machines_path @ int_str i @ ''/'', rq_query = None, rq_payload = PNone\<rparr>"

lemma one_request_delete:
  "one_request (delete_single_request (logged E) (normalize_path virtual_machines_path) i) (delete_vm_request i) (\<lambda>e out. True)"
  unfolding one_request_def
proof
  fix s
  obtain out s1 where o: "send (logged E) (delete_vm_request i) s = (out, s1)" "log_of s1 = log_of s @ [(delete_vm_request i, out)]"
    using log_send [of E "delete_vm_request i" s] by (cases "send (logged E) (delete_vm_request i) s") auto
  then show "\<exists>out. log_of (snd (delete_single_request (logged E) (normalize_path virtual_machines_path) i s)) =
      log_of s @ [(delete_vm_request i, out)] \<and>
      (\<forall>e. fst (delete_single_request (logged E) (normalize_path virtual_machines_path) i s) = Inl e \<longrightarrow> True)"
    by (intro exI [of _ out]) (cases out, auto simp: delete_single_request_def send_wrapped_def delete_vm_request_def Let_def)
qed

lemma delete_one_log:
  assumes "on_net (rest_bulk_delete (logged E) virtual_machines_path [i]) s = (r, s')"
  shows "\<exists>outs. log_of (net s') = log_of (net s) @ map (Pair (delete_vm_request i)) outs"
proof -
  have "snd (rest_bulk_delete (logged E) virtual_machines_path [i] (net s)) = net s'"
    using assms by (auto simp: on_net_def split: prod.splits)
  then show ?thesis
    using retry_from_log [OF one_request_delete [of E i], of E is_transient_netbox_error 0 "max_retries E" "net s"]
    by (auto simp: rest_bulk_delete_def delete_single_record_def with_retry_def)
qed

definition deletes_only :: "int set \<Rightarrow> request_log \<Rightarrow> bool" where
  "deletes_only ids l = (\<forall>(rq, out) \<in> set l. \<exists>i \<in> ids. rq = delete_vm_request i)"

lemma writes_deletes: "writes (map (Pair (delete_vm_request i)) outs) = map (Pair (delete_vm_request i)) outs"
  by (induct outs) (simp_all add: writes_def delete_vm_request_def)

definition candidate_ids :: "pyobj list \<Rightarrow> int set" where
  "candidate_ids cs = {i. Some i \<in> set (map (\<lambda>c. coerce_int (obj_get c ''id'')) cs)}"

lemma deletes_only_mono: "deletes_only A l \<Longrightarrow> A \<subseteq> B \<Longrightarrow> deletes_only B l"
  by (fastforce simp: deletes_only_def)

lemma sweep_from_writes:
  "sweep_from (logged E) run_id dry_run tot index cs deleted skipped s = ((r, evs), s') \<Longrightarrow>
     \<exists>W. writes (log_of (net s')) = writes (log_of (net s)) @ W \<and> (dry_run \<longrightarrow> W = []) \<and> deletes_only (candidate_ids cs) W"
proof (induct cs arbitrary: index deleted skipped s r evs s')
  case (Cons c cs)
  have mono: "candidate_ids cs \<subseteq> candidate_ids (c # cs)" by (auto simp: candidate_ids_def)
  have again: "\<exists>W. writes (log_of (net s')) = writes (log_of (net s1)) @ W \<and> (dry_run \<longrightarrow> W = []) \<and> deletes_only (candidate_ids (c # cs)) W"
    if "sweep_from (logged E) run_id dry_run tot ix cs d k s1 = ((r1, evs1), s')" for ix d k s1 r1 evs1
    using Cons.hyps [OF that] deletes_only_mono [OF _ mono] by blast
  show ?case
  proof (cases "coerce_int (obj_get c ''id'')")
    case None
    with Cons.prems obtain r1 evs1 where
      "sweep_from (logged E) run_id dry_run tot (index + 1) cs deleted (skipped + 1) s = ((r1, evs1), s')"
      by (auto simp: Let_def split: prod.splits)
    from again [OF this] show ?thesis .
  next
    case (Some i)
    obtain o1 s1 where o: "on_net (rest_bulk_delete (logged E) virtual_machines_path [i]) s = (o1, s1)" by fastforce
    obtain outs where outs: "log_of (net s1) = log_of (net s) @ map (Pair (delete_vm_request i)) outs"
      using delete_one_log [OF o] by blast
    have own: "deletes_only (candidate_ids (c # cs)) (map (Pair (delete_vm_request i)) outs)"
      using Some by (auto simp: deletes_only_def candidate_ids_def)
    show ?thesis
    proof (cases dry_run)
      case True
      with Cons.prems Some obtain r1 evs1 where
        "sweep_from (logged E) run_id dry_run tot (index + 1) cs deleted (skipped + 1) s = ((r1, evs1), s')"
        by (auto simp: Let_def split: prod.splits)
      from again [OF this] show ?thesis .
    next
      case False
      have "net s' = net s1 \<or> (\<exists>d k r1 evs1. sweep_from (logged E) run_id dry_run tot (index + 1) cs d k s1 = ((r1, evs1), s'))"
        using Cons.prems Some False o by (auto simp: Let_def split: prod.splits sum.splits if_splits)
      then obtain W where "writes (log_of (net s')) = writes (log_of (net s1)) @ W" "deletes_only (candidate_ids (c # cs)) W"
      proof
        assume "net s' = net s1"
        then show thesis by (intro that [of "[]"]) (simp_all add: deletes_only_def)
      qed (use again that in blast)
      with own outs False show ?thesis
        by (intro exI [of _ "map (Pair (delete_vm_request i)) outs @ W"])
          (auto simp: writes_deletes deletes_only_def)
    qed
  qed
qed (auto simp: deletes_only_def)

interpretation stale: first_index add_stale "\<lambda>c. coerce_int (obj_get c ''id'')"
  by unfold_locales (simp add: add_stale_def)

lemma snd_set_update: "snd ` set (dict_set i d cands) \<subseteq> insert d (snd ` set cands)"
  by (induct cands) auto

lemma scan_rows_tagged:
  "scan_rows_for_orphans E run_id slugs rows cands current s = ((cands', current'), s') \<Longrightarrow>
     (\<forall>d \<in> snd ` set cands. record_has_any_tag_slug d slugs) \<Longrightarrow> (\<forall>d \<in> snd ` set cands'. record_has_any_tag_slug d slugs)"
proof (induct rows arbitrary: cands current s)
  case (Cons row rows)
  have set: "snd ` set (dict_set i d cands) \<subseteq> insert d (snd ` set cands)" for i d by (rule snd_set_update)
  show ?case
  proof (cases "(map_of (rec_data row) ''last_run_id'', record_id (obj_get (rec_data row) ''virtual_machine''))")
    case (Pair a b)
    obtain f sf where f: "fetch_vm_by_id E (the b) s = (f, sf)" by fastforce
    let ?scan = "\<lambda>cs cu s1. scan_rows_for_orphans E run_id slugs rows cs cu s1 = ((cands', current'), s')"
    consider "?scan cands current s" | "?scan cands (the b # current) s" | "?scan cands current sf"
      | d where "record_has_any_tag_slug d slugs" "?scan (dict_set (the b) d cands) current sf"
      using Cons.prems(1) Pair f
      by (cases a; cases b; cases f; cases "text_or_blank (the a) = run_id"; cases "map_of cands (the b)")
        (simp_all add: Let_def split: if_splits)
    then show ?thesis
    proof cases
      case (4 d)
      have "\<forall>d' \<in> snd ` set (dict_set (the b) d cands). record_has_any_tag_slug d' slugs"
        using set [of "the b" d] Cons.prems(2) 4(1) by blast
      from Cons.hyps [OF 4(2) this] show ?thesis .
    qed (use Cons.hyps Cons.prems(2) in blast)+
  qed
qed simp

lemma sweep_from_counts:
  "sweep_from E run_id dry_run tot index cs deleted skipped s = ((Inr (d, k), evs), s') \<Longrightarrow>
     d + k = deleted + skipped + length cs \<and> length evs = length cs \<and> (dry_run \<longrightarrow> d = deleted)"
proof (induct cs arbitrary: index deleted skipped s evs)
  case (Cons c cs)
  let ?sweep = "\<lambda>d0 k0 s1 evs1. sweep_from E run_id dry_run tot (index + 1) cs d0 k0 s1 = ((Inr (d, k), evs1), s')"
  obtain o1 so where o: "on_net (rest_bulk_delete E virtual_machines_path [the (coerce_int (obj_get c ''id''))]) s = (o1, so)" by fastforce
  consider s1 evs1 where "?sweep deleted (skipped + 1) s1 evs1" "length evs = Suc (length evs1)"
    | s1 evs1 where "?sweep (deleted + 1) skipped s1 evs1" "length evs = Suc (length evs1)" "\<not> dry_run"
    using Cons.prems o
    by (cases "coerce_int (obj_get c ''id'')"; cases o1) (auto simp: Let_def split: prod.splits if_splits)
  then show ?case
  proof cases
    case 1
    with Cons.hyps [OF 1(1)] show ?thesis by simp
  next
    case 2
    with Cons.hyps [OF 2(1)] show ?thesis by simp
  qed
qed simp

lemma sidecar_candidates_tagged:
  assumes "fst (find_orphan_vms E False run_id slugs s) = Inr cands" "c \<in> set cands"
  shows "record_has_any_tag_slug c (normalized_vm_slugs slugs)"
proof -
  let ?sl = "normalized_vm_slugs slugs"
  obtain scan s1 where scan: "scan_vm_sidecar_orphan_candidates E run_id ?sl s = (scan, s1)" by fastforce
  obtain rows failed s2 where rows: "scan_sidecars E [] (Some 200) s = ((rows, failed), s2)" by (metis prod.collapse)
  have "c \<in> snd ` set (if orphan_failed scan then [] else fold add_stale (stale_candidates scan) [])"
    using assms scan by (auto simp: find_orphan_vms_def add_sidecar_orphan_candidates_def add_legacy_orphan_candidates_def split: if_splits)
  then have "c \<in> set (stale_candidates scan)" using stale.values_from [of "stale_candidates scan" "[]"] by (auto split: if_splits)
  moreover have "\<forall>d \<in> set (stale_candidates scan). record_has_any_tag_slug d ?sl"
  proof (cases rows)
    case None
    with scan rows show ?thesis by (auto simp: scan_vm_sidecar_orphan_candidates_def)
  next
    case (Some rs)
    obtain cs cu s3 where r: "scan_rows_for_orphans E run_id ?sl rs [] [] s2 = ((cs, cu), s3)" by (metis prod.collapse)
    from scan_rows_tagged [OF r] scan rows Some r show ?thesis by (auto simp: scan_vm_sidecar_orphan_candidates_def)
  qed
  ultimately show ?thesis by blast
qed

lemma normalized_discovery_slugs: "normalized_vm_slugs vm_discovery_tag_slugs = vm_discovery_tag_slugs"
  by code_simp

text \<open>
  \<^bold>\<open>C24.\<close> The only writes of a sweep are deletions of single virtual machines, sent only when the sweep is
  enabled and not a dry run, each for a candidate that the sweep's own search returned and that this
  run did not touch; without the legacy custom fields every candidate carries a discovery tag. A sweep
  that completes accounts for every candidate as deleted or skipped, with one event for each.
\<close>

theorem sweep_deletes_only_orphans:
  assumes "run_orphan_vm_sweep (logged E) legacy run_id enabled dry_run touched s = ((r, evs), s')"
    and "fst (find_orphan_vms (logged E) legacy run_id vm_discovery_tag_slugs s) = Inr cands"
  shows "(\<exists>W. writes (log_of (net s')) = writes (log_of (net s)) @ W \<and> (W \<noteq> [] \<longrightarrow> enabled \<and> \<not> dry_run) \<and>
      deletes_only (candidate_ids cands - set touched) W) \<and>
    (\<not> legacy \<longrightarrow> (\<forall>c \<in> set cands. record_has_any_tag_slug c vm_discovery_tag_slugs)) \<and>
    (\<forall>res. r = Inr res \<longrightarrow> enabled \<or> dry_run \<longrightarrow>
      sw_candidates res = length cands \<and> sw_deleted res + sw_skipped res = length cands \<and> sw_failed res = 0 \<and>
      (dry_run \<longrightarrow> sw_deleted res = 0) \<and> length evs = length cands + 1)"
proof -
  obtain s1 where f: "find_orphan_vms (logged E) legacy run_id vm_discovery_tag_slugs s = (Inr cands, s1)"
    using assms(2) by (metis prod.collapse)
  have tagged: "\<not> legacy \<longrightarrow> (\<forall>c \<in> set cands. record_has_any_tag_slug c vm_discovery_tag_slugs)"
    using sidecar_candidates_tagged [of "logged E" run_id vm_discovery_tag_slugs s cands] assms(2)
    by (auto simp: normalized_discovery_slugs)
  show ?thesis
  proof (cases "(\<not> enabled \<and> \<not> dry_run) \<or> touched_candidates touched cands \<noteq> []")
    case True
    have "writes (log_of (net s')) = writes (log_of (net s))" "enabled \<or> dry_run \<Longrightarrow> \<exists>e. r = Inl e"
      using assms(1) f True find_orphans_reads [OF f]
      by (auto simp: run_orphan_vm_sweep_def delete_orphan_vms_def Let_def split: if_splits)
    then show ?thesis using tagged by (intro conjI exI [of _ "[]"]) (auto simp: deletes_only_def)
  next
    case False
    obtain r1 evs1 s2 where sw: "sweep_from (logged E) run_id dry_run (length cands) 1 cands 0 0 s1 = ((r1, evs1), s2)"
      by (metis prod.collapse)
    have out: "s' = s2" "\<And>res. r = Inr res \<Longrightarrow> \<exists>d k. r1 = Inr (d, k) \<and> length evs = Suc (length evs1) \<and>
        sw_candidates res = length cands \<and> sw_deleted res = d \<and> sw_skipped res = k \<and> sw_failed res = 0"
      using assms(1) f False sw
      by (auto simp: run_orphan_vm_sweep_def delete_orphan_vms_def Let_def split: sum.splits prod.splits)
    have "candidate_ids cands = candidate_ids cands - set touched"
    proof -
      have "\<forall>c \<in> set cands. coerce_int (obj_get c ''id'') \<notin> Some ` set touched"
        using False by (simp add: touched_candidates_def filter_empty_conv)
      then show ?thesis by (auto simp: candidate_ids_def) (metis imageI)
    qed
    with sweep_from_writes [OF sw] find_orphans_reads [OF f] out(1) False
    have "\<exists>W. writes (log_of (net s')) = writes (log_of (net s)) @ W \<and> (W \<noteq> [] \<longrightarrow> enabled \<and> \<not> dry_run) \<and>
      deletes_only (candidate_ids cands - set touched) W" by auto
    moreover have "sw_candidates res = length cands \<and> sw_deleted res + sw_skipped res = length cands \<and> sw_failed res = 0 \<and>
      (dry_run \<longrightarrow> sw_deleted res = 0) \<and> length evs = length cands + 1" if "r = Inr res" for res
      using out(2) [OF that] sweep_from_counts [of "logged E" run_id dry_run "length cands" 1 cands 0 0 s1 _ _ evs1 s2] sw by auto
    ultimately show ?thesis using tagged by blast
  qed
qed

text \<open>A machine of an earlier run, with its discovery tag, is swept.\<close>

definition orphan_vm :: pyobj where
  "orphan_vm = [(''id'', PInt 7), (''name'', PStr ''old''), (''tags'', PList [PDict [(''slug'', PStr ''proxbox-discovered-lxc'')]])]"

definition orphan_row :: "string \<Rightarrow> int \<Rightarrow> pyobj" where
  "orphan_row run i = [(''id'', PInt i), (''last_run_id'', PStr run), (''virtual_machine'', PDict [(''id'', PInt 7)])]"

definition demo_sweep :: "((py_exc + api_response) list \<times> request_log) syncst" where
  "demo_sweep =
     \<lparr>net = start_state [one_of [orphan_row ''r1'' 4], one_of [orphan_vm], Inr \<lparr>rs_status = 204, rs_text = [], rs_json = Inl []\<rparr>],
      writer_unavailable = [], reader_unavailable = []\<rparr>"

theorem sweep_deletes_only_orphans_witness:
  "(\<exists>W. writes (log_of (net (snd (run_orphan_vm_sweep (logged (scripted_env 5)) False ''r2'' True False [3] demo_sweep)))) = W \<and>
      length W = 1 \<and> deletes_only ({7} - {3}) W)"
proof -
  let ?R = "run_orphan_vm_sweep (logged (scripted_env 5)) False ''r2'' True False [3] demo_sweep"
  have c: "fst (find_orphan_vms (logged (scripted_env 5)) False ''r2'' vm_discovery_tag_slugs demo_sweep) = Inr [orphan_vm]"
    and l: "length (writes (log_of (net (snd ?R)))) = 1" by code_simp+
  have i: "candidate_ids [orphan_vm] = {7}" "writes (log_of (net demo_sweep)) = []"
    by (auto simp: candidate_ids_def orphan_vm_def obj_get_def coerce_int_def demo_sweep_def start_state_def log_of_def writes_def)
  obtain r evs s' where R: "?R = ((r, evs), s')" by (metis prod.collapse)
  from sweep_deletes_only_orphans [OF R c] l show ?thesis unfolding R i by (simp add: i)
qed


subsection \<open>Observations\<close>

text \<open>
  Of two sidecar rows of one machine, one of them marked by this run, the search returns the machine as
  an orphan all the same, and the sweep deletes it unless its id was passed as touched.
\<close>

lemma current_vm_with_stale_row_is_candidate:
  "fst (find_orphan_vms (scripted_env 5) False ''r2'' vm_discovery_tag_slugs
     (demo_sync [one_of [orphan_row ''r1'' 4, orphan_row ''r2'' 5], one_of [orphan_vm]])) = Inr [orphan_vm]"
  by code_simp

text \<open>A refused deletion whose message happens to mention 404 counts as already gone.\<close>

lemma refusal_mentioning_404_reads_as_gone:
  "is_not_found_error (proxbox_exc ''NetBox REST delete failed'' (PStr ''protected by IP address 14042'') None None)"
  by code_simp

end
