(* ===== verification/Vm_Queue.thy ===== *)
theory Vm_Queue
  imports Vm_Identity Rest_Reconcile Runtime_Settings Index_Laws
begin

text \<open>
  The VM operation queue (\<^verbatim>\<open>services/sync/reconciliation/\<close>): prepared Proxmox machines are matched with the
  snapshot of NetBox records and classified as GET, CREATE or UPDATE, with the update's patch. The
  create body it compares (\<^verbatim>\<open>NetBoxVirtualMachineCreateBody\<close>) is modelled with its validators; what
  pydantic itself does to an \<^verbatim>\<open>int\<close> field is the parameter \<open>lax_int\<close>. The Rust engine, optional at run time
  and outside the Python sources, is a parameter too. A prepared machine carries its configuration and
  a time stamp along, which the queue never reads; they are left out.
\<close>

record prepared_vm =
  pv_cluster_name :: string
  pv_resource :: pyobj
  pv_desired :: pyobj
  pv_lookup :: pyobj
  pv_vm_type :: string

datatype op_method = GET | CREATE | UPDATE

record vm_operation =
  op_method :: op_method
  op_prepared :: prepared_vm
  op_existing :: "pyobj option"
  op_patch :: pyobj

record vm_flags =
  overwrite_vm_role :: bool
  overwrite_vm_type :: bool
  overwrite_vm_tags :: bool
  overwrite_vm_description :: bool
  overwrite_vm_custom_fields :: bool
  supports_virtual_machine_type_field :: bool


subsection \<open>The create body\<close>

definition vm_status_from_proxmox :: "pyval \<Rightarrow> string" where
  "vm_status_from_proxmox raw =
     (let v = (case raw of
                 PDict d \<Rightarrow> (case map_of d ''value'' of Some x \<Rightarrow> x | None \<Rightarrow> obj_get d ''label'')
               | _ \<Rightarrow> raw);
          t = py_lower (py_strip (py_str (py_or v (PStr ''active''))))
      in if t \<in> {''stopped'', ''paused'', ''offline''} then ''offline''
         else if t = ''planned'' then ''planned'' else ''active'')"

definition body_fields :: "string list" where
  "body_fields =
     [''name'', ''status'', ''cluster'', ''device'', ''site'', ''virtual_machine_type'', ''role'', ''vcpus'', ''memory'', ''disk'',
      ''tags'', ''custom_fields'', ''description'']"

definition invalid_body :: "string \<Rightarrow> py_exc" where
  "invalid_body field = OtherError (''ValidationError: '' @ field)"

text \<open>A relation field: its id, read by pydantic as an integer, must be positive when there is one.\<close>

definition relation_field :: "(pyval \<Rightarrow> int option) \<Rightarrow> pyobj \<Rightarrow> string \<Rightarrow> py_exc + pyval" where
  "relation_field lax_int d f =
     (case (case obj_get d f of PDict r \<Rightarrow> obj_get r ''id'' | v \<Rightarrow> v) of
        PNone \<Rightarrow> Inr PNone
      | v \<Rightarrow>
          (case lax_int v of
             None \<Rightarrow> Inl (invalid_body f)
           | Some i \<Rightarrow> if i \<le> 0 then Inl (invalid_body f) else Inr (PInt i)))"

definition coerce_optional_vcpus :: "pyval \<Rightarrow> pyval" where
  "coerce_optional_vcpus v = (case py_int_of v of None \<Rightarrow> PNone | Some i \<Rightarrow> if i = 0 then PNone else PInt i)"

definition coerce_nullable_vm_int :: "pyval \<Rightarrow> pyval" where
  "coerce_nullable_vm_int v = PInt (case py_int_of v of None \<Rightarrow> 0 | Some i \<Rightarrow> i)"

definition tag_id :: "pyval \<Rightarrow> int option" where
  "tag_id item = py_int_of (case item of PDict d \<Rightarrow> obj_get d ''id'' | _ \<Rightarrow> item)"

text \<open>\<open>None\<close> for a value that cannot be iterated.\<close>

definition normalize_tags :: "pyval \<Rightarrow> int list option" where
  "normalize_tags v =
     map_option (\<lambda>items. sort (remdups (List.map_filter tag_id items)))
       (case v of
          PNone \<Rightarrow> Some []
        | PList items \<Rightarrow> Some items
        | PStr t \<Rightarrow> Some (map (\<lambda>ch. PStr [ch]) t)
        | PDict d \<Rightarrow> Some (map (\<lambda>(k, _). PStr k) d)
        | _ \<Rightarrow> None)"

text \<open>The values of the validated body, in the order of its fields.\<close>

definition body_dump ::
  "string \<Rightarrow> pyobj \<Rightarrow> pyval \<Rightarrow> pyval \<Rightarrow> pyval \<Rightarrow> pyval \<Rightarrow> pyval \<Rightarrow> int list \<Rightarrow> pyobj \<Rightarrow> pyval \<Rightarrow> pyobj" where
  "body_dump name d cluster device site vm_type role tags cf description =
     [(''name'', PStr name), (''status'', PStr (vm_status_from_proxmox (py_or (obj_get d ''status'') (PStr ''active'')))),
      (''cluster'', cluster), (''device'', device), (''site'', site), (''virtual_machine_type'', vm_type), (''role'', role),
      (''vcpus'', coerce_optional_vcpus (obj_get d ''vcpus'')), (''memory'', coerce_nullable_vm_int (obj_get d ''memory'')),
      (''disk'', coerce_nullable_vm_int (obj_get d ''disk'')), (''tags'', PList (map PInt tags)), (''custom_fields'', PDict cf),
      (''description'', description)]"

text \<open>\<^verbatim>\<open>model_validate(d).model_dump(exclude_none=True, by_alias=True)\<close>.\<close>

definition vm_create_body :: "(pyval \<Rightarrow> int option) \<Rightarrow> pyobj \<Rightarrow> py_exc + pyobj" where
  "vm_create_body lax_int d =
     (if list_ex (\<lambda>(k, _). k \<notin> set body_fields) d then Inl (invalid_body ''extra'')
      else if map_of d ''status'' = None then Inl (invalid_body ''status'')
      else case obj_get d ''name'' of
        PStr name \<Rightarrow>
          (case (relation_field lax_int d ''cluster'', relation_field lax_int d ''device'', relation_field lax_int d ''site'',
                 relation_field lax_int d ''virtual_machine_type'', relation_field lax_int d ''role'') of
             (Inr cluster, Inr device, Inr site, Inr vm_type, Inr role) \<Rightarrow>
               (case (normalize_tags (obj_get d ''tags''), (case map_of d ''custom_fields'' of None \<Rightarrow> PDict [] | Some v \<Rightarrow> v),
                      obj_get d ''description'') of
                  (None, _, _) \<Rightarrow> Inl (invalid_body ''tags'')
                | (Some tags, PDict cf, descr) \<Rightarrow>
                    (case descr of
                       PNone \<Rightarrow> Inr (drop_nulls (body_dump name d cluster device site vm_type role tags cf PNone))
                     | PStr t \<Rightarrow> Inr (drop_nulls (body_dump name d cluster device site vm_type role tags cf (PStr t)))
                     | _ \<Rightarrow> Inl (invalid_body ''description''))
                | _ \<Rightarrow> Inl (invalid_body ''custom_fields''))
           | _ \<Rightarrow> Inl (invalid_body ''relation''))
      | _ \<Rightarrow> Inl (invalid_body ''name''))"


definition normalize_current_vm_payload :: "bool \<Rightarrow> pyobj \<Rightarrow> pyobj" where
  "normalize_current_vm_payload supports_type r =
     map (\<lambda>f. (f, obj_get r f))
       ([''name'', ''status'', ''cluster'', ''device'', ''site'', ''role'', ''vcpus'', ''memory'', ''disk'', ''tags'', ''custom_fields'',
         ''description''] @ (if supports_type then [''virtual_machine_type''] else []))"


subsection \<open>Matching prepared machines with records\<close>

definition custom_field_vmid :: "pyobj \<Rightarrow> int option" where
  "custom_field_vmid r =
     (case obj_get r ''custom_fields'' of
        PDict cf \<Rightarrow> py_int (py_strip (py_str (obj_get cf ''proxmox_vm_id'')))
      | _ \<Rightarrow> None)"

definition extract_cluster_and_proxmox_vmid :: "pyobj \<Rightarrow> (int \<times> int) option" where
  "extract_cluster_and_proxmox_vmid r =
     (case (relation_id (obj_get r ''cluster''), custom_field_vmid r) of (Some c, Some v) \<Rightarrow> Some (c, v) | _ \<Rightarrow> None)"

definition extract_endpoint_and_proxmox_vmid :: "pyobj \<Rightarrow> (int \<times> int) option" where
  "extract_endpoint_and_proxmox_vmid r =
     (case (extract_proxmox_endpoint_id r, custom_field_vmid r) of (Some e, Some v) \<Rightarrow> Some (e, v) | _ \<Rightarrow> None)"

definition truthy_val :: "pyval \<Rightarrow> pyval option" where
  "truthy_val v = (if truthy v then Some v else None)"

definition normalize_proxmox_vm_type :: "pyval \<Rightarrow> string option" where
  "normalize_proxmox_vm_type v =
     (let u = (case v of
                 PDict d \<Rightarrow> (case first_of truthy_val [''value'', ''slug'', ''name'', ''label''] d of None \<Rightarrow> PNone | Some x \<Rightarrow> x)
               | _ \<Rightarrow> v);
          t = py_lower (py_strip (py_str u))
      in if u = PNone \<or> t = [] then None else Some t)"

definition record_vm_type :: "pyobj \<Rightarrow> string option" where
  "record_vm_type r =
     (case obj_get r ''custom_fields'' of PDict cf \<Rightarrow> normalize_proxmox_vm_type (obj_get cf ''proxmox_vm_type'') | _ \<Rightarrow> None)"

record vm_indexes =
  endpoint_typed :: "(int \<times> int \<times> string, pyobj) pydict"
  endpoint_untyped :: "(int \<times> int, pyobj list) pydict"
  cluster_typed :: "(int \<times> int \<times> string, pyobj) pydict"
  cluster_untyped :: "(int \<times> int, pyobj list) pydict"

definition add_typed ::
  "(int \<times> int) option \<Rightarrow> string option \<Rightarrow> pyobj \<Rightarrow> (int \<times> int \<times> string, pyobj) pydict \<Rightarrow> (int \<times> int \<times> string, pyobj) pydict" where
  "add_typed key vm_type r d =
     (case (key, vm_type) of (Some k, Some t) \<Rightarrow> dict_setdefault (fst k, snd k, t) r d | _ \<Rightarrow> d)"

definition add_untyped ::
  "(int \<times> int) option \<Rightarrow> pyobj \<Rightarrow> (int \<times> int, pyobj list) pydict \<Rightarrow> (int \<times> int, pyobj list) pydict" where
  "add_untyped key r d = (case key of Some k \<Rightarrow> dict_append k r d | None \<Rightarrow> d)"

definition index_record :: "pyobj \<Rightarrow> vm_indexes \<Rightarrow> vm_indexes" where
  "index_record r ix =
     (let e = extract_endpoint_and_proxmox_vmid r; c = extract_cluster_and_proxmox_vmid r; t = record_vm_type r
      in \<lparr>endpoint_typed = add_typed e t r (endpoint_typed ix), endpoint_untyped = add_untyped e r (endpoint_untyped ix),
          cluster_typed = add_typed c t r (cluster_typed ix), cluster_untyped = add_untyped c r (cluster_untyped ix)\<rparr>)"

definition build_vm_snapshot_identity_indexes :: "pyobj list \<Rightarrow> vm_indexes" where
  "build_vm_snapshot_identity_indexes snapshot =
     fold index_record snapshot \<lparr>endpoint_typed = [], endpoint_untyped = [], cluster_typed = [], cluster_untyped = []\<rparr>"

definition select_in_scope ::
  "string option \<Rightarrow> int \<Rightarrow> int \<Rightarrow> (int \<times> int \<times> string, pyobj) pydict \<Rightarrow> (int \<times> int, pyobj list) pydict \<Rightarrow> pyobj option" where
  "select_in_scope vm_type scope vmid typed untyped =
     (let candidates = (case map_of untyped (scope, vmid) of None \<Rightarrow> [] | Some cs \<Rightarrow> cs)
      in case vm_type of
           Some t \<Rightarrow>
             (case map_of typed (scope, vmid, t) of
                Some r \<Rightarrow> Some r
              | None \<Rightarrow> (case candidates of [c] \<Rightarrow> if record_vm_type c = None then Some c else None | _ \<Rightarrow> None))
         | None \<Rightarrow> (case candidates of [c] \<Rightarrow> Some c | _ \<Rightarrow> None))"

definition select_existing_vm_record ::
  "prepared_vm \<Rightarrow> int option \<Rightarrow> int option \<Rightarrow> int option \<Rightarrow> vm_indexes \<Rightarrow> pyobj option" where
  "select_existing_vm_record p endpoint_id cluster_id proxmox_vmid ix =
     (case proxmox_vmid of
        None \<Rightarrow> None
      | Some vmid \<Rightarrow>
          (case (endpoint_id, cluster_id) of
             (Some e, _) \<Rightarrow> select_in_scope (normalize_proxmox_vm_type (PStr (pv_vm_type p))) e vmid (endpoint_typed ix) (endpoint_untyped ix)
           | (None, Some c) \<Rightarrow> select_in_scope (normalize_proxmox_vm_type (PStr (pv_vm_type p))) c vmid (cluster_typed ix) (cluster_untyped ix)
           | (None, None) \<Rightarrow> None))"


subsection \<open>The queue\<close>

definition pop_when :: "bool \<Rightarrow> string \<Rightarrow> pyobj \<Rightarrow> pyobj" where
  "pop_when c f patch = (if c then dict_pop f patch else patch)"

definition diff_payload :: "pyobj \<Rightarrow> pyobj \<Rightarrow> pyobj" where
  "diff_payload desired current = filter (\<lambda>(f, v). \<not> py_eq (obj_get current f) v) desired"

definition int_items :: "pyval \<Rightarrow> int list" where
  "int_items v = (case v of PList xs \<Rightarrow> List.map_filter py_int_of xs | _ \<Rightarrow> [])"

text \<open>The tags of the patch: kept to add the desired tags to the current ones.\<close>

definition merge_tags :: "vm_flags \<Rightarrow> pyobj \<Rightarrow> pyobj \<Rightarrow> pyobj \<Rightarrow> pyobj \<Rightarrow> pyobj" where
  "merge_tags flags existing desired current patch =
     (if \<not> overwrite_vm_tags flags then
        pop_when (case obj_get existing ''tags'' of PList ts \<Rightarrow> ts \<noteq> [] | _ \<Rightarrow> False) ''tags'' patch
      else if map_of patch ''tags'' \<noteq> None then
        (let old = int_items (obj_get current ''tags''); new = int_items (obj_get desired ''tags'');
             merged = sort (remdups (old @ new))
         in if merged = old then dict_pop ''tags'' patch else dict_set ''tags'' (PList (map PInt merged)) patch)
      else patch)"

definition vm_patch :: "vm_flags \<Rightarrow> pyobj \<Rightarrow> pyobj \<Rightarrow> pyobj \<Rightarrow> pyobj" where
  "vm_patch flags existing desired current =
     merge_tags flags existing desired current
       (pop_when (\<not> overwrite_vm_custom_fields flags \<and> (case obj_get existing ''custom_fields'' of PDict cf \<Rightarrow> cf \<noteq> [] | _ \<Rightarrow> False))
         ''custom_fields''
         (pop_when (\<not> overwrite_vm_description flags \<and> (case obj_get existing ''description'' of PStr t \<Rightarrow> t \<noteq> [] | _ \<Rightarrow> False))
           ''description''
           (pop_when (\<not> overwrite_vm_type flags \<and> relation_id (obj_get existing ''virtual_machine_type'') \<noteq> None)
             ''virtual_machine_type''
             (pop_when (\<not> overwrite_vm_role flags \<and> relation_id (obj_get existing ''role'') \<noteq> None)
               ''role'' (diff_payload desired current)))))"

definition desired_body :: "(pyval \<Rightarrow> int option) \<Rightarrow> vm_flags \<Rightarrow> pyobj \<Rightarrow> py_exc + pyobj" where
  "desired_body lax_int flags d =
     (case vm_create_body lax_int d of
        Inl e \<Rightarrow> Inl e
      | Inr body \<Rightarrow> Inr (pop_when (\<not> supports_virtual_machine_type_field flags) ''virtual_machine_type'' body))"

definition current_body :: "(pyval \<Rightarrow> int option) \<Rightarrow> vm_flags \<Rightarrow> pyobj \<Rightarrow> py_exc + pyobj" where
  "current_body lax_int flags r =
     vm_create_body lax_int (normalize_current_vm_payload (supports_virtual_machine_type_field flags) r)"

definition existing_for :: "vm_indexes \<Rightarrow> prepared_vm \<Rightarrow> pyobj option" where
  "existing_for ix p =
     select_existing_vm_record p (extract_proxmox_endpoint_id (pv_desired p)) (relation_id (obj_get (pv_desired p) ''cluster''))
       (relation_id (obj_get (pv_resource p) ''vmid'')) ix"

definition classify_vm ::
  "(pyval \<Rightarrow> int option) \<Rightarrow> vm_flags \<Rightarrow> vm_indexes \<Rightarrow> prepared_vm \<Rightarrow> py_exc + vm_operation" where
  "classify_vm lax_int flags ix p =
     (case existing_for ix p of
        None \<Rightarrow> Inr \<lparr>op_method = CREATE, op_prepared = p, op_existing = None, op_patch = []\<rparr>
      | Some r \<Rightarrow>
          (case desired_body lax_int flags (pv_desired p) of
             Inl e \<Rightarrow> Inl e
           | Inr desired \<Rightarrow>
               (case current_body lax_int flags r of
                  Inl e \<Rightarrow> Inl e
                | Inr current \<Rightarrow>
                    (let patch = vm_patch flags r desired current
                     in Inr (if patch = [] then \<lparr>op_method = GET, op_prepared = p, op_existing = Some r, op_patch = []\<rparr>
                             else \<lparr>op_method = UPDATE, op_prepared = p, op_existing = Some r, op_patch = patch\<rparr>)))))"

definition build_vm_operation_queue_python ::
  "(pyval \<Rightarrow> int option) \<Rightarrow> vm_flags \<Rightarrow> prepared_vm list \<Rightarrow> pyobj list \<Rightarrow> py_exc + vm_operation list" where
  "build_vm_operation_queue_python lax_int flags prepared snapshot =
     map_all (classify_vm lax_int flags (build_vm_snapshot_identity_indexes snapshot)) prepared"


subsection \<open>Engines\<close>

type_synonym result_key = "string \<times> int \<times> string"

definition prepared_vm_result_key :: "prepared_vm \<Rightarrow> py_exc + result_key" where
  "prepared_vm_result_key p =
     (case py_int_of (py_or (obj_get (pv_resource p) ''vmid'') (PInt 0)) of
        None \<Rightarrow> Inl (OtherError ''invalid literal for int()'')
      | Some vmid \<Rightarrow>
          Inr (pv_cluster_name p, vmid,
               case normalize_proxmox_vm_type (PStr (pv_vm_type p)) of None \<Rightarrow> [] | Some t \<Rightarrow> t))"

definition adaptation_error :: "nat \<Rightarrow> string \<Rightarrow> py_exc" where
  "adaptation_error index what = OtherError (''Rust operation '' @ nat_str index @ '' '' @ what)"

definition key_repr :: "result_key \<Rightarrow> string" where
  "key_repr k = ''('' @ str_repr (fst k) @ '', '' @ int_str (fst (snd k)) @ '', '' @ str_repr (snd (snd k)) @ '')''"

fun prepared_by_result_key :: "prepared_vm list \<Rightarrow> (result_key, prepared_vm) pydict \<Rightarrow> py_exc + (result_key, prepared_vm) pydict" where
  "prepared_by_result_key [] by_key = Inr by_key"
| "prepared_by_result_key (p # ps) by_key =
     (case prepared_vm_result_key p of
        Inl e \<Rightarrow> Inl e
      | Inr k \<Rightarrow>
          if map_of by_key k \<noteq> None then Inl (OtherError (''Duplicate prepared VM identity '' @ key_repr k))
          else prepared_by_result_key ps (dict_set k p by_key))"

definition raw_operation_result_key :: "pyobj \<Rightarrow> nat \<Rightarrow> py_exc + result_key" where
  "raw_operation_result_key raw index =
     (case obj_get raw ''cluster_name'' of
        PStr c \<Rightarrow>
          if c = [] then Inl (adaptation_error index (''has invalid cluster_name '' @ py_repr (PStr c)))
          else (case py_int_of (obj_get raw ''vmid'') of
                  None \<Rightarrow> Inl (adaptation_error index (''has invalid vmid '' @ py_repr (obj_get raw ''vmid'')))
                | Some vmid \<Rightarrow>
                    Inr (c, vmid, case normalize_proxmox_vm_type (obj_get raw ''vm_type'') of None \<Rightarrow> [] | Some t \<Rightarrow> t))
      | v \<Rightarrow> Inl (adaptation_error index (''has invalid cluster_name '' @ py_repr v)))"

definition raw_method :: "pyval \<Rightarrow> op_method option" where
  "raw_method v =
     (if v = PStr ''GET'' then Some GET else if v = PStr ''CREATE'' then Some CREATE
      else if v = PStr ''UPDATE'' then Some UPDATE else None)"

definition adapt_one :: "(result_key, prepared_vm) pydict \<Rightarrow> nat \<Rightarrow> pyobj \<Rightarrow> py_exc + vm_operation" where
  "adapt_one by_key index raw =
     (case raw_operation_result_key raw index of
        Inl e \<Rightarrow> Inl e
      | Inr k \<Rightarrow>
          (case map_of by_key k of
             None \<Rightarrow> Inl (adaptation_error index (''references unknown prepared VM identity '' @ key_repr k))
           | Some p \<Rightarrow>
               if \<not> hashable (obj_get raw ''method'') then Inl unhashable_error
               else (case raw_method (obj_get raw ''method'') of
                  None \<Rightarrow> Inl (adaptation_error index (''has invalid method '' @ py_repr (obj_get raw ''method'')))
                | Some m \<Rightarrow>
                    (case (obj_get raw ''existing_record'', py_or (obj_get raw ''patch_payload'') (PDict [])) of
                       (PNone, PDict patch) \<Rightarrow> Inr \<lparr>op_method = m, op_prepared = p, op_existing = None, op_patch = patch\<rparr>
                     | (PDict r, PDict patch) \<Rightarrow> Inr \<lparr>op_method = m, op_prepared = p, op_existing = Some r, op_patch = patch\<rparr>
                     | (PNone, _) \<Rightarrow> Inl (adaptation_error index ''has non-object patch_payload'')
                     | (PDict _, _) \<Rightarrow> Inl (adaptation_error index ''has non-object patch_payload'')
                     | _ \<Rightarrow> Inl (adaptation_error index ''has non-object existing_record'')))))"

fun adapt_all :: "(result_key, prepared_vm) pydict \<Rightarrow> nat \<Rightarrow> pyobj list \<Rightarrow> py_exc + vm_operation list" where
  "adapt_all by_key index [] = Inr []"
| "adapt_all by_key index (raw # raws) =
     (case adapt_one by_key index raw of
        Inl e \<Rightarrow> Inl e
      | Inr op \<Rightarrow> (case adapt_all by_key (index + 1) raws of Inl e \<Rightarrow> Inl e | Inr ops \<Rightarrow> Inr (op # ops)))"

definition adapt_to_dataclasses :: "pyobj list \<Rightarrow> prepared_vm list \<Rightarrow> py_exc + vm_operation list" where
  "adapt_to_dataclasses raws prepared =
     (case prepared_by_result_key prepared [] of Inl e \<Rightarrow> Inl e | Inr by_key \<Rightarrow> adapt_all by_key 0 raws)"

text \<open>The Rust builder, when it is installed: it answers with raw operations or raises.\<close>

type_synonym rust_engine = "(prepared_vm list \<Rightarrow> pyobj list \<Rightarrow> vm_flags \<Rightarrow> py_exc + pyobj list) option"

definition build_vm_operation_queue_with_rust ::
  "rust_engine \<Rightarrow> vm_flags \<Rightarrow> prepared_vm list \<Rightarrow> pyobj list \<Rightarrow> py_exc + vm_operation list" where
  "build_vm_operation_queue_with_rust rust flags prepared snapshot =
     (case rust of
        None \<Rightarrow> Inl (OtherError ''proxbox-reconcile-rs is not installed'')
      | Some build \<Rightarrow>
          (case build prepared snapshot flags of Inl e \<Rightarrow> Inl e | Inr raws \<Rightarrow> adapt_to_dataclasses raws prepared))"

datatype engine = Engine_python | Engine_compare | Engine_rust

definition reconciliation_engine :: "runtime \<Rightarrow> py_exc + engine" where
  "reconciliation_engine rt =
     (let e = py_lower (get_plugin_str rt ''reconciliation_engine'' ''python'')
      in if e = ''python'' then Inr Engine_python else if e = ''compare'' then Inr Engine_compare
         else if e = ''rust'' then Inr Engine_rust
         else Inl (OtherError (''Invalid ProxboxPluginSettings.reconciliation_engine='' @ str_repr e @
                ''; expected one of: compare, python, rust'')))"

definition reconciliation_compare_strict :: "runtime \<Rightarrow> bool" where
  "reconciliation_compare_strict rt = get_plugin_bool rt ''reconciliation_compare_strict'' False"

fun normalize_value :: "pyval \<Rightarrow> pyval" where
  "normalize_value (PDict d) = PDict (sort_key fst (map (\<lambda>(k, v). (k, normalize_value v)) d))"
| "normalize_value (PList xs) = PList (map normalize_value xs)"
| "normalize_value v = v"

definition normalize_op :: "vm_operation \<Rightarrow> op_method \<times> (py_exc + result_key) \<times> pyval \<times> pyval \<times> pyval" where
  "normalize_op op =
     (op_method op, prepared_vm_result_key (op_prepared op),
      (case op_existing op of None \<Rightarrow> PNone | Some r \<Rightarrow> normalize_value (PDict r)),
      normalize_value (PDict (op_patch op)), normalize_value (PDict (pv_desired (op_prepared op))))"

definition same_op :: "vm_operation \<Rightarrow> vm_operation \<Rightarrow> bool" where
  "same_op a b =
     (case (normalize_op a, normalize_op b) of
        ((m, k, e, p, d), (m', k', e', p', d')) \<Rightarrow> m = m' \<and> k = k' \<and> py_eq e e' \<and> py_eq p p' \<and> py_eq d d')"

text \<open>
  The entry point. The second component is the count of mismatches, a module-level counter. The diff
  text of a strict mismatch is not modelled.
\<close>

definition build_vm_operation_queue ::
  "(pyval \<Rightarrow> int option) \<Rightarrow> rust_engine \<Rightarrow> runtime \<Rightarrow> vm_flags \<Rightarrow> prepared_vm list \<Rightarrow> pyobj list \<Rightarrow> nat \<Rightarrow>
     (py_exc + vm_operation list) \<times> nat" where
  "build_vm_operation_queue lax_int rust rt flags prepared snapshot mismatches =
     (case reconciliation_engine rt of
        Inl e \<Rightarrow> (Inl e, mismatches)
      | Inr Engine_rust \<Rightarrow> (build_vm_operation_queue_with_rust rust flags prepared snapshot, mismatches)
      | Inr eng \<Rightarrow>
          (case build_vm_operation_queue_python lax_int flags prepared snapshot of
             Inl e \<Rightarrow> (Inl e, mismatches)
           | Inr py_ops \<Rightarrow>
               if eng = Engine_python \<or> rust = None then (Inr py_ops, mismatches)
               else (case build_vm_operation_queue_with_rust rust flags prepared snapshot of
                       Inl e \<Rightarrow>
                         (if reconciliation_compare_strict rt then Inl (OtherError ''Rust reconciliation failed in compare mode'')
                          else Inr py_ops, mismatches + 1)
                     | Inr rust_ops \<Rightarrow>
                         if list_all2 same_op py_ops rust_ops then (Inr py_ops, mismatches)
                         else (if reconciliation_compare_strict rt then Inl (OtherError ''Rust/Python reconciliation mismatch'')
                               else Inr py_ops, mismatches + 1))))"


subsection \<open>The indexes find what a scan of the snapshot finds\<close>

text \<open>Reference: scan the snapshot for the records of a scope and VMID.\<close>

definition scan_scope ::
  "(pyobj \<Rightarrow> (int \<times> int) option) \<Rightarrow> string option \<Rightarrow> int \<times> int \<Rightarrow> pyobj list \<Rightarrow> pyobj option" where
  "scan_scope scope_of vm_type key snapshot =
     (let same = filter (\<lambda>r. scope_of r = Some key) snapshot;
          only = (\<lambda>ok. case same of [c] \<Rightarrow> if ok c then Some c else None | _ \<Rightarrow> None)
      in case vm_type of
           None \<Rightarrow> only (\<lambda>c. True)
         | Some t \<Rightarrow>
             (case List.find (\<lambda>r. record_vm_type r = Some t) same of
                Some r \<Rightarrow> Some r
              | None \<Rightarrow> only (\<lambda>c. record_vm_type c = None)))"

definition scan_existing_vm :: "pyobj list \<Rightarrow> prepared_vm \<Rightarrow> pyobj option" where
  "scan_existing_vm snapshot p =
     (let vm_type = normalize_proxmox_vm_type (PStr (pv_vm_type p))
      in case (relation_id (obj_get (pv_resource p) ''vmid''), extract_proxmox_endpoint_id (pv_desired p),
               relation_id (obj_get (pv_desired p) ''cluster'')) of
           (Some vmid, Some e, _) \<Rightarrow> scan_scope extract_endpoint_and_proxmox_vmid vm_type (e, vmid) snapshot
         | (Some vmid, None, Some c) \<Rightarrow> scan_scope extract_cluster_and_proxmox_vmid vm_type (c, vmid) snapshot
         | _ \<Rightarrow> None)"

text \<open>The keys of the typed indexes.\<close>

definition typed_key :: "(pyobj \<Rightarrow> (int \<times> int) option) \<Rightarrow> pyobj \<Rightarrow> (int \<times> int \<times> string) option" where
  "typed_key scope_of r =
     (case (scope_of r, record_vm_type r) of (Some k, Some t) \<Rightarrow> Some (fst k, snd k, t) | _ \<Rightarrow> None)"

interpretation by_endpoint: grouping_index "\<lambda>r. add_untyped (extract_endpoint_and_proxmox_vmid r) r" extract_endpoint_and_proxmox_vmid "\<lambda>r. r"
  by unfold_locales (simp add: add_untyped_def)

interpretation by_cluster: grouping_index "\<lambda>r. add_untyped (extract_cluster_and_proxmox_vmid r) r" extract_cluster_and_proxmox_vmid "\<lambda>r. r"
  by unfold_locales (simp add: add_untyped_def)

interpretation typed_by_endpoint: first_index "\<lambda>r. add_typed (extract_endpoint_and_proxmox_vmid r) (record_vm_type r) r"
  "typed_key extract_endpoint_and_proxmox_vmid"
  by unfold_locales (simp add: add_typed_def typed_key_def split: option.splits)

interpretation typed_by_cluster: first_index "\<lambda>r. add_typed (extract_cluster_and_proxmox_vmid r) (record_vm_type r) r"
  "typed_key extract_cluster_and_proxmox_vmid"
  by unfold_locales (simp add: add_typed_def typed_key_def split: option.splits)

lemma typed_key_iff: "typed_key scope_of r = Some (a, b, t) \<longleftrightarrow> scope_of r = Some (a, b) \<and> record_vm_type r = Some t"
  by (auto simp: typed_key_def split: option.splits)

lemma fold_index_fields:
  "fold index_record rs ix =
     \<lparr>endpoint_typed = fold (\<lambda>r. add_typed (extract_endpoint_and_proxmox_vmid r) (record_vm_type r) r) rs (endpoint_typed ix),
      endpoint_untyped = fold (\<lambda>r. add_untyped (extract_endpoint_and_proxmox_vmid r) r) rs (endpoint_untyped ix),
      cluster_typed = fold (\<lambda>r. add_typed (extract_cluster_and_proxmox_vmid r) (record_vm_type r) r) rs (cluster_typed ix),
      cluster_untyped = fold (\<lambda>r. add_untyped (extract_cluster_and_proxmox_vmid r) r) rs (cluster_untyped ix)\<rparr>"
  by (induct rs arbitrary: ix) (simp_all add: index_record_def Let_def)

lemma select_in_scope_scan:
  assumes "map_of typed = (\<lambda>k. List.find (\<lambda>r. typed_key scope_of r = Some k) rs)"
    and "map_of untyped = (\<lambda>k. let xs = filter (\<lambda>r. scope_of r = Some k) rs in if xs = [] then None else Some xs)"
  shows "select_in_scope vm_type scope vmid typed untyped = scan_scope scope_of vm_type (scope, vmid) rs"
  by (simp add: select_in_scope_def scan_scope_def assms Let_def typed_key_iff find_filter [symmetric] split: option.splits list.splits)

lemma index_lookups:
  "map_of (endpoint_typed (build_vm_snapshot_identity_indexes rs)) = (\<lambda>k. List.find (\<lambda>r. typed_key extract_endpoint_and_proxmox_vmid r = Some k) rs)"
  "map_of (endpoint_untyped (build_vm_snapshot_identity_indexes rs)) =
     (\<lambda>k. let xs = filter (\<lambda>r. extract_endpoint_and_proxmox_vmid r = Some k) rs in if xs = [] then None else Some xs)"
  "map_of (cluster_typed (build_vm_snapshot_identity_indexes rs)) = (\<lambda>k. List.find (\<lambda>r. typed_key extract_cluster_and_proxmox_vmid r = Some k) rs)"
  "map_of (cluster_untyped (build_vm_snapshot_identity_indexes rs)) =
     (\<lambda>k. let xs = filter (\<lambda>r. extract_cluster_and_proxmox_vmid r = Some k) rs in if xs = [] then None else Some xs)"
  by (simp_all add: fun_eq_iff build_vm_snapshot_identity_indexes_def fold_index_fields by_endpoint.lookup by_cluster.lookup
      typed_by_endpoint.lookup typed_by_cluster.lookup)

lemma existing_for_scan: "existing_for (build_vm_snapshot_identity_indexes snapshot) p = scan_existing_vm snapshot p"
  by (simp add: existing_for_def scan_existing_vm_def select_existing_vm_record_def
      select_in_scope_scan [OF index_lookups(1,2)] select_in_scope_scan [OF index_lookups(3,4)] Let_def split: option.splits)

lemma scan_scope_sound:
  assumes "scan_scope scope_of vm_type key snapshot = Some r"
  shows "r \<in> set snapshot \<and> scope_of r = Some key \<and> (vm_type = None \<or> record_vm_type r = None \<or> record_vm_type r = vm_type)"
proof -
  define same where "same = filter (\<lambda>r. scope_of r = Some key) snapshot"
  have "r \<in> set same \<and> (vm_type = None \<or> record_vm_type r = None \<or> record_vm_type r = vm_type)"
    using assms unfolding scan_scope_def Let_def same_def [symmetric]
    by (auto dest!: find_in split: option.splits list.splits if_splits)
  then show ?thesis by (auto simp: same_def)
qed

text \<open>
  The record the queue finds through its four indexes for a prepared machine is the record that a
  scan of the snapshot finds: with an endpoint only records of that endpoint are considered, else
  those of the cluster; the first of the same type, or a single candidate whose type is not known.
  So a match has the VMID of the machine and never another type.
\<close>

theorem existing_record_by_scan:
  "existing_for (build_vm_snapshot_identity_indexes snapshot) p = scan_existing_vm snapshot p \<and>
   (case scan_existing_vm snapshot p of
      None \<Rightarrow> True
    | Some r \<Rightarrow>
        r \<in> set snapshot \<and> custom_field_vmid r = relation_id (obj_get (pv_resource p) ''vmid'') \<and>
        (normalize_proxmox_vm_type (PStr (pv_vm_type p)) = None \<or> record_vm_type r = None \<or>
         record_vm_type r = normalize_proxmox_vm_type (PStr (pv_vm_type p))))"
proof
  show "existing_for (build_vm_snapshot_identity_indexes snapshot) p = scan_existing_vm snapshot p" by (rule existing_for_scan)
  show "case scan_existing_vm snapshot p of None \<Rightarrow> True
    | Some r \<Rightarrow> r \<in> set snapshot \<and> custom_field_vmid r = relation_id (obj_get (pv_resource p) ''vmid'') \<and>
        (normalize_proxmox_vm_type (PStr (pv_vm_type p)) = None \<or> record_vm_type r = None \<or>
         record_vm_type r = normalize_proxmox_vm_type (PStr (pv_vm_type p)))"
    by (auto simp: scan_existing_vm_def Let_def extract_endpoint_and_proxmox_vmid_def extract_cluster_and_proxmox_vmid_def
        dest!: scan_scope_sound split: option.splits)
qed


subsection \<open>What the queue asks NetBox to change\<close>

lemma drop_nulls_wf [simp]: "dict_wf d \<Longrightarrow> dict_wf (drop_nulls d)"
  by (simp add: drop_nulls_def)

lemma body_dump_wf: "dict_wf (body_dump name d cluster device site vm_type role tags cf description)"
  by (simp add: body_dump_def dict_wf_def)

lemma vm_create_body_cases:
  assumes "vm_create_body lax_int d = Inr body"
  shows "\<exists>name cluster device site vm_type role tags cf description.
    body = drop_nulls (body_dump name d cluster device site vm_type role tags cf description) \<and>
    normalize_tags (obj_get d ''tags'') = Some tags"
  using assms by (auto simp: vm_create_body_def split: if_splits pyval.splits sum.splits option.splits) (intro exI, rule refl)+

lemma vm_create_body_wf: "vm_create_body lax_int d = Inr body \<Longrightarrow> dict_wf body"
  using vm_create_body_cases [of lax_int d body] body_dump_wf by auto

lemma desired_body_wf: "desired_body lax_int flags d = Inr body \<Longrightarrow> dict_wf body"
  by (auto simp: desired_body_def pop_when_def dest: vm_create_body_wf split: sum.splits)

text \<open>The fields an operator's setting protects in a record that has a value for them.\<close>

definition protected :: "vm_flags \<Rightarrow> pyobj \<Rightarrow> string \<Rightarrow> bool" where
  "protected flags r f \<longleftrightarrow>
     f = ''role'' \<and> \<not> overwrite_vm_role flags \<and> relation_id (obj_get r ''role'') \<noteq> None \<or>
     f = ''virtual_machine_type'' \<and> \<not> overwrite_vm_type flags \<and> relation_id (obj_get r ''virtual_machine_type'') \<noteq> None \<or>
     f = ''description'' \<and> \<not> overwrite_vm_description flags \<and> (case obj_get r ''description'' of PStr t \<Rightarrow> t \<noteq> [] | _ \<Rightarrow> False) \<or>
     f = ''custom_fields'' \<and> \<not> overwrite_vm_custom_fields flags \<and> (case obj_get r ''custom_fields'' of PDict cf \<Rightarrow> cf \<noteq> [] | _ \<Rightarrow> False) \<or>
     f = ''tags'' \<and> \<not> overwrite_vm_tags flags \<and> (case obj_get r ''tags'' of PList ts \<Rightarrow> ts \<noteq> [] | _ \<Rightarrow> False)"

lemma map_of_pop_when: "map_of (pop_when c f d) k = (if c \<and> k = f then None else map_of d k)"
  by (simp add: pop_when_def)

lemma map_of_diff:
  "dict_wf desired \<Longrightarrow> map_of (diff_payload desired current) f =
     (case map_of desired f of Some v \<Rightarrow> if py_eq (obj_get current f) v then None else Some v | None \<Rightarrow> None)"
  unfolding diff_payload_def by (subst map_of_filter_wf) (auto split: option.splits)

lemma map_of_merge_tags_other:
  "f \<noteq> ''tags'' \<Longrightarrow> map_of (merge_tags flags r desired current patch) f = map_of patch f"
  by (auto simp: merge_tags_def map_of_pop_when Let_def)

lemma map_of_vm_patch:
  assumes "dict_wf desired" "f \<noteq> ''tags''"
  shows "map_of (vm_patch flags r desired current) f =
    (case map_of desired f of
       Some v \<Rightarrow> if protected flags r f \<or> py_eq (obj_get current f) v then None else Some v | None \<Rightarrow> None)"
  using assms by (auto simp: vm_patch_def map_of_merge_tags_other map_of_pop_when map_of_diff protected_def split: option.splits)

lemma int_items_PInt [simp]: "int_items (PList (map PInt ts)) = ts"
  by (induct ts) (auto simp: int_items_def map_filter_simps)

lemma obj_get_tags_body:
  assumes "vm_create_body lax_int d = Inr body"
  shows "\<exists>tags. obj_get body ''tags'' = PList (map PInt tags) \<and> normalize_tags (obj_get d ''tags'') = Some tags"
proof -
  obtain name cluster device site vm_type role tags cf description where
    b: "body = drop_nulls (body_dump name d cluster device site vm_type role tags cf description)"
    "normalize_tags (obj_get d ''tags'') = Some tags"
    using vm_create_body_cases [OF assms] by blast
  have "obj_get body ''tags'' = PList (map PInt tags)"
    unfolding b(1) by (subst obj_get_drop_nulls [OF body_dump_wf]) (simp add: body_dump_def obj_get_def)
  with b(2) show ?thesis by blast
qed

lemma desired_tags:
  assumes "desired_body lax_int flags d = Inr desired"
  shows "\<exists>tags. obj_get desired ''tags'' = PList (map PInt tags)"
  using assms obj_get_tags_body [of lax_int d]
  by (auto simp: desired_body_def obj_get_def map_of_pop_when split: sum.splits)

text \<open>The tags of a record as NetBox sends them: a list, or nothing.\<close>

definition tags_listed :: "pyobj \<Rightarrow> bool" where
  "tags_listed r = (case obj_get r ''tags'' of PList _ \<Rightarrow> True | PNone \<Rightarrow> True | _ \<Rightarrow> False)"

lemma current_tags:
  assumes "current_body lax_int flags r = Inr current"
  shows "\<exists>tags. obj_get current ''tags'' = PList (map PInt tags) \<and> normalize_tags (obj_get r ''tags'') = Some tags"
proof -
  have "obj_get (normalize_current_vm_payload b r) ''tags'' = obj_get r ''tags''" for b
    by (simp add: normalize_current_vm_payload_def obj_get_def)
  then show ?thesis using obj_get_tags_body assms by (fastforce simp: current_body_def)
qed

lemma vm_patch_tags:
  assumes desired: "desired_body lax_int flags d = Inr desired" and current: "current_body lax_int flags r = Inr current"
    and listed: "tags_listed r" and patch: "map_of (vm_patch flags r desired current) ''tags'' = Some v"
  shows "\<exists>us. v = PList (map PInt us) \<and> set (int_items (obj_get current ''tags'')) \<union> set (int_items (obj_get desired ''tags'')) \<subseteq> set us"
proof -
  obtain new old where new: "obj_get desired ''tags'' = PList (map PInt new)" and old: "obj_get current ''tags'' = PList (map PInt old)"
    "normalize_tags (obj_get r ''tags'') = Some old"
    using desired_tags [OF desired] current_tags [OF current] by blast
  let ?p = "pop_when (\<not> overwrite_vm_custom_fields flags \<and> (case obj_get r ''custom_fields'' of PDict cf \<Rightarrow> cf \<noteq> [] | _ \<Rightarrow> False))
         ''custom_fields''
         (pop_when (\<not> overwrite_vm_description flags \<and> (case obj_get r ''description'' of PStr t \<Rightarrow> t \<noteq> [] | _ \<Rightarrow> False))
           ''description''
           (pop_when (\<not> overwrite_vm_type flags \<and> relation_id (obj_get r ''virtual_machine_type'') \<noteq> None)
             ''virtual_machine_type''
             (pop_when (\<not> overwrite_vm_role flags \<and> relation_id (obj_get r ''role'') \<noteq> None)
               ''role'' (diff_payload desired current))))"
  have p: "map_of ?p ''tags'' = Some w \<Longrightarrow> w = PList (map PInt new)" for w
    using new desired_body_wf [OF desired] by (auto simp: map_of_pop_when map_of_diff obj_get_def split: option.splits if_splits)
  show ?thesis
  proof (cases "overwrite_vm_tags flags")
    case True
    then show ?thesis using patch p new old(1)
      by (auto simp: vm_patch_def merge_tags_def Let_def split: if_splits)
  next
    case False
    with patch p have v: "v = PList (map PInt new)" and e: "\<not> (case obj_get r ''tags'' of PList ts \<Rightarrow> ts \<noteq> [] | _ \<Rightarrow> False)"
      by (auto simp: vm_patch_def merge_tags_def map_of_pop_when split: if_splits)
    from e listed old(2) have "old = []"
      by (auto simp: tags_listed_def normalize_tags_def map_filter_simps split: pyval.splits list.splits)
    then have "int_items (obj_get current ''tags'') = []" using old(1) by (simp add: int_items_def map_filter_simps)
    with v new show ?thesis by (intro exI [of _ new]) simp
  qed
qed

definition sound_operation ::
  "(pyval \<Rightarrow> int option) \<Rightarrow> vm_flags \<Rightarrow> pyobj list \<Rightarrow> vm_operation \<Rightarrow> bool" where
  "sound_operation lax_int flags snapshot op \<longleftrightarrow>
     (case op_existing op of
        None \<Rightarrow> op_method op = CREATE \<and> op_patch op = [] \<and> scan_existing_vm snapshot (op_prepared op) = None
      | Some r \<Rightarrow>
          scan_existing_vm snapshot (op_prepared op) = Some r \<and> op_method op = (if op_patch op = [] then GET else UPDATE) \<and>
          (\<exists>desired current.
             desired_body lax_int flags (pv_desired (op_prepared op)) = Inr desired \<and> current_body lax_int flags r = Inr current \<and>
             (\<forall>f. f \<noteq> ''tags'' \<longrightarrow> map_of (op_patch op) f =
                (case map_of desired f of
                   Some v \<Rightarrow> if protected flags r f \<or> py_eq (obj_get current f) v then None else Some v | None \<Rightarrow> None)) \<and>
             (protected flags r ''tags'' \<longrightarrow> map_of (op_patch op) ''tags'' = None) \<and>
             (tags_listed r \<longrightarrow> (\<forall>v. map_of (op_patch op) ''tags'' = Some v \<longrightarrow>
                (\<exists>us. v = PList (map PInt us) \<and>
                   set (int_items (obj_get current ''tags'')) \<union> set (int_items (obj_get desired ''tags'')) \<subseteq> set us)))))"

lemma classify_sound:
  assumes "classify_vm lax_int flags (build_vm_snapshot_identity_indexes snapshot) p = Inr op"
  shows "op_prepared op = p \<and> sound_operation lax_int flags snapshot op"
proof (cases "scan_existing_vm snapshot p")
  case None
  with assms show ?thesis by (auto simp: classify_vm_def existing_for_scan sound_operation_def)
next
  case (Some r)
  with assms obtain desired current where d: "desired_body lax_int flags (pv_desired p) = Inr desired"
    and c: "current_body lax_int flags r = Inr current"
    and op: "op = (if vm_patch flags r desired current = [] then \<lparr>op_method = GET, op_prepared = p, op_existing = Some r, op_patch = []\<rparr>
      else \<lparr>op_method = UPDATE, op_prepared = p, op_existing = Some r, op_patch = vm_patch flags r desired current\<rparr>)"
    by (auto simp: classify_vm_def existing_for_scan Let_def split: sum.splits)
  have patch: "op_patch op = vm_patch flags r desired current" using op by simp
  have "map_of (op_patch op) ''tags'' = None" if "protected flags r ''tags''"
    using that unfolding patch by (auto simp: protected_def vm_patch_def merge_tags_def map_of_pop_when split: pyval.splits)
  moreover have "\<forall>f. f \<noteq> ''tags'' \<longrightarrow> map_of (op_patch op) f =
      (case map_of desired f of Some v \<Rightarrow> if protected flags r f \<or> py_eq (obj_get current f) v then None else Some v | None \<Rightarrow> None)"
    unfolding patch using map_of_vm_patch [OF desired_body_wf [OF d]] by blast
  moreover have "tags_listed r \<longrightarrow> (\<forall>v. map_of (op_patch op) ''tags'' = Some v \<longrightarrow>
      (\<exists>us. v = PList (map PInt us) \<and>
         set (int_items (obj_get current ''tags'')) \<union> set (int_items (obj_get desired ''tags'')) \<subseteq> set us))"
    unfolding patch using vm_patch_tags [OF d c] by blast
  ultimately have "\<exists>desired current.
     desired_body lax_int flags (pv_desired (op_prepared op)) = Inr desired \<and> current_body lax_int flags r = Inr current \<and>
     (\<forall>f. f \<noteq> ''tags'' \<longrightarrow> map_of (op_patch op) f =
        (case map_of desired f of
           Some v \<Rightarrow> if protected flags r f \<or> py_eq (obj_get current f) v then None else Some v | None \<Rightarrow> None)) \<and>
     (protected flags r ''tags'' \<longrightarrow> map_of (op_patch op) ''tags'' = None) \<and>
     (tags_listed r \<longrightarrow> (\<forall>v. map_of (op_patch op) ''tags'' = Some v \<longrightarrow>
        (\<exists>us. v = PList (map PInt us) \<and>
           set (int_items (obj_get current ''tags'')) \<union> set (int_items (obj_get desired ''tags'')) \<subseteq> set us)))"
    using d c op by (intro exI [of _ desired] exI [of _ current]) simp
  moreover have "op_existing op = Some r" "op_prepared op = p" "op_method op = (if op_patch op = [] then GET else UPDATE)"
    using op by auto
  ultimately show ?thesis unfolding sound_operation_def using Some by simp
qed


text \<open>A machine whose record lacks one tag and has another role, the role being protected.\<close>

definition demo_prepared :: prepared_vm where
  "demo_prepared =
     \<lparr>pv_cluster_name = ''lab'', pv_resource = [(''vmid'', PInt 100)],
      pv_desired = [(''name'', PStr ''a''), (''status'', PStr ''running''), (''cluster'', PInt 3), (''role'', PInt 5), (''tags'', PList [PInt 1]),
        (''custom_fields'', PDict [(''proxmox_vm_id'', PInt 100)])],
      pv_lookup = [], pv_vm_type = ''qemu''\<rparr>"

definition demo_snapshot :: "pyobj list" where
  "demo_snapshot =
     [[(''id'', PInt 7), (''name'', PStr ''a''), (''status'', PDict [(''value'', PStr ''active'')]), (''cluster'', PDict [(''id'', PInt 3)]),
       (''role'', PDict [(''id'', PInt 6)]), (''tags'', PList [PDict [(''id'', PInt 9)]]),
       (''custom_fields'', PDict [(''proxmox_vm_id'', PInt 100)])]]"

definition demo_flags :: vm_flags where
  "demo_flags =
     \<lparr>overwrite_vm_role = False, overwrite_vm_type = True, overwrite_vm_tags = True, overwrite_vm_description = True,
      overwrite_vm_custom_fields = True, supports_virtual_machine_type_field = True\<rparr>"

definition demo_update :: vm_operation where
  "demo_update =
     \<lparr>op_method = UPDATE, op_prepared = demo_prepared, op_existing = Some (hd demo_snapshot),
      op_patch = [(''tags'', PList [PInt 1, PInt 9])]\<rparr>"



subsection \<open>The engine does not matter\<close>

definition method_text :: "op_method \<Rightarrow> string" where
  "method_text m = (case m of GET \<Rightarrow> ''GET'' | CREATE \<Rightarrow> ''CREATE'' | UPDATE \<Rightarrow> ''UPDATE'')"

text \<open>The raw form of an operation, as the Rust engine encodes it.\<close>

definition raw_operation :: "vm_operation \<Rightarrow> pyobj" where
  "raw_operation op =
     (case prepared_vm_result_key (op_prepared op) of
        Inl e \<Rightarrow> []
      | Inr (cluster_name, vmid, vm_type) \<Rightarrow>
          [(''method'', PStr (method_text (op_method op))), (''cluster_name'', PStr cluster_name), (''vmid'', PInt vmid),
           (''vm_type'', PStr vm_type), (''existing_record'', (case op_existing op of None \<Rightarrow> PNone | Some r \<Rightarrow> PDict r)),
           (''patch_payload'', PDict (op_patch op))])"

lemma py_strip_bounds:
  assumes "py_strip t \<noteq> []"
  shows "\<not> py_space (hd (py_strip t))" "\<not> py_space (last (py_strip t))"
proof -
  let ?u = "dropWhile py_space t"
  have ne: "dropWhile py_space (rev ?u) \<noteq> []" using assms by (simp add: py_strip_def)
  then have "\<not> py_space (hd (dropWhile py_space (rev ?u)))" by (rule hd_dropWhile)
  then show "\<not> py_space (last (py_strip t))" by (simp add: py_strip_def last_rev)
  have u: "?u \<noteq> []" using ne by (metis dropWhile.simps(1) rev.simps(1))
  obtain p where p: "rev ?u = p @ dropWhile py_space (rev ?u)" by (metis takeWhile_dropWhile_id)
  then have "?u = rev (dropWhile py_space (rev ?u)) @ rev p" by (metis rev_append rev_rev_ident)
  then have "hd ?u = hd (py_strip t)" using ne unfolding py_strip_def by (metis hd_append2 rev_is_Nil_conv)
  then show "\<not> py_space (hd (py_strip t))" using hd_dropWhile [of py_space t] u by simp
qed

lemma py_space_lower [simp]: "py_space (lower_char c) = py_space c"
  by (auto simp: py_space_def lower_char_def Let_def)

lemma normal_type_text:
  assumes "t = py_lower (py_strip u)"
  shows "normalize_proxmox_vm_type (PStr t) = (if t = [] then None else Some t)"
proof (cases "t = []")
  case False
  with assms have ne: "py_strip u \<noteq> []" by auto
  have "py_strip t = t"
    using ne py_strip_bounds [OF ne] unfolding assms
    by (intro py_strip_ends) (simp_all add: py_lower_def hd_map last_map)
  moreover have "py_lower t = t" unfolding assms by (simp add: py_lower_def)
  ultimately show ?thesis using False by (simp add: normalize_proxmox_vm_type_def Let_def)
qed (simp add: normalize_proxmox_vm_type_def Let_def)

text \<open>Prepared machines with keys of their own and named clusters.\<close>

definition keyed :: "prepared_vm list \<Rightarrow> bool" where
  "keyed ps \<longleftrightarrow>
     (\<forall>p \<in> set ps. pv_cluster_name p \<noteq> [] \<and> (\<exists>k. prepared_vm_result_key p = Inr k)) \<and>
     distinct (map prepared_vm_result_key ps)"

lemma raw_key:
  assumes "prepared_vm_result_key (op_prepared op) = Inr k" "pv_cluster_name (op_prepared op) \<noteq> []"
  shows "raw_operation_result_key (raw_operation op) n = Inr k"
proof -
  obtain vmid where k: "k = (pv_cluster_name (op_prepared op), vmid,
      case normalize_proxmox_vm_type (PStr (pv_vm_type (op_prepared op))) of None \<Rightarrow> [] | Some t \<Rightarrow> t)"
    using assms(1) by (auto simp: prepared_vm_result_key_def split: option.splits)
  define t where "t = (case normalize_proxmox_vm_type (PStr (pv_vm_type (op_prepared op))) of None \<Rightarrow> [] | Some t \<Rightarrow> t)"
  have "t = py_lower (py_strip (pv_vm_type (op_prepared op)))"
    by (auto simp: t_def normalize_proxmox_vm_type_def Let_def)
  from normal_type_text [OF this] have "(case normalize_proxmox_vm_type (PStr t) of None \<Rightarrow> [] | Some t \<Rightarrow> t) = t" by simp
  with assms k show ?thesis
    by (simp add: raw_operation_result_key_def raw_operation_def obj_get_def flip: t_def)
qed

lemma adapt_raw:
  assumes "map_of by_key k = Some (op_prepared op)" "prepared_vm_result_key (op_prepared op) = Inr k"
    and "pv_cluster_name (op_prepared op) \<noteq> []"
  shows "adapt_one by_key n (raw_operation op) = Inr op"
proof -
  obtain c v t where k: "k = (c, v, t)" by (cases k)
  have raw: "raw_operation op = [(''method'', PStr (method_text (op_method op))), (''cluster_name'', PStr c), (''vmid'', PInt v),
      (''vm_type'', PStr t), (''existing_record'', (case op_existing op of None \<Rightarrow> PNone | Some r \<Rightarrow> PDict r)),
      (''patch_payload'', PDict (op_patch op))]"
    using assms(2) k by (simp add: raw_operation_def)
  have m: "raw_method (PStr (method_text (op_method op))) = Some (op_method op)"
    by (cases "op_method op") (simp_all add: raw_method_def method_text_def)
  have p: "py_or (PDict (op_patch op)) (PDict []) = PDict (op_patch op)" by (simp add: py_or_def)
  have g: "obj_get (raw_operation op) ''method'' = PStr (method_text (op_method op))"
    "obj_get (raw_operation op) ''existing_record'' = (case op_existing op of None \<Rightarrow> PNone | Some r \<Rightarrow> PDict r)"
    "obj_get (raw_operation op) ''patch_payload'' = PDict (op_patch op)"
    by (simp_all add: raw obj_get_def)
  show ?thesis
    unfolding adapt_one_def raw_key [OF assms(2,3)] g p
    using assms(1) m by (cases "op_existing op") simp_all
qed

lemma by_key_finds:
  "(\<forall>p \<in> set ps. \<exists>k. prepared_vm_result_key p = Inr k) \<Longrightarrow> distinct (map prepared_vm_result_key ps) \<Longrightarrow>
   (\<forall>k \<in> set (map fst d). Inr k \<notin> set (map prepared_vm_result_key ps)) \<Longrightarrow>
     \<exists>by_key. prepared_by_result_key ps d = Inr by_key \<and> (\<forall>k p. map_of d k = Some p \<longrightarrow> map_of by_key k = Some p) \<and>
       (\<forall>p \<in> set ps. \<forall>k. prepared_vm_result_key p = Inr k \<longrightarrow> map_of by_key k = Some p)"
proof (induct ps arbitrary: d)
  case (Cons p ps)
  then obtain k where k: "prepared_vm_result_key p = Inr k" by auto
  then have fresh: "map_of d k = None" using Cons.prems(3) by (auto simp: map_of_eq_None_iff)
  have "set (map fst (dict_set k p d)) \<subseteq> insert k (set (map fst d))" by (induct d) auto
  then have "\<forall>k' \<in> set (map fst (dict_set k p d)). Inr k' \<notin> set (map prepared_vm_result_key ps)"
    using Cons.prems(2,3) k by (auto simp del: set_map)
  from Cons.hyps [OF _ _ this] Cons.prems(1,2) obtain by_key where b: "prepared_by_result_key ps (dict_set k p d) = Inr by_key"
    "\<forall>k' q. map_of (dict_set k p d) k' = Some q \<longrightarrow> map_of by_key k' = Some q"
    "\<forall>q \<in> set ps. \<forall>k'. prepared_vm_result_key q = Inr k' \<longrightarrow> map_of by_key k' = Some q" by auto
  have "map_of by_key k = Some p" using b(2) [rule_format, of k p] by simp
  moreover have "map_of by_key k' = Some q" if "map_of d k' = Some q" for k' q
    using b(2) [rule_format, of k' q] that fresh by (cases "k' = k") auto
  ultimately show ?case using b k fresh by auto
qed auto

lemma adapt_all_raw:
  assumes "\<And>op. op \<in> set ops \<Longrightarrow> op_prepared op \<in> set ps" "keyed ps"
    and "\<forall>p \<in> set ps. \<forall>k. prepared_vm_result_key p = Inr k \<longrightarrow> map_of by_key k = Some p"
  shows "adapt_all by_key n (map raw_operation ops) = Inr ops"
  using assms(1)
proof (induct ops arbitrary: n)
  case (Cons op ops)
  from Cons.prems assms(2,3) obtain k where "prepared_vm_result_key (op_prepared op) = Inr k" "map_of by_key k = Some (op_prepared op)"
    "pv_cluster_name (op_prepared op) \<noteq> []" by (fastforce simp: keyed_def)
  with adapt_raw [of by_key k op n] Cons show ?case by simp
qed simp

lemma adapt_round_trip:
  assumes "keyed prepared" "set (map op_prepared ops) \<subseteq> set prepared"
  shows "adapt_to_dataclasses (map raw_operation ops) prepared = Inr ops"
proof -
  obtain by_key where "prepared_by_result_key prepared [] = Inr by_key"
    "\<forall>p \<in> set prepared. \<forall>k. prepared_vm_result_key p = Inr k \<longrightarrow> map_of by_key k = Some p"
    using by_key_finds [of prepared "[]"] assms(1) by (auto simp: keyed_def)
  with adapt_all_raw [of ops prepared by_key 0] assms show ?thesis by (auto simp: adapt_to_dataclasses_def)
qed


definition demo_runtime :: "string \<Rightarrow> runtime" where
  "demo_runtime eng = \<lparr>environ = [], settings = Some [(''reconciliation_engine'', PStr eng)]\<rparr>"


end
