(* ===== verification/Env_Relation.thy ===== *)
theory Env_Relation
  imports Sidecar_State "HOL-Library.Sublist"
begin

text \<open>
  How the world outside moves while an operation of the REST client runs: only by requests and by
  sleeping. A reflexive and transitive relation that both respect therefore relates the world before and
  after every operation. The clients of the relation are proved once in the locale; growing
  logs interpret it here, and clocks that do not run backwards where time matters.
\<close>

definition moves :: "('w \<Rightarrow> 'w \<Rightarrow> bool) \<Rightarrow> ('w, 'a) rest_op \<Rightarrow> bool" where
  "moves R body = (\<forall>s. R (srv s) (srv (snd (body s))))"

lemma movesD: "moves R body \<Longrightarrow> body s = (r, s') \<Longrightarrow> R (srv s) (srv s')"
  unfolding moves_def by (metis snd_conv)

definition sync_moves :: "('w \<Rightarrow> 'w \<Rightarrow> bool) \<Rightarrow> 'w syncst \<Rightarrow> 'w syncst \<Rightarrow> bool" where
  "sync_moves R s s' = R (srv (net s)) (srv (net s'))"

locale env_relation =
  fixes E :: "'w netenv"
    and R :: "'w \<Rightarrow> 'w \<Rightarrow> bool"
  assumes rel_refl: "R w w"
    and rel_trans: "R u v \<Longrightarrow> R v w \<Longrightarrow> R u w"
    and rel_request: "R w (snd (request E rq w))"
    and rel_sleep: "R w (sleep E d w)"
begin

lemma send_moves: "moves R (send E rq)"
  using rel_request by (auto simp: moves_def send_def split: prod.splits) (metis snd_conv)

lemma call_moves: "moves R (call E operation rq)"
  using send_moves [of rq] by (auto simp: moves_def call_def send_wrapped_def split: prod.splits sum.splits) (metis snd_conv)+

lemma back_off_moves: "R (srv s) (srv (back_off E n e s))"
  by (simp add: back_off_def sleep_for_def rel_sleep)

lemma retry_from_moves: "moves R body \<Longrightarrow> moves R (retry_from E safe body a n)"
proof (induct n arbitrary: a)
  case 0
  then show ?case by (simp add: moves_def)
next
  case (Suc n)
  show ?case
    unfolding moves_def
  proof
    fix s
    obtain r s' where b: "body s = (r, s')" by force
    with Suc.prems have m: "R (srv s) (srv s')" by (rule movesD)
    show "R (srv s) (srv (snd (retry_from E safe body a (Suc n) s)))"
    proof (cases r)
      case (Inl e)
      have "R (srv s') (srv (snd (retry_from E safe body (a + 1) n (back_off E a e s'))))"
        using back_off_moves Suc.hyps [OF Suc.prems] unfolding moves_def by (blast intro: rel_trans)
      with b m Inl show ?thesis by (auto intro: rel_trans)
    qed (use b m in simp)
  qed
qed

lemma with_retry_moves: "moves R body \<Longrightarrow> moves R (with_retry E safe body)"
  using retry_from_moves [of body safe 0 "max_retries E"] by (simp add: moves_def with_retry_def)

lemma page_request_moves: "moves R (page_request E path pp q)"
  using call_moves by (auto simp: moves_def page_request_def split: prod.splits sum.splits) (metis snd_conv)+

lemma fetch_page_moves: "moves R (fetch_page E path pp q)"
  using with_retry_moves [OF page_request_moves] by (auto simp: moves_def fetch_page_def)

lemma traverse_moves_from: "E' = E \<Longrightarrow> R (srv s) (srv (snd (traverse E' c t s)))"
proof (induct E' c t s rule: traverse.induct)
  case (1 E' c t s)
  obtain r s' where f: "fetch_page E (lc_path c) (lc_normalized c) (tr_query t) s = (r, s')" by force
  with fetch_page_moves have m: "R (srv s) (srv s')" by (rule movesD)
  show ?case
  proof (cases "hard_max_pages \<le> tr_pages t \<or> (\<exists>e. r = Inl e)")
    case True
    then show ?thesis using "1.prems" f m by (subst traverse.simps) (auto simp: rel_refl)
  next
    case False
    then obtain p where p: "r = Inr p" "\<not> hard_max_pages \<le> tr_pages t" by (cases r) auto
    with "1.hyps" f "1.prems" have "list_step_of c t p = NextPage t' \<Longrightarrow> R (srv s') (srv (snd (traverse E c t' s')))" for t'
      by force
    with p f m "1.prems" show ?thesis
      by (subst traverse.simps) (auto split: list_step.splits intro: rel_trans)
  qed
qed

lemmas traverse_moves = traverse_moves_from [OF refl]

lemma rest_list_traverse_moves: "moves R (rest_list_traverse E path query mr mo)"
  unfolding moves_def
proof
  fix s
  show "R (srv s) (srv (snd (rest_list_traverse E path query mr mo s)))"
    by (auto simp: rest_list_traverse_def list_uncached_def rel_refl split: prod.splits sum.splits option.splits)
      (metis rst.select_convs(1) rst.surjective rst.update_convs(2) snd_conv traverse_moves)+
qed

lemma rest_list_moves: "moves R (rest_list E path q)"
  using rest_list_traverse_moves by (auto simp: moves_def rest_list_def)

lemma rest_first_moves: "moves R (rest_first E path q)"
  using rest_list_moves by (auto simp: moves_def rest_first_def split: prod.splits sum.splits list.splits) (metis snd_conv)+

lemma rest_list_paginated_moves: "moves R (rest_list_paginated E path q n mo)"
  using rest_list_traverse_moves
  by (auto simp: moves_def rest_list_paginated_def Let_def rel_refl split: sum.splits)

lemma create_request_moves: "moves R (create_request E path payload)"
  using call_moves by (auto simp: moves_def create_request_def split: prod.splits sum.splits pyval.splits) (metis snd_conv)+

lemma rest_create_moves: "moves R (rest_create E path payload None)"
  using retry_from_moves [OF create_request_moves] by (auto simp: moves_def rest_create_def create_no_lookup)

lemma patch_request_moves: "moves R (patch_request E path i payload)"
  using call_moves by (auto simp: moves_def patch_request_def Let_def split: prod.splits sum.splits) (metis snd_conv)+

lemma rest_patch_moves: "moves R (rest_patch E path i payload)"
  using with_retry_moves [OF patch_request_moves] by (auto simp: moves_def rest_patch_def)

text \<open>Operations on the synchronization state.\<close>

lemma on_net_moves: "moves R body \<Longrightarrow> on_net body s = (r, s') \<Longrightarrow> sync_moves R s s'"
  by (auto simp: on_net_def sync_moves_def split: prod.splits dest: movesD)

lemma sync_refl [simp]: "sync_moves R s s"
  by (simp add: sync_moves_def rel_refl)

lemma sync_trans [trans]: "sync_moves R s s' \<Longrightarrow> sync_moves R s' s'' \<Longrightarrow> sync_moves R s s''"
  unfolding sync_moves_def by (rule rel_trans)

lemma sync_memoize [simp]: "sync_moves R s (memoize_sidecar_failure p e s') = sync_moves R s s'"
  by (simp add: sync_moves_def memoize_sidecar_failure_def)

lemma fetch_vm_moves: "fetch_vm_by_id E i s = (r, s') \<Longrightarrow> sync_moves R s s'"
  by (auto simp: fetch_vm_by_id_def dest: on_net_moves [OF rest_first_moves] split: prod.splits sum.splits)

lemma read_sidecars_moves: "moves R (read_sidecars E q n)"
  using rest_list_moves rest_list_paginated_moves by (auto simp: moves_def read_sidecars_def split: option.splits)

lemma scan_sidecars_moves: "scan_sidecars E q n s = (r, s') \<Longrightarrow> sync_moves R s s'"
  by (auto simp: scan_sidecars_def dest: on_net_moves [OF read_sidecars_moves] split: if_splits prod.splits sum.splits)

lemma sidecar_candidates_moves: "sidecar_candidates E e c rows s = (r, s') \<Longrightarrow> sync_moves R s s'"
proof (induct rows arbitrary: e c s r s')
  case (Cons row rows)
  show ?case
  proof (cases "c = None")
    case True
    with Cons.prems show ?thesis
      by (auto simp: Let_def split: if_splits option.splits prod.splits dest!: Cons.hyps)
  next
    case False
    then obtain cl where c: "c = Some cl" by blast
    obtain f s1 where f: "fetch_vm_by_id E (the (record_id (obj_get (rec_data row) ''virtual_machine''))) s = (f, s1)" by force
    note m = fetch_vm_moves [OF f]
    obtain r2 s2 where k: "sidecar_candidates E e c rows s1 = (r2, s2)" by fastforce
    have t: "sync_moves R s s2" by (rule sync_trans [OF m Cons.hyps [OF k]])
    from Cons.prems c f k t show ?thesis
      by (auto simp: Let_def split: if_splits option.splits prod.splits dest: Cons.hyps)
  qed
qed simp

lemma list_sidecar_candidates_moves:
  "list_sidecar_vm_identity_candidates E i e c s = (r, s') \<Longrightarrow> sync_moves R s s'"
  by (auto simp: list_sidecar_vm_identity_candidates_def dest!: scan_sidecars_moves sidecar_candidates_moves
      intro: sync_trans split: prod.splits option.splits)

lemma custom_field_candidates_moves:
  "list_custom_field_vm_identity_candidates E i e c f s = (r, s') \<Longrightarrow> sync_moves R s s'"
  by (auto simp: list_custom_field_vm_identity_candidates_def dest!: on_net_moves [OF rest_list_moves]
      split: prod.splits sum.splits)

lemma decide_identity_moves: "decide_identity E a b c d s = (r, s') \<Longrightarrow> sync_moves R s s'"
  by (auto simp: decide_identity_def hydrate_candidate_def Let_def dest!: fetch_vm_moves
      split: if_splits list.splits option.splits prod.splits)

lemma resolve_unique_moves:
  "resolve_unique_vm_identity_candidate E l i e c f s = (r, s') \<Longrightarrow> sync_moves R s s'"
  by (auto simp: resolve_unique_vm_identity_candidate_def split: prod.splits if_splits
      dest!: list_sidecar_candidates_moves custom_field_candidates_moves decide_identity_moves intro: sync_trans)

lemma resolve_vm_moves:
  "resolve_virtual_machine_by_sync_state E l v e c f b s = (r, s') \<Longrightarrow> sync_moves R s s'"
  by (auto simp: resolve_virtual_machine_by_sync_state_def split: option.splits prod.splits if_splits
      dest!: resolve_unique_moves)

end

text \<open>The log of a logged environment only grows.\<close>

definition log_grows :: "('w \<times> request_log) \<Rightarrow> ('w \<times> request_log) \<Rightarrow> bool" where
  "log_grows w w' = prefix (snd w) (snd w')"

interpretation log_growth: env_relation "logged E" log_grows for E :: "'w netenv"
  by unfold_locales (auto simp: log_grows_def logged_def split: prod.splits)


end
