(* ===== verification/Log_Scrubbing.thy ===== *)
theory Log_Scrubbing
  imports Py_Values
begin

text \<open>
  Secrets removed from what is journaled (\<^verbatim>\<open>utils/log_scrubbing.py\<close>). \<open>match_password\<close> is the regular
  expression \<^verbatim>\<open>PASSWORD_LINE_RE\<close> at one position, with the alternatives in the order the engine tries
  them; \<open>scrub_text\<close> is \<^verbatim>\<open>sub\<close>: leftmost matches, left to right, not overlapping.
\<close>

definition quote_char :: "char \<Rightarrow> bool" where
  "quote_char c = (c = CHR 0x27 \<or> c = CHR 0x22)"

text \<open>A character of the secret: none of the end-of-line, comma, bracket and quote characters.\<close>

definition secret_char :: "char \<Rightarrow> bool" where
  "secret_char c = (c \<notin> {CHR 0x0D, CHR 0x0A, CHR '','', CHR ''}'', CHR '']'', CHR 0x22, CHR 0x27})"

text \<open>A word in lower case, matched without regard to case.\<close>

fun drop_word :: "string \<Rightarrow> string \<Rightarrow> string option" where
  "drop_word [] s = Some s"
| "drop_word (c # w) [] = None"
| "drop_word (c # w) (x # s) = (if lower_char x = c then drop_word w s else None)"

lemma drop_word_eq: "drop_word w s = (if py_startswith w (py_lower s) then Some (drop (length w) s) else None)"
  by (induct w s rule: drop_word.induct) (auto simp: py_startswith_def py_lower_def)

definition skip_quote :: "string \<Rightarrow> string" where
  "skip_quote s = (case s of c # r \<Rightarrow> if quote_char c then r else s | [] \<Rightarrow> [])"

text \<open>The rest after the separator from \<open>k\<close> blanks on: an optional quote, then at least one secret character.\<close>

fun skip_value :: "nat \<Rightarrow> string \<Rightarrow> string option" where
  "skip_value k t =
     (let r = drop k t; q = skip_quote r in
      if takeWhile secret_char q \<noteq> [] then Some q
      else if takeWhile secret_char r \<noteq> [] then Some r
      else case k of 0 \<Rightarrow> None | Suc k' \<Rightarrow> skip_value k' t)"

declare skip_value.simps [simp del]

definition after_password :: "string \<Rightarrow> string option" where
  "after_password s =
     (case drop_word ''password'' s of
        None \<Rightarrow> None
      | Some r \<Rightarrow>
          (case dropWhile py_space (skip_quote r) of
             [] \<Rightarrow> None
           | c # t \<Rightarrow>
               if c = CHR '':'' \<or> c = CHR ''='' then skip_value (length (takeWhile py_space t)) t else None))"

text \<open>\<^verbatim>\<open>(?:ci)?password\<close>: first with the prefix, then without.\<close>

definition after_key :: "string \<Rightarrow> string option" where
  "after_key s =
     (case (case drop_word ''ci'' s of None \<Rightarrow> None | Some r \<Rightarrow> after_password r) of
        Some r \<Rightarrow> Some r
      | None \<Rightarrow> after_password s)"

text \<open>What follows the kept part of a match at the head of \<open>s\<close>: the secret and the rest.\<close>

definition match_password :: "string \<Rightarrow> string option" where
  "match_password s =
     (case (case s of c # r \<Rightarrow> if quote_char c then after_key r else None | [] \<Rightarrow> None) of
        Some r \<Rightarrow> Some r
      | None \<Rightarrow> after_key s)"

lemma skip_quote_length: "length (skip_quote s) \<le> length s"
  by (cases s) (auto simp: skip_quote_def)

lemma skip_value_length: "skip_value k t = Some r \<Longrightarrow> length r \<le> length t \<and> takeWhile secret_char r \<noteq> []"
proof (induct k)
  case 0
  then show ?case using skip_quote_length [of t]
    by (subst (asm) skip_value.simps) (auto simp: Let_def split: if_splits)
next
  case (Suc k)
  have "length (skip_quote (drop (Suc k) t)) \<le> length t" "length (drop (Suc k) t) \<le> length t"
    using skip_quote_length [of "drop (Suc k) t"] by auto
  with Suc show ?case by (subst (asm) skip_value.simps) (auto simp: Let_def split: if_splits)
qed

lemma drop_word_length: "drop_word w s = Some r \<Longrightarrow> length r \<le> length s"
  by (auto simp: drop_word_eq split: if_splits)

lemma after_password_length: "after_password s = Some r \<Longrightarrow> length r < length s \<and> takeWhile secret_char r \<noteq> []"
proof -
  assume a: "after_password s = Some r"
  then obtain u c t where u: "drop_word ''password'' s = Some u" "dropWhile py_space (skip_quote u) = c # t"
    "skip_value (length (takeWhile py_space t)) t = Some r"
    by (auto simp: after_password_def split: option.splits list.splits if_splits)
  have "length (c # t) \<le> length (skip_quote u)" using u(2) length_dropWhile_le [of py_space "skip_quote u"] by simp
  moreover have "length (skip_quote u) \<le> length u" by (rule skip_quote_length)
  moreover have "length u \<le> length s" by (rule drop_word_length [OF u(1)])
  ultimately show ?thesis using skip_value_length [OF u(3)] by simp
qed

lemma after_key_length: "after_key s = Some r \<Longrightarrow> length r < length s \<and> takeWhile secret_char r \<noteq> []"
  by (auto simp: after_key_def split: option.splits dest!: after_password_length drop_word_length)

lemma match_password_length: "match_password s = Some r \<Longrightarrow> length r < length s \<and> takeWhile secret_char r \<noteq> []"
  by (auto simp: match_password_def split: option.splits list.splits if_splits dest!: after_key_length)

function scrub_text :: "string \<Rightarrow> string" where
  "scrub_text s =
     (case s of
        [] \<Rightarrow> []
      | c # cs \<Rightarrow>
          (case match_password s of
             None \<Rightarrow> c # scrub_text cs
           | Some r \<Rightarrow> take (length s - length r) s @ ''***'' @ scrub_text (dropWhile secret_char r)))"
  by pat_completeness auto
termination
proof (relation "measure length")
  fix s r :: string and c cs
  assume "s = c # cs" "match_password s = Some r"
  then have "length r < length s" using match_password_length by blast
  then show "(dropWhile secret_char r, s) \<in> measure length"
    using length_dropWhile_le [of secret_char r] by simp
qed auto

declare scrub_text.simps [simp del]

definition sensitive_keys :: "string list" where
  "sensitive_keys = [''password'', ''cipassword'', ''secret'', ''token'']"

text \<open>\<^verbatim>\<open>SENSITIVE_KEY_RE.match\<close>: the final \<^verbatim>\<open>$\<close> also matches before one trailing newline.\<close>

definition is_sensitive_key :: "string \<Rightarrow> bool" where
  "is_sensitive_key k =
     (py_lower k \<in> set sensitive_keys \<or>
      (k \<noteq> [] \<and> last k = CHR 0x0A \<and> py_lower (butlast k) \<in> set sensitive_keys))"

fun scrub_value :: "pyval \<Rightarrow> pyval" where
  "scrub_value (PDict d) =
     PDict (map (\<lambda>(k, v). (k, if is_sensitive_key k then PStr ''***'' else scrub_value v)) d)"
| "scrub_value (PList xs) = PList (map scrub_value xs)"
| "scrub_value (PStr s) = PStr (scrub_text s)"
| "scrub_value v = v"

definition scrub_cloud_init :: "pyobj \<Rightarrow> pyobj" where
  "scrub_cloud_init d = (case scrub_value (PDict d) of PDict e \<Rightarrow> e | _ \<Rightarrow> [])"


subsection \<open>What is left\<close>

text \<open>No sensitive key keeps a value, at any depth.\<close>

fun keys_scrubbed :: "pyval \<Rightarrow> bool" where
  "keys_scrubbed (PDict d) = list_all (\<lambda>(k, v). (is_sensitive_key k \<longrightarrow> v = PStr ''***'') \<and> keys_scrubbed v) d"
| "keys_scrubbed (PList xs) = list_all keys_scrubbed xs"
| "keys_scrubbed _ = True"

lemma scrub_value_keys: "keys_scrubbed (scrub_value v)"
  by (induct v rule: scrub_value.induct) (auto simp: list_all_iff)

lemma map_of_scrub_cloud_init:
  "map_of (scrub_cloud_init d) k =
     map_option (\<lambda>v. if is_sensitive_key k then PStr ''***'' else scrub_value v) (map_of d k)"
  by (induct d) (auto simp: scrub_cloud_init_def)

lemma scrub_cloud_init_keys: "map fst (scrub_cloud_init d) = map fst d"
  by (simp add: scrub_cloud_init_def comp_def case_prod_beta)

text \<open>A text without the word is kept as it is.\<close>

lemma drop_word_contains: "drop_word w s = Some r \<Longrightarrow> py_contains w (py_lower s)"
  by (metis drop_word_eq option.distinct(1) py_contains.elims(3) py_startswith_def take_Nil)

lemma py_contains_suffix: "py_contains w s \<Longrightarrow> py_contains w (t @ s)"
  unfolding py_contains_sublist by (metis append_assoc)

lemma py_contains_Cons: "py_contains w s \<Longrightarrow> py_contains w (c # s)"
  using py_contains_suffix [of w s "[c]"] by simp

lemma match_needs_password: "match_password s = Some r \<Longrightarrow> py_contains ''password'' (py_lower s)"
proof -
  have p: "after_password t = Some r \<Longrightarrow> py_contains ''password'' (py_lower t)" for t r
    by (auto simp: after_password_def split: option.splits dest: drop_word_contains)
  have k: "after_key t = Some r \<Longrightarrow> py_contains ''password'' (py_lower t)" for t r
  proof -
    assume a: "after_key t = Some r"
    consider "after_password t = Some r" | u where "drop_word ''ci'' t = Some u" "after_password u = Some r"
      using a by (auto simp: after_key_def split: option.splits)
    then show ?thesis
    proof cases
      case 2
      then have "u = drop 2 t" by (auto simp: drop_word_eq numeral_2_eq_2 split: if_splits)
      then have "py_lower t = py_lower (take 2 t) @ py_lower u" by (simp flip: py_lower_append)
      with p [OF 2(2)] show ?thesis using py_contains_suffix by metis
    qed (rule p)
  qed
  assume "match_password s = Some r"
  then show ?thesis
    by (auto simp: match_password_def py_lower_def split: option.splits list.splits if_splits
        dest!: k intro: py_contains_Cons [unfolded py_lower_def])
qed

lemma scrub_text_plain: "\<not> py_contains ''password'' (py_lower s) \<Longrightarrow> scrub_text s = s"
proof (induct s)
  case (Cons c cs)
  then have "\<not> py_contains ''password'' (py_lower cs)"
    using py_contains_Cons [of "''password''" "py_lower cs" "lower_char c"] by (auto simp: py_lower_def)
  with Cons show ?case using match_needs_password
    by (subst scrub_text.simps) (auto split: option.splits)
qed (simp add: scrub_text.simps)

text \<open>The forms the comment in the code names, and one more blank that the engine backtracks over.\<close>

lemma scrub_examples:
  "scrub_text ''x cipassword=abc, y'' = ''x cipassword=***, y''"
  "scrub_text ''my Password :  s3 cret'' = ''my Password :  ***''"
  "scrub_text ([CHR 0x27] @ ''cipassword'' @ [CHR 0x27] @ '': '' @ [CHR 0x27] @ ''k'' @ [CHR 0x27] @ ''}'') =
     [CHR 0x27] @ ''cipassword'' @ [CHR 0x27] @ '': '' @ [CHR 0x27] @ ''***'' @ [CHR 0x27] @ ''}''"
  "scrub_text (''password= '' @ [CHR 0x22]) = ''password=***'' @ [CHR 0x22]"
  by code_simp+

end
