(* ===== verification/Verb_Dispatch.thy ===== *)
theory Verb_Dispatch
  imports Env_Relation Idempotency_Cache Log_Scrubbing
begin

text \<open>
  What the operational verb routes stand on: the Proxmox calls of \<^verbatim>\<open>services/proxmox_helpers.py\<close> they
  make, and \<^verbatim>\<open>services/verb_dispatch.py\<close> (node, audit target, journal entries).

  Two systems lie outside: NetBox, behind the REST client of the other theories, and Proxmox. The
  SDK of Proxmox is the function \<open>proxmox\<close> of the environment: a request, the state of both worlds, an
  outcome. The Proxmox world is separate, so a NetBox operation leaves it alone by
  construction. What pydantic reads from a Proxmox answer (\<open>read_status\<close>, \<open>read_resources\<close>), the names
  of exception classes, and the two session builders are functions of the environment too.

  A task can be cancelled where it awaits: \<open>Cancelled\<close> is a value of the exceptions, an outcome of a Proxmox
  call, and the answer of \<open>cancelled\<close> at the shielded awaits of NetBox work, which runs to its end.
  Exits of the interpreter are not modelled.
\<close>

datatype base_exc =
    ApiExc py_exc
  | Exc py_exc
  | Cancelled

record px_request =
  px_method :: string
  px_path :: "string list"
  px_params :: pyobj

text \<open>\<open>PxRaised (Exc (OtherError t))\<close> is any exception that is neither of the SDK's two nor the service's own.\<close>

datatype px_outcome =
    PxReturn pyval
  | PxTimeout string
  | PxConnection string
  | PxRaised base_exc

datatype vm_kind = Qemu | Lxc

record endpoint =
  ep_id :: int
  ep_name :: string
  ep_allow_writes :: bool

record ('w, 'p) venv =
  nb_env :: "'w netenv"
  legacy_fields :: bool
  proxmox :: "px_request \<Rightarrow> 'w \<Rightarrow> 'p \<Rightarrow> px_outcome \<times> 'p"
  open_proxmox :: "endpoint \<Rightarrow> 'w \<Rightarrow> 'p \<Rightarrow> base_exc option \<times> 'p"
  open_netbox :: "'w \<Rightarrow> 'p \<Rightarrow> base_exc option"
  endpoint_row :: "int \<Rightarrow> 'w \<Rightarrow> 'p \<Rightarrow> endpoint option"
  cancelled :: "'w \<Rightarrow> 'p \<Rightarrow> bool"
  idem_clock :: "'w \<Rightarrow> 'p \<Rightarrow> seconds"
  now_iso :: "'w \<Rightarrow> 'p \<Rightarrow> string"
  now_stamp :: "'w \<Rightarrow> 'p \<Rightarrow> string"
  read_status :: "vm_kind \<Rightarrow> pyval \<Rightarrow> string + pyval"
  read_resources :: "pyval \<Rightarrow> string + (int option \<times> string option) list"
  type_name :: "base_exc \<Rightarrow> string"
  others :: "nat \<Rightarrow> idem_cache \<Rightarrow> idem_cache"

text \<open>
  The state of one request: NetBox side, Proxmox side, the process-wide idempotency cache, and the
  write-ahead journal entry, a dictionary the code marks in place.
\<close>

record ('w, 'p) vst =
  vs_sync :: "'w syncst"
  vs_px :: 'p
  vs_idem :: idem_cache
  vs_entry :: "pyobj option"

type_synonym ('w, 'p, 'a) verb_op = "('w, 'p) vst \<Rightarrow> (base_exc + 'a) \<times> ('w, 'p) vst"

abbreviation nb_world :: "('w, 'p) vst \<Rightarrow> 'w" where
  "nb_world s \<equiv> srv (net (vs_sync s))"

definition idem_now :: "('w, 'p) venv \<Rightarrow> ('w, 'p) vst \<Rightarrow> seconds" where
  "idem_now V s = idem_clock V (nb_world s) (vs_px s)"

definition is_cancelled :: "('w, 'p) venv \<Rightarrow> ('w, 'p) vst \<Rightarrow> bool" where
  "is_cancelled V s = cancelled V (nb_world s) (vs_px s)"

text \<open>Sequencing, and \<^verbatim>\<open>except ProxmoxAPIError\<close>.\<close>

definition bind_op :: "('w, 'p, 'a) verb_op \<Rightarrow> ('a \<Rightarrow> ('w, 'p, 'b) verb_op) \<Rightarrow> ('w, 'p, 'b) verb_op" where
  "bind_op m f s = (case m s of (Inl e, s') \<Rightarrow> (Inl e, s') | (Inr v, s') \<Rightarrow> f v s')"

definition try_api ::
  "('w, 'p, 'a) verb_op \<Rightarrow> (py_exc \<Rightarrow> ('w, 'p, 'b) verb_op) \<Rightarrow> ('a \<Rightarrow> ('w, 'p, 'b) verb_op) \<Rightarrow> ('w, 'p, 'b) verb_op" where
  "try_api m handler f s =
     (case m s of
        (Inl (ApiExc e), s') \<Rightarrow> handler e s'
      | (Inl e, s') \<Rightarrow> (Inl e, s')
      | (Inr v, s') \<Rightarrow> f v s')"

definition base_text :: "base_exc \<Rightarrow> string" where
  "base_text e = (case e of ApiExc x \<Rightarrow> exc_str x | Exc x \<Rightarrow> exc_str x | Cancelled \<Rightarrow> [])"

text \<open>A NetBox operation in the state of a request.\<close>

definition on_rest :: "('w, 'a) rest_op \<Rightarrow> ('w, 'p, 'a) verb_op" where
  "on_rest body s =
     (case on_net body (vs_sync s) of
        (Inl e, y) \<Rightarrow> (Inl (Exc e), s\<lparr>vs_sync := y\<rparr>)
      | (Inr v, y) \<Rightarrow> (Inr v, s\<lparr>vs_sync := y\<rparr>))"


subsection \<open>Proxmox calls\<close>

definition proxmox_api_error :: "string \<Rightarrow> string \<Rightarrow> py_exc" where
  "proxmox_api_error message original = ProxboxException message PNone (Some original) 502"

definition px_send :: "('w, 'p) venv \<Rightarrow> px_request \<Rightarrow> ('w, 'p) vst \<Rightarrow> px_outcome \<times> ('w, 'p) vst" where
  "px_send V rq s = (case proxmox V rq (nb_world s) (vs_px s) of (out, p) \<Rightarrow> (out, s\<lparr>vs_px := p\<rparr>))"

text \<open>The \<^verbatim>\<open>except\<close> clauses every helper ends with, with its three messages.\<close>

definition px_errors :: "string \<Rightarrow> string \<Rightarrow> string \<Rightarrow> px_outcome \<Rightarrow> base_exc + pyval" where
  "px_errors timed_out unable failed out =
     (case out of
        PxReturn v \<Rightarrow> Inr v
      | PxTimeout t \<Rightarrow> Inl (ApiExc (proxmox_api_error timed_out t))
      | PxConnection t \<Rightarrow> Inl (ApiExc (proxmox_api_error unable t))
      | PxRaised (Exc (OtherError t)) \<Rightarrow> Inl (ApiExc (proxmox_api_error failed t))
      | PxRaised e \<Rightarrow> Inl e)"

definition px_call ::
  "('w, 'p) venv \<Rightarrow> string \<Rightarrow> string \<Rightarrow> string \<Rightarrow> px_request \<Rightarrow> ('w, 'p, pyval) verb_op" where
  "px_call V timed_out unable failed rq s =
     (case px_send V rq s of (out, s') \<Rightarrow> (px_errors timed_out unable failed out, s'))"

definition kind_str :: "vm_kind \<Rightarrow> string" where
  "kind_str k = (case k of Qemu \<Rightarrow> ''qemu'' | Lxc \<Rightarrow> ''lxc'')"

definition vm_path :: "string \<Rightarrow> vm_kind \<Rightarrow> int \<Rightarrow> string list \<Rightarrow> string list" where
  "vm_path node k vmid rest = [''nodes'', node, kind_str k, int_str vmid] @ rest"

definition px_get :: "string list \<Rightarrow> pyobj \<Rightarrow> px_request" where
  "px_get path params = \<lparr>px_method = ''GET'', px_path = path, px_params = params\<rparr>"

definition px_post :: "string list \<Rightarrow> pyobj \<Rightarrow> px_request" where
  "px_post path params = \<lparr>px_method = ''POST'', px_path = path, px_params = params\<rparr>"

definition px_delete :: "string list \<Rightarrow> pyobj \<Rightarrow> px_request" where
  "px_delete path params = \<lparr>px_method = ''DELETE'', px_path = path, px_params = params\<rparr>"

definition task_upid_from_payload :: "pyval \<Rightarrow> string" where
  "task_upid_from_payload payload =
     (case payload of
        PStr t \<Rightarrow> t
      | PDict d \<Rightarrow> (case obj_get d ''data'' of PStr t \<Rightarrow> t | _ \<Rightarrow> py_str payload)
      | _ \<Rightarrow> py_str payload)"

definition get_cluster_resources ::
  "('w, 'p) venv \<Rightarrow> string \<Rightarrow> ('w, 'p, (int option \<times> string option) list) verb_op" where
  "get_cluster_resources V resource_type =
     bind_op (px_call V ''Proxmox cluster resources request timed out''
                ''Unable to connect to Proxmox for cluster resources'' ''Error fetching Proxmox cluster resources''
                (px_get [''cluster/resources''] (if resource_type = [] then [] else [(''type'', PStr resource_type)])))
       (\<lambda>v s. (case read_resources V v of
                  Inl t \<Rightarrow> Inl (ApiExc (proxmox_api_error ''Error fetching Proxmox cluster resources'' t))
                | Inr items \<Rightarrow> Inr items, s))"

text \<open>The \<^verbatim>\<open>status\<close> attribute of the validated answer, the only one the routes read.\<close>

definition get_vm_status :: "('w, 'p) venv \<Rightarrow> string \<Rightarrow> vm_kind \<Rightarrow> int \<Rightarrow> ('w, 'p, pyval) verb_op" where
  "get_vm_status V node k vmid =
     bind_op (px_call V ''Proxmox VM status request timed out'' ''Unable to connect to Proxmox for VM status''
                ''Error fetching Proxmox VM status'' (px_get (vm_path node k vmid [''status'', ''current'']) []))
       (\<lambda>v s. (case read_status V k v of
                  Inl t \<Rightarrow> Inl (ApiExc (proxmox_api_error ''Error fetching Proxmox VM status'' t))
                | Inr st \<Rightarrow> Inr st, s))"

definition task_call ::
  "('w, 'p) venv \<Rightarrow> string \<Rightarrow> string \<Rightarrow> string \<Rightarrow> px_request \<Rightarrow> ('w, 'p, string) verb_op" where
  "task_call V timed_out unable failed rq =
     bind_op (px_call V timed_out unable failed rq) (\<lambda>v s. (Inr (task_upid_from_payload v), s))"

definition start_rq :: "string \<Rightarrow> vm_kind \<Rightarrow> int \<Rightarrow> px_request" where
  "start_rq node k vmid = px_post (vm_path node k vmid [''status'', ''start'']) []"

definition start_vm :: "('w, 'p) venv \<Rightarrow> string \<Rightarrow> vm_kind \<Rightarrow> int \<Rightarrow> ('w, 'p, string) verb_op" where
  "start_vm V node k vmid =
     task_call V ''Proxmox VM start request timed out'' ''Unable to connect to Proxmox for VM start''
       ''Error dispatching Proxmox VM start'' (start_rq node k vmid)"

definition stop_rq :: "string \<Rightarrow> vm_kind \<Rightarrow> int \<Rightarrow> px_request" where
  "stop_rq node k vmid = px_post (vm_path node k vmid [''status'', ''stop'']) []"

definition stop_vm :: "('w, 'p) venv \<Rightarrow> string \<Rightarrow> vm_kind \<Rightarrow> int \<Rightarrow> ('w, 'p, string) verb_op" where
  "stop_vm V node k vmid =
     task_call V ''Proxmox VM stop request timed out'' ''Unable to connect to Proxmox for VM stop''
       ''Error dispatching Proxmox VM stop'' (stop_rq node k vmid)"

definition reboot_rq :: "string \<Rightarrow> vm_kind \<Rightarrow> int \<Rightarrow> px_request" where
  "reboot_rq node k vmid = px_post (vm_path node k vmid [''status'', ''reboot'']) []"

definition reboot_vm :: "('w, 'p) venv \<Rightarrow> string \<Rightarrow> vm_kind \<Rightarrow> int \<Rightarrow> ('w, 'p, string) verb_op" where
  "reboot_vm V node k vmid =
     task_call V ''Proxmox VM reboot request timed out'' ''Unable to connect to Proxmox for VM reboot''
       ''Error dispatching Proxmox VM reboot'' (reboot_rq node k vmid)"

definition snapshot_rq :: "string \<Rightarrow> vm_kind \<Rightarrow> int \<Rightarrow> string \<Rightarrow> string option \<Rightarrow> px_request" where
  "snapshot_rq node k vmid snapname description =
     px_post (vm_path node k vmid [''snapshot''])
       ([(''snapname'', PStr snapname)] @ (case description of None \<Rightarrow> [] | Some t \<Rightarrow> [(''description'', PStr t)]))"

definition create_vm_snapshot ::
  "('w, 'p) venv \<Rightarrow> string \<Rightarrow> vm_kind \<Rightarrow> int \<Rightarrow> string \<Rightarrow> string option \<Rightarrow> ('w, 'p, string) verb_op" where
  "create_vm_snapshot V node k vmid snapname description =
     task_call V ''Proxmox VM snapshot request timed out'' ''Unable to connect to Proxmox for VM snapshot''
       ''Error dispatching Proxmox VM snapshot'' (snapshot_rq node k vmid snapname description)"

definition backup_rq :: "string \<Rightarrow> int \<Rightarrow> string \<Rightarrow> string \<Rightarrow> string \<Rightarrow> string option \<Rightarrow> px_request" where
  "backup_rq node vmid storage mode compress notes =
     px_post [''nodes'', node, ''vzdump'']
       ([(''vmid'', PStr (int_str vmid)), (''storage'', PStr storage), (''mode'', PStr mode), (''compress'', PStr compress)] @
        (case notes of None \<Rightarrow> [] | Some t \<Rightarrow> [(''notes-template'', PStr t)]))"

definition backup_vm ::
  "('w, 'p) venv \<Rightarrow> string \<Rightarrow> int \<Rightarrow> string \<Rightarrow> string \<Rightarrow> string \<Rightarrow> string option \<Rightarrow> ('w, 'p, string) verb_op" where
  "backup_vm V node vmid storage mode compress notes =
     task_call V ''Proxmox VM backup request timed out'' ''Unable to connect to Proxmox for VM backup''
       ''Error dispatching Proxmox VM backup'' (backup_rq node vmid storage mode compress notes)"

definition delete_snapshot_rq :: "string \<Rightarrow> vm_kind \<Rightarrow> int \<Rightarrow> string \<Rightarrow> px_request" where
  "delete_snapshot_rq node k vmid snapname = px_delete (vm_path node k vmid [''snapshot'', snapname]) []"

definition delete_vm_snapshot :: "('w, 'p) venv \<Rightarrow> string \<Rightarrow> vm_kind \<Rightarrow> int \<Rightarrow> string \<Rightarrow> ('w, 'p, string) verb_op" where
  "delete_vm_snapshot V node k vmid snapname =
     task_call V ''Proxmox VM snapshot delete request timed out'' ''Unable to connect to Proxmox for VM snapshot delete''
       ''Error dispatching Proxmox VM snapshot delete'' (delete_snapshot_rq node k vmid snapname)"

definition migrate_preflight :: "('w, 'p) venv \<Rightarrow> string \<Rightarrow> vm_kind \<Rightarrow> int \<Rightarrow> ('w, 'p, pyobj) verb_op" where
  "migrate_preflight V node k vmid =
     bind_op (px_call V ''Proxmox migrate preflight timed out'' ''Unable to connect to Proxmox for migrate preflight''
                ''Error fetching Proxmox migrate preflight'' (px_get (vm_path node k vmid [''migrate'']) []))
       (\<lambda>v s. (Inr (case v of
                       PDict d \<Rightarrow> (case obj_get d ''data'' of PDict e \<Rightarrow> e | _ \<Rightarrow> d)
                     | _ \<Rightarrow> []), s))"

definition migrate_rq :: "string \<Rightarrow> vm_kind \<Rightarrow> int \<Rightarrow> string \<Rightarrow> bool \<Rightarrow> px_request" where
  "migrate_rq node k vmid target online =
     px_post (vm_path node k vmid [''migrate''])
       [(''target'', PStr target),
        (case k of Qemu \<Rightarrow> ''online'' | Lxc \<Rightarrow> ''restart'', PInt (if online then 1 else 0))]"

definition migrate_vm :: "('w, 'p) venv \<Rightarrow> string \<Rightarrow> vm_kind \<Rightarrow> int \<Rightarrow> string \<Rightarrow> bool \<Rightarrow> ('w, 'p, string) verb_op" where
  "migrate_vm V node k vmid target online =
     task_call V ''Proxmox VM migrate request timed out'' ''Unable to connect to Proxmox for VM migrate''
       ''Error dispatching Proxmox VM migrate'' (migrate_rq node k vmid target online)"

definition cancel_rq :: "string \<Rightarrow> string \<Rightarrow> px_request" where
  "cancel_rq node upid = px_delete [''nodes'', node, ''tasks'', upid] []"

definition cancel_task :: "('w, 'p) venv \<Rightarrow> string \<Rightarrow> string \<Rightarrow> ('w, 'p, unit) verb_op" where
  "cancel_task V node upid =
     bind_op (px_call V ''Proxmox task cancel request timed out'' ''Unable to connect to Proxmox for task cancel''
                ''Error cancelling Proxmox task'' (cancel_rq node upid))
       (\<lambda>v s. (Inr (), s))"


subsection \<open>Node and audit target\<close>

record reply =
  rp_status :: int
  rp_body :: pyobj

definition resolve_proxmox_node :: "('w, 'p) venv \<Rightarrow> vm_kind \<Rightarrow> int \<Rightarrow> ('w, 'p, reply + string) verb_op" where
  "resolve_proxmox_node V k vmid =
     try_api (get_cluster_resources V (kind_str k))
       (\<lambda>e s. (Inr (Inl \<lparr>rp_status = 502,
           rp_body = [(''reason'', PStr ''proxmox_cluster_resources_unreachable''),
             (''detail'', PStr (''Unable to fetch cluster resources from Proxmox to resolve the node hosting '' @
                kind_str k @ ''/'' @ int_str vmid @ ''.''))]\<rparr>), s))
       (\<lambda>items s. (Inr (case List.find (\<lambda>(v, n). v = Some vmid \<and> n \<noteq> None \<and> n \<noteq> Some []) items of
             Some (_, Some node) \<Rightarrow> Inr node
           | _ \<Rightarrow> Inl \<lparr>rp_status = 404,
               rp_body = [(''reason'', PStr ''vm_not_found_in_cluster''),
                 (''detail'', PStr (''No '' @ kind_str k @ '' resource with vmid='' @ int_str vmid @
                    '' found in cluster/resources. The VM may not exist or may not yet be reflected in the cluster.'')),
                 (''vm_type'', PStr (kind_str k)), (''vmid'', PInt vmid)]\<rparr>), s))"

definition opt_int :: "int option \<Rightarrow> pyval" where
  "opt_int v = (case v of None \<Rightarrow> PNone | Some i \<Rightarrow> PInt i)"

definition audit_refusal :: "string \<Rightarrow> string \<Rightarrow> int \<Rightarrow> int option \<Rightarrow> int option \<Rightarrow> pyobj \<Rightarrow> py_exc" where
  "audit_refusal message reason vmid endpoint_id cluster_id extra =
     ProxboxException message
       (PDict ([(''reason'', PStr reason), (''vmid'', PInt vmid), (''endpoint_id'', opt_int endpoint_id),
                (''cluster_id'', opt_int cluster_id)] @ extra)) None 409"

definition resolve_netbox_vm_id ::
  "('w, 'p) venv \<Rightarrow> int \<Rightarrow> int option \<Rightarrow> int option \<Rightarrow> bool \<Rightarrow> ('w, 'p, int option) verb_op" where
  "resolve_netbox_vm_id V vmid endpoint_id cluster_id fail_closed s =
     (case resolve_virtual_machine_by_sync_state (nb_env V) (legacy_fields V) (PInt vmid) endpoint_id cluster_id None
             fail_closed (vs_sync s) of
        (r, y) \<Rightarrow>
          (let s' = s\<lparr>vs_sync := y\<rparr>;
               unverifiable = audit_refusal
                 ''Refusing to dispatch operational verb without a verifiable NetBox VM audit target.''
                 ''netbox_vm_identity_unverifiable_for_audit'' vmid endpoint_id cluster_id
           in case r of
                Inl (ProxboxException m detail p st) \<Rightarrow>
                  (Inl (Exc (if fail_closed
                        then unverifiable [(''resolver_detail'', py_or detail (PStr m))]
                        else ProxboxException m detail p st)), s')
              | Inl (OtherError t) \<Rightarrow>
                  (if fail_closed then Inl (Exc (unverifiable [])) else Inr None, s')
              | Inr None \<Rightarrow>
                  (if fail_closed
                   then Inl (Exc (audit_refusal ''Refusing to dispatch operational verb without a NetBox VM audit target.''
                          ''netbox_vm_identity_required_for_audit'' vmid endpoint_id cluster_id []))
                   else Inr None, s')
              | Inr (Some v) \<Rightarrow> (Inr (Some (res_id v)), s')))"


subsection \<open>Journal entries\<close>

definition newline :: string where
  "newline = [CHR 0x0A]"

definition opt_line :: "string \<Rightarrow> string option \<Rightarrow> string list" where
  "opt_line label v = (case v of None \<Rightarrow> [] | Some t \<Rightarrow> [''- '' @ label @ '': '' @ t])"

definition build_journal_comments ::
  "string \<Rightarrow> string \<Rightarrow> string \<Rightarrow> string \<Rightarrow> int \<Rightarrow> string \<Rightarrow> string option \<Rightarrow> string option \<Rightarrow> string option \<Rightarrow> string" where
  "build_journal_comments verb actor result endpoint_name endpoint_id dispatched_at upid key error_text =
     py_join newline
       ([''Proxbox operational verb dispatched.'', [], ''- verb: '' @ verb, ''- actor: '' @ actor, ''- result: '' @ result] @
        opt_line ''proxmox_task_upid'' upid @ opt_line ''idempotency_key'' key @
        [''- endpoint: '' @ endpoint_name @ '' (id='' @ int_str endpoint_id @ '')'', ''- dispatched_at: '' @ dispatched_at] @
        opt_line ''error_detail'' error_text)"

definition journal_path :: string where
  "journal_path = ''/api/extras/journal-entries/''"

definition journal_error :: "string \<Rightarrow> string \<Rightarrow> string \<Rightarrow> py_exc" where
  "journal_error message verb original =
     ProxboxException message (PDict [(''endpoint'', PStr journal_path), (''method'', PStr verb)]) (Some original) 502"

definition journal_payload :: "int \<Rightarrow> string \<Rightarrow> string \<Rightarrow> pyobj" where
  "journal_payload netbox_vm_id k comments =
     scrub_cloud_init
       [(''assigned_object_type'', PStr ''virtualization.virtualmachine''), (''assigned_object_id'', PInt netbox_vm_id),
        (''kind'', PStr k), (''comments'', PStr comments)]"

text \<open>
  A created record is a \<^verbatim>\<open>RestRecord\<close>: its attribute \<^verbatim>\<open>data\<close> is the field \<^verbatim>\<open>data\<close> of the answer, if NetBox sent
  one, and it is not a \<^verbatim>\<open>dict\<close>.
\<close>

definition created_entry :: "rest_record \<Rightarrow> pyobj option" where
  "created_entry r = (case obj_get (rec_data r) ''data'' of PDict d \<Rightarrow> Some d | _ \<Rightarrow> None)"

definition reraise_journal :: "string \<Rightarrow> string \<Rightarrow> base_exc \<Rightarrow> base_exc" where
  "reraise_journal message verb e = (case e of Exc (OtherError t) \<Rightarrow> Exc (journal_error message verb t) | _ \<Rightarrow> e)"

definition write_verb_journal_entry ::
  "('w, 'p) venv \<Rightarrow> int \<Rightarrow> string \<Rightarrow> string \<Rightarrow> ('w, 'p, pyobj option) verb_op" where
  "write_verb_journal_entry V netbox_vm_id k comments s =
     (case on_rest (rest_create (nb_env V) journal_path (journal_payload netbox_vm_id k comments) None) s of
        (Inl e, s') \<Rightarrow> (Inl (reraise_journal ''Failed to write verb audit journal entry'' ''POST'' e), s')
      | (Inr r, s') \<Rightarrow> (Inr (created_entry r), s'))"

definition update_verb_journal_entry ::
  "('w, 'p) venv \<Rightarrow> int \<Rightarrow> string \<Rightarrow> string \<Rightarrow> ('w, 'p, pyobj option) verb_op" where
  "update_verb_journal_entry V journal_entry_id k comments s =
     (case on_rest (rest_patch (nb_env V) journal_path journal_entry_id
             (scrub_cloud_init [(''kind'', PStr k), (''comments'', PStr comments)])) s of
        (Inl e, s') \<Rightarrow> (Inl (reraise_journal ''Failed to update verb audit journal entry'' ''PATCH'' e), s')
      | (Inr (PDict d), s') \<Rightarrow> (Inr (Some d), s')
      | (Inr _, s') \<Rightarrow> (Inr None, s'))"

definition opt_str_item :: "string \<Rightarrow> string option \<Rightarrow> pyobj" where
  "opt_str_item k v = (case v of None \<Rightarrow> [] | Some t \<Rightarrow> [(k, PStr t)])"

definition build_success_response ::
  "string \<Rightarrow> vm_kind \<Rightarrow> int \<Rightarrow> int \<Rightarrow> string \<Rightarrow> string \<Rightarrow> string option \<Rightarrow> string option \<Rightarrow> pyobj" where
  "build_success_response verb k vmid endpoint_id result dispatched_at upid url =
     [(''verb'', PStr verb), (''vmid'', PInt vmid), (''vm_type'', PStr (kind_str k)), (''endpoint_id'', PInt endpoint_id),
      (''result'', PStr result), (''dispatched_at'', PStr dispatched_at)] @
     opt_str_item ''proxmox_task_upid'' upid @ opt_str_item ''journal_entry_url'' url"

end
