(* ===== verification/Verb_Journal.thy ===== *)
theory Verb_Journal
  imports Verb_Dispatch
begin

text \<open>
  The audit trail of the operational verbs (first half of \<^verbatim>\<open>routes/proxmox_actions.py\<close>, and
  \<^verbatim>\<open>_audit_and_respond\<close>): the write-ahead journal entry, its terminal update, which survives the
  cancellation of the request, and the response kept in the idempotency cache, with what a later request
  needs to finish the journal when the update failed. \<open>verb_ctx\<close> holds the arguments these
  functions pass along.
\<close>

record verb_ctx =
  vx_verb :: string
  vx_kind :: vm_kind
  vx_vmid :: int
  vx_endpoint :: endpoint
  vx_actor :: string
  vx_at :: string
  vx_key :: "string option"
  vx_cache_key :: "cache_key option"
  vx_vm :: "int option"

definition audit_required_verbs :: "string list" where
  "audit_required_verbs =
     [''start'', ''stop'', ''snapshot'', ''migrate'', ''reboot'', ''delete'', ''backup'', ''delete_snapshot'']"

record finalization =
  jf_url :: "string option"
  jf_finalized :: bool
  jf_error :: "string option"
  jf_retry :: "pyobj option"

text \<open>What an outcome is audited as.\<close>

record audit =
  au_result :: string
  au_kind :: string
  au_upid :: "string option"
  au_error :: "string option"
  au_status :: int
  au_reason :: "string option"
  au_extra :: "pyobj option"


subsection \<open>Entries and metadata\<close>

definition id_value :: "pyval \<Rightarrow> int option" where
  "id_value v =
     (case v of
        PInt i \<Rightarrow> Some i
      | PStr t \<Rightarrow> if py_isdigit t then Some (int (digits_val t)) else None
      | _ \<Rightarrow> None)"

definition journal_entry_id :: "pyobj option \<Rightarrow> int option" where
  "journal_entry_id entry = (case entry of None \<Rightarrow> None | Some d \<Rightarrow> id_value (obj_get d ''id''))"

definition journal_entry_url :: "pyobj option \<Rightarrow> string option" where
  "journal_entry_url entry =
     (case entry of
        None \<Rightarrow> None
      | Some d \<Rightarrow>
          (case obj_get d ''url'' of
             PStr url \<Rightarrow> Some url
           | _ \<Rightarrow> map_option (\<lambda>i. journal_path @ int_str i @ ''/'') (journal_entry_id entry)))"

definition terminal_sentinel :: string where
  "terminal_sentinel = ''_proxbox_terminal_finalized''"

definition journal_entry_is_terminal :: "pyobj option \<Rightarrow> bool" where
  "journal_entry_is_terminal entry =
     (case entry of None \<Rightarrow> False | Some d \<Rightarrow> obj_get d terminal_sentinel = PBool True)"

text \<open>Marking happens on the shared write-ahead entry; the mark on the answer of an update is not read again.\<close>

definition mark_terminal :: "('w, 'p) vst \<Rightarrow> ('w, 'p) vst" where
  "mark_terminal s = s\<lparr>vs_entry := map_option (dict_set terminal_sentinel (PBool True)) (vs_entry s)\<rparr>"

definition error_detail_of :: "('w, 'p) venv \<Rightarrow> base_exc \<Rightarrow> string" where
  "error_detail_of V e = (if base_text e \<noteq> [] then type_name V e @ '': '' @ base_text e else type_name V e)"

definition metadata_int :: "pyobj \<Rightarrow> string \<Rightarrow> int option" where
  "metadata_int m k = id_value (obj_get m k)"

definition metadata_str :: "pyobj \<Rightarrow> string \<Rightarrow> string option" where
  "metadata_str m k = (case obj_get m k of PStr t \<Rightarrow> Some t | _ \<Rightarrow> None)"

definition metadata_kind :: "pyobj \<Rightarrow> string option" where
  "metadata_kind m =
     (case metadata_str m ''kind'' of
        None \<Rightarrow> None
      | Some t \<Rightarrow> if t \<in> {''info'', ''success'', ''warning'', ''danger''} then Some t else None)"

definition retry_metadata :: "int \<Rightarrow> string option \<Rightarrow> string \<Rightarrow> string \<Rightarrow> string \<Rightarrow> string \<Rightarrow> int \<Rightarrow> pyobj" where
  "retry_metadata entry_id url k comments interrupted failed status =
     [(''journal_entry_id'', PInt entry_id), (''kind'', PStr k), (''comments'', PStr comments),
      (''interrupted_comments'', PStr interrupted), (''failed_comments'', PStr failed),
      (''terminal_status_code'', PInt status)] @ opt_str_item ''journal_entry_url'' url"


subsection \<open>The terminal update\<close>

definition best_effort_mark :: "('w, 'p) venv \<Rightarrow> int \<Rightarrow> string \<Rightarrow> string \<Rightarrow> ('w, 'p) vst \<Rightarrow> ('w, 'p) vst" where
  "best_effort_mark V entry_id k comments s =
     (case update_verb_journal_entry V entry_id k comments s of
        (Inl _, s') \<Rightarrow> s'
      | (Inr _, s') \<Rightarrow> mark_terminal s')"

text \<open>The shielded update: it runs to its end, and the caller may find itself cancelled then.\<close>

definition update_resistant ::
  "('w, 'p) venv \<Rightarrow> int \<Rightarrow> string \<Rightarrow> string \<Rightarrow> string \<Rightarrow> ('w, 'p, pyobj option) verb_op" where
  "update_resistant V entry_id k comments interrupted s =
     (case update_verb_journal_entry V entry_id k comments s of
        (r, s1) \<Rightarrow>
          if is_cancelled V s1
          then (Inl Cancelled,
                case r of Inr _ \<Rightarrow> mark_terminal s1
                | Inl _ \<Rightarrow> best_effort_mark V entry_id ''warning'' interrupted s1)
          else case r of Inr entry \<Rightarrow> (Inr entry, mark_terminal s1) | Inl e \<Rightarrow> (Inl e, s1))"

definition opt_or :: "'a option \<Rightarrow> 'a option \<Rightarrow> 'a option" where
  "opt_or a b = (case a of None \<Rightarrow> b | Some v \<Rightarrow> Some v)"

text \<open>\<^verbatim>\<open>a or b\<close> on optional texts: an empty text counts as missing.\<close>

definition str_or :: "string option \<Rightarrow> string option \<Rightarrow> string option" where
  "str_or a b = (if a = None \<or> a = Some [] then b else a)"

definition finalize_journal_entry ::
  "('w, 'p) venv \<Rightarrow> verb_ctx \<Rightarrow> string \<Rightarrow> string \<Rightarrow> string \<Rightarrow> string \<Rightarrow> int \<Rightarrow> ('w, 'p, finalization) verb_op" where
  "finalize_journal_entry V c k comments interrupted failed status s =
     (let url = journal_entry_url (vs_entry s)
      in if journal_entry_is_terminal (vs_entry s)
         then (Inr \<lparr>jf_url = url, jf_finalized = True, jf_error = None, jf_retry = None\<rparr>, s)
         else case vx_vm c of
           None \<Rightarrow> (Inr \<lparr>jf_url = url, jf_finalized = True, jf_error = None, jf_retry = None\<rparr>, s)
         | Some vm \<Rightarrow>
             if vs_entry s = None
             then (case write_verb_journal_entry V vm k comments s of
                     (r, s') \<Rightarrow>
                       if is_cancelled V s' then (Inl Cancelled, s')
                       else case r of
                         Inl e \<Rightarrow> (Inr \<lparr>jf_url = url, jf_finalized = False, jf_error = Some (error_detail_of V e),
                                       jf_retry = None\<rparr>, s')
                       | Inr entry \<Rightarrow> (Inr \<lparr>jf_url = journal_entry_url entry, jf_finalized = True, jf_error = None,
                                       jf_retry = None\<rparr>, s'))
             else case journal_entry_id (vs_entry s) of
               None \<Rightarrow> (Inr \<lparr>jf_url = url, jf_finalized = False,
                          jf_error = Some ''write-ahead journal entry returned without an id'', jf_retry = None\<rparr>, s)
             | Some entry_id \<Rightarrow>
                 (case update_resistant V entry_id k comments interrupted s of
                    (Inl Cancelled, s') \<Rightarrow> (Inl Cancelled, s')
                  | (Inl e, s') \<Rightarrow>
                      (Inr \<lparr>jf_url = url, jf_finalized = False, jf_error = Some (error_detail_of V e),
                         jf_retry = Some (retry_metadata entry_id url k comments interrupted failed status)\<rparr>, s')
                  | (Inr entry, s') \<Rightarrow>
                      (Inr \<lparr>jf_url = str_or (journal_entry_url entry) url, jf_finalized = True, jf_error = None,
                         jf_retry = None\<rparr>, s')))"

definition retry_cached_finalization ::
  "('w, 'p) venv \<Rightarrow> pyobj \<Rightarrow> ('w, 'p, finalization) verb_op" where
  "retry_cached_finalization V metadata s =
     (let comments = metadata_str metadata ''comments'';
          interrupted = str_or (metadata_str metadata ''interrupted_comments'') comments;
          failed = str_or (metadata_str metadata ''failed_comments'') comments;
          url = metadata_str metadata ''journal_entry_url''
      in case (metadata_int metadata ''journal_entry_id'', metadata_kind metadata, comments, interrupted, failed) of
           (Some entry_id, Some k, Some text, Some interrupted_text, Some failed_text) \<Rightarrow>
             (case update_resistant V entry_id k text interrupted_text s of
                (Inl Cancelled, s') \<Rightarrow> (Inl Cancelled, s')
              | (Inl e, s') \<Rightarrow>
                  (Inr \<lparr>jf_url = url, jf_finalized = False, jf_error = Some (error_detail_of V e),
                     jf_retry = Some metadata\<rparr>, s')
              | (Inr entry, s') \<Rightarrow>
                  (Inr \<lparr>jf_url = str_or (journal_entry_url entry) url, jf_finalized = True, jf_error = None,
                     jf_retry = None\<rparr>, s'))
         | _ \<Rightarrow>
             (Inr \<lparr>jf_url = url, jf_finalized = False,
                jf_error = Some ''cached journal finalization metadata is incomplete'', jf_retry = Some metadata\<rparr>, s))"


subsection \<open>Responses and the idempotency cache\<close>

definition store_reply ::
  "('w, 'p) venv \<Rightarrow> cache_key \<Rightarrow> pyobj \<Rightarrow> int \<Rightarrow> pyobj option \<Rightarrow> ('w, 'p) vst \<Rightarrow> ('w, 'p) vst" where
  "store_reply V k body status metadata s =
     s\<lparr>vs_idem := idem_store (idem_now V s) k
         \<lparr>cr_response = body, cr_status_code = status, cr_journal_finalization = metadata\<rparr> (vs_idem s)\<rparr>"

definition finalized_body :: "finalization \<Rightarrow> pyobj \<Rightarrow> pyobj" where
  "finalized_body f body =
     (let b1 = dict_pop ''finalization_error'' (dict_pop ''journal_finalized'' body);
          b2 = (if obj_get b1 ''reason'' = PStr ''netbox_journal_finalization_failed'' then dict_pop ''reason'' b1 else b1)
      in case jf_url f of None \<Rightarrow> b2 | Some url \<Rightarrow> dict_set ''journal_entry_url'' (PStr url) b2)"

definition unfinalized_body :: "finalization \<Rightarrow> pyobj \<Rightarrow> pyobj" where
  "unfinalized_body f body =
     (let b1 = dict_set ''journal_finalized'' (PBool False) body;
          b2 = (case jf_error f of None \<Rightarrow> b1 | Some t \<Rightarrow> dict_set ''finalization_error'' (PStr t) b1)
      in dict_setdefault ''reason'' (PStr ''netbox_journal_finalization_failed'') b2)"

definition cached_idempotency_response ::
  "('w, 'p) venv \<Rightarrow> cache_key \<Rightarrow> ('w, 'p, reply option) verb_op" where
  "cached_idempotency_response V k s0 =
     (case get_entry (idem_now V s0) k (vs_idem s0) of
        (found, i) \<Rightarrow>
          (let s = s0\<lparr>vs_idem := i\<rparr>
           in case found of
                None \<Rightarrow> (Inr None, s)
              | Some e \<Rightarrow>
                  (case (obj_get (cr_response e) ''journal_finalized'' = PBool False, cr_journal_finalization e) of
                     (True, Some metadata) \<Rightarrow>
                       (case retry_cached_finalization V metadata s of
                          (Inl x, s') \<Rightarrow> (Inl x, s')
                        | (Inr f, s') \<Rightarrow>
                            if jf_finalized f
                            then let body = finalized_body f (cr_response e);
                                     status = (case metadata_int metadata ''terminal_status_code'' of
                                                 None \<Rightarrow> cr_status_code e | Some n \<Rightarrow> n)
                                 in (Inr (Some \<lparr>rp_status = status, rp_body = body\<rparr>), store_reply V k body status None s')
                            else let body = unfinalized_body f (cr_response e)
                                 in (Inr (Some \<lparr>rp_status = cr_status_code e, rp_body = body\<rparr>),
                                     store_reply V k body (cr_status_code e)
                                       (Some (case jf_retry f of None \<Rightarrow> metadata
                                              | Some m \<Rightarrow> if m = [] then metadata else m)) s'))
                   | _ \<Rightarrow> (Inr (Some \<lparr>rp_status = cr_status_code e, rp_body = cr_response e\<rparr>), s))))"

definition audit_body :: "verb_ctx \<Rightarrow> audit \<Rightarrow> string option \<Rightarrow> pyobj" where
  "audit_body c a url =
     (let b0 = build_success_response (vx_verb c) (vx_kind c) (vx_vmid c) (ep_id (vx_endpoint c)) (au_result a) (vx_at c)
                 (au_upid a) url;
          b1 = (case au_reason a of None \<Rightarrow> b0 | Some t \<Rightarrow> dict_set ''reason'' (PStr t) b0);
          b2 = (case au_error a of None \<Rightarrow> b1 | Some t \<Rightarrow> if au_status a \<ge> 400 then dict_set ''detail'' (PStr t) b1 else b1)
      in case au_extra a of None \<Rightarrow> b2 | Some extra \<Rightarrow> fold (\<lambda>(k, v). dict_setdefault k v) extra b2)"

definition comments_of :: "verb_ctx \<Rightarrow> string \<Rightarrow> string option \<Rightarrow> string option \<Rightarrow> string" where
  "comments_of c result upid err =
     build_journal_comments (vx_verb c) (vx_actor c) result (ep_name (vx_endpoint c)) (ep_id (vx_endpoint c)) (vx_at c)
       upid (vx_key c) err"

definition interrupted_comments :: "verb_ctx \<Rightarrow> audit \<Rightarrow> string" where
  "interrupted_comments c a =
     comments_of c ''interrupted'' (au_upid a)
       (Some ''Journal finalization was interrupted before the terminal state was committed.'')"

definition failed_comments :: "verb_ctx \<Rightarrow> audit \<Rightarrow> string" where
  "failed_comments c a =
     comments_of c ''failed'' (au_upid a) (Some ''Journal finalization failed before the terminal state was committed.'')"

definition audit_comments :: "verb_ctx \<Rightarrow> audit \<Rightarrow> string" where
  "audit_comments c a = comments_of c (au_result a) (au_upid a) (au_error a)"

definition audit_metadata :: "verb_ctx \<Rightarrow> audit \<Rightarrow> int \<Rightarrow> string option \<Rightarrow> pyobj" where
  "audit_metadata c a entry_id url =
     retry_metadata entry_id url (au_kind a) (audit_comments c a) (interrupted_comments c a) (failed_comments c a)
       (au_status a)"

definition pending_body :: "verb_ctx \<Rightarrow> audit \<Rightarrow> string option \<Rightarrow> pyobj" where
  "pending_body c a url =
     dict_setdefault ''reason'' (PStr ''netbox_journal_finalization_failed'')
       (dict_set ''finalization_error'' (PStr ''terminal journal finalization is pending'')
         (dict_set ''journal_finalized'' (PBool False) (audit_body c a url)))"

definition store_pending ::
  "('w, 'p) venv \<Rightarrow> verb_ctx \<Rightarrow> audit \<Rightarrow> ('w, 'p) vst \<Rightarrow> pyobj option \<times> ('w, 'p) vst" where
  "store_pending V c a s =
     (case (vx_cache_key c, journal_entry_id (vs_entry s)) of
        (Some k, Some entry_id) \<Rightarrow>
          (let url = journal_entry_url (vs_entry s); metadata = audit_metadata c a entry_id url
           in (Some metadata, store_reply V k (pending_body c a url) 502 (Some metadata) s))
      | _ \<Rightarrow> (None, s))"

definition final_reply :: "verb_ctx \<Rightarrow> audit \<Rightarrow> finalization \<Rightarrow> reply" where
  "final_reply c a f =
     (let body = audit_body c a (jf_url f)
      in if jf_finalized f then \<lparr>rp_status = au_status a, rp_body = body\<rparr>
         else \<lparr>rp_status = (if au_status a \<ge> 400 then au_status a else 502),
            rp_body =
              dict_setdefault ''reason'' (PStr ''netbox_journal_finalization_failed'')
                (dict_set ''finalization_error''
                  (PStr (case str_or (jf_error f) None of None \<Rightarrow> ''terminal journal finalization failed'' | Some t \<Rightarrow> t))
                  (dict_set ''journal_finalized'' (PBool False) body))\<rparr>)"

definition store_final ::
  "('w, 'p) venv \<Rightarrow> verb_ctx \<Rightarrow> finalization \<Rightarrow> pyobj option \<Rightarrow> reply \<Rightarrow> ('w, 'p) vst \<Rightarrow> ('w, 'p) vst" where
  "store_final V c f preliminary r s =
     (case vx_cache_key c of
        None \<Rightarrow> s
      | Some k \<Rightarrow>
          if jf_finalized f then store_reply V k (rp_body r) (rp_status r) None s
          else case opt_or (jf_retry f) preliminary of
            None \<Rightarrow> s
          | Some metadata \<Rightarrow> store_reply V k (rp_body r) (rp_status r) (Some metadata) s)"

definition audit_and_respond :: "('w, 'p) venv \<Rightarrow> verb_ctx \<Rightarrow> audit \<Rightarrow> ('w, 'p, reply) verb_op" where
  "audit_and_respond V c a s =
     (case (if journal_entry_is_terminal (vs_entry s) then (None, s) else store_pending V c a s) of
        (preliminary, s1) \<Rightarrow>
          (case finalize_journal_entry V c (au_kind a) (audit_comments c a) (interrupted_comments c a)
                  (failed_comments c a) (au_status a) s1 of
             (Inl e, s2) \<Rightarrow> (Inl e, s2)
           | (Inr f, s2) \<Rightarrow> (Inr (final_reply c a f), store_final V c f preliminary (final_reply c a f) s2)))"

definition unexpected_dispatch_result :: "('w, 'p) venv \<Rightarrow> base_exc \<Rightarrow> string \<times> string" where
  "unexpected_dispatch_result V e =
     (if e = Cancelled then (''interrupted'', ''Operation interrupted before the Proxmox call returned.'')
      else (''failed'', type_name V e @ '': '' @ (if base_text e \<noteq> [] then base_text e else type_name V e)))"

definition finalize_after_unexpected ::
  "('w, 'p) venv \<Rightarrow> verb_ctx \<Rightarrow> base_exc \<Rightarrow> string option \<Rightarrow> pyobj option \<Rightarrow> ('w, 'p) vst \<Rightarrow> ('w, 'p) vst" where
  "finalize_after_unexpected V c e upid extra s =
     (if journal_entry_is_terminal (vs_entry s) then s
      else case unexpected_dispatch_result V e of
        (result, err) \<Rightarrow>
          snd (audit_and_respond V c
            \<lparr>au_result = result, au_kind = ''warning'', au_upid = upid, au_error = Some err, au_status = 500,
             au_reason = Some (if e = Cancelled then ''proxmox_dispatch_interrupted'' else ''proxmox_dispatch_unexpected_error''),
             au_extra = extra\<rparr> s))"

text \<open>\<^verbatim>\<open>_await_with_interruption_journal\<close>.\<close>

definition guarded ::
  "('w, 'p) venv \<Rightarrow> verb_ctx \<Rightarrow> string option \<Rightarrow> pyobj option \<Rightarrow> ('w, 'p, 'a) verb_op \<Rightarrow> ('w, 'p, 'a) verb_op" where
  "guarded V c upid extra m s =
     (case m s of
        (Inr v, s') \<Rightarrow> (Inr v, s')
      | (Inl (ApiExc e), s') \<Rightarrow> (Inl (ApiExc e), s')
      | (Inl e, s') \<Rightarrow> (Inl e, finalize_after_unexpected V c e upid extra s'))"


subsection \<open>The write-ahead entry\<close>

definition audit_target_reply :: "int \<Rightarrow> pyval \<Rightarrow> verb_ctx \<Rightarrow> reply" where
  "audit_target_reply status detail c =
     \<lparr>rp_status = status,
      rp_body = [(''reason'', PStr ''netbox_vm_identity_required_for_audit''), (''detail'', detail),
        (''verb'', PStr (vx_verb c)), (''vmid'', PInt (vx_vmid c)), (''endpoint_id'', PInt (ep_id (vx_endpoint c)))]\<rparr>"

definition resolve_audit_target :: "('w, 'p) venv \<Rightarrow> verb_ctx \<Rightarrow> ('w, 'p, reply + int option) verb_op" where
  "resolve_audit_target V c s =
     (let fail_closed = vx_verb c \<in> set audit_required_verbs
      in case resolve_netbox_vm_id V (vx_vmid c) (Some (ep_id (vx_endpoint c))) None fail_closed s of
           (r, s') \<Rightarrow>
             if is_cancelled V s' then (Inl Cancelled, s')
             else case r of
               Inl (Exc (ProxboxException m detail p st)) \<Rightarrow>
                 (Inr (Inl (audit_target_reply st
                    (if detail \<noteq> PNone then detail else PStr (exc_str (ProxboxException m detail p st))) c)), s')
             | Inl e \<Rightarrow> (Inl e, s')
             | Inr v \<Rightarrow>
                 (if fail_closed \<and> v = None
                  then (Inr (Inl (audit_target_reply 409
                      (PStr ''Refusing to dispatch operational verb without a durable NetBox VM audit journal target.'') c)), s')
                  else (Inr (Inr v), s')))"

definition writeahead_failure :: "verb_ctx \<Rightarrow> reply" where
  "writeahead_failure c =
     audit_target_reply 409
       (PStr ''Refusing to dispatch operational verb because the write-ahead NetBox VM audit journal entry could not be created.'') c"

definition create_writeahead :: "('w, 'p) venv \<Rightarrow> verb_ctx \<Rightarrow> ('w, 'p, reply option) verb_op" where
  "create_writeahead V c s =
     (case (if vx_verb c \<in> set audit_required_verbs then vx_vm c else None) of
        None \<Rightarrow> (Inr None, s\<lparr>vs_entry := None\<rparr>)
      | Some vm \<Rightarrow>
          (case write_verb_journal_entry V vm ''info'' (comments_of c ''in_progress'' None None) s of
             (r, s1) \<Rightarrow>
               if is_cancelled V s1
               then (Inl Cancelled,
                     case r of
                       Inl _ \<Rightarrow> s1
                     | Inr entry \<Rightarrow>
                         if journal_entry_id entry = None then s1
                         else finalize_after_unexpected V c Cancelled None None (s1\<lparr>vs_entry := entry\<rparr>))
               else case r of
                 Inl _ \<Rightarrow> (Inr (Some (writeahead_failure c)), s1)
               | Inr entry \<Rightarrow>
                   if journal_entry_id entry = None then (Inr (Some (writeahead_failure c)), s1)
                   else (Inr None, s1\<lparr>vs_entry := entry\<rparr>)))"

end
