(* ===== verification/Verb_Actions.thy ===== *)
theory Verb_Actions
  imports Verb_Journal
begin

text \<open>
  The operational verbs (\<^verbatim>\<open>routes/proxmox_actions.py\<close>): the gate, the eight dispatchers and their handlers,
  and the cancellation of a migration. Every dispatcher opens with the same text, \<open>verb_prologue\<close>: the
  cached response, the Proxmox session, the node, the audit target and the write-ahead entry; what
  follows is its own. \<open>None\<close> for an \<^verbatim>\<open>Idempotency-Key\<close> and an empty one both mean no key.
\<close>

definition endpoint_reply :: "string \<Rightarrow> string \<Rightarrow> pyobj \<Rightarrow> reply" where
  "endpoint_reply reason detail extra =
     \<lparr>rp_status = 403, rp_body = [(''reason'', PStr reason), (''detail'', PStr detail)] @ extra\<rparr>"

definition gate :: "('w, 'p) venv \<Rightarrow> int option \<Rightarrow> string \<Rightarrow> ('w, 'p) vst \<Rightarrow> reply + endpoint" where
  "gate V endpoint_id writes_disabled_reason s =
     (case endpoint_id of
        None \<Rightarrow>
          Inl (endpoint_reply ''endpoint_id_required''
            ''Operational verbs require an explicit endpoint_id query parameter so the gate can resolve the target Proxmox cluster.'' [])
      | Some i \<Rightarrow>
          (case endpoint_row V i (nb_world s) (vs_px s) of
             None \<Rightarrow> Inl (endpoint_reply ''endpoint_not_found'' (''No ProxmoxEndpoint with id='' @ int_str i @ ''.'') [])
           | Some ep \<Rightarrow>
               if \<not> ep_allow_writes ep
               then Inl (endpoint_reply writes_disabled_reason
                      ''Operational verbs are disabled on this endpoint. Enable ProxmoxEndpoint.allow_writes on the NetBox side after granting core.run_proxmox_action to the operator group.''
                      [(''endpoint_id'', PInt (ep_id ep))])
               else Inr ep))"

definition is_stopped :: "pyval \<Rightarrow> bool" where
  "is_stopped status = (status = PStr ''stopped'')"

definition is_running :: "pyval \<Rightarrow> bool" where
  "is_running status = (status = PStr ''running'')"

record verb_request =
  vr_verb :: string
  vr_kind :: vm_kind
  vr_vmid :: int
  vr_endpoint :: endpoint
  vr_actor :: string
  vr_key :: "string option"

definition idempotency_cache_key :: "verb_request \<Rightarrow> cache_key option" where
  "idempotency_cache_key r =
     (case str_or (vr_key r) None of
        None \<Rightarrow> None
      | Some k \<Rightarrow> Some \<lparr>ck_endpoint_id = ep_id (vr_endpoint r), ck_verb = vr_verb r, ck_vmid = vr_vmid r, ck_key = k\<rparr>)"

definition ctx_of :: "verb_request \<Rightarrow> cache_key option \<Rightarrow> string \<Rightarrow> int option \<Rightarrow> verb_ctx" where
  "ctx_of r k stamp vm =
     \<lparr>vx_verb = vr_verb r, vx_kind = vr_kind r, vx_vmid = vr_vmid r, vx_endpoint = vr_endpoint r, vx_actor = vr_actor r,
      vx_at = stamp, vx_key = vr_key r, vx_cache_key = k, vx_vm = vm\<rparr>"

text \<open>Opening the Proxmox session: a \<^verbatim>\<open>ProxboxException\<close> is a gateway error, anything else is raised.\<close>

definition service_error :: "base_exc \<Rightarrow> bool" where
  "service_error e = (case e of ApiExc _ \<Rightarrow> True | Exc (ProxboxException _ _ _ _) \<Rightarrow> True | _ \<Rightarrow> False)"

definition open_session :: "('w, 'p) venv \<Rightarrow> endpoint \<Rightarrow> ('w, 'p, reply option) verb_op" where
  "open_session V ep s =
     (case open_proxmox V ep (nb_world s) (vs_px s) of
        (None, p) \<Rightarrow> (Inr None, s\<lparr>vs_px := p\<rparr>)
      | (Some e, p) \<Rightarrow>
          (if \<not> service_error e then Inl e
           else Inr (Some \<lparr>rp_status = 502,
             rp_body = [(''reason'', PStr ''proxmox_session_unreachable''), (''detail'', PStr (base_text e)),
               (''endpoint_id'', PInt (ep_id ep))]\<rparr>), s\<lparr>vs_px := p\<rparr>))"

definition after_session ::
  "('w, 'p) venv \<Rightarrow> verb_request \<Rightarrow> cache_key option \<Rightarrow> (string \<Rightarrow> verb_ctx \<Rightarrow> ('w, 'p, reply) verb_op) \<Rightarrow> ('w, 'p, reply) verb_op" where
  "after_session V r k body =
     bind_op (open_session V (vr_endpoint r)) (\<lambda>unreachable.
       case unreachable of
         Some refused \<Rightarrow> (\<lambda>s. (Inr refused, s))
       | None \<Rightarrow>
           bind_op (resolve_proxmox_node V (vr_kind r) (vr_vmid r)) (\<lambda>node_or_error.
             case node_or_error of
               Inl refused \<Rightarrow> (\<lambda>s. (Inr refused, s))
             | Inr node \<Rightarrow>
                 bind_op (resolve_audit_target V (ctx_of r k [] None)) (\<lambda>target.
                   case target of
                     Inl refused \<Rightarrow> (\<lambda>s. (Inr refused, s))
                   | Inr vm \<Rightarrow>
                       (\<lambda>s. let c = ctx_of r k (now_iso V (nb_world s) (vs_px s)) vm in
                          bind_op (create_writeahead V c) (\<lambda>failure.
                            case failure of
                              Some refused \<Rightarrow> (\<lambda>s. (Inr refused, s))
                            | None \<Rightarrow> body node c) s))))"

definition verb_prologue ::
  "('w, 'p) venv \<Rightarrow> verb_request \<Rightarrow> (string \<Rightarrow> verb_ctx \<Rightarrow> ('w, 'p, reply) verb_op) \<Rightarrow> ('w, 'p, reply) verb_op" where
  "verb_prologue V r body s0 =
     (let s = s0\<lparr>vs_entry := None\<rparr>
      in case idempotency_cache_key r of
           None \<Rightarrow> after_session V r None body s
         | Some k \<Rightarrow>
             bind_op (cached_idempotency_response V k) (\<lambda>cached.
               case cached of
                 Some answer \<Rightarrow> (\<lambda>s. (Inr answer, s))
               | None \<Rightarrow> after_session V r (Some k) body) s)"

definition failed_audit :: "string \<Rightarrow> py_exc \<Rightarrow> pyobj option \<Rightarrow> audit" where
  "failed_audit reason e extra =
     \<lparr>au_result = ''failed'', au_kind = ''warning'', au_upid = None, au_error = Some (exc_str e), au_status = 502,
      au_reason = Some reason, au_extra = extra\<rparr>"

definition done_audit :: "string \<Rightarrow> string option \<Rightarrow> pyobj option \<Rightarrow> audit" where
  "done_audit result upid extra =
     \<lparr>au_result = result, au_kind = ''info'', au_upid = upid, au_error = None, au_status = 200, au_reason = None,
      au_extra = extra\<rparr>"


subsection \<open>Start, stop and reboot\<close>

definition dispatch_start :: "('w, 'p) venv \<Rightarrow> verb_request \<Rightarrow> ('w, 'p, reply) verb_op" where
  "dispatch_start V r =
     verb_prologue V r (\<lambda>node c.
       try_api (guarded V c None None (get_vm_status V node (vr_kind r) (vr_vmid r)))
         (\<lambda>e. audit_and_respond V c (failed_audit ''proxmox_status_unreachable'' e None))
         (\<lambda>current.
            if is_running current then audit_and_respond V c (done_audit ''already_running'' None None)
            else try_api (guarded V c None None (start_vm V node (vr_kind r) (vr_vmid r)))
                   (\<lambda>e. audit_and_respond V c (failed_audit ''proxmox_dispatch_failed'' e None))
                   (\<lambda>upid. audit_and_respond V c (done_audit ''ok'' (Some upid) None))))"

definition dispatch_stop :: "('w, 'p) venv \<Rightarrow> verb_request \<Rightarrow> ('w, 'p, reply) verb_op" where
  "dispatch_stop V r =
     verb_prologue V r (\<lambda>node c.
       try_api (guarded V c None None (get_vm_status V node (vr_kind r) (vr_vmid r)))
         (\<lambda>e. audit_and_respond V c (failed_audit ''proxmox_status_unreachable'' e None))
         (\<lambda>current.
            if is_stopped current then audit_and_respond V c (done_audit ''already_stopped'' None None)
            else try_api (guarded V c None None (stop_vm V node (vr_kind r) (vr_vmid r)))
                   (\<lambda>e. audit_and_respond V c (failed_audit ''proxmox_dispatch_failed'' e None))
                   (\<lambda>upid. audit_and_respond V c (done_audit ''ok'' (Some upid) None))))"

definition dispatch_reboot :: "('w, 'p) venv \<Rightarrow> verb_request \<Rightarrow> ('w, 'p, reply) verb_op" where
  "dispatch_reboot V r =
     verb_prologue V r (\<lambda>node c.
       try_api (guarded V c None None (get_vm_status V node (vr_kind r) (vr_vmid r)))
         (\<lambda>e. audit_and_respond V c (failed_audit ''proxmox_status_unreachable'' e None))
         (\<lambda>current.
            if is_stopped current then audit_and_respond V c (done_audit ''already_stopped'' None None)
            else try_api (guarded V c None None (reboot_vm V node (vr_kind r) (vr_vmid r)))
                   (\<lambda>e. audit_and_respond V c (failed_audit ''proxmox_dispatch_failed'' e None))
                   (\<lambda>upid. audit_and_respond V c (done_audit ''ok'' (Some upid) None))))"


subsection \<open>Delete\<close>

text \<open>
  The destroy dispatcher of the intent routes, without its own journal. It checks the gate again and
  opens a session of its own; every failure comes back as an \<^verbatim>\<open>HTTPException\<close> with a scrubbed text.
\<close>

definition secret_value_char :: "char \<Rightarrow> bool" where
  "secret_value_char ch = (ch \<notin> {CHR '','', CHR 0x22, CHR 0x27, CHR ''}'', CHR '']''} \<and> \<not> py_space ch)"

definition message_word :: "string \<Rightarrow> string option" where
  "message_word s =
     (case List.map_filter (\<lambda>w. drop_word w s) [''password'', ''cipassword'', ''secret'', ''token''] of
        [] \<Rightarrow> None
      | r # _ \<Rightarrow> Some r)"

lemma message_word_length: "message_word s = Some r \<Longrightarrow> length r \<le> length s"
  by (auto simp: message_word_def List.map_filter_def split: list.splits if_splits option.splits dest: drop_word_length)

text \<open>The rest of \<open>s\<close> from the secret on, for a match of the first pattern of \<^verbatim>\<open>scrub_message\<close> at its head.\<close>

definition match_message :: "string \<Rightarrow> string option" where
  "match_message s =
     (case message_word s of
        None \<Rightarrow> None
      | Some r \<Rightarrow>
          (case dropWhile py_space (skip_quote r) of
             [] \<Rightarrow> None
           | ch # t \<Rightarrow>
               if ch \<noteq> CHR '':'' \<and> ch \<noteq> CHR ''='' then None
               else let q = skip_quote (dropWhile py_space t)
                    in if takeWhile secret_value_char q \<noteq> [] then Some q else None))"

lemma match_message_length: "match_message s = Some r \<Longrightarrow> length r < length s"
proof -
  assume "match_message s = Some r"
  then obtain u ch t where u: "message_word s = Some u" "dropWhile py_space (skip_quote u) = ch # t"
    "r = skip_quote (dropWhile py_space t)"
    by (auto simp: match_message_def Let_def split: option.splits list.splits if_splits)
  have "length (ch # t) \<le> length (skip_quote u)" using u(2) length_dropWhile_le [of py_space "skip_quote u"] by simp
  moreover have "length (skip_quote u) \<le> length s" using skip_quote_length [of u] message_word_length [OF u(1)] by simp
  moreover have "length r \<le> length t"
    using u(3) skip_quote_length [of "dropWhile py_space t"] length_dropWhile_le [of py_space t] by simp
  ultimately show ?thesis by simp
qed

function mask_secrets :: "string \<Rightarrow> string" where
  "mask_secrets s =
     (case s of
        [] \<Rightarrow> []
      | ch # cs \<Rightarrow>
          (case match_message s of
             None \<Rightarrow> ch # mask_secrets cs
           | Some r \<Rightarrow> take (length s - length r) s @ ''***'' @ mask_secrets (dropWhile secret_value_char r)))"
  by pat_completeness auto
termination
proof (relation "measure length")
  fix s r :: string and ch cs
  assume "s = ch # cs" "match_message s = Some r"
  then have "length r < length s" using match_message_length by blast
  then show "(dropWhile secret_value_char r, s) \<in> measure length"
    using length_dropWhile_le [of secret_value_char r] by simp
qed auto

declare mask_secrets.simps [simp del]

definition scrub_message :: "string \<Rightarrow> string" where
  "scrub_message message = scrub_text (mask_secrets message)"

definition extract_upid :: "pyval \<Rightarrow> string option" where
  "extract_upid response =
     (case response of
        PStr t \<Rightarrow> Some t
      | PDict d \<Rightarrow>
          (case obj_get d ''data'' of
             PStr t \<Rightarrow> Some t
           | PDict e \<Rightarrow>
               (let upid = py_or (obj_get e ''upid'') (obj_get e ''UPID'')
                in if upid = PNone then None else Some (py_str upid))
           | _ \<Rightarrow> Some (py_str response))
      | PNone \<Rightarrow> None
      | _ \<Rightarrow> Some (py_str response))"

definition destroy_rq :: "string \<Rightarrow> vm_kind \<Rightarrow> int \<Rightarrow> px_request" where
  "destroy_rq node k vmid = px_delete (vm_path node k vmid []) [(''purge'', PInt 1)]"

text \<open>The failure texts of the two steps inside its \<^verbatim>\<open>try\<close>; a cancellation passes through.\<close>

definition outcome_failure :: "px_outcome \<Rightarrow> (base_exc, string) sum option" where
  "outcome_failure out =
     (case out of
        PxReturn _ \<Rightarrow> None
      | PxTimeout t \<Rightarrow> Some (Inr t)
      | PxConnection t \<Rightarrow> Some (Inr t)
      | PxRaised Cancelled \<Rightarrow> Some (Inl Cancelled)
      | PxRaised e \<Rightarrow> Some (Inr (base_text e)))"

definition http_exception :: "int \<Rightarrow> string \<Rightarrow> base_exc" where
  "http_exception status detail = Exc (OtherError (int_str status @ '': '' @ detail))"

text \<open>\<open>Inr (status, detail)\<close> in the failure position is the \<^verbatim>\<open>HTTPException\<close>.\<close>

definition dispatch_destroy ::
  "('w, 'p) venv \<Rightarrow> int \<Rightarrow> vm_kind \<Rightarrow> int \<Rightarrow> string \<Rightarrow> ('w, 'p) vst \<Rightarrow> ((base_exc, int \<times> string) sum + string option) \<times> ('w, 'p) vst" where
  "dispatch_destroy V endpoint_id k vmid node s =
     (case gate V (Some endpoint_id) ''endpoint_writes_disabled'' s of
        Inl _ \<Rightarrow> (Inl (Inr (403, ''writes_disabled_for_endpoint'')), s)
      | Inr ep \<Rightarrow>
          (case open_proxmox V ep (nb_world s) (vs_px s) of
             (Some Cancelled, p) \<Rightarrow> (Inl (Inl Cancelled), s\<lparr>vs_px := p\<rparr>)
           | (Some e, p) \<Rightarrow> (Inl (Inr (502, scrub_message (base_text e))), s\<lparr>vs_px := p\<rparr>)
           | (None, p) \<Rightarrow>
               (case px_send V (destroy_rq node k vmid) (s\<lparr>vs_px := p\<rparr>) of
                  (out, s') \<Rightarrow>
                    (case outcome_failure out of
                       Some (Inl e) \<Rightarrow> (Inl (Inl e), s')
                     | Some (Inr t) \<Rightarrow> (Inl (Inr (502, scrub_message t)), s')
                     | None \<Rightarrow> (Inr (case out of PxReturn v \<Rightarrow> extract_upid v | _ \<Rightarrow> None), s')))))"

definition delete_vm_via_intent ::
  "('w, 'p) venv \<Rightarrow> endpoint \<Rightarrow> vm_kind \<Rightarrow> int \<Rightarrow> string \<Rightarrow> ('w, 'p, string option) verb_op" where
  "delete_vm_via_intent V ep k vmid node s =
     (case dispatch_destroy V (ep_id ep) k vmid node s of
        (Inl (Inl e), s') \<Rightarrow> (Inl e, s')
      | (Inl (Inr (status, detail)), s') \<Rightarrow>
          (Inl (ApiExc (ProxboxException detail PNone (Some (int_str status @ '': '' @ detail)) 502)), s')
      | (Inr upid, s') \<Rightarrow> (Inr upid, s'))"

definition delete_extra :: "string option \<Rightarrow> pyobj option" where
  "delete_extra stop_upid = map_option (\<lambda>u. [(''stop_task_upid'', PStr u)]) stop_upid"

text \<open>The answer is the stop task and, when the preparation failed, the response.\<close>

definition prepare_delete ::
  "('w, 'p) venv \<Rightarrow> verb_ctx \<Rightarrow> string \<Rightarrow> ('w, 'p, string option \<times> reply option) verb_op" where
  "prepare_delete V c node =
     try_api (get_vm_status V node (vx_kind c) (vx_vmid c))
       (\<lambda>e. bind_op (audit_and_respond V c (failed_audit ''proxmox_status_unreachable'' e None)) (\<lambda>a s. (Inr (None, Some a), s)))
       (\<lambda>current.
          if \<not> is_running current then (\<lambda>s. (Inr (None, None), s))
          else try_api (stop_vm V node (vx_kind c) (vx_vmid c))
                 (\<lambda>e. bind_op (audit_and_respond V c (failed_audit ''proxmox_dispatch_failed'' e None)) (\<lambda>a s. (Inr (None, Some a), s)))
                 (\<lambda>upid s. (Inr (Some upid, None), s)))"

definition dispatch_delete :: "('w, 'p) venv \<Rightarrow> verb_request \<Rightarrow> ('w, 'p, reply) verb_op" where
  "dispatch_delete V r =
     verb_prologue V r (\<lambda>node c.
       bind_op (guarded V c None None (prepare_delete V c node)) (\<lambda>(stop_upid, prepared).
         case prepared of
           Some answer \<Rightarrow> (\<lambda>s. (Inr answer, s))
         | None \<Rightarrow>
             try_api (guarded V c None (delete_extra stop_upid)
                        (delete_vm_via_intent V (vr_endpoint r) (vr_kind r) (vr_vmid r) node))
               (\<lambda>e. audit_and_respond V c (failed_audit ''proxmox_dispatch_failed'' e (delete_extra stop_upid)))
               (\<lambda>upid. audit_and_respond V c (done_audit ''ok'' upid (delete_extra stop_upid)))))"


subsection \<open>Snapshots, backup and migration\<close>

definition default_snapname :: "('w, 'p) venv \<Rightarrow> string option \<Rightarrow> ('w, 'p) vst \<Rightarrow> string" where
  "default_snapname V key s =
     (case str_or key None of
        Some k \<Rightarrow> ''proxbox-'' @ take 8 k
      | None \<Rightarrow> ''proxbox-'' @ now_stamp V (nb_world s) (vs_px s))"

definition snapshot_named ::
  "('w, 'p) venv \<Rightarrow> verb_request \<Rightarrow> string option \<Rightarrow> string \<Rightarrow> verb_ctx \<Rightarrow> string \<Rightarrow> ('w, 'p, reply) verb_op" where
  "snapshot_named V r description node c name =
     (let extra = Some [(''snapname'', PStr name)]
      in try_api (guarded V c None extra (create_vm_snapshot V node (vr_kind r) (vr_vmid r) name description))
           (\<lambda>e. audit_and_respond V c (failed_audit ''proxmox_dispatch_failed'' e extra))
           (\<lambda>upid. audit_and_respond V c (done_audit ''ok'' (Some upid) extra)))"

definition dispatch_snapshot ::
  "('w, 'p) venv \<Rightarrow> verb_request \<Rightarrow> string option \<Rightarrow> string option \<Rightarrow> ('w, 'p, reply) verb_op" where
  "dispatch_snapshot V r snapname description =
     verb_prologue V r (\<lambda>node c s.
       snapshot_named V r description node c
         (case str_or snapname None of Some n \<Rightarrow> n | None \<Rightarrow> default_snapname V (vr_key r) s) s)"

definition dispatch_backup ::
  "('w, 'p) venv \<Rightarrow> verb_request \<Rightarrow> string \<Rightarrow> string \<Rightarrow> string \<Rightarrow> string option \<Rightarrow> ('w, 'p, reply) verb_op" where
  "dispatch_backup V r storage mode compress notes =
     verb_prologue V r (\<lambda>node c.
       let extra = Some ([(''storage'', PStr storage), (''mode'', PStr mode), (''compress'', PStr compress)] @
                         opt_str_item ''notes'' notes)
       in try_api (guarded V c None extra (backup_vm V node (vr_vmid r) storage mode compress notes))
            (\<lambda>e. audit_and_respond V c (failed_audit ''proxmox_dispatch_failed'' e extra))
            (\<lambda>upid. audit_and_respond V c (done_audit ''ok'' (Some upid) extra)))"

definition dispatch_delete_snapshot :: "('w, 'p) venv \<Rightarrow> verb_request \<Rightarrow> string \<Rightarrow> ('w, 'p, reply) verb_op" where
  "dispatch_delete_snapshot V r snapname =
     verb_prologue V r (\<lambda>node c.
       let extra = Some [(''snapname'', PStr snapname)]
       in try_api (guarded V c None extra (delete_vm_snapshot V node (vr_kind r) (vr_vmid r) snapname))
            (\<lambda>e. audit_and_respond V c (failed_audit ''proxmox_dispatch_failed'' e extra))
            (\<lambda>upid. audit_and_respond V c (done_audit ''ok'' (Some upid) extra)))"

definition migrate_sse_url :: "vm_kind \<Rightarrow> int \<Rightarrow> string \<Rightarrow> string" where
  "migrate_sse_url k vmid upid = ''/proxmox/'' @ kind_str k @ ''/'' @ int_str vmid @ ''/migrate/'' @ upid @ ''/stream''"

definition blocks_online :: "pyobj \<Rightarrow> string \<Rightarrow> bool" where
  "blocks_online preflight field =
     (case py_or (obj_get preflight field) (PList []) of PList xs \<Rightarrow> xs \<noteq> [] | _ \<Rightarrow> False)"

definition preflight_rejection :: "pyobj \<Rightarrow> string \<Rightarrow> bool \<Rightarrow> (string \<times> string) option" where
  "preflight_rejection preflight target online =
     (let allowed = py_or (obj_get preflight ''allowed_nodes'') (PList [])
      in if (case allowed of PList nodes \<Rightarrow> \<not> list_ex (\<lambda>n. py_eq (PStr target) n) nodes | _ \<Rightarrow> False)
         then Some (''target_not_allowed'',
                ''target '' @ str_repr target @ '' is not in allowed_nodes='' @ py_repr allowed)
         else if online \<and> blocks_online preflight ''local_disks''
         then Some (''local_disks_block_online_migrate'',
                ''Online migration is blocked by local-only disks on the source node.'')
         else if online \<and> blocks_online preflight ''local_resources''
         then Some (''local_resources_block_online_migrate'',
                ''Online migration is blocked by local resources on the source node.'')
         else None)"

definition dispatch_migrate :: "('w, 'p) venv \<Rightarrow> verb_request \<Rightarrow> string \<Rightarrow> bool \<Rightarrow> ('w, 'p, reply) verb_op" where
  "dispatch_migrate V r target online =
     verb_prologue V r (\<lambda>node c.
       try_api (guarded V c None None (migrate_preflight V node (vr_kind r) (vr_vmid r)))
         (\<lambda>e. audit_and_respond V c (failed_audit ''proxmox_preflight_failed'' e None))
         (\<lambda>preflight.
            case preflight_rejection preflight target online of
              Some (reason, detail) \<Rightarrow>
                audit_and_respond V c
                  \<lparr>au_result = ''rejected'', au_kind = ''warning'', au_upid = None, au_error = Some detail, au_status = 400,
                   au_reason = Some reason,
                   au_extra = Some [(''preflight'', PDict preflight), (''target'', PStr target), (''online'', PBool online)]\<rparr>
            | None \<Rightarrow>
                try_api (guarded V c None
                    (Some [(''target'', PStr target), (''online'', PBool online), (''source_node'', PStr node)])
                    (migrate_vm V node (vr_kind r) (vr_vmid r) target online))
                  (\<lambda>e. audit_and_respond V c (failed_audit ''proxmox_dispatch_failed'' e None))
                  (\<lambda>upid. audit_and_respond V c
                     \<lparr>au_result = ''accepted'', au_kind = ''info'', au_upid = Some upid, au_error = None, au_status = 202,
                      au_reason = None,
                      au_extra = Some [(''sse_url'', PStr (migrate_sse_url (vr_kind r) (vr_vmid r) upid)),
                        (''target'', PStr target), (''online'', PBool online), (''source_node'', PStr node)]\<rparr>)))"


subsection \<open>Handlers\<close>

text \<open>
  The arguments that tell the verbs apart, each with what its handler takes from the request body. A
  body is \<open>None\<close> when the request has none.
\<close>

record snapshot_body =
  sb_snapname :: "string option"
  sb_description :: "string option"

record backup_body =
  bb_storage :: "string option"
  bb_mode :: string
  bb_compress :: string
  bb_notes :: "string option"

record migrate_body =
  mb_target :: "string option"
  mb_online :: bool

datatype verb_call =
    Start
  | Stop
  | Reboot
  | Delete
  | Snapshot "snapshot_body option"
  | Backup "backup_body option"
  | Delete_snapshot string
  | Migrate "migrate_body option"

definition verb_str :: "verb_call \<Rightarrow> string" where
  "verb_str v =
     (case v of Start \<Rightarrow> ''start'' | Stop \<Rightarrow> ''stop'' | Reboot \<Rightarrow> ''reboot'' | Delete \<Rightarrow> ''delete''
      | Snapshot _ \<Rightarrow> ''snapshot'' | Backup _ \<Rightarrow> ''backup'' | Delete_snapshot _ \<Rightarrow> ''delete_snapshot''
      | Migrate _ \<Rightarrow> ''migrate'')"

definition disabled_reason :: "verb_call \<Rightarrow> string" where
  "disabled_reason v =
     (case v of Reboot \<Rightarrow> ''writes_disabled_for_endpoint'' | Delete \<Rightarrow> ''writes_disabled_for_endpoint''
      | Backup _ \<Rightarrow> ''writes_disabled_for_endpoint'' | Delete_snapshot _ \<Rightarrow> ''writes_disabled_for_endpoint''
      | _ \<Rightarrow> ''endpoint_writes_disabled'')"

text \<open>The checks of the body, made after the gate.\<close>

definition bad_body :: "verb_call \<Rightarrow> reply option" where
  "bad_body v =
     (case v of
        Backup b \<Rightarrow>
          if (case b of None \<Rightarrow> None | Some x \<Rightarrow> str_or (bb_storage x) None) = None
          then Some \<lparr>rp_status = 400, rp_body = [(''reason'', PStr ''storage_required''),
                 (''detail'', PStr (''Backup verb requires a JSON body with a non-empty '' @ str_repr ''storage'' @ '' field.''))]\<rparr>
          else None
      | Migrate b \<Rightarrow>
          if (case b of None \<Rightarrow> None | Some x \<Rightarrow> str_or (mb_target x) None) = None
          then Some \<lparr>rp_status = 400, rp_body = [(''reason'', PStr ''target_required''),
                 (''detail'', PStr (''Migrate verb requires a JSON body with a non-empty '' @ str_repr ''target'' @ '' field.''))]\<rparr>
          else None
      | _ \<Rightarrow> None)"

definition dispatch_verb :: "('w, 'p) venv \<Rightarrow> verb_call \<Rightarrow> verb_request \<Rightarrow> ('w, 'p, reply) verb_op" where
  "dispatch_verb V v r =
     (case v of
        Start \<Rightarrow> dispatch_start V r
      | Stop \<Rightarrow> dispatch_stop V r
      | Reboot \<Rightarrow> dispatch_reboot V r
      | Delete \<Rightarrow> dispatch_delete V r
      | Snapshot None \<Rightarrow> dispatch_snapshot V r None None
      | Snapshot (Some b) \<Rightarrow> dispatch_snapshot V r (sb_snapname b) (sb_description b)
      | Backup None \<Rightarrow> (\<lambda>s. (Inl (Exc (OtherError [])), s))
      | Backup (Some b) \<Rightarrow>
          dispatch_backup V r (case bb_storage b of None \<Rightarrow> [] | Some t \<Rightarrow> t) (bb_mode b) (bb_compress b) (bb_notes b)
      | Delete_snapshot name \<Rightarrow> dispatch_delete_snapshot V r name
      | Migrate None \<Rightarrow> (\<lambda>s. (Inl (Exc (OtherError [])), s))
      | Migrate (Some b) \<Rightarrow> dispatch_migrate V r (case mb_target b of None \<Rightarrow> [] | Some t \<Rightarrow> t) (mb_online b))"

text \<open>
  \<^verbatim>\<open>async with cache.single_flight(key)\<close>. While another request holds the key this one waits;
  \<open>others\<close> is what the other requests have made of the cache when the lock is free.
\<close>

definition enter_single_flight :: "('w, 'p) venv \<Rightarrow> cache_key \<Rightarrow> ('w, 'p) vst \<Rightarrow> nat \<times> idem_cache" where
  "enter_single_flight V k s =
     (case sf_register (idem_now V s) k (vs_idem s) of
        (f, i) \<Rightarrow>
          (f, case sf_acquire f i of
                Some j \<Rightarrow> j
              | None \<Rightarrow> (case sf_acquire f (others V f i) of Some j \<Rightarrow> j | None \<Rightarrow> others V f i)))"

definition run_single_flight ::
  "('w, 'p) venv \<Rightarrow> cache_key option \<Rightarrow> ('w, 'p, 'a) verb_op \<Rightarrow> ('w, 'p, 'a) verb_op" where
  "run_single_flight V key operation s =
     (case key of
        None \<Rightarrow> operation s
      | Some k \<Rightarrow>
          (case enter_single_flight V k s of
             (f, held) \<Rightarrow>
               (case operation (s\<lparr>vs_idem := held\<rparr>) of
                  (res, s') \<Rightarrow> (res, s'\<lparr>vs_idem := release_single_flight k f (sf_release f (vs_idem s'))\<rparr>))))"

definition verb_request_of :: "verb_call \<Rightarrow> vm_kind \<Rightarrow> int \<Rightarrow> endpoint \<Rightarrow> string option \<Rightarrow> string \<Rightarrow> verb_request" where
  "verb_request_of v k vmid ep key actor =
     \<lparr>vr_verb = verb_str v, vr_kind = k, vr_vmid = vmid, vr_endpoint = ep, vr_actor = actor, vr_key = key\<rparr>"

definition handle_verb ::
  "('w, 'p) venv \<Rightarrow> verb_call \<Rightarrow> vm_kind \<Rightarrow> int \<Rightarrow> int option \<Rightarrow> string option \<Rightarrow> string \<Rightarrow> ('w, 'p, reply) verb_op" where
  "handle_verb V v k vmid endpoint_id key actor s =
     (case gate V endpoint_id (disabled_reason v) s of
        Inl refused \<Rightarrow> (Inr refused, s)
      | Inr ep \<Rightarrow>
          (case bad_body v of
             Some refused \<Rightarrow> (Inr refused, s)
           | None \<Rightarrow>
               (case open_netbox V (nb_world s) (vs_px s) of
                  Some e \<Rightarrow>
                    (if \<not> service_error e then Inl e
                     else Inr \<lparr>rp_status = 502,
                       rp_body = [(''reason'', PStr ''netbox_session_unavailable''), (''detail'', PStr (base_text e))]\<rparr>, s)
                | None \<Rightarrow>
                    (let r = verb_request_of v k vmid ep key actor
                     in run_single_flight V (idempotency_cache_key r) (dispatch_verb V v r) s))))"

definition handle_migrate_cancel ::
  "('w, 'p) venv \<Rightarrow> vm_kind \<Rightarrow> int \<Rightarrow> string \<Rightarrow> int option \<Rightarrow> string \<Rightarrow> ('w, 'p, reply) verb_op" where
  "handle_migrate_cancel V k vmid task_upid endpoint_id actor s =
     (case gate V endpoint_id ''endpoint_writes_disabled'' s of
        Inl refused \<Rightarrow> (Inr refused, s)
      | Inr ep \<Rightarrow>
          (case open_netbox V (nb_world s) (vs_px s) of
             Some e \<Rightarrow>
               (if \<not> service_error e then Inl e
                else Inr \<lparr>rp_status = 502,
                  rp_body = [(''reason'', PStr ''netbox_session_unavailable''), (''detail'', PStr (base_text e))]\<rparr>, s)
           | None \<Rightarrow>
               (let r = \<lparr>vr_verb = ''migrate'', vr_kind = k, vr_vmid = vmid, vr_endpoint = ep, vr_actor = actor, vr_key = None\<rparr>
                in after_session V r None (\<lambda>node c.
                     try_api (guarded V c (Some task_upid) None (cancel_task V node task_upid))
                       (\<lambda>e. audit_and_respond V c
                          ((failed_audit ''proxmox_cancel_failed'' e None)
                            \<lparr>au_result := ''cancel_failed'', au_upid := Some task_upid\<rparr>))
                       (\<lambda>_. audit_and_respond V c (done_audit ''cancel_requested'' (Some task_upid) None)))
                    (s\<lparr>vs_entry := None\<rparr>))))"

definition actor_label :: "string option \<Rightarrow> string" where
  "actor_label v = (case str_or v None of None \<Rightarrow> ''proxbox-api'' | Some t \<Rightarrow> t)"

end
