(* ===== verification/Verb_Contract.thy ===== *)
theory Verb_Contract
  imports Verb_Actions
begin

text \<open>
  The contract every operational verb runs under, as a locale over the stages of a request: before the
  cached response is looked up (\<open>Begun\<close>), before the write-ahead entry (\<open>Checked\<close>), with the entry and the
  Proxmox writes sent so far (\<open>Ready\<close>), and at the end (\<open>Final\<close>, with the writes sent, the result, and the
  state). What each stage promises is the business of the interpretations in \<open>Verb_Safety\<close>; that the
  eight dispatchers pass the stages in order, and which writes they send, is proved here once.
\<close>

definition op_spec ::
  "(('w, 'p) vst \<Rightarrow> bool) \<Rightarrow> ('w, 'p, 'a) verb_op \<Rightarrow> (base_exc + 'a \<Rightarrow> ('w, 'p) vst \<Rightarrow> bool) \<Rightarrow> bool" where
  "op_spec P m Q = (\<forall>s. P s \<longrightarrow> Q (fst (m s)) (snd (m s)))"

lemma op_specI: "(\<And>s r s'. P s \<Longrightarrow> m s = (r, s') \<Longrightarrow> Q r s') \<Longrightarrow> op_spec P m Q"
  by (simp add: op_spec_def)

lemma op_specD: "op_spec P m Q \<Longrightarrow> P s \<Longrightarrow> m s = (r, s') \<Longrightarrow> Q r s'"
  unfolding op_spec_def by (metis fst_conv snd_conv)

lemma spec_strengthen: "op_spec P m Q \<Longrightarrow> (\<And>s. P' s \<Longrightarrow> P s) \<Longrightarrow> (\<And>r s. Q r s \<Longrightarrow> Q' r s) \<Longrightarrow> op_spec P' m Q'"
  by (simp add: op_spec_def)

lemma spec_return: "(\<And>s. P s \<Longrightarrow> Q v s) \<Longrightarrow> op_spec P (\<lambda>s. (v, s)) Q"
  by (simp add: op_spec_def)

lemma spec_bind:
  assumes "op_spec P m (\<lambda>r s. case r of Inl e \<Rightarrow> Q (Inl e) s | Inr v \<Rightarrow> M v s)"
    and "\<And>v. op_spec (M v) (f v) Q"
  shows "op_spec P (bind_op m f) Q"
  using assms unfolding op_spec_def bind_op_def by (fastforce split: prod.splits sum.splits)

lemma spec_try_api:
  assumes "op_spec P m (\<lambda>r s. case r of Inl (ApiExc e) \<Rightarrow> H e s | Inl e \<Rightarrow> Q (Inl e) s | Inr v \<Rightarrow> M v s)"
    and "\<And>e. op_spec (H e) (handler e) Q" and "\<And>v. op_spec (M v) (f v) Q"
  shows "op_spec P (try_api m handler f) Q"
  unfolding op_spec_def
proof (intro allI impI)
  fix s
  assume p: "P s"
  obtain r s' where m: "m s = (r, s')" by force
  with assms(1) p have post: "case r of Inl (ApiExc e) \<Rightarrow> H e s' | Inl e \<Rightarrow> Q (Inl e) s' | Inr v \<Rightarrow> M v s'"
    by (rule op_specD)
  show "Q (fst (try_api m handler f s)) (snd (try_api m handler f s))"
    using m post assms(2,3) by (auto simp: try_api_def op_spec_def split: sum.splits base_exc.splits)
qed

text \<open>A step that only reads its argument keeps the state.\<close>

lemma spec_bind_pure: "op_spec P m (\<lambda>_. P') \<Longrightarrow> op_spec P (bind_op m (\<lambda>v s. (g v, s))) (\<lambda>_. P')"
  unfolding op_spec_def bind_op_def by (fastforce split: prod.splits sum.splits)

lemma spec_state: "(\<And>x. op_spec P (F x) Q) \<Longrightarrow> op_spec P (\<lambda>s. F (g s) s) Q"
  by (simp add: op_spec_def)

lemma spec_if: "op_spec P m Q \<Longrightarrow> op_spec P m' Q \<Longrightarrow> op_spec P (if b then m else m') Q"
  by simp


subsection \<open>The writes of a verb\<close>

definition is_write :: "px_request \<Rightarrow> bool" where
  "is_write rq = (px_method rq \<noteq> ''GET'')"

lemma is_write_simps [simp]:
  "\<not> is_write (px_get path ps)" "is_write (px_post path ps)" "is_write (px_delete path ps)"
  by (simp_all add: is_write_def px_get_def px_post_def px_delete_def)

lemma verb_requests_write [simp]:
  "is_write (start_rq n k i)" "is_write (stop_rq n k i)" "is_write (reboot_rq n k i)" "is_write (snapshot_rq n k i t d)"
  "is_write (backup_rq n i a e t d)" "is_write (delete_snapshot_rq n k i t)" "is_write (migrate_rq n k i t b)"
  "is_write (cancel_rq n t)" "is_write (destroy_rq n k i)"
  by (simp_all add: start_rq_def stop_rq_def reboot_rq_def snapshot_rq_def backup_rq_def delete_snapshot_rq_def migrate_rq_def
      cancel_rq_def destroy_rq_def)

text \<open>The lists of writes one request may send to Proxmox.\<close>

definition verb_sends :: "verb_call \<Rightarrow> vm_kind \<Rightarrow> int \<Rightarrow> px_request list \<Rightarrow> bool" where
  "verb_sends v k vmid l =
     (l = [] \<or> (\<exists>node.
        case v of
          Start \<Rightarrow> l = [start_rq node k vmid]
        | Stop \<Rightarrow> l = [stop_rq node k vmid]
        | Reboot \<Rightarrow> l = [reboot_rq node k vmid]
        | Delete \<Rightarrow> l \<in> {[stop_rq node k vmid], [destroy_rq node k vmid], [stop_rq node k vmid, destroy_rq node k vmid]}
        | Snapshot b \<Rightarrow> (\<exists>name. l = [snapshot_rq node k vmid name (case b of None \<Rightarrow> None | Some x \<Rightarrow> sb_description x)])
        | Backup b \<Rightarrow> (\<exists>x. b = Some x \<and>
            l = [backup_rq node vmid (case bb_storage x of None \<Rightarrow> [] | Some t \<Rightarrow> t) (bb_mode x) (bb_compress x) (bb_notes x)])
        | Delete_snapshot name \<Rightarrow> l = [delete_snapshot_rq node k vmid name]
        | Migrate b \<Rightarrow> (\<exists>x. b = Some x \<and>
            l = [migrate_rq node k vmid (case mb_target x of None \<Rightarrow> [] | Some t \<Rightarrow> t) (mb_online x)])))"

definition is_ctx :: "verb_request \<Rightarrow> verb_ctx \<Rightarrow> bool" where
  "is_ctx r c = (\<exists>stamp vm. c = ctx_of r (idempotency_cache_key r) stamp vm)"

text \<open>A verb that must be audited comes with the machine to audit it on.\<close>

definition has_target :: "verb_ctx \<Rightarrow> bool" where
  "has_target c = (vx_verb c \<in> set audit_required_verbs \<longrightarrow> vx_vm c \<noteq> None)"

lemma resolve_target_some:
  "resolve_audit_target V c s = (Inr (Inr vm), s') \<Longrightarrow> vx_verb c \<in> set audit_required_verbs \<Longrightarrow> vm \<noteq> None"
  by (auto simp: resolve_audit_target_def Let_def split: prod.splits sum.splits base_exc.splits py_exc.splits if_splits)

lemma is_ctxI: "is_ctx r (ctx_of r (idempotency_cache_key r) stamp vm)"
  unfolding is_ctx_def by blast

lemma is_ctx_fields [simp]:
  "is_ctx r c \<Longrightarrow> vx_kind c = vr_kind r" "is_ctx r c \<Longrightarrow> vx_vmid c = vr_vmid r"
  "is_ctx r c \<Longrightarrow> vx_cache_key c = idempotency_cache_key r" "is_ctx r c \<Longrightarrow> vx_verb c = vr_verb r"
  "is_ctx r c \<Longrightarrow> vx_endpoint c = vr_endpoint r"
  by (auto simp: is_ctx_def ctx_of_def)


subsection \<open>The stages\<close>

locale verb_stages =
  fixes V :: "('w, 'p) venv"
    and Begun :: "verb_request \<Rightarrow> ('w, 'p) vst \<Rightarrow> bool"
    and Checked :: "verb_request \<Rightarrow> ('w, 'p) vst \<Rightarrow> bool"
    and Ready :: "verb_request \<Rightarrow> verb_ctx \<Rightarrow> px_request list \<Rightarrow> ('w, 'p) vst \<Rightarrow> bool"
    and Final :: "verb_request \<Rightarrow> px_request list \<Rightarrow> base_exc + reply \<Rightarrow> ('w, 'p) vst \<Rightarrow> bool"
  assumes begun_cached:
      "Begun r s \<Longrightarrow> idempotency_cache_key r = Some k \<Longrightarrow> cached_idempotency_response V k s = (cached, s') \<Longrightarrow>
       (case cached of Inl e \<Rightarrow> Final r [] (Inl e) s' | Inr (Some a) \<Rightarrow> Final r [] (Inr a) s' | Inr None \<Rightarrow> Checked r s')"
    and begun_no_key: "Begun r s \<Longrightarrow> idempotency_cache_key r = None \<Longrightarrow> Checked r s"
    and begun_entry: "Begun r s \<Longrightarrow> Begun r (s\<lparr>vs_entry := None\<rparr>)"
    and checked_open: "Checked r s \<Longrightarrow> open_proxmox V ep (nb_world s) (vs_px s) = (err, p) \<Longrightarrow> Checked r (s\<lparr>vs_px := p\<rparr>)"
    and checked_read: "Checked r s \<Longrightarrow> \<not> is_write rq \<Longrightarrow> px_send V rq s = (out, s') \<Longrightarrow> Checked r s'"
    and checked_target: "Checked r s \<Longrightarrow> vx_verb c = vr_verb r \<Longrightarrow> resolve_audit_target V c s = (target, s') \<Longrightarrow>
       Checked r s' \<and> (\<forall>a. target = Inr (Inl a) \<longrightarrow> Final r [] (Inr a) s')"
    and checked_raise: "Checked r s \<Longrightarrow> Final r [] (Inl e) s"
    and checked_refuse: "Checked r s \<Longrightarrow> 400 \<le> rp_status a \<Longrightarrow> Final r [] (Inr a) s"
    and checked_write: "Checked r s \<Longrightarrow> is_ctx r c \<Longrightarrow> has_target c \<Longrightarrow> create_writeahead V c s = (written, s') \<Longrightarrow>
       (case written of Inl e \<Rightarrow> Final r [] (Inl e) s' | Inr (Some a) \<Rightarrow> Final r [] (Inr a) s' | Inr None \<Rightarrow> Ready r c [] s')"
    and ready_open: "Ready r c l s \<Longrightarrow> open_proxmox V ep (nb_world s) (vs_px s) = (err, p) \<Longrightarrow> Ready r c l (s\<lparr>vs_px := p\<rparr>)"
    and ready_send: "Ready r c l s \<Longrightarrow> px_send V rq s = (out, s') \<Longrightarrow> Ready r c (if is_write rq then l @ [rq] else l) s'"
    and ready_audit: "Ready r c l s \<Longrightarrow> is_ctx r c \<Longrightarrow> audit_and_respond V c au s = (answer, s') \<Longrightarrow> Final r l answer s'"
    and ready_unexpected: "Ready r c l s \<Longrightarrow> is_ctx r c \<Longrightarrow> Final r l (Inl e) (finalize_after_unexpected V c e u x s)"
    and final_unexpected: "Final r l (Inl e) s \<Longrightarrow> is_ctx r c \<Longrightarrow> Final r l (Inl e) (finalize_after_unexpected V c e u x s)"
begin

lemma read_spec: "\<not> is_write rq \<Longrightarrow> op_spec (Checked r) (px_call V a b d rq) (\<lambda>_. Checked r)"
  by (auto intro!: op_specI dest: checked_read simp: px_call_def split: prod.splits)

lemma resources_spec: "op_spec (Checked r) (get_cluster_resources V t) (\<lambda>_. Checked r)"
  unfolding get_cluster_resources_def by (intro spec_bind_pure read_spec) simp

lemma resolve_node_spec:
  "op_spec (Checked r) (resolve_proxmox_node V k i)
     (\<lambda>res s. Checked r s \<and> (\<forall>a. res = Inr (Inl a) \<longrightarrow> 400 \<le> rp_status a))"
  unfolding resolve_proxmox_node_def
proof (rule spec_try_api [where H = "\<lambda>_. Checked r" and M = "\<lambda>_. Checked r"], goal_cases)
  case 1
  show ?case by (rule spec_strengthen [OF resources_spec]) (auto split: sum.splits base_exc.splits)
qed (auto intro!: spec_return split: list.splits option.splits)

lemma open_session_spec:
  "op_spec (Checked r) (open_session V ep) (\<lambda>res s. Checked r s \<and> (\<forall>a. res = Inr (Some a) \<longrightarrow> 400 \<le> rp_status a))"
  by (rule op_specI) (auto simp: open_session_def dest: checked_open split: prod.splits option.splits if_splits)

text \<open>A call to Proxmox once the entry is written: what was sent is noted whatever comes back.\<close>

abbreviation after_call :: "verb_request \<Rightarrow> verb_ctx \<Rightarrow> px_request list \<Rightarrow> base_exc + 'a \<Rightarrow> ('w, 'p) vst \<Rightarrow> bool" where
  "after_call r c l \<equiv> (\<lambda>res s. case res of Inl (ApiExc e) \<Rightarrow> Ready r c l s | Inl e \<Rightarrow> Final r l (Inl e) s | Inr v \<Rightarrow> Ready r c l s)"

lemma guarded_spec:
  assumes "is_ctx r c" "op_spec (Ready r c l) m (\<lambda>_. Ready r c l')"
  shows "op_spec (Ready r c l) (guarded V c u x m) (after_call r c l')"
  using assms(2) ready_unexpected [OF _ assms(1)]
  by (fastforce simp: op_spec_def guarded_def split: prod.splits sum.splits base_exc.splits)

lemma call_spec: "op_spec (Ready r c l) (px_call V a b d rq) (\<lambda>_. Ready r c (if is_write rq then l @ [rq] else l))"
  using ready_send by (fastforce intro!: op_specI simp: px_call_def split: prod.splits)

lemma task_spec:
  "is_write rq \<Longrightarrow> op_spec (Ready r c l) (task_call V a b d rq) (\<lambda>_. Ready r c (l @ [rq]))"
  unfolding task_call_def using call_spec [of r c l a b d rq] by (intro spec_bind_pure) simp

lemma ready_read_spec: "\<not> is_write rq \<Longrightarrow> op_spec (Ready r c l) (px_call V a b d rq) (\<lambda>_. Ready r c l)"
  using call_spec [of r c l a b d rq] by simp

lemma status_spec: "op_spec (Ready r c l) (get_vm_status V node k i) (\<lambda>_. Ready r c l)"
  unfolding get_vm_status_def by (intro spec_bind_pure ready_read_spec) simp

lemma preflight_spec: "op_spec (Ready r c l) (migrate_preflight V node k i) (\<lambda>_. Ready r c l)"
  unfolding migrate_preflight_def by (intro spec_bind_pure ready_read_spec) simp

lemma destroy_spec:
  "op_spec (Ready r c l) (delete_vm_via_intent V ep k i node)
     (\<lambda>_ s. Ready r c l s \<or> Ready r c (l @ [destroy_rq node k i]) s)"
proof (rule op_specI)
  fix s res s'
  assume rd: "Ready r c l s" and d: "delete_vm_via_intent V ep k i node s = (res, s')"
  obtain x t where x: "dispatch_destroy V (ep_id ep) k i node s = (x, t)" by force
  with d have t: "s' = t"
    by (auto simp: delete_vm_via_intent_def split: sum.splits prod.splits)
  show "Ready r c l s' \<or> Ready r c (l @ [destroy_rq node k i]) s'"
  proof (cases "gate V (Some (ep_id ep)) ''endpoint_writes_disabled'' s")
    case (Inl a)
    with x rd t show ?thesis by (simp add: dispatch_destroy_def)
  next
    case (Inr ep')
    obtain e p where o: "open_proxmox V ep' (nb_world s) (vs_px s) = (e, p)" by force
    note rd' = ready_open [OF rd o]
    obtain out u where u: "px_send V (destroy_rq node k i) (s\<lparr>vs_px := p\<rparr>) = (out, u)" by force
    from ready_send [OF rd' u] have "Ready r c (l @ [destroy_rq node k i]) u" by simp
    with x rd' t Inr o u show ?thesis
      by (auto simp: dispatch_destroy_def split: option.splits base_exc.splits sum.splits)
  qed
qed

lemma audit_spec: "is_ctx r c \<Longrightarrow> op_spec (Ready r c l) (audit_and_respond V c a) (Final r l)"
  using ready_audit by (auto intro: op_specI)

text \<open>Ways for a body to end, with the writes of the whole request allowed by \<open>S\<close>.\<close>

abbreviation ends :: "verb_request \<Rightarrow> (px_request list \<Rightarrow> bool) \<Rightarrow> base_exc + reply \<Rightarrow> ('w, 'p) vst \<Rightarrow> bool" where
  "ends r S \<equiv> (\<lambda>res s. \<exists>l. S l \<and> Final r l res s)"

lemma audit_ends: "is_ctx r c \<Longrightarrow> S l \<Longrightarrow> op_spec (Ready r c l) (audit_and_respond V c a) (ends r S)"
  by (auto intro: spec_strengthen [OF audit_spec])

text \<open>A guarded call with the handler and the continuation every dispatcher gives it.\<close>

lemma guarded_try:
  assumes c: "is_ctx r c" and m: "op_spec (Ready r c l) m (\<lambda>_. Ready r c l')" and S: "S l'"
    and f: "\<And>v. op_spec (Ready r c l') (f v) (ends r S)"
  shows "op_spec (Ready r c l) (try_api (guarded V c u x m) (\<lambda>e. audit_and_respond V c (h e)) f) (ends r S)"
  by (rule spec_try_api [where H = "\<lambda>_. Ready r c l'" and M = "\<lambda>_. Ready r c l'"])
    (auto intro!: spec_strengthen [OF guarded_spec [OF c m]] audit_ends [OF c] f S split: sum.splits base_exc.splits
      intro: S exI)


lemma raise_ends: "Checked r s \<Longrightarrow> S [] \<Longrightarrow> ends r S (Inl e) s"
  using checked_raise by blast

lemma refuse_ends: "Checked r s \<Longrightarrow> 400 \<le> rp_status a \<Longrightarrow> S [] \<Longrightarrow> ends r S (Inr a) s"
  using checked_refuse by blast

lemma final_ends: "Final r l res s \<Longrightarrow> S l \<Longrightarrow> ends r S res s"
  by blast


subsection \<open>The prologue\<close>

lemma target_spec:
  "op_spec (Checked r) (resolve_audit_target V (ctx_of r k stamp vm))
     (\<lambda>res s. Checked r s \<and> (\<forall>a. res = Inr (Inl a) \<longrightarrow> Final r [] (Inr a) s) \<and>
        (\<forall>v. res = Inr (Inr v) \<longrightarrow> vr_verb r \<in> set audit_required_verbs \<longrightarrow> v \<noteq> None))"
proof (rule op_specI)
  fix s res s'
  assume "Checked r s" and run: "resolve_audit_target V (ctx_of r k stamp vm) s = (res, s')"
  then show "Checked r s' \<and> (\<forall>a. res = Inr (Inl a) \<longrightarrow> Final r [] (Inr a) s') \<and>
        (\<forall>v. res = Inr (Inr v) \<longrightarrow> vr_verb r \<in> set audit_required_verbs \<longrightarrow> v \<noteq> None)"
    using checked_target [of r s "ctx_of r k stamp vm" res s'] resolve_target_some [of V "ctx_of r k stamp vm" s _ s']
    by (fastforce simp: ctx_of_def)
qed

lemma after_session_spec:
  assumes body: "\<And>node c. is_ctx r c \<Longrightarrow> op_spec (Ready r c []) (body node c) (ends r S)" and S: "S []"
  shows "op_spec (Checked r) (after_session V r (idempotency_cache_key r) body) (ends r S)"
  unfolding after_session_def
proof (rule spec_bind [where M = "\<lambda>res s. Checked r s \<and> (\<forall>a. res = Some a \<longrightarrow> 400 \<le> rp_status a)"], goal_cases)
  case 1
  show ?case by (rule spec_strengthen [OF open_session_spec]) (auto split: sum.splits intro!: raise_ends S)
next
  case (2 unreachable)
  show ?case
  proof (cases unreachable)
    case (Some a)
    then show ?thesis by (auto intro!: spec_return refuse_ends S)
  next
    case None
    have "op_spec (Checked r)
       (bind_op (resolve_proxmox_node V (vr_kind r) (vr_vmid r)) (\<lambda>node_or_error.
             case node_or_error of
               Inl refused \<Rightarrow> (\<lambda>s. (Inr refused, s))
             | Inr node \<Rightarrow>
                 bind_op (resolve_audit_target V (ctx_of r (idempotency_cache_key r) [] None)) (\<lambda>target.
                   case target of
                     Inl refused \<Rightarrow> (\<lambda>s. (Inr refused, s))
                   | Inr vm \<Rightarrow>
                       (\<lambda>s. let c = ctx_of r (idempotency_cache_key r) (now_iso V (nb_world s) (vs_px s)) vm in
                          bind_op (create_writeahead V c) (\<lambda>failure.
                            case failure of
                              Some refused \<Rightarrow> (\<lambda>s. (Inr refused, s))
                            | None \<Rightarrow> body node c) s)))) (ends r S)"
    proof (rule spec_bind [where M = "\<lambda>res s. Checked r s \<and> (\<forall>a. res = Inl a \<longrightarrow> 400 \<le> rp_status a)"], goal_cases)
      case 1
      show ?case by (rule spec_strengthen [OF resolve_node_spec]) (auto split: sum.splits intro!: raise_ends S)
    next
      case (2 node_or_error)
      show ?case
      proof (cases node_or_error)
        case (Inl a)
        then show ?thesis by (auto intro!: spec_return refuse_ends S)
      next
        case (Inr node)
        show ?thesis
          unfolding Inr sum.case
        proof (rule spec_bind [where M = "\<lambda>res s. Checked r s \<and> (\<forall>a. res = Inl a \<longrightarrow> Final r [] (Inr a) s) \<and>
            (\<forall>v. res = Inr v \<longrightarrow> vr_verb r \<in> set audit_required_verbs \<longrightarrow> v \<noteq> None)"], goal_cases)
          case 1
          show ?case
            by (rule spec_strengthen [OF target_spec]) (auto split: sum.splits intro!: raise_ends S)
        next
          case (2 target)
          show ?case
          proof (cases target)
            case (Inl a)
            then show ?thesis by (auto intro!: spec_return final_ends S)
          next
            case vm: (Inr vm)
            show ?thesis
              unfolding vm sum.case Let_def
            proof (rule op_specI)
              fix s res s'
              let ?c = "ctx_of r (idempotency_cache_key r) (now_iso V (nb_world s) (vs_px s)) vm"
              have c: "is_ctx r ?c" by (rule is_ctxI)
              assume ch: "Checked r s \<and> (\<forall>a. Inr vm = Inl a \<longrightarrow> Final r [] (Inr a) s) \<and>
                  (\<forall>v. Inr vm = Inr v \<longrightarrow> vr_verb r \<in> set audit_required_verbs \<longrightarrow> v \<noteq> None)"
                and run: "bind_op (create_writeahead V ?c)
                  (\<lambda>failure. case failure of None \<Rightarrow> body node ?c | Some refused \<Rightarrow> \<lambda>s. (Inr refused, s)) s = (res, s')"
              obtain w t where w: "create_writeahead V ?c s = (w, t)" by force
              have "has_target ?c" using ch by (simp add: has_target_def ctx_of_def)
              note post = checked_write [OF conjunct1 [OF ch] c this w]
              show "ends r S res s'"
              proof (cases w)
                case (Inl e)
                with run w post S show ?thesis by (auto simp: bind_op_def)
              next
                case (Inr x)
                show ?thesis
                proof (cases x)
                  case None
                  with run w Inr have "body node ?c t = (res, s')" by (simp add: bind_op_def)
                  with post Inr None show ?thesis by (intro op_specD [OF body [OF c]]) simp_all
                next
                  case (Some a)
                  with run w post S Inr show ?thesis by (auto simp: bind_op_def)
                qed
              qed
            qed
          qed
        qed
      qed
    qed
    with None show ?thesis by (auto intro: spec_strengthen)
  qed
qed

lemma prologue_spec:
  assumes body: "\<And>node c. is_ctx r c \<Longrightarrow> op_spec (Ready r c []) (body node c) (ends r S)" and S: "S []"
  shows "op_spec (Begun r) (verb_prologue V r body) (ends r S)"
proof (rule op_specI)
  fix s res s'
  assume b: "Begun r s" and run: "verb_prologue V r body s = (res, s')"
  note after = after_session_spec [where body = body, OF body S]
  show "ends r S res s'"
  proof (cases "idempotency_cache_key r")
    case None
    with run begun_no_key [OF begun_entry [OF b]] op_specD [OF after] show ?thesis
      by (simp add: verb_prologue_def Let_def)
  next
    case (Some k)
    obtain x t where x: "cached_idempotency_response V k (s\<lparr>vs_entry := None\<rparr>) = (x, t)" by force
    note post = begun_cached [OF begun_entry [OF b] Some x]
    show ?thesis
      using run x post S op_specD [OF after, of t] Some
      by (auto simp: verb_prologue_def Let_def bind_op_def split: sum.splits option.splits)
  qed
qed


subsection \<open>The dispatchers\<close>

text \<open>The common shape: a status check that may answer at once, then one call.\<close>

lemma checked_dispatch:
  assumes c: "is_ctx r c" and rq: "is_write rq" and S: "S []" "S [rq]"
  shows "op_spec (Ready r c [])
     (try_api (guarded V c None None (get_vm_status V node k i))
        (\<lambda>e. audit_and_respond V c (h e))
        (\<lambda>current. if P current then audit_and_respond V c a
           else try_api (guarded V c u x (task_call V m1 m2 m3 rq)) (\<lambda>e. audit_and_respond V c (h' e))
                  (\<lambda>upid. audit_and_respond V c (d upid))))
     (ends r S)"
  using S by (intro guarded_try [OF c status_spec] spec_if guarded_try [OF c task_spec [OF rq]] audit_ends [OF c]) simp_all

lemma start_spec: "op_spec (Begun r) (dispatch_start V r) (ends r (verb_sends Start (vr_kind r) (vr_vmid r)))"
  unfolding dispatch_start_def start_vm_def
  by (rule prologue_spec, rule checked_dispatch) (auto simp: verb_sends_def)

lemma stop_spec: "op_spec (Begun r) (dispatch_stop V r) (ends r (verb_sends Stop (vr_kind r) (vr_vmid r)))"
  unfolding dispatch_stop_def stop_vm_def
  by (rule prologue_spec, rule checked_dispatch) (auto simp: verb_sends_def)

lemma reboot_spec: "op_spec (Begun r) (dispatch_reboot V r) (ends r (verb_sends Reboot (vr_kind r) (vr_vmid r)))"
  unfolding dispatch_reboot_def reboot_vm_def
  by (rule prologue_spec, rule checked_dispatch) (auto simp: verb_sends_def)

text \<open>One call, without a check before it.\<close>

lemma plain_dispatch:
  assumes c: "is_ctx r c" and rq: "is_write rq" and S: "S [rq]"
  shows "op_spec (Ready r c [])
     (try_api (guarded V c u x (task_call V m1 m2 m3 rq)) (\<lambda>e. audit_and_respond V c (h e)) (\<lambda>upid. audit_and_respond V c (d upid)))
     (ends r S)"
  using S by (intro guarded_try [OF c task_spec [OF rq]] audit_ends [OF c]) simp_all

lemma snapshot_spec:
  "op_spec (Begun r) (dispatch_snapshot V r name (case b of None \<Rightarrow> None | Some x \<Rightarrow> sb_description x))
     (ends r (verb_sends (Snapshot b) (vr_kind r) (vr_vmid r)))"
  unfolding dispatch_snapshot_def
proof (rule prologue_spec)
  fix node c
  let ?S = "verb_sends (Snapshot b) (vr_kind r) (vr_vmid r)" and ?d = "case b of None \<Rightarrow> None | Some x \<Rightarrow> sb_description x"
  assume "is_ctx r c"
  then have "op_spec (Ready r c []) (snapshot_named V r ?d node c n) (ends r ?S)" for n
    unfolding snapshot_named_def Let_def create_vm_snapshot_def by (rule plain_dispatch) (auto simp: verb_sends_def)
  then show "op_spec (Ready r c []) (\<lambda>s. snapshot_named V r ?d node c
      (case str_or name None of None \<Rightarrow> default_snapname V (vr_key r) s | Some n \<Rightarrow> n) s) (ends r ?S)"
    by (rule spec_state)
qed (simp add: verb_sends_def)

lemma backup_spec:
  "op_spec (Begun r)
     (dispatch_backup V r (case bb_storage x of None \<Rightarrow> [] | Some t \<Rightarrow> t) (bb_mode x) (bb_compress x) (bb_notes x))
     (ends r (verb_sends (Backup (Some x)) (vr_kind r) (vr_vmid r)))"
  unfolding dispatch_backup_def Let_def backup_vm_def
  by (rule prologue_spec, rule plain_dispatch) (auto simp: verb_sends_def)

lemma delete_snapshot_spec:
  "op_spec (Begun r) (dispatch_delete_snapshot V r name) (ends r (verb_sends (Delete_snapshot name) (vr_kind r) (vr_vmid r)))"
  unfolding dispatch_delete_snapshot_def Let_def delete_vm_snapshot_def
  by (rule prologue_spec, rule plain_dispatch) (auto simp: verb_sends_def)

lemma migrate_spec:
  "op_spec (Begun r) (dispatch_migrate V r (case mb_target x of None \<Rightarrow> [] | Some t \<Rightarrow> t) (mb_online x))
     (ends r (verb_sends (Migrate (Some x)) (vr_kind r) (vr_vmid r)))"
  unfolding dispatch_migrate_def migrate_vm_def
proof (rule prologue_spec, rule guarded_try [OF _ preflight_spec])
  fix node c preflight
  let ?S = "verb_sends (Migrate (Some x)) (vr_kind r) (vr_vmid r)" and ?t = "case mb_target x of None \<Rightarrow> [] | Some t \<Rightarrow> t"
  assume c: "is_ctx r c"
  show "op_spec (Ready r c [])
     (case preflight_rejection preflight ?t (mb_online x) of
       None \<Rightarrow> try_api (guarded V c None
                    (Some [(''target'', PStr ?t), (''online'', PBool (mb_online x)), (''source_node'', PStr node)])
                    (task_call V ''Proxmox VM migrate request timed out'' ''Unable to connect to Proxmox for VM migrate''
                       ''Error dispatching Proxmox VM migrate'' (migrate_rq node (vr_kind r) (vr_vmid r) ?t (mb_online x))))
                  (\<lambda>e. audit_and_respond V c (failed_audit ''proxmox_dispatch_failed'' e None))
                  (\<lambda>upid. audit_and_respond V c
                     \<lparr>au_result = ''accepted'', au_kind = ''info'', au_upid = Some upid, au_error = None, au_status = 202,
                      au_reason = None,
                      au_extra = Some [(''sse_url'', PStr (migrate_sse_url (vr_kind r) (vr_vmid r) upid)),
                        (''target'', PStr ?t), (''online'', PBool (mb_online x)), (''source_node'', PStr node)]\<rparr>)
     | Some (reason, detail) \<Rightarrow>
                audit_and_respond V c
                  \<lparr>au_result = ''rejected'', au_kind = ''warning'', au_upid = None, au_error = Some detail, au_status = 400,
                   au_reason = Some reason,
                   au_extra = Some [(''preflight'', PDict preflight), (''target'', PStr ?t), (''online'', PBool (mb_online x))]\<rparr>)
     (ends r ?S)"
  proof (cases "preflight_rejection preflight ?t (mb_online x)")
    case None
    then show ?thesis by (simp only: option.case) (rule plain_dispatch [OF c], auto simp: verb_sends_def)
  next
    case (Some p)
    then show ?thesis by (cases p) (simp add: audit_ends [OF c] verb_sends_def)
  qed
qed (simp_all add: verb_sends_def)


text \<open>Delete: the preparation may answer by itself, from inside the guard.\<close>

abbreviation prepared_ok :: "verb_request \<Rightarrow> verb_ctx \<Rightarrow> (px_request list \<Rightarrow> bool) \<Rightarrow> string \<Rightarrow> string option \<times> reply option \<Rightarrow> ('w, 'p) vst \<Rightarrow> bool" where
  "prepared_ok r c S node \<equiv> (\<lambda>p s. case snd p of
     Some a \<Rightarrow> ends r S (Inr a) s
   | None \<Rightarrow> \<exists>l. l \<in> {[], [stop_rq node (vr_kind r) (vr_vmid r)]} \<and> Ready r c l s)"

lemma audit_wrapped:
  assumes "is_ctx r c" "S l"
  shows "op_spec (Ready r c l) (bind_op (audit_and_respond V c a) (\<lambda>a s. (Inr (None, Some a), s)))
     (\<lambda>res s. case res of Inl e \<Rightarrow> ends r S (Inl e) s | Inr p \<Rightarrow> prepared_ok r c S node p s)"
  by (rule spec_bind [where M = "\<lambda>a. ends r S (Inr a)"])
    (rule spec_strengthen [OF audit_ends [OF assms(1), of S l a, OF assms(2)]], simp_all split: sum.splits,
     auto intro!: spec_return)

lemma prepare_spec:
  assumes c: "is_ctx r c" and S: "S []" "S [stop_rq node (vr_kind r) (vr_vmid r)]"
  shows "op_spec (Ready r c []) (prepare_delete V c node)
     (\<lambda>res s. case res of
        Inl e \<Rightarrow> (\<forall>x. e \<noteq> ApiExc x) \<and> (\<exists>l. S l \<and> Ready r c l s) \<or> ends r S (Inl e) s
      | Inr p \<Rightarrow> prepared_ok r c S node p s)"
    (is "op_spec _ _ ?Q")
proof -
  let ?stop = "stop_rq node (vr_kind r) (vr_vmid r)"
  have stop: "op_spec (Ready r c []) (stop_vm V node (vx_kind c) (vx_vmid c)) (\<lambda>_. Ready r c [?stop])"
    using task_spec [of ?stop r c "[]"] c by (simp add: stop_vm_def)
  have status: "op_spec (Ready r c []) (get_vm_status V node (vx_kind c) (vx_vmid c)) (\<lambda>_. Ready r c [])"
    by (rule status_spec)
  show ?thesis
    unfolding prepare_delete_def
  proof (rule spec_try_api [where H = "\<lambda>_. Ready r c []" and M = "\<lambda>_. Ready r c []"], goal_cases)
    case 1
    show ?case by (rule spec_strengthen [OF status]) (use S in \<open>auto split: sum.splits base_exc.splits\<close>)
  next
    case (2 e)
    show ?case by (rule spec_strengthen [OF audit_wrapped [where S = S, OF c S(1)]]) (auto split: sum.splits)
  next
    case (3 current)
    have "op_spec (Ready r c [])
        (try_api (stop_vm V node (vx_kind c) (vx_vmid c))
           (\<lambda>e. bind_op (audit_and_respond V c (failed_audit ''proxmox_dispatch_failed'' e None)) (\<lambda>a s. (Inr (None, Some a), s)))
           (\<lambda>upid s. (Inr (Some upid, None), s))) ?Q"
    proof (rule spec_try_api [where H = "\<lambda>_. Ready r c [?stop]" and M = "\<lambda>_. Ready r c [?stop]"], goal_cases)
      case 1
      show ?case by (rule spec_strengthen [OF stop]) (use S in \<open>auto split: sum.splits base_exc.splits\<close>)
    next
      case (2 e)
      show ?case by (rule spec_strengthen [OF audit_wrapped [where S = S, OF c S(2)]]) (auto split: sum.splits)
    qed (auto intro!: spec_return)
    then show ?case by (auto intro!: spec_return)
  qed
qed

lemma guarded_ends:
  assumes c: "is_ctx r c"
    and m: "op_spec P m (\<lambda>res s. case res of
      Inl e \<Rightarrow> (\<forall>x. e \<noteq> ApiExc x) \<and> (\<exists>l. S l \<and> Ready r c l s) \<or> ends r S (Inl e) s | Inr v \<Rightarrow> N v s)"
  shows "op_spec P (guarded V c u x m) (\<lambda>res s. case res of Inl e \<Rightarrow> ends r S (Inl e) s | Inr v \<Rightarrow> N v s)"
proof (rule op_specI)
  fix s res s'
  assume p: "P s" and g: "guarded V c u x m s = (res, s')"
  obtain y t where y: "m s = (y, t)" by force
  note post = op_specD [OF m p y]
  show "case res of Inl e \<Rightarrow> ends r S (Inl e) s' | Inr v \<Rightarrow> N v s'"
  proof (cases y)
    case (Inr v)
    with g y have "res = Inr v" "s' = t" by (simp_all add: guarded_def)
    with post Inr show ?thesis by simp
  next
    case (Inl e)
    show ?thesis
    proof (cases "\<exists>x. e = ApiExc x")
      case True
      with g y Inl have "res = Inl e" "s' = t" by (auto simp: guarded_def)
      with post Inl True show ?thesis by (auto intro: final_ends)
    next
      case False
      with g y Inl have r: "res = Inl e" "s' = finalize_after_unexpected V c e u x t"
        by (auto simp: guarded_def split: base_exc.splits)
      from post Inl obtain l where "S l" "Ready r c l t \<or> Final r l (Inl e) t" by auto
      then have "Final r l (Inl e) s'" using ready_unexpected [OF _ c] final_unexpected [OF _ c] r by blast
      with r \<open>S l\<close> show ?thesis by auto
    qed
  qed
qed

lemma delete_spec: "op_spec (Begun r) (dispatch_delete V r) (ends r (verb_sends Delete (vr_kind r) (vr_vmid r)))"
    (is "op_spec _ _ (ends r ?S)")
  unfolding dispatch_delete_def
proof (rule prologue_spec)
  fix node c
  assume c: "is_ctx r c"
  let ?stop = "stop_rq node (vr_kind r) (vr_vmid r)" and ?destroy = "destroy_rq node (vr_kind r) (vr_vmid r)"
  have S: "?S []" "?S [?stop]" "?S [?destroy]" "?S [?stop, ?destroy]" by (auto simp: verb_sends_def)
  have prep: "op_spec (Ready r c []) (guarded V c None None (prepare_delete V c node))
     (\<lambda>res s. case res of Inl e \<Rightarrow> ends r ?S (Inl e) s | Inr p \<Rightarrow> prepared_ok r c ?S node p s)"
    by (rule guarded_ends [OF c prepare_spec [where S = ?S, OF c S(1,2)]])
  have rest: "op_spec (Ready r c l)
     (try_api (guarded V c None x (delete_vm_via_intent V (vr_endpoint r) (vr_kind r) (vr_vmid r) node))
        (\<lambda>e. audit_and_respond V c (h e)) (\<lambda>upid. audit_and_respond V c (d upid))) (ends r ?S)"
    if l: "l \<in> {[], [?stop]}" for l x h d
  proof (rule spec_try_api [where H = "\<lambda>_ s. \<exists>l'. ?S l' \<and> Ready r c l' s" and M = "\<lambda>_ s. \<exists>l'. ?S l' \<and> Ready r c l' s"], goal_cases)
    case 1
    have l': "?S l" "?S (l @ [?destroy])" using l S by auto
    show ?case
      using destroy_spec [of r c l "vr_endpoint r" "vr_kind r" "vr_vmid r" node] ready_unexpected [OF _ c] l'
      by (fastforce simp: op_spec_def guarded_def split: prod.splits sum.splits base_exc.splits)
  qed (use audit_spec [OF c] in \<open>auto simp: op_spec_def\<close>)
  show "op_spec (Ready r c [])
     (bind_op (guarded V c None None (prepare_delete V c node)) (\<lambda>(stop_upid, prepared).
         case prepared of
           Some answer \<Rightarrow> (\<lambda>s. (Inr answer, s))
         | None \<Rightarrow>
             try_api (guarded V c None (delete_extra stop_upid)
                        (delete_vm_via_intent V (vr_endpoint r) (vr_kind r) (vr_vmid r) node))
               (\<lambda>e. audit_and_respond V c (failed_audit ''proxmox_dispatch_failed'' e (delete_extra stop_upid)))
               (\<lambda>upid. audit_and_respond V c (done_audit ''ok'' upid (delete_extra stop_upid)))))
     (ends r ?S)"
  proof (rule spec_bind [where M = "prepared_ok r c ?S node"], goal_cases)
    case 1
    show ?case by (rule spec_strengthen [OF prep]) (auto split: sum.splits)
  next
    case (2 p)
    obtain u a where p: "p = (u, a)" by force
    show ?case
    proof (cases a)
      case None
      show ?thesis
        unfolding p None prod.case option.case snd_conv
        using rest [of _ "delete_extra u" "\<lambda>e. failed_audit ''proxmox_dispatch_failed'' e (delete_extra u)"
            "\<lambda>upid. done_audit ''ok'' upid (delete_extra u)"]
        unfolding op_spec_def by blast
    next
      case (Some answer)
      then show ?thesis unfolding p by (auto intro!: spec_return)
    qed
  qed
qed (simp add: verb_sends_def)


text \<open>Every verb, and the cancellation of a migration.\<close>

theorem dispatch_spec:
  assumes "bad_body v = None"
  shows "op_spec (Begun r) (dispatch_verb V v r) (ends r (verb_sends v (vr_kind r) (vr_vmid r)))"
proof (cases v)
  case (Snapshot b)
  then show ?thesis
    using snapshot_spec [of r "case b of None \<Rightarrow> None | Some x \<Rightarrow> sb_snapname x" b] by (cases b) (simp_all add: dispatch_verb_def)
next
  case (Backup b)
  with assms obtain x where "b = Some x" by (cases b) (auto simp: bad_body_def)
  with Backup backup_spec [of r x] show ?thesis by (simp add: dispatch_verb_def)
next
  case (Migrate b)
  with assms obtain x where "b = Some x" by (cases b) (auto simp: bad_body_def)
  with Migrate migrate_spec [of r x] show ?thesis by (simp add: dispatch_verb_def)
qed (simp_all add: dispatch_verb_def start_spec stop_spec reboot_spec delete_spec delete_snapshot_spec)

lemma cancel_spec:
  assumes key: "idempotency_cache_key r = None"
  shows "op_spec (Begun r)
     (\<lambda>s. after_session V r None (\<lambda>node c.
        try_api (guarded V c (Some upid) None (cancel_task V node upid))
          (\<lambda>e. audit_and_respond V c (h e)) (\<lambda>u. audit_and_respond V c d)) (s\<lparr>vs_entry := None\<rparr>))
     (ends r (\<lambda>l. l = [] \<or> (\<exists>node. l = [cancel_rq node upid])))"
    (is "op_spec _ _ (ends r ?S)")
proof -
  have body: "op_spec (Ready r c [])
      (try_api (guarded V c (Some upid) None (cancel_task V node upid))
          (\<lambda>e. audit_and_respond V c (h e)) (\<lambda>u. audit_and_respond V c d)) (ends r ?S)"
    if c: "is_ctx r c" for c node
  proof (rule guarded_try [OF c])
    show "op_spec (Ready r c []) (cancel_task V node upid) (\<lambda>_. Ready r c [cancel_rq node upid])"
      using call_spec [of r c "[]" _ _ _ "cancel_rq node upid"] unfolding cancel_task_def by (intro spec_bind_pure) simp
  qed (auto intro: audit_ends [OF c])
  show ?thesis
    using after_session_spec [of r "\<lambda>node c. try_api (guarded V c (Some upid) None (cancel_task V node upid))
          (\<lambda>e. audit_and_respond V c (h e)) (\<lambda>u. audit_and_respond V c d)" ?S, OF body]
      begun_no_key [OF begun_entry key] key
    by (simp add: op_spec_def)
qed

end


subsection \<open>Handlers\<close>

lemma gate_open:
  "gate V endpoint_id why s = Inr ep \<Longrightarrow>
     \<exists>i. endpoint_id = Some i \<and> endpoint_row V i (nb_world s) (vs_px s) = Some ep \<and> ep_allow_writes ep"
  by (auto simp: gate_def split: option.splits if_splits)

lemma gate_closed: "gate V endpoint_id why s = Inl a \<Longrightarrow> rp_status a = 403"
  by (auto simp: gate_def endpoint_reply_def split: option.splits if_splits)

lemma bad_body_status: "bad_body v = Some a \<Longrightarrow> rp_status a = 400"
  by (auto simp: bad_body_def split: verb_call.splits if_splits)

lemma verb_of_request [simp]:
  "vr_verb (verb_request_of v k i ep key actor) = verb_str v" "vr_kind (verb_request_of v k i ep key actor) = k"
  "vr_vmid (verb_request_of v k i ep key actor) = i" "vr_endpoint (verb_request_of v k i ep key actor) = ep"
  by (simp_all add: verb_request_of_def)

lemma verbs_audited: "verb_str v \<in> set audit_required_verbs"
  by (cases v) (simp_all add: verb_str_def audit_required_verbs_def)

lemma sf_clean_entries [simp]: "ic_entries (release_single_flight k f (sf_release f i)) = ic_entries i"
  by (simp add: release_single_flight_def sf_release_def Let_def)

text \<open>A handler answers by itself, or runs its dispatcher on the cache it finds once it holds the key.\<close>

lemma handle_verb_cases:
  assumes "handle_verb V v k vmid endpoint_id key actor s = (res, s')"
  obtains (refused) "s' = s" "\<And>a. res = Inr a \<Longrightarrow> 400 \<le> rp_status a"
  | (run) ep r i t j where "gate V endpoint_id (disabled_reason v) s = Inr ep" "bad_body v = None"
      "r = verb_request_of v k vmid ep key actor"
      "dispatch_verb V v r (s\<lparr>vs_idem := i\<rparr>) = (res, t)" "s' = t\<lparr>vs_idem := j\<rparr>" "ic_entries j = ic_entries (vs_idem t)"
      "idempotency_cache_key r = None \<Longrightarrow> i = vs_idem s"
      "\<And>kk. idempotency_cache_key r = Some kk \<Longrightarrow> i = snd (enter_single_flight V kk s)"
proof (cases "gate V endpoint_id (disabled_reason v) s")
  case (Inl a)
  with assms have "s' = s" "res = Inr a" by (simp_all add: handle_verb_def)
  with gate_closed [OF Inl] show ?thesis by (intro refused) auto
next
  case (Inr ep)
  let ?r = "verb_request_of v k vmid ep key actor"
  show ?thesis
  proof (cases "bad_body v = None \<and> open_netbox V (nb_world s) (vs_px s) = None")
    case False
    with assms Inr bad_body_status [of v] show ?thesis
      by (intro refused) (auto simp: handle_verb_def split: option.splits if_splits)
  next
    case True
    with assms Inr have flight: "run_single_flight V (idempotency_cache_key ?r) (dispatch_verb V v ?r) s = (res, s')"
      by (simp add: handle_verb_def Let_def)
    show ?thesis
    proof (cases "idempotency_cache_key ?r")
      case None
      with flight True Inr show ?thesis by (intro run [of ep ?r "vs_idem s" s' "vs_idem s'"]) (simp_all add: run_single_flight_def)
    next
      case (Some kk)
      obtain f held where h: "enter_single_flight V kk s = (f, held)" by force
      obtain x t where x: "dispatch_verb V v ?r (s\<lparr>vs_idem := held\<rparr>) = (x, t)" by force
      from flight Some h x have "x = res" "s' = t\<lparr>vs_idem := release_single_flight kk f (sf_release f (vs_idem t))\<rparr>"
        by (simp_all add: run_single_flight_def)
      with True Inr Some h x show ?thesis by (intro run [of ep ?r held t "release_single_flight kk f (sf_release f (vs_idem t))"]) simp_all
    qed
  qed
qed

end
