(* ===== verification/Verb_Frames.thy ===== *)
theory Verb_Frames
  imports Verb_Contract
begin

text \<open>
  What the parts of a verb leave alone and what they note down. A \<open>traced\<close> environment logs the NetBox
  requests, and logs every Proxmox request with the NetBox log at that moment. Then: the frame of each
  NetBox step (Proxmox, idempotency cache and write-ahead entry untouched, log and clock only forward),
  and the log entries a created and an updated journal entry leave.
\<close>

type_synonym px_log = "(px_request \<times> px_outcome \<times> request_log) list"

definition traced :: "('w, 'p) venv \<Rightarrow> ('w \<times> request_log, 'p \<times> px_log) venv" where
  "traced V =
     \<lparr>nb_env = logged (nb_env V), legacy_fields = legacy_fields V,
      proxmox = (\<lambda>rq (w, l) (p, t). case proxmox V rq w p of (out, p') \<Rightarrow> (out, p', t @ [(rq, out, l)])),
      open_proxmox = (\<lambda>ep (w, l) (p, t). case open_proxmox V ep w p of (e, p') \<Rightarrow> (e, p', t)),
      open_netbox = (\<lambda>(w, l) (p, t). open_netbox V w p), endpoint_row = (\<lambda>i (w, l) (p, t). endpoint_row V i w p),
      cancelled = (\<lambda>(w, l) (p, t). cancelled V w p), idem_clock = (\<lambda>(w, l) (p, t). idem_clock V w p),
      now_iso = (\<lambda>(w, l) (p, t). now_iso V w p), now_stamp = (\<lambda>(w, l) (p, t). now_stamp V w p),
      read_status = read_status V, read_resources = read_resources V, type_name = type_name V, others = others V\<rparr>"

abbreviation nb_log :: "('w \<times> request_log, 'p) vst \<Rightarrow> request_log" where
  "nb_log s \<equiv> log_of (net (vs_sync s))"

abbreviation px_log :: "('w, 'p \<times> px_log) vst \<Rightarrow> px_log" where
  "px_log s \<equiv> snd (vs_px s)"

definition sent :: "('w, 'p \<times> px_log) vst \<Rightarrow> px_request list" where
  "sent s = map fst (filter (\<lambda>(rq, out, l). is_write rq) (px_log s))"

lemma sent_update [simp]:
  "sent (s\<lparr>vs_sync := y\<rparr>) = sent s" "sent (s\<lparr>vs_idem := i\<rparr>) = sent s" "sent (s\<lparr>vs_entry := d\<rparr>) = sent s"
  by (simp_all add: sent_def)

lemma traced_env [simp]: "nb_env (traced V) = logged (nb_env V)" "others (traced V) = others V"
  by (simp_all add: traced_def)

lemma traced_send:
  "px_send (traced V) rq s = (out, s') \<Longrightarrow>
     \<exists>p. s' = s\<lparr>vs_px := (p, px_log s @ [(rq, out, nb_log s)])\<rparr>"
  by (cases "vs_px s"; cases "nb_world s") (auto simp: px_send_def traced_def log_of_def split: prod.splits)

lemma traced_open:
  "open_proxmox (traced V) ep (nb_world s) (vs_px s) = (e, p) \<Longrightarrow> snd p = px_log s"
  by (cases "vs_px s"; cases "nb_world s") (auto simp: traced_def split: prod.splits)

lemma sent_send: "px_send (traced V) rq s = (out, s') \<Longrightarrow> sent s' = (if is_write rq then sent s @ [rq] else sent s)"
  by (drule traced_send) (auto simp: sent_def)

lemma sent_open: "open_proxmox (traced V) ep (nb_world s) (vs_px s) = (e, p) \<Longrightarrow> sent (s\<lparr>vs_px := p\<rparr>) = sent s"
  by (drule traced_open) (simp add: sent_def)


subsection \<open>Frames\<close>

text \<open>
  \<open>nb_step V R\<close>: only the NetBox side has moved, in the relation \<open>R\<close>. \<open>audit_step\<close> lets the cache and the
  write-ahead entry change as well.
\<close>

definition nb_step :: "('w \<Rightarrow> 'w \<Rightarrow> bool) \<Rightarrow> ('w, 'p) vst \<Rightarrow> ('w, 'p) vst \<Rightarrow> bool" where
  "nb_step R s s' = (R (nb_world s) (nb_world s') \<and> s' = s\<lparr>vs_sync := vs_sync s'\<rparr>)"

definition audit_step :: "('w \<Rightarrow> 'w \<Rightarrow> bool) \<Rightarrow> ('w, 'p) vst \<Rightarrow> ('w, 'p) vst \<Rightarrow> bool" where
  "audit_step R s s' = (R (nb_world s) (nb_world s') \<and> vs_px s' = vs_px s)"

lemma nb_step_frame:
  "nb_step R s s' \<Longrightarrow> vs_px s' = vs_px s" "nb_step R s s' \<Longrightarrow> vs_idem s' = vs_idem s"
  "nb_step R s s' \<Longrightarrow> vs_entry s' = vs_entry s" "nb_step R s s' \<Longrightarrow> R (nb_world s) (nb_world s')"
  unfolding nb_step_def by (metis vst.select_convs vst.surjective vst.update_convs(1))+

lemma audit_of_nb: "nb_step R s s' \<Longrightarrow> audit_step R s s'"
  by (simp add: audit_step_def nb_step_frame)

lemma audit_stepD: "audit_step R s s' \<Longrightarrow> vs_px s' = vs_px s" "audit_step R s s' \<Longrightarrow> R (nb_world s) (nb_world s')"
  by (simp_all add: audit_step_def)

context env_relation
begin

lemma nb_refl [simp]: "nb_step R s s"
  by (simp add: nb_step_def rel_refl)

lemma audit_refl [simp]: "audit_step R s s"
  by (simp add: audit_step_def rel_refl)

lemma nb_trans: "nb_step R s s' \<Longrightarrow> nb_step R s' s'' \<Longrightarrow> nb_step R s s''"
  unfolding nb_step_def by (metis (no_types, lifting) rel_trans vst.surjective vst.update_convs(1))

lemma audit_trans: "audit_step R s s' \<Longrightarrow> audit_step R s' s'' \<Longrightarrow> audit_step R s s''"
  unfolding audit_step_def by (metis rel_trans)

lemma audit_updates [simp]:
  "audit_step R s (s'\<lparr>vs_idem := i\<rparr>) = audit_step R s s'" "audit_step R s (s'\<lparr>vs_entry := d\<rparr>) = audit_step R s s'"
  "audit_step R (s\<lparr>vs_idem := i\<rparr>) s' = audit_step R s s'" "audit_step R (s\<lparr>vs_entry := d\<rparr>) s' = audit_step R s s'"
  "audit_step R s (mark_terminal s') = audit_step R s s'" "audit_step R s (store_reply V k b n m s') = audit_step R s s'"
  "audit_step R (store_reply V k b n m s) s' = audit_step R s s'"
  by (simp_all add: audit_step_def mark_terminal_def store_reply_def)

lemma on_rest_step: "moves R body \<Longrightarrow> on_rest body s = (r, s') \<Longrightarrow> nb_step R s s'"
  by (auto simp: on_rest_def nb_step_def sync_moves_def dest!: on_net_moves split: prod.splits sum.splits)

lemma resolve_id_step:
  assumes V: "nb_env V = E" and run: "resolve_netbox_vm_id V i e c f s = (r, s')"
  shows "nb_step R s s'"
proof -
  obtain x y where x: "resolve_virtual_machine_by_sync_state E (legacy_fields V) (PInt i) e c None f (vs_sync s) = (x, y)" by force
  with run V have "s' = s\<lparr>vs_sync := y\<rparr>"
    by (auto simp: resolve_netbox_vm_id_def Let_def split: sum.splits py_exc.splits option.splits if_splits)
  with resolve_vm_moves [OF x] show ?thesis by (simp add: nb_step_def sync_moves_def)
qed

lemma target_step:
  assumes V: "nb_env V = E" and run: "resolve_audit_target V c s = (r, s')"
  shows "nb_step R s s'"
proof -
  obtain x y where x: "resolve_netbox_vm_id V (vx_vmid c) (Some (ep_id (vx_endpoint c))) None
      (vx_verb c \<in> set audit_required_verbs) s = (x, y)" by force
  with run have "s' = y"
    by (auto simp: resolve_audit_target_def Let_def split: sum.splits base_exc.splits py_exc.splits if_splits)
  with resolve_id_step [OF V x] show ?thesis by simp
qed

lemma write_entry_step: "nb_env V = E \<Longrightarrow> write_verb_journal_entry V i k t s = (r, s') \<Longrightarrow> nb_step R s s'"
  using on_rest_step [OF rest_create_moves] by (auto simp: write_verb_journal_entry_def split: prod.splits sum.splits)

lemma update_entry_step: "nb_env V = E \<Longrightarrow> update_verb_journal_entry V i k t s = (r, s') \<Longrightarrow> nb_step R s s'"
  using on_rest_step [OF rest_patch_moves]
  by (auto simp: update_verb_journal_entry_def split: prod.splits sum.splits pyval.splits)

lemma best_effort_step:
  assumes "nb_env V = E"
  shows "audit_step R s (best_effort_mark V i k t s)"
  by (auto simp: best_effort_mark_def dest!: update_entry_step [OF assms] intro: audit_of_nb split: prod.splits sum.splits)

lemma resistant_step:
  assumes "nb_env V = E" "update_resistant V i k t u s = (r, s')"
  shows "audit_step R s s'"
proof -
  obtain x s1 where x: "update_verb_journal_entry V i k t s = (x, s1)" by force
  note m = audit_of_nb [OF update_entry_step [OF assms(1) x]]
  show ?thesis
    using assms(2) x m audit_trans [OF m best_effort_step [OF assms(1)]]
    by (auto simp: update_resistant_def split: if_splits sum.splits)
qed

lemma finalize_step:
  assumes "nb_env V = E" "finalize_journal_entry V c k t i f n s = (r, s')"
  shows "audit_step R s s'"
  using assms(2) unfolding finalize_journal_entry_def Let_def
  by (auto dest!: audit_of_nb [OF write_entry_step [OF assms(1)]] resistant_step [OF assms(1)]
      split: if_splits option.splits prod.splits sum.splits base_exc.splits)

lemma audit_and_respond_step:
  assumes "nb_env V = E" "audit_and_respond V c a s = (r, s')"
  shows "audit_step R s s'"
proof -
  obtain p s1 where p: "(if journal_entry_is_terminal (vs_entry s) then (None, s) else store_pending V c a s) = (p, s1)" by force
  then have s1: "audit_step R s1 t = audit_step R s t" for t
    by (auto simp: store_pending_def Let_def split: if_splits option.splits)
  obtain f s2 where f: "finalize_journal_entry V c (au_kind a) (audit_comments c a) (interrupted_comments c a)
                  (failed_comments c a) (au_status a) s1 = (f, s2)" by force
  have "audit_step R s s2" using finalize_step [OF assms(1) f] s1 by simp
  then show ?thesis
    using assms(2) p f by (auto simp: audit_and_respond_def store_final_def split: sum.splits option.splits if_splits)
qed

lemma unexpected_step: "nb_env V = E \<Longrightarrow> audit_step R s (finalize_after_unexpected V c e u x s)"
  by (auto simp: finalize_after_unexpected_def intro: audit_and_respond_step prod.collapse [symmetric] split: prod.splits)

lemma writeahead_step:
  assumes "nb_env V = E" "create_writeahead V c s = (r, s')"
  shows "audit_step R s s'"
proof -
  { fix vm x s1 assume "write_verb_journal_entry V vm ''info'' (comments_of c ''in_progress'' None None) s = (x, s1)"
    then have m: "audit_step R s s1" using audit_of_nb write_entry_step [OF assms(1)] by blast
    then have "audit_step R s (finalize_after_unexpected V c Cancelled None None (s1\<lparr>vs_entry := e\<rparr>))" for e
      using audit_trans [of s "s1\<lparr>vs_entry := e\<rparr>"] unexpected_step [OF assms(1), of "s1\<lparr>vs_entry := e\<rparr>"]
      by (simp del: audit_updates(3,4))
    note m this }
  then show ?thesis
    using assms(2) unfolding create_writeahead_def
    by (auto split: prod.splits sum.splits option.splits if_splits)
qed

lemma retry_cached_step:
  assumes "nb_env V = E" "retry_cached_finalization V m s = (r, s')"
  shows "audit_step R s s'"
  using assms(2) unfolding retry_cached_finalization_def Let_def
  by (auto dest!: resistant_step [OF assms(1)] split: option.splits prod.splits sum.splits base_exc.splits)

lemma cached_step:
  assumes "nb_env V = E" "cached_idempotency_response V k s = (r, s')"
  shows "audit_step R s s'"
proof -
  have "audit_step R s t" if "retry_cached_finalization V m (s\<lparr>vs_idem := i\<rparr>) = (x, t)" for m i x t
    using retry_cached_step [OF assms(1) that] by simp
  then show ?thesis
    using assms(2) unfolding cached_idempotency_response_def Let_def
    by (auto split: prod.splits option.splits bool.splits sum.splits if_splits)
qed

end


subsection \<open>What NetBox has acknowledged\<close>

definition acked :: "api_request \<Rightarrow> pyval \<Rightarrow> request_log \<Rightarrow> bool" where
  "acked rq v l = (\<exists>resp. (rq, Inr resp) \<in> set l \<and> extract_payload resp = Inr v)"

text \<open>
  The write-ahead entry of a request, and its terminal update: the entry is on some NetBox machine \<open>vm\<close>, its
  comments name verb, actor, endpoint and key, and NetBox has answered with an id.
\<close>

definition start_comments :: "verb_request \<Rightarrow> string \<Rightarrow> int \<Rightarrow> string" where
  "start_comments r stamp vm = comments_of (ctx_of r (idempotency_cache_key r) stamp (Some vm)) ''in_progress'' None None"

definition journal_started :: "verb_request \<Rightarrow> int \<Rightarrow> request_log \<Rightarrow> bool" where
  "journal_started r entry_id l =
     (\<exists>stamp vm body entry.
        acked (create_rq journal_path (journal_payload vm ''info'' (start_comments r stamp vm))) (PDict body) l \<and>
        obj_get body ''data'' = PDict entry \<and> id_value (obj_get entry ''id'') = Some entry_id)"

abbreviation patch_rq :: "string \<Rightarrow> int \<Rightarrow> pyobj \<Rightarrow> api_request" where
  "patch_rq path i payload \<equiv>
     \<lparr>rq_method = ''PATCH'', rq_path = detail_path (normalize_path path) (PInt i), rq_query = None, rq_payload = PDict payload\<rparr>"

definition journal_finished :: "int \<Rightarrow> string \<Rightarrow> string \<Rightarrow> request_log \<Rightarrow> bool" where
  "journal_finished entry_id k comments l =
     (\<exists>v. acked (patch_rq journal_path entry_id (scrub_cloud_init [(''kind'', PStr k), (''comments'', PStr comments)])) v l)"

lemma acked_mono: "acked rq v l \<Longrightarrow> set l \<subseteq> set l' \<Longrightarrow> acked rq v l'"
  by (auto simp: acked_def)

lemma journal_mono:
  "journal_started r i l \<Longrightarrow> set l \<subseteq> set l' \<Longrightarrow> journal_started r i l'"
  "journal_finished i k t l \<Longrightarrow> set l \<subseteq> set l' \<Longrightarrow> journal_finished i k t l'"
  unfolding journal_started_def journal_finished_def by (meson acked_mono)+

text \<open>A retried operation that succeeds ends with a success of its body.\<close>

lemma retry_from_last:
  "retry_from E safe body a n s = (Inr v, s') \<Longrightarrow> \<exists>t. body t = (Inr v, s')"
proof (induct n arbitrary: a s)
  case (Suc n)
  then show ?case by (auto split: prod.splits sum.splits if_splits)
qed auto

lemma call_success:
  assumes "call (logged E) op rq s = (Inr v, s')"
  shows "acked rq v (log_of s')"
proof -
  obtain out where o: "send (logged E) rq s = (out, snd (send (logged E) rq s))"
    "log_of (snd (send (logged E) rq s)) = log_of s @ [(rq, out)]" using log_send by blast
  with assms obtain resp where "out = Inr resp" "extract_payload resp = Inr v" "snd (send (logged E) rq s) = s'"
    by (auto simp: call_def send_wrapped_def split: prod.splits sum.splits)
  with o(2) show ?thesis by (auto simp: acked_def)
qed

text \<open>An answer the server can give.\<close>

definition answers :: "'w netenv \<Rightarrow> api_request \<Rightarrow> pyval \<Rightarrow> bool" where
  "answers E rq v = (\<exists>w resp. fst (request E rq w) = Inr resp \<and> extract_payload resp = Inr v)"

lemma call_answers:
  assumes "call (logged E) op rq s = (Inr v, s')"
  shows "answers E rq v"
proof -
  from assms obtain resp t where "send (logged E) rq s = (Inr resp, t)" "extract_payload resp = Inr v"
    by (auto simp: call_def send_wrapped_def split: prod.splits sum.splits)
  then have "fst (request E rq (fst (srv s))) = Inr resp" "extract_payload resp = Inr v"
    by (cases "srv s", auto simp: send_def logged_def split: prod.splits)+
  then show ?thesis unfolding answers_def by blast
qed

lemma rest_create_success:
  assumes "rest_create (logged E) path payload None s = (Inr r, s')"
  shows "\<exists>body. acked (create_rq path payload) (PDict body) (log_of s') \<and> rec_data r = body \<and>
    answers E (create_rq path payload) (PDict body)"
proof -
  from assms obtain t where "create_request (logged E) path payload t = (Inr r, s')"
    by (auto simp: rest_create_def create_no_lookup dest: retry_from_last)
  then obtain body u where "call (logged E) (''create '' @ path) (create_rq path payload) t = (Inr (PDict body), u)"
    "r = new_record (normalize_path path) body" "log_of s' = log_of u"
    by (auto simp: create_request_def split: prod.splits sum.splits pyval.splits)
  with call_success call_answers show ?thesis by (fastforce simp: new_record_def)
qed

lemma rest_patch_success:
  assumes "rest_patch (logged E) path i payload s = (Inr v, s')"
  shows "acked (patch_rq path i payload) v (log_of s')"
proof -
  from assms obtain t where "patch_request (logged E) path i payload t = (Inr v, s')"
    by (auto simp: rest_patch_def with_retry_def dest: retry_from_last)
  then obtain u where "call (logged E) (''patch '' @ path) (patch_rq path i payload) t = (Inr v, u)" "log_of s' = log_of u"
    by (auto simp: patch_request_def Let_def split: prod.splits sum.splits)
  with call_success show ?thesis by fastforce
qed

lemma write_entry_success:
  assumes V: "nb_env V = logged E" and run: "write_verb_journal_entry V vm k t s = (Inr entry, s')"
  shows "\<exists>body. acked (create_rq journal_path (journal_payload vm k t)) (PDict body) (nb_log s') \<and>
    answers E (create_rq journal_path (journal_payload vm k t)) (PDict body) \<and>
    entry = (case obj_get body ''data'' of PDict d \<Rightarrow> Some d | _ \<Rightarrow> None)"
proof -
  obtain x n where x: "rest_create (logged E) journal_path (journal_payload vm k t) None (net (vs_sync s)) = (x, n)" by force
  with run V obtain r where r: "x = Inr r" "entry = created_entry r" "net (vs_sync s') = n"
    by (auto simp: write_verb_journal_entry_def on_rest_def on_net_def split: sum.splits)
  with rest_create_success [of E journal_path "journal_payload vm k t" "net (vs_sync s)" r n] x show ?thesis
    by (auto simp: created_entry_def)
qed

lemma update_entry_success:
  assumes V: "nb_env V = logged E" and run: "update_verb_journal_entry V i k t s = (Inr entry, s')"
  shows "journal_finished i k t (nb_log s')"
proof -
  let ?p = "scrub_cloud_init [(''kind'', PStr k), (''comments'', PStr t)]"
  obtain x n where x: "rest_patch (logged E) journal_path i ?p (net (vs_sync s)) = (x, n)" by force
  with run V obtain v where "x = Inr v" "net (vs_sync s') = n"
    by (auto simp: update_verb_journal_entry_def on_rest_def on_net_def split: sum.splits pyval.splits)
  with rest_patch_success [of E journal_path i ?p "net (vs_sync s)" v n] x show ?thesis
    by (auto simp: journal_finished_def)
qed

lemma audit_log:
  assumes "audit_step log_grows s s'"
  shows "set (nb_log s) \<subseteq> set (nb_log s')"
  using assms by (auto simp: audit_step_def log_grows_def log_of_def dest: set_mono_prefix)

end
