(* ===== verification/Verb_Safety.thy ===== *)
theory Verb_Safety
  imports Verb_Frames
begin

text \<open>
  The contract of \<open>Verb_Contract\<close> on the traced model, three times: what the log of a run holds, when a
  successful answer is accounted for in NetBox, and what the idempotency cache remembers. Then the
  theorems about the handlers.
\<close>

definition journaled :: "verb_request \<Rightarrow> ('w, 'p \<times> px_log) vst \<Rightarrow> bool" where
  "journaled r s = (\<forall>(rq, out, l) \<in> set (px_log s). is_write rq \<longrightarrow> (\<exists>i. journal_started r i l))"

definition log_stage :: "verb_request \<Rightarrow> px_request list \<Rightarrow> ('w, 'p \<times> px_log) vst \<Rightarrow> bool" where
  "log_stage r l s = (vr_verb r \<in> set audit_required_verbs \<and> sent s = l \<and> journaled r s)"

lemma log_stage_cong: "snd (vs_px s') = snd (vs_px s) \<Longrightarrow> log_stage r l s' = log_stage r l s"
  by (simp add: log_stage_def journaled_def sent_def)

lemma log_stage_audit: "audit_step R s s' \<Longrightarrow> log_stage r l s \<Longrightarrow> log_stage r l s'"
  by (simp add: audit_step_def cong: log_stage_cong)

lemma log_stage_send:
  assumes "log_stage r l s" "px_send (traced V) rq s = (out, s')" "is_write rq \<Longrightarrow> \<exists>i. journal_started r i (nb_log s)"
  shows "log_stage r (if is_write rq then l @ [rq] else l) s'"
  using assms sent_send [OF assms(2)] traced_send [OF assms(2)] by (auto simp: log_stage_def journaled_def)

text \<open>The write-ahead entry in hand is one NetBox has acknowledged.\<close>

definition holds_entry :: "verb_request \<Rightarrow> ('w \<times> request_log, 'p) vst \<Rightarrow> bool" where
  "holds_entry r s = (\<exists>i. journal_entry_id (vs_entry s) = Some i \<and> journal_started r i (nb_log s))"

lemma holds_entry_cong:
  "vs_entry s' = vs_entry s \<Longrightarrow> set (nb_log s) \<subseteq> set (nb_log s') \<Longrightarrow> holds_entry r s \<Longrightarrow> holds_entry r s'"
  unfolding holds_entry_def using journal_mono(1) by metis

lemma ctx_start_comments:
  "is_ctx r c \<Longrightarrow> vx_vm c = Some vm \<Longrightarrow> \<exists>stamp. comments_of c ''in_progress'' None None = start_comments r stamp vm"
  unfolding is_ctx_def start_comments_def by (elim exE) (rule exI, simp add: ctx_of_def)

text \<open>NetBox does not answer with the private mark of a finalized entry.\<close>

definition unmarked :: "'w netenv \<Rightarrow> bool" where
  "unmarked E = (\<forall>rq body entry. answers E rq (PDict body) \<longrightarrow> obj_get body ''data'' = PDict entry \<longrightarrow>
     obj_get entry terminal_sentinel \<noteq> PBool True)"

lemma writeahead_entry:
  assumes c: "is_ctx r c" "has_target c" "vr_verb r \<in> set audit_required_verbs" and V: "nb_env V = logged E"
    and run: "create_writeahead V c s = (Inr None, s')"
  shows "holds_entry r s'" and "unmarked E \<Longrightarrow> \<not> journal_entry_is_terminal (vs_entry s')"
proof -
  from c obtain vm where vm: "vx_vm c = Some vm" by (auto simp: has_target_def)
  let ?t = "comments_of c ''in_progress'' None None"
  obtain x s1 where x: "write_verb_journal_entry V vm ''info'' ?t s = (x, s1)" by force
  with run vm c obtain entry i where e: "x = Inr entry" "s' = s1\<lparr>vs_entry := entry\<rparr>" "journal_entry_id entry = Some i"
    by (auto simp: create_writeahead_def split: if_splits sum.splits)
  from write_entry_success [OF V] x e(1) obtain body
    where b: "acked (create_rq journal_path (journal_payload vm ''info'' ?t)) (PDict body) (nb_log s1)"
      "entry = (case obj_get body ''data'' of PDict d \<Rightarrow> Some d | _ \<Rightarrow> None)"
      "answers E (create_rq journal_path (journal_payload vm ''info'' ?t)) (PDict body)" by blast
  with e(3) obtain d where d: "obj_get body ''data'' = PDict d" "id_value (obj_get d ''id'') = Some i"
    by (auto simp: journal_entry_id_def split: pyval.splits)
  then show "\<not> journal_entry_is_terminal (vs_entry s')" if "unmarked E"
    using that b(2,3) e(2) by (auto simp: unmarked_def journal_entry_is_terminal_def)
  obtain stamp where "?t = start_comments r stamp vm" using ctx_start_comments [OF c(1) vm] by blast
  then show "holds_entry r s'" using b(1) e d by (auto simp: holds_entry_def journal_started_def)
qed

lemma log_of_sync [simp]: "nb_log (s\<lparr>vs_px := p\<rparr>) = nb_log s" "nb_log (s\<lparr>vs_entry := d\<rparr>) = nb_log s"
  by simp_all

lemma holds_entry_px:
  "holds_entry r (s\<lparr>vs_px := p\<rparr>) = holds_entry r s"
  by (simp add: holds_entry_def)

lemma traced_send_frame:
  "px_send V rq s = (out, s') \<Longrightarrow> vs_sync s' = vs_sync s" "px_send V rq s = (out, s') \<Longrightarrow> vs_entry s' = vs_entry s"
  "px_send V rq s = (out, s') \<Longrightarrow> vs_idem s' = vs_idem s"
  by (auto simp: px_send_def split: prod.splits)

lemmas traced_audit = log_growth.audit_and_respond_step [OF traced_env(1)]
lemmas traced_unexpected = log_growth.unexpected_step [OF traced_env(1)]
lemmas traced_writeahead = log_growth.writeahead_step [OF traced_env(1)]
lemmas traced_cached = log_growth.cached_step [OF traced_env(1)]
lemmas traced_target = log_growth.target_step [OF traced_env(1)]

interpretation logs: verb_stages "traced V" "\<lambda>r. log_stage r []" "\<lambda>r. log_stage r []"
  "\<lambda>r c l s. log_stage r l s \<and> holds_entry r s" "\<lambda>r l res. log_stage r l" for V :: "('w, 'p) venv"
proof (unfold_locales, goal_cases)
  case (1 r s k cached s')
  with log_stage_audit [OF traced_cached] show ?case by (auto split: sum.splits option.splits)
next
  case (4 r s ep err p)
  with traced_open [OF 4(2)] show ?case by (simp cong: log_stage_cong)
next
  case (5 r s rq out s')
  then show ?case using log_stage_send [of r "[]" s V rq out s'] by simp
next
  case (6 r s c target s')
  with log_stage_audit [OF audit_of_nb [OF traced_target]] show ?case by blast
next
  case (9 r s c written s')
  have "log_stage r [] s'" using 9 log_stage_audit [OF traced_writeahead] by blast
  moreover have "written = Inr None \<Longrightarrow> holds_entry r s'"
    using 9 writeahead_entry(1) [OF 9(2,3) _ traced_env(1)] by (auto simp: log_stage_def)
  ultimately show ?case by (auto split: sum.splits option.splits)
next
  case (10 r c l s ep err p)
  with traced_open [OF 10(2)] show ?case by (simp add: holds_entry_px cong: log_stage_cong)
next
  case (11 r c l s rq out s')
  have "\<exists>i. journal_started r i (nb_log s)" using 11 by (auto simp: holds_entry_def)
  then have "log_stage r (if is_write rq then l @ [rq] else l) s'" using 11 by (blast intro: log_stage_send)
  moreover have "holds_entry r s'"
    using 11 traced_send_frame [OF 11(2)] by (simp add: holds_entry_def)
  ultimately show ?case by blast
next
  case (12 r c l s au answer s')
  with log_stage_audit [OF traced_audit] show ?case by blast
next
  case (13 r c l s e u x)
  with log_stage_audit [OF traced_unexpected] show ?case by blast
next
  case (14 r l e s c u x)
  with log_stage_audit [OF traced_unexpected] show ?case by blast
qed (auto simp: log_stage_def journaled_def)


subsection \<open>Success is accounted for\<close>

text \<open>The entry of a request has been started, and later updated with a result of the same request.\<close>

definition accounted :: "verb_request \<Rightarrow> request_log \<Rightarrow> bool" where
  "accounted r l =
     (\<exists>i c k result upid err. journal_started r i l \<and> is_ctx r c \<and> journal_finished i k (comments_of c result upid err) l)"

definition can_account :: "verb_request \<Rightarrow> verb_ctx \<Rightarrow> ('w \<times> request_log, 'p) vst \<Rightarrow> bool" where
  "can_account r c s = (holds_entry r s \<and> \<not> journal_entry_is_terminal (vs_entry s) \<and> vx_vm c \<noteq> None)"

lemma store_pending_frame:
  assumes "store_pending V c a s = (p, s')"
  shows "vs_sync s' = vs_sync s" "vs_px s' = vs_px s" "vs_entry s' = vs_entry s"
  using assms by (auto simp: store_pending_def store_reply_def Let_def split: option.splits)

lemma store_final_frame [simp]:
  "vs_sync (store_final V c f p r s) = vs_sync s" "vs_px (store_final V c f p r s) = vs_px s"
  "vs_entry (store_final V c f p r s) = vs_entry s"
  by (simp_all add: store_final_def store_reply_def split: option.splits)

lemma resistant_success:
  assumes V: "nb_env V = logged E" and run: "update_resistant V i k t u s = (Inr entry, s')"
  shows "journal_finished i k t (nb_log s')"
proof -
  obtain x s1 where x: "update_verb_journal_entry V i k t s = (x, s1)" by force
  with run have "x = Inr entry" "s' = mark_terminal s1"
    by (auto simp: update_resistant_def split: if_splits sum.splits)
  with update_entry_success [OF V] x show ?thesis by (simp add: mark_terminal_def)
qed

lemma audit_accounts:
  assumes c: "is_ctx r c" and ready: "can_account r c s" and V: "nb_env V = logged E"
    and run: "audit_and_respond V c a s = (Inr answer, s')" and ok: "rp_status answer < 400"
  shows "accounted r (nb_log s')"
proof -
  obtain p s1 where p: "store_pending V c a s = (p, s1)" by force
  note frame = store_pending_frame [OF p]
  obtain x s2 where x: "finalize_journal_entry V c (au_kind a) (audit_comments c a) (interrupted_comments c a)
                  (failed_comments c a) (au_status a) s1 = (x, s2)" by force
  from ready obtain i vm where i: "journal_entry_id (vs_entry s) = Some i" "journal_started r i (nb_log s)" "vx_vm c = Some vm"
    "\<not> journal_entry_is_terminal (vs_entry s)" by (auto simp: can_account_def holds_entry_def)
  from run ready p x obtain f where f: "x = Inr f" "answer = final_reply c a f" "nb_log s' = nb_log s2"
    by (auto simp: audit_and_respond_def can_account_def split: sum.splits)
  from f(2) ok have "jf_finalized f" by (auto simp: final_reply_def Let_def split: if_splits)
  moreover have "vs_entry s1 \<noteq> None" using i frame by (auto simp: journal_entry_id_def split: option.splits)
  ultimately obtain entry where "update_resistant V i (au_kind a) (audit_comments c a) (interrupted_comments c a) s1 = (Inr entry, s2)"
    using x f(1) i frame
    by (auto simp: finalize_journal_entry_def Let_def split: prod.splits sum.splits base_exc.splits)
  from resistant_success [OF V this] have fin: "journal_finished i (au_kind a) (audit_comments c a) (nb_log s2)" .
  have "set (nb_log s1) \<subseteq> set (nb_log s2)" using log_growth.finalize_step [OF V x] by (rule audit_log)
  with i frame have "journal_started r i (nb_log s2)" by (auto intro: journal_mono(1))
  with fin c f(3) show ?thesis unfolding accounted_def audit_comments_def by metis
qed

lemma target_refusal_status:
  "resolve_audit_target V c s = (Inr (Inl a), s') \<Longrightarrow> vx_verb c \<in> set audit_required_verbs \<Longrightarrow> rp_status a = 409"
  by (auto simp: resolve_audit_target_def resolve_netbox_vm_id_def audit_target_reply_def audit_refusal_def Let_def
      split: prod.splits sum.splits base_exc.splits py_exc.splits option.splits if_splits)

lemma writeahead_refusal_status: "create_writeahead V c s = (Inr (Some a), s') \<Longrightarrow> rp_status a = 409"
  by (auto simp: create_writeahead_def writeahead_failure_def audit_target_reply_def
      split: prod.splits sum.splits option.splits if_splits)

definition accountable :: "verb_request \<Rightarrow> base_exc + reply \<Rightarrow> ('w \<times> request_log, 'p \<times> px_log) vst \<Rightarrow> bool" where
  "accountable r res s =
     (\<forall>a. res = Inr a \<longrightarrow> rp_status a < 400 \<longrightarrow> accounted r (nb_log s) \<or> (idempotency_cache_key r \<noteq> None \<and> px_log s = []))"

definition auditable :: "('w, 'p) venv \<Rightarrow> verb_request \<Rightarrow> bool" where
  "auditable V r = (unmarked (nb_env V) \<and> vr_verb r \<in> set audit_required_verbs)"

interpretation accounts: verb_stages "traced V" "\<lambda>r s. auditable V r \<and> px_log s = []" "\<lambda>r s. auditable V r"
  "\<lambda>r c l s. can_account r c s" "\<lambda>r l. accountable r" for V :: "('w, 'p) venv"
proof (unfold_locales, goal_cases)
  case (1 r s k cached s')
  then have "px_log s' = []" using audit_stepD(1) [OF traced_cached [OF 1(3)]] by simp
  with 1 show ?case by (auto simp: accountable_def split: sum.splits option.splits)
next
  case (6 r s c target s')
  with target_refusal_status [of "traced V" c s _ s'] show ?case by (auto simp: accountable_def auditable_def)
next
  case (9 r s c written s')
  then have r: "vr_verb r \<in> set audit_required_verbs" "unmarked (nb_env V)" by (simp_all add: auditable_def)
  have "can_account r c s'" if "written = Inr None"
  proof -
    from 9(4) that have "create_writeahead (traced V) c s = (Inr None, s')" by simp
    note entry = writeahead_entry [OF 9(2,3) r(1) traced_env(1) this]
    with 9(2,3) r show ?thesis by (auto simp: can_account_def has_target_def)
  qed
  with writeahead_refusal_status [of "traced V" c s _ s'] 9 show ?case
    by (auto simp: accountable_def split: sum.splits option.splits)
next
  case (10 r c l s ep err p)
  then show ?case by (simp add: can_account_def holds_entry_px)
next
  case (11 r c l s rq out s')
  then show ?case using traced_send_frame [OF 11(2)] by (simp add: can_account_def holds_entry_def)
next
  case (12 r c l s au answer s')
  with audit_accounts [OF 12(2,1) traced_env(1)] show ?case by (auto simp: accountable_def)
qed (auto simp: accountable_def)


subsection \<open>The handlers\<close>

lemma handle_writes:
  assumes run: "handle_verb (traced V) v k vmid endpoint_id key actor s = (res, s')" and start: "px_log s = []"
  shows "verb_sends v k vmid (sent s')"
    and "sent s' \<noteq> [] \<Longrightarrow> \<exists>ep. gate (traced V) endpoint_id (disabled_reason v) s = Inr ep \<and>
      journaled (verb_request_of v k vmid ep key actor) s'"
proof -
  have "verb_sends v k vmid (sent s') \<and> (sent s' \<noteq> [] \<longrightarrow> (\<exists>ep. gate (traced V) endpoint_id (disabled_reason v) s = Inr ep \<and>
      journaled (verb_request_of v k vmid ep key actor) s'))"
    using run
  proof (cases rule: handle_verb_cases)
    case refused
    with start show ?thesis by (simp add: sent_def verb_sends_def)
  next
    case (run ep r i t j)
    have "log_stage r [] (s\<lparr>vs_idem := i\<rparr>)"
      using start verbs_audited run(3) by (simp add: log_stage_def journaled_def sent_def)
    from op_specD [OF logs.dispatch_spec [OF run(2)] this run(4)] obtain l
      where "verb_sends v k vmid l" "log_stage r l t" using run(3) by auto
    with run show ?thesis by (auto simp: log_stage_def journaled_def sent_def)
  qed
  then show "verb_sends v k vmid (sent s')"
    and "sent s' \<noteq> [] \<Longrightarrow> \<exists>ep. gate (traced V) endpoint_id (disabled_reason v) s = Inr ep \<and>
      journaled (verb_request_of v k vmid ep key actor) s'" by auto
qed

lemma sent_not_empty: "ev \<in> set (px_log s) \<Longrightarrow> is_write (fst ev) \<Longrightarrow> sent s \<noteq> []"
  by (cases ev) (auto simp: sent_def filter_empty_conv)

text \<open>
  An environment for the witnesses: one machine, running on \<^verbatim>\<open>pve\<close>, with its sidecar row in NetBox; NetBox
  answers a created journal entry with its id, and acknowledges every update.
\<close>

definition demo_answer :: "api_request \<Rightarrow> py_exc + api_response" where
  "demo_answer rq =
     (if rq_method rq = ''GET'' then one_of [[(''id'', PInt 7), (''proxmox_endpoint_raw_id'', PInt 1), (''virtual_machine'', PDict [(''id'', PInt 7)])]]
      else if rq_method rq = ''POST'' then Inr (json_response 201 (PDict [(''data'', PDict [(''id'', PInt 5)])]))
      else Inr (json_response 200 (PDict [(''id'', PInt 5)])))"

definition demo_netbox :: "unit netenv" where
  "demo_netbox =
     \<lparr>request = (\<lambda>rq w. (demo_answer rq, w)), sleep = (\<lambda>d w. w), clock = (\<lambda>w. 0), jitter = (\<lambda>w. 0), api_id = 7,
      max_retries = 2, retry_delay = 2, cache_cfg = \<lparr>cache_ttl = 60, cache_max_entries = 8, cache_max_bytes = 512\<rparr>\<rparr>"

definition demo_venv :: "(unit, unit) venv" where
  "demo_venv =
     \<lparr>nb_env = demo_netbox, legacy_fields = False, proxmox = (\<lambda>rq w p. (PxReturn (PStr ''UPID:1''), p)),
      open_proxmox = (\<lambda>ep w p. (None, p)), open_netbox = (\<lambda>w p. None),
      endpoint_row = (\<lambda>i w p. Some \<lparr>ep_id = i, ep_name = ''lab'', ep_allow_writes = True\<rparr>), cancelled = (\<lambda>w p. False),
      idem_clock = (\<lambda>w p. 0), now_iso = (\<lambda>w p. ''2026-05-12T18:42:11Z''), now_stamp = (\<lambda>w p. ''20260512''),
      read_status = (\<lambda>k v. Inr (PStr ''running'')), read_resources = (\<lambda>v. Inr [(Some 100, Some ''pve'')]),
      type_name = (\<lambda>e. ''Error''), others = (\<lambda>f c. c)\<rparr>"

definition demo_state :: "(unit \<times> request_log, unit \<times> px_log) vst" where
  "demo_state =
     \<lparr>vs_sync = \<lparr>net = start_state (), writer_unavailable = [], reader_unavailable = []\<rparr>, vs_px = ((), []),
      vs_idem = idem_init 60, vs_entry = None\<rparr>"

definition demo_run :: "verb_call \<Rightarrow> (base_exc + reply) \<times> (unit \<times> request_log, unit \<times> px_log) vst" where
  "demo_run v = handle_verb (traced demo_venv) v Qemu 100 (Some 1) (Some ''k1'') ''ops'' demo_state"

lemma demo_logs [simp]: "px_log demo_state = []" "nb_log demo_state = []"
  by (simp_all add: demo_state_def start_state_def log_of_def)

lemma demo_requests:
  "map (\<lambda>(rq, out, l). rq) (px_log (snd (demo_run Stop))) =
     [px_get [''cluster/resources''] [(''type'', PStr ''qemu'')], px_get (vm_path ''pve'' Qemu 100 [''status'', ''current'']) [],
      stop_rq ''pve'' Qemu 100]"
  by code_simp

lemma demo_status: "map_sum id rp_status (fst (demo_run Stop)) = Inr 200"
  by code_simp

lemma demo_flights: "(case demo_run Stop of (res, s) \<Rightarrow> ic_flights (vs_idem s)) = []"
  by code_simp

lemma demo_unmarked: "unmarked demo_netbox"
  by (auto simp: unmarked_def answers_def demo_netbox_def demo_answer_def one_of_def json_response_def extract_payload_def
      obj_get_def terminal_sentinel_def split: if_splits)

text \<open>
  \<^bold>\<open>C27.\<close> No write without a trace. Take any run of a verb handler, against any NetBox and any Proxmox, with
  logs that begin with the request. Whenever it sends Proxmox anything but a GET, the gate of the request
  was open, and NetBox had by then acknowledged a journal entry on a virtual machine that names this verb,
  actor, endpoint and key, and had answered with its id.
\<close>

theorem verb_writes_are_journaled:
  assumes "handle_verb (traced V) v k vmid endpoint_id key actor s = (res, s')" "px_log s = []" "nb_log s = []"
    and "(rq, out, l) \<in> set (px_log s')" "px_method rq \<noteq> ''GET''"
  shows "\<exists>ep entry_id. gate (traced V) endpoint_id (disabled_reason v) s = Inr ep \<and> ep_allow_writes ep \<and>
    journal_started (verb_request_of v k vmid ep key actor) entry_id l"
proof -
  have "is_write rq" using assms(5) by (simp add: is_write_def)
  with handle_writes(2) [OF assms(1,2)] sent_not_empty [OF assms(4)] assms(4) gate_open show ?thesis
    by (fastforce simp: journaled_def)
qed

theorem verb_writes_are_journaled_witness:
  "\<exists>out l entry_id ep. (stop_rq ''pve'' Qemu 100, out, l) \<in> set (px_log (snd (demo_run Stop))) \<and>
     journal_started (verb_request_of Stop Qemu 100 ep (Some ''k1'') ''ops'') entry_id l"
proof -
  obtain res s' where run: "demo_run Stop = (res, s')" by force
  have "stop_rq ''pve'' Qemu 100 \<in> set (map (\<lambda>(rq, out, l). rq) (px_log (snd (demo_run Stop))))"
    unfolding demo_requests by (simp only: list.set insert_iff simp_thms)
  then obtain out l where "(stop_rq ''pve'' Qemu 100, out, l) \<in> set (px_log s')" using run by auto
  with verb_writes_are_journaled [OF run [unfolded demo_run_def] demo_logs this] run show ?thesis
    by (force simp: stop_rq_def px_post_def)
qed

text \<open>
  \<^bold>\<open>C30.\<close> One request sends Proxmox at most the write its verb names, for the machine of the request and with
  the parameters of its body; a deletion sends at most a stop and then a destroy. So no write is ever
  repeated within a request.
\<close>

theorem verb_sends_only_its_requests:
  assumes "handle_verb (traced V) v k vmid endpoint_id key actor s = (res, s')" "px_log s = []"
  shows "verb_sends v k vmid (map fst (filter (\<lambda>(rq, out, l). px_method rq \<noteq> ''GET'') (px_log s')))"
  using handle_writes(1) [OF assms] by (simp add: sent_def is_write_def)

theorem verb_sends_only_its_requests_witness:
  "verb_sends Stop Qemu 100 (map fst (filter (\<lambda>(rq, out, l). px_method rq \<noteq> ''GET'') (px_log (snd (demo_run Stop))))) \<and>
   map (\<lambda>(rq, out, l). rq) (px_log (snd (demo_run Stop))) \<noteq> []"
proof -
  obtain res s' where run: "demo_run Stop = (res, s')" by force
  from verb_sends_only_its_requests [OF run [unfolded demo_run_def] demo_logs(1)] demo_requests run show ?thesis by simp
qed

text \<open>
  \<^bold>\<open>C29.\<close> Success is accounted for. If NetBox does not put the service's private mark into its answers, a verb
  answers with a status below 400 only if NetBox has acknowledged the write-ahead entry of this
  request and its update with a result of this request; a request with a key may also be answered from the
  cache, and then Proxmox was not called.
\<close>

theorem verb_success_is_accounted:
  assumes "unmarked (nb_env V)" "handle_verb (traced V) v k vmid endpoint_id key actor s = (Inr answer, s')" "px_log s = []"
    and "rp_status answer < 400"
  shows "\<exists>ep. gate (traced V) endpoint_id (disabled_reason v) s = Inr ep \<and>
    (accounted (verb_request_of v k vmid ep key actor) (nb_log s') \<or>
     idempotency_cache_key (verb_request_of v k vmid ep key actor) \<noteq> None \<and> px_log s' = [])"
  using assms(2)
proof (cases rule: handle_verb_cases)
  case refused
  with assms(4) show ?thesis by force
next
  case (run ep r i t j)
  have "auditable V r \<and> px_log (s\<lparr>vs_idem := i\<rparr>) = []"
    using assms verbs_audited run(3) by (simp add: auditable_def)
  from op_specD [OF accounts.dispatch_spec [OF run(2)] this run(4)] have "accountable r (Inr answer) t" by blast
  with run assms(4) show ?thesis by (auto simp: accountable_def)
qed

theorem verb_success_is_accounted_witness:
  "\<exists>ep. accounted (verb_request_of Stop Qemu 100 ep (Some ''k1'') ''ops'') (nb_log (snd (demo_run Stop)))"
proof -
  obtain res s' where run: "demo_run Stop = (res, s')" by force
  with demo_status demo_requests obtain a where a: "res = Inr a" "rp_status a = 200" "px_log s' \<noteq> []" by (cases res) auto
  have "unmarked (nb_env demo_venv)" using demo_unmarked by (simp add: demo_venv_def)
  from verb_success_is_accounted [OF this run [unfolded demo_run_def a(1)] demo_logs(1)] a run show ?thesis by auto
qed

end
