(* ===== verification/Verb_Replay.thy ===== *)
theory Verb_Replay
  imports Verb_Safety
begin

text \<open>
  What the idempotency cache remembers of a verb (\<^verbatim>\<open>routes/proxmox_actions.py\<close> over
  \<^verbatim>\<open>services/idempotency.py\<close>): the third reading of the contract of \<open>Verb_Contract\<close>. Once a write was sent
  to Proxmox, the key of the request is bound until a time to live after the request began, however
  the request ended; so a second request under the key sends nothing.
\<close>

text \<open>Neither NetBox, Proxmox nor waiting turns the clock of the cache back.\<close>

definition clock_forward :: "('w, 'p) venv \<Rightarrow> bool" where
  "clock_forward V \<longleftrightarrow>
     (\<forall>rq w p. idem_clock V w p \<le> idem_clock V (snd (request (nb_env V) rq w)) p) \<and>
     (\<forall>d w p. idem_clock V w p \<le> idem_clock V (sleep (nb_env V) d w) p) \<and>
     (\<forall>rq w p. idem_clock V w p \<le> idem_clock V w (snd (proxmox V rq w p))) \<and>
     (\<forall>ep w p. idem_clock V w p \<le> idem_clock V w (snd (open_proxmox V ep w p)))"

definition steady :: "('w, 'p) venv \<Rightarrow> bool" where
  "steady V = (unmarked (nb_env V) \<and> clock_forward V)"

abbreviation later :: "('w, 'p) venv \<Rightarrow> 'p \<Rightarrow> 'w \<Rightarrow> 'w \<Rightarrow> bool" where
  "later V p w w' \<equiv> idem_clock V w p \<le> idem_clock V w' p"

lemma clock_env: "clock_forward V \<Longrightarrow> env_relation (nb_env (traced V)) (later (traced V) p)"
  by unfold_locales (auto simp: clock_forward_def traced_def logged_def split: prod.splits intro: order_trans; metis snd_conv)+

lemma audit_time: "audit_step (later V (vs_px s)) s s' \<Longrightarrow> idem_now V s \<le> idem_now V s'"
  by (simp add: audit_step_def idem_now_def)

lemma send_time: "clock_forward V \<Longrightarrow> px_send (traced V) rq s = (out, s') \<Longrightarrow> idem_now (traced V) s \<le> idem_now (traced V) s'"
  by (cases "vs_px s"; cases "nb_world s")
    (auto simp: px_send_def traced_def idem_now_def clock_forward_def split: prod.splits, metis snd_conv)

lemma open_time:
  "clock_forward V \<Longrightarrow> open_proxmox (traced V) ep (nb_world s) (vs_px s) = (e, p) \<Longrightarrow>
     idem_now (traced V) s \<le> idem_now (traced V) (s\<lparr>vs_px := p\<rparr>)"
  by (cases "vs_px s"; cases "nb_world s")
    (auto simp: traced_def idem_now_def clock_forward_def split: prod.splits, metis snd_conv)


subsection \<open>The cache during a request\<close>

text \<open>
  \<open>kept V T s\<close>: an entry stored now lives at least until \<open>T\<close>. \<open>fresh k T s\<close>: an entry of the key, if there
  is one, lives until \<open>T\<close>; \<open>bound k T s\<close>: there is one.
\<close>

definition kept :: "('w, 'p) venv \<Rightarrow> seconds \<Rightarrow> ('w, 'p) vst \<Rightarrow> bool" where
  "kept V T s = (idem_wf (vs_idem s) \<and> T \<le> idem_now V s + ic_ttl (vs_idem s))"

definition fresh :: "cache_key \<Rightarrow> seconds \<Rightarrow> ('w, 'p) vst \<Rightarrow> bool" where
  "fresh k T s = (\<forall>e. map_of (ic_entries (vs_idem s)) k = Some e \<longrightarrow> T \<le> ie_expires_at e)"

definition bound :: "cache_key \<Rightarrow> seconds \<Rightarrow> ('w, 'p) vst \<Rightarrow> bool" where
  "bound k T s = (fresh k T s \<and> map_of (ic_entries (vs_idem s)) k \<noteq> None)"

lemma kept_mono: "kept V T s \<Longrightarrow> vs_idem s' = vs_idem s \<Longrightarrow> idem_now V s \<le> idem_now V s' \<Longrightarrow> kept V T s'"
  by (auto simp: kept_def)

lemma fresh_cong: "vs_idem s' = vs_idem s \<Longrightarrow> fresh k T s' = fresh k T s"
  by (simp add: fresh_def)

lemma bound_cong: "vs_idem s' = vs_idem s \<Longrightarrow> bound k T s' = bound k T s"
  by (simp add: bound_def fresh_def)

lemma now_update [simp]:
  "idem_now V (s\<lparr>vs_idem := i\<rparr>) = idem_now V s" "idem_now V (s\<lparr>vs_entry := d\<rparr>) = idem_now V s"
  "idem_now V (store_reply V k b n m s) = idem_now V s"
  by (simp_all add: idem_now_def store_reply_def)

lemma store_keeps: "kept V T s \<Longrightarrow> kept V T (store_reply V k b n m s)"
  by (auto simp: kept_def store_reply_def idem_now_def)

lemma store_binds:
  assumes "kept V T s" "fresh k T s"
  shows "bound k T (store_reply V k b n m s)"
proof -
  let ?v = "\<lparr>cr_response = b, cr_status_code = n, cr_journal_finalization = m\<rparr>" and ?now = "idem_now V s"
  show ?thesis
  proof (cases "\<exists>e. map_of (ic_entries (vs_idem s)) k = Some e \<and> entry_finalized e \<and> journal_unfinalized b m")
    case True
    then obtain e where e: "map_of (ic_entries (vs_idem s)) k = Some e" "entry_finalized e" "journal_unfinalized b m" by blast
    have "idem_store ?now k ?v (vs_idem s) = vs_idem s" by (rule idem_store_refuses [OF e(1,2)]) (simp add: e(3))
    with assms(2) e(1) show ?thesis by (simp add: bound_def fresh_def store_reply_def)
  next
    case False
    then have "map_of (ic_entries (idem_store ?now k ?v (vs_idem s))) k =
       Some \<lparr>ie_response = b, ie_status_code = n, ie_journal_finalization = m, ie_expires_at = ?now + ic_ttl (vs_idem s)\<rparr>"
      by (subst idem_store_binds) simp_all
    with assms(1) show ?thesis by (simp add: bound_def fresh_def store_reply_def kept_def)
  qed
qed

lemma bound_fresh: "bound k T s \<Longrightarrow> fresh k T s"
  by (simp add: bound_def)

text \<open>The NetBox steps do not touch the cache.\<close>

interpretation anyhow: env_relation E "\<lambda>_ _. True" for E :: "'w netenv"
  by unfold_locales simp_all

lemma mark_idem [simp]: "vs_idem (mark_terminal s) = vs_idem s"
  by (simp add: mark_terminal_def)

lemma best_effort_idem [simp]: "vs_idem (best_effort_mark V i k t s) = vs_idem s"
  by (auto simp: best_effort_mark_def dest!: nb_step_frame(2) [OF anyhow.update_entry_step [OF refl]] split: prod.splits sum.splits)

lemma resistant_idem: "update_resistant V i k t u s = (r, s') \<Longrightarrow> vs_idem s' = vs_idem s"
  by (auto simp: update_resistant_def dest!: nb_step_frame(2) [OF anyhow.update_entry_step [OF refl]]
      split: prod.splits sum.splits if_splits)

lemma finalize_idem: "finalize_journal_entry V c k t i f n s = (r, s') \<Longrightarrow> vs_idem s' = vs_idem s"
  unfolding finalize_journal_entry_def Let_def
  by (auto dest!: nb_step_frame(2) [OF anyhow.write_entry_step [OF refl]] resistant_idem
      split: if_splits option.splits prod.splits sum.splits base_exc.splits)

lemma finalize_time:
  assumes "clock_forward V" "finalize_journal_entry (traced V) c k t i f n s = (r, s')"
  shows "idem_now (traced V) s \<le> idem_now (traced V) s'"
  using env_relation.finalize_step [OF clock_env [OF assms(1)] refl assms(2)] by (rule audit_time)

text \<open>What finalizing a journal entry does to the cache: it is kept, and what is bound stays so.\<close>

lemma audit_cache:
  assumes V: "clock_forward V" and run: "audit_and_respond (traced V) c a s = (res, s')" and kept: "kept (traced V) T s"
  shows "kept (traced V) T s'"
    and "vx_cache_key c = Some k \<Longrightarrow> bound k T s \<Longrightarrow> bound k T s'"
    and "vx_cache_key c = Some k \<Longrightarrow> fresh k T s \<Longrightarrow> can_account r c s \<Longrightarrow> bound k T s'"
proof -
  obtain p s1 where p: "(if journal_entry_is_terminal (vs_entry s) then (None, s) else store_pending (traced V) c a s) = (p, s1)" by force
  obtain f s2 where f: "finalize_journal_entry (traced V) c (au_kind a) (audit_comments c a) (interrupted_comments c a)
                  (failed_comments c a) (au_status a) s1 = (f, s2)" by force
  have s1: "kept (traced V) T s1"
    using p kept by (auto simp: store_pending_def Let_def store_keeps split: if_splits option.splits)
  have s2: "kept (traced V) T s2" by (rule kept_mono [OF s1 finalize_idem [OF f] finalize_time [OF V f]])
  have s': "s' = s2 \<or> (\<exists>k b n m. vx_cache_key c = Some k \<and> s' = store_reply (traced V) k b n m s2)"
    using run p f by (auto simp: audit_and_respond_def store_final_def split: sum.splits option.splits if_splits)
  then show "kept (traced V) T s'" using s2 store_keeps by metis
  have rest: "bound k T s'" if "vx_cache_key c = Some k" "bound k T s1" for k
  proof -
    have "bound k T s2" using that(2) by (simp add: bound_cong [OF finalize_idem [OF f]])
    with s' s2 that(1) store_binds bound_fresh show ?thesis by (metis option.inject)
  qed
  show "bound k T s'" if k: "vx_cache_key c = Some k" "bound k T s"
  proof (rule rest [OF k(1)])
    show "bound k T s1"
      using p k kept store_binds [OF kept bound_fresh [OF k(2)]]
      by (auto simp: store_pending_def Let_def split: if_splits option.splits)
  qed
  show "bound k T s'" if k: "vx_cache_key c = Some k" "fresh k T s" "can_account r c s"
  proof (rule rest [OF k(1)])
    from k(3) obtain i where "journal_entry_id (vs_entry s) = Some i" "\<not> journal_entry_is_terminal (vs_entry s)"
      by (auto simp: can_account_def holds_entry_def)
    with p k(1) have "\<exists>b n m. s1 = store_reply (traced V) k b n m s" by (auto simp: store_pending_def Let_def)
    with store_binds [OF kept k(2)] show "bound k T s1" by blast
  qed
qed

lemma unexpected_cases:
  "journal_entry_is_terminal (vs_entry s) \<and> finalize_after_unexpected V c e u x s = s \<or>
   \<not> journal_entry_is_terminal (vs_entry s) \<and> (\<exists>a. finalize_after_unexpected V c e u x s = snd (audit_and_respond V c a s))"
  by (cases "unexpected_dispatch_result V e") (simp add: finalize_after_unexpected_def, blast)

lemma unexpected_cache:
  assumes V: "clock_forward V" and kept: "kept (traced V) T s"
  shows "kept (traced V) T (finalize_after_unexpected (traced V) c e u x s)"
    and "vx_cache_key c = Some k \<Longrightarrow> bound k T s \<Longrightarrow> bound k T (finalize_after_unexpected (traced V) c e u x s)"
    and "vx_cache_key c = Some k \<Longrightarrow> fresh k T s \<Longrightarrow> can_account r c s \<Longrightarrow>
      bound k T (finalize_after_unexpected (traced V) c e u x s)"
proof -
  let ?s' = "finalize_after_unexpected (traced V) c e u x s"
  consider "journal_entry_is_terminal (vs_entry s)" "?s' = s" | a res where
    "\<not> journal_entry_is_terminal (vs_entry s)" "audit_and_respond (traced V) c a s = (res, ?s')"
    using unexpected_cases [of s "traced V" c e u x] by (metis prod.collapse)
  note audit = this
  show "kept (traced V) T ?s'" using audit audit_cache(1) [OF V _ kept] kept by metis
  show "bound k T ?s'" if "vx_cache_key c = Some k" "bound k T s"
    using audit audit_cache(2) [OF V _ kept that] that(2) by metis
  show "bound k T ?s'" if "vx_cache_key c = Some k" "fresh k T s" "can_account r c s"
    using audit audit_cache(3) [OF V _ kept that] that(3) by (metis can_account_def)
qed


subsection \<open>The third contract\<close>

definition remembering :: "('w, 'p) venv \<Rightarrow> seconds \<Rightarrow> verb_request \<Rightarrow> px_request list \<Rightarrow> ('w \<times> request_log, 'p \<times> px_log) vst \<Rightarrow> bool" where
  "remembering V T r l s = (steady V \<and> vr_verb r \<in> set audit_required_verbs \<and> kept (traced V) T s \<and> sent s = l)"

definition unbound :: "verb_request \<Rightarrow> ('w, 'p) vst \<Rightarrow> bool" where
  "unbound r s = (\<forall>k. idempotency_cache_key r = Some k \<longrightarrow> map_of (ic_entries (vs_idem s)) k = None)"

definition remembered :: "seconds \<Rightarrow> verb_request \<Rightarrow> ('w, 'p) vst \<Rightarrow> bool" where
  "remembered T r s = (\<forall>k. idempotency_cache_key r = Some k \<longrightarrow> bound k T s)"

lemma unbound_fresh: "unbound r s \<Longrightarrow> idempotency_cache_key r = Some k \<Longrightarrow> fresh k T s"
  by (simp add: unbound_def fresh_def)

lemma cached_time:
  "clock_forward V \<Longrightarrow> cached_idempotency_response (traced V) k s = (res, s') \<Longrightarrow> idem_now (traced V) s \<le> idem_now (traced V) s'"
  by (rule audit_time [OF env_relation.cached_step [OF clock_env refl]])

lemma retry_cached_idem: "retry_cached_finalization V m s = (r, s') \<Longrightarrow> vs_idem s' = vs_idem s"
  unfolding retry_cached_finalization_def Let_def
  by (auto dest!: resistant_idem split: option.splits prod.splits sum.splits base_exc.splits)

lemma retry_cached_time:
  "clock_forward V \<Longrightarrow> retry_cached_finalization (traced V) m s = (res, s') \<Longrightarrow> idem_now (traced V) s \<le> idem_now (traced V) s'"
  by (rule audit_time [OF env_relation.retry_cached_step [OF clock_env refl]])

lemma cached_keeps:
  assumes V: "clock_forward V" and kept: "kept (traced V) T s"
    and run: "cached_idempotency_response (traced V) k s = (res, s')"
  shows "kept (traced V) T s'" and "res = Inr None \<Longrightarrow> map_of (ic_entries (vs_idem s')) k = None"
proof -
  obtain found i where g: "get_entry (idem_now (traced V) s) k (vs_idem s) = (found, i)" by force
  then have i: "i = snd (get_entry (idem_now (traced V) s) k (vs_idem s))" by simp
  let ?s = "s\<lparr>vs_idem := i\<rparr>"
  have s: "kept (traced V) T ?s" using kept unfolding kept_def i by (simp add: idem_wf_ops)
  have retry: "kept (traced V) T t" if "retry_cached_finalization (traced V) m ?s = (x, t)" for m x t
    by (rule kept_mono [OF s retry_cached_idem [OF that] retry_cached_time [OF V that]])
  show "kept (traced V) T s'"
    using run g s by (auto simp: cached_idempotency_response_def Let_def store_keeps dest: retry
        split: option.splits bool.splits prod.splits sum.splits if_splits)
  show "map_of (ic_entries (vs_idem s')) k = None" if "res = Inr None"
    using run g that by (auto simp: cached_idempotency_response_def get_entry_def Let_def
        split: option.splits bool.splits prod.splits sum.splits if_splits)
qed

lemma target_keeps:
  assumes V: "clock_forward V" and kept: "kept (traced V) T s" and run: "resolve_audit_target (traced V) c s = (res, s')"
  shows "kept (traced V) T s'" "vs_idem s' = vs_idem s" "sent s' = sent s"
proof -
  note step = nb_step_frame [OF anyhow.target_step [OF refl run]]
  have "idem_now (traced V) s \<le> idem_now (traced V) s'"
    by (rule audit_time, rule audit_of_nb, rule env_relation.target_step [OF clock_env [OF V] refl run])
  with kept_mono [OF kept step(2)] show "kept (traced V) T s'" .
  show "vs_idem s' = vs_idem s" by (rule step(2))
  show "sent s' = sent s" using step(1) by (simp add: sent_def)
qed

lemma write_keeps:
  assumes V: "clock_forward V" and kept: "kept (traced V) T s"
    and run: "write_verb_journal_entry (traced V) vm k t s = (res, s')"
  shows "kept (traced V) T s'" "vs_idem s' = vs_idem s"
proof -
  note step = nb_step_frame [OF anyhow.write_entry_step [OF refl run]]
  have "idem_now (traced V) s \<le> idem_now (traced V) s'"
    by (rule audit_time, rule audit_of_nb, rule env_relation.write_entry_step [OF clock_env [OF V] refl run])
  with kept_mono [OF kept step(2)] show "kept (traced V) T s'" .
  show "vs_idem s' = vs_idem s" by (rule step(2))
qed

lemma kept_entry: "kept V T (s\<lparr>vs_entry := d\<rparr>) = kept V T s"
  by (simp add: kept_def)

lemma writeahead_keeps:
  assumes V: "clock_forward V" and kept: "kept (traced V) T s" and run: "create_writeahead (traced V) c s = (res, s')"
  shows "kept (traced V) T s'" and "res = Inr None \<Longrightarrow> vs_idem s' = vs_idem s"
proof -
  show "kept (traced V) T s'"
    using run kept unfolding create_writeahead_def
    by (auto simp: kept_entry dest: write_keeps [OF V kept] intro!: unexpected_cache(1) [OF V]
        split: option.splits prod.splits sum.splits if_splits)
  show "vs_idem s' = vs_idem s" if "res = Inr None"
    using run that unfolding create_writeahead_def
    by (auto dest: write_keeps(2) [OF V kept] split: option.splits prod.splits sum.splits if_splits)
qed

lemma sent_audit: "audit_step R s s' \<Longrightarrow> sent s' = sent s"
  by (simp add: audit_step_def sent_def)

interpretation memory: verb_stages "traced V" "\<lambda>r. remembering V T r []" "\<lambda>r s. remembering V T r [] s \<and> unbound r s"
  "\<lambda>r c l s. remembering V T r l s \<and> unbound r s \<and> can_account r c s"
  "\<lambda>r l res s. remembering V T r l s \<and> (l \<noteq> [] \<longrightarrow> remembered T r s)" for V :: "('w, 'p) venv" and T :: seconds
proof (unfold_locales, goal_cases)
  case (1 r s k cached s')
  then have V: "clock_forward V" and kept: "kept (traced V) T s" by (simp_all add: remembering_def steady_def)
  from cached_keeps [OF V kept 1(3)] sent_audit [OF traced_cached [OF 1(3)]] 1(1,2) show ?case
    by (auto simp: remembering_def unbound_def split: sum.splits option.splits)
next
  case (3 r s)
  then show ?case by (simp add: remembering_def kept_entry)
next
  case (4 r s ep err p)
  then have V: "clock_forward V" and kept: "kept (traced V) T s" by (simp_all add: remembering_def steady_def)
  from kept_mono [OF kept _ open_time [OF V 4(2)]] sent_open [OF 4(2)] 4(1) show ?case
    by (simp add: remembering_def unbound_def)
next
  case (5 r s rq out s')
  then have V: "clock_forward V" and kept: "kept (traced V) T s" by (simp_all add: remembering_def steady_def)
  from kept_mono [OF kept _ send_time [OF V 5(3)]] sent_send [OF 5(3)] traced_send_frame [OF 5(3)] 5(1,2) show ?case
    by (simp add: remembering_def unbound_def)
next
  case (6 r s c target s')
  then have V: "clock_forward V" and kept: "kept (traced V) T s" by (simp_all add: remembering_def steady_def)
  from target_keeps [OF V kept 6(3)] 6(1) show ?case by (simp add: remembering_def unbound_def)
next
  case (9 r s c written s')
  then have V: "clock_forward V" "unmarked (nb_env V)" and kept: "kept (traced V) T s"
    and r: "vr_verb r \<in> set audit_required_verbs" by (simp_all add: remembering_def steady_def)
  have "can_account r c s'" if "written = Inr None"
  proof -
    from 9(4) that have "create_writeahead (traced V) c s = (Inr None, s')" by simp
    note entry = writeahead_entry [OF 9(2,3) r traced_env(1) this]
    with 9(2,3) r V(2) show ?thesis by (auto simp: can_account_def has_target_def)
  qed
  with writeahead_keeps [OF V(1) kept 9(4)] sent_audit [OF traced_writeahead [OF 9(4)]] 9(1) show ?case
    by (auto simp: remembering_def unbound_def split: sum.splits option.splits)
next
  case (10 r c l s ep err p)
  then have V: "clock_forward V" and kept: "kept (traced V) T s" by (simp_all add: remembering_def steady_def)
  from kept_mono [OF kept _ open_time [OF V 10(2)]] sent_open [OF 10(2)] 10(1) show ?case
    by (simp add: remembering_def unbound_def can_account_def holds_entry_px)
next
  case (11 r c l s rq out s')
  then have V: "clock_forward V" and kept: "kept (traced V) T s" by (simp_all add: remembering_def steady_def)
  from kept_mono [OF kept _ send_time [OF V 11(2)]] sent_send [OF 11(2)] traced_send_frame [OF 11(2)] 11(1) show ?case
    by (simp add: remembering_def unbound_def can_account_def holds_entry_def)
next
  case (12 r c l s au answer s')
  then have V: "clock_forward V" and kept: "kept (traced V) T s" by (simp_all add: remembering_def steady_def)
  note cache = audit_cache [OF V 12(3) kept]
  have "remembered T r s'"
    unfolding remembered_def using cache(3) [of _ r] unbound_fresh [of r s] 12(1,2) by simp
  with cache(1) sent_audit [OF traced_audit [OF 12(3)]] 12(1) show ?case by (simp add: remembering_def)
next
  case (13 r c l s e u x)
  then have V: "clock_forward V" and kept: "kept (traced V) T s" by (simp_all add: remembering_def steady_def)
  note cache = unexpected_cache [where c = c and e = e and u = u and x = x, OF V kept]
  have "remembered T r (finalize_after_unexpected (traced V) c e u x s)"
    unfolding remembered_def using cache(3) [of _ r] unbound_fresh [of r s] 13(1,2) by simp
  with cache(1) sent_audit [OF traced_unexpected [where V = V and s = s and c = c and e = e and u = u and x = x]] 13(1) show ?case by (simp add: remembering_def)
next
  case (14 r l e s c u x)
  then have V: "clock_forward V" and kept: "kept (traced V) T s" by (simp_all add: remembering_def steady_def)
  note cache = unexpected_cache [where c = c and e = e and u = u and x = x, OF V kept]
  have "remembered T r s \<longrightarrow> remembered T r (finalize_after_unexpected (traced V) c e u x s)"
    unfolding remembered_def using cache(2) 14(2) by simp
  with cache(1) sent_audit [OF traced_unexpected [where V = V and s = s and c = c and e = e and u = u and x = x]] 14(1) show ?case by (simp add: remembering_def)
qed (auto simp: unbound_def)


subsection \<open>A second request\<close>

text \<open>The other requests only use the operations of the cache.\<close>

definition fair_others :: "('w, 'p) venv \<Rightarrow> bool" where
  "fair_others V = (\<forall>f c. idem_wf c \<longrightarrow> idem_wf (others V f c) \<and> ic_ttl (others V f c) = ic_ttl c)"

lemma register_keeps:
  "sf_register now k c = (f, c') \<Longrightarrow> idem_wf c \<Longrightarrow> idem_wf c' \<and> ic_ttl c' = ic_ttl c \<and> ic_entries c' = ic_entries (idem_prune now c)"
  by (auto simp: sf_register_def Let_def idem_wf_def idem_prune_def split: option.splits)

lemma acquire_keeps: "sf_acquire f c = Some c' \<Longrightarrow> idem_wf c' = idem_wf c \<and> ic_ttl c' = ic_ttl c \<and> ic_entries c' = ic_entries c"
  by (auto simp: sf_acquire_def idem_wf_def split: if_splits)

lemma enter_keeps:
  assumes "fair_others V" "idem_wf (vs_idem s)"
  shows "idem_wf (snd (enter_single_flight V k s)) \<and> ic_ttl (snd (enter_single_flight V k s)) = ic_ttl (vs_idem s)"
proof -
  obtain f i where f: "sf_register (idem_now V s) k (vs_idem s) = (f, i)" by force
  note reg = register_keeps [OF this assms(2)]
  with assms(1) have o: "idem_wf (others V f i)" "ic_ttl (others V f i) = ic_ttl i" by (simp_all add: fair_others_def)
  let ?held = "case sf_acquire f i of Some j \<Rightarrow> j
      | None \<Rightarrow> (case sf_acquire f (others V f i) of Some j \<Rightarrow> j | None \<Rightarrow> others V f i)"
  have "idem_wf ?held \<and> ic_ttl ?held = ic_ttl i"
  proof (cases "sf_acquire f i")
    case (Some j)
    with acquire_keeps [OF Some] reg show ?thesis by simp
  next
    case None
    show ?thesis
    proof (cases "sf_acquire f (others V f i)")
      case (Some j)
      with acquire_keeps [OF Some] o None show ?thesis by simp
    qed (use None o in simp)
  qed
  then show ?thesis using f reg by (simp add: enter_single_flight_def)
qed

lemma dispatch_is_prologue:
  assumes "bad_body v = None"
  shows "\<exists>body. dispatch_verb V v r = verb_prologue V r body"
proof (cases v)
  case (Snapshot b)
  then show ?thesis by (cases b) (auto simp: dispatch_verb_def dispatch_snapshot_def)
next
  case (Backup b)
  with assms show ?thesis by (cases b) (auto simp: dispatch_verb_def dispatch_backup_def bad_body_def)
next
  case (Migrate b)
  with assms show ?thesis by (cases b) (auto simp: dispatch_verb_def dispatch_migrate_def bad_body_def)
qed (auto simp: dispatch_verb_def dispatch_start_def dispatch_stop_def dispatch_reboot_def dispatch_delete_def
    dispatch_delete_snapshot_def)

lemma cached_found:
  assumes "idem_wf (vs_idem s)" "map_of (ic_entries (vs_idem s)) k = Some e" "idem_now V s < ie_expires_at e"
    and "cached_idempotency_response V k s = (res, s')"
  shows "res \<noteq> Inr None"
proof -
  from assms(1-3) have "fst (get_entry (idem_now V s) k (vs_idem s)) = Some (entry_view e)" by (simp add: get_entry_result)
  with assms(4) show ?thesis
    by (auto simp: cached_idempotency_response_def Let_def split: prod.splits option.splits bool.splits sum.splits if_splits)
qed

lemma bound_prologue:
  assumes "idempotency_cache_key r = Some k" "idem_wf (vs_idem s)" "map_of (ic_entries (vs_idem s)) k = Some e"
    "idem_now V s < ie_expires_at e" and run: "verb_prologue V r body s = (res, s')"
  shows "vs_px s' = vs_px s"
proof -
  obtain x t where x: "cached_idempotency_response V k (s\<lparr>vs_entry := None\<rparr>) = (x, t)" by force
  have "x \<noteq> Inr None" using cached_found [OF _ _ _ x] assms(2-4) by simp
  with run x assms(1) have "s' = t"
    by (auto simp: verb_prologue_def bind_op_def Let_def split: sum.splits option.splits)
  with audit_stepD(1) [OF anyhow.cached_step [OF refl x]] show ?thesis by simp
qed

text \<open>What the second request finds: the entries the first has left, unless they have expired.\<close>

definition sees :: "('w, 'p) venv \<Rightarrow> idem_cache \<Rightarrow> cache_key \<Rightarrow> ('w, 'p) vst \<Rightarrow> bool" where
  "sees V c k s \<longleftrightarrow>
     idem_wf (snd (enter_single_flight V k s)) \<and>
     (\<forall>e. map_of (ic_entries c) k = Some e \<longrightarrow> idem_now V s < ie_expires_at e \<longrightarrow>
        map_of (ic_entries (snd (enter_single_flight V k s))) k = Some e)"

lemma sees_free:
  assumes "vs_idem s = c" "idem_wf c" "map_of (ic_flights c) k = None"
  shows "sees V c k s"
  using assms by (auto simp: sees_def enter_single_flight_def sf_register_def sf_acquire_def Let_def idem_wf_def
      map_of_idem_prune idem_prune_def map_of_filter_wf split: option.splits)

text \<open>
  \<^bold>\<open>C28.\<close> A verb is not sent twice. When a request with a key has sent a write to Proxmox, then whatever became
  of it - a response of any kind, a journal that could not be finished, an exception, a cancellation - a
  second request with the same key, verb, machine and endpoint that starts less than a time to live after the
  first one did leaves Proxmox alone: no call is made, no session is opened. The second may wait for the
  first or come later; it only has to find what the first has left in the cache.
\<close>

theorem retried_verb_is_not_repeated:
  assumes env: "steady V" "fair_others V" and cache: "idem_wf (vs_idem s)"
    and first: "handle_verb (traced V) v k vmid endpoint_id (Some key) actor s = (res, s1)" "px_log s = []" "key \<noteq> []"
    and sent: "sent s1 \<noteq> []"
    and second: "handle_verb (traced V) v' k' vmid endpoint_id' (Some key) actor' s2 = (res', s3)" "verb_str v' = verb_str v"
    and same: "gate (traced V) endpoint_id (disabled_reason v) s = Inr ep"
      "gate (traced V) endpoint_id' (disabled_reason v') s2 = Inr ep'" "ep_id ep' = ep_id ep"
    and soon: "idem_now (traced V) s2 < idem_now (traced V) s + ic_ttl (vs_idem s)"
    and shared: "sees (traced V) (vs_idem s1) \<lparr>ck_endpoint_id = ep_id ep, ck_verb = verb_str v, ck_vmid = vmid, ck_key = key\<rparr> s2"
  shows "vs_px s3 = vs_px s2"
proof -
  let ?kk = "\<lparr>ck_endpoint_id = ep_id ep, ck_verb = verb_str v, ck_vmid = vmid, ck_key = key\<rparr>"
  let ?T = "idem_now (traced V) s + ic_ttl (vs_idem s)"
  have key1: "idempotency_cache_key (verb_request_of v k vmid ep (Some key) actor) = Some ?kk"
    using first(3) by (simp add: idempotency_cache_key_def verb_request_of_def str_or_def)
  have key2: "idempotency_cache_key (verb_request_of v' k' vmid ep' (Some key) actor') = Some ?kk"
    using first(3) second(2) same(3) by (simp add: idempotency_cache_key_def verb_request_of_def str_or_def)
  have "fair_others (traced V)" using env(2) by (simp add: fair_others_def)
  note held = enter_keeps [OF this cache, of ?kk]
  from first(1) obtain e where e: "map_of (ic_entries (vs_idem s1)) ?kk = Some e" "?T \<le> ie_expires_at e"
  proof (cases rule: handle_verb_cases)
    case refused
    with sent first(2) show ?thesis by (simp add: sent_def)
  next
    case (run ep0 r i t j)
    from run(1) same(1) have r: "r = verb_request_of v k vmid ep (Some key) actor" using run(3) by simp
    with run(8) key1 have i: "i = snd (enter_single_flight (traced V) ?kk s)" by blast
    have "remembering V ?T r [] (s\<lparr>vs_idem := i\<rparr>)"
      using held env(1) first(2) r verbs_audited by (simp add: remembering_def kept_def i sent_def)
    from op_specD [OF memory.dispatch_spec [OF run(2)] this run(4)] obtain l
      where l: "sent t = l" "l \<noteq> [] \<longrightarrow> remembered ?T r t" by (auto simp: remembering_def)
    moreover have "sent t \<noteq> []" using sent run(5) by simp
    ultimately have "bound ?kk ?T t" using key1 r by (simp add: remembered_def)
    then show ?thesis using that run(5,6) by (auto simp: bound_def fresh_def)
  qed
  with soon have live: "idem_now (traced V) s2 < ie_expires_at e" by simp
  with shared e(1) have seen: "idem_wf (snd (enter_single_flight (traced V) ?kk s2))"
    "map_of (ic_entries (snd (enter_single_flight (traced V) ?kk s2))) ?kk = Some e" by (auto simp: sees_def)
  from second(1) show ?thesis
  proof (cases rule: handle_verb_cases)
    case (run ep0 r i t j)
    from run(1) same(2) have r: "r = verb_request_of v' k' vmid ep' (Some key) actor'" using run(3) by simp
    with run(8) key2 have i: "i = snd (enter_single_flight (traced V) ?kk s2)" by blast
    obtain body where "dispatch_verb (traced V) v' r = verb_prologue (traced V) r body"
      using dispatch_is_prologue [OF run(2)] by blast
    with run(4) have p: "verb_prologue (traced V) r body (s2\<lparr>vs_idem := i\<rparr>) = (res', t)" by simp
    have "vs_px t = vs_px (s2\<lparr>vs_idem := i\<rparr>)"
      by (rule bound_prologue [where k = ?kk and e = e, OF _ _ _ _ p]) (use key2 r seen live i in simp_all)
    with run(5) show ?thesis by simp
  qed simp
qed


lemma demo_steady: "steady demo_venv" "fair_others demo_venv"
  using demo_unmarked by (simp_all add: steady_def clock_forward_def fair_others_def demo_venv_def demo_netbox_def)

lemma demo_cache: "(case demo_run Stop of (res, s) \<Rightarrow> idem_wf (vs_idem s))"
  by code_simp

lemma demo_gate:
  "gate (traced demo_venv) (Some 1) why s = Inr \<lparr>ep_id = 1, ep_name = ''lab'', ep_allow_writes = True\<rparr>"
  by (simp add: gate_def traced_def demo_venv_def split: prod.splits)

lemma demo_now: "idem_now (traced demo_venv) s = 0"
  by (simp add: idem_now_def traced_def demo_venv_def split: prod.splits)

theorem retried_verb_is_not_repeated_witness:
  "sent (snd (demo_run Stop)) \<noteq> [] \<and>
   vs_px (snd (handle_verb (traced demo_venv) Stop Lxc 100 (Some 1) (Some ''k1'') ''other'' (snd (demo_run Stop)))) =
     vs_px (snd (demo_run Stop))"
proof -
  obtain res s1 where run: "demo_run Stop = (res, s1)" by force
  obtain res' s3 where second: "handle_verb (traced demo_venv) Stop Lxc 100 (Some 1) (Some ''k1'') ''other'' s1 = (res', s3)" by force
  have "stop_rq ''pve'' Qemu 100 \<in> set (map (\<lambda>(rq, out, l). rq) (px_log (snd (demo_run Stop))))"
    unfolding demo_requests by (simp only: list.set insert_iff simp_thms)
  then obtain out l where "(stop_rq ''pve'' Qemu 100, out, l) \<in> set (px_log s1)" using run by auto
  from sent_not_empty [OF this] have sent: "sent s1 \<noteq> []" by simp
  have sees: "sees (traced demo_venv) (vs_idem s1) kk s1" for kk
    by (rule sees_free) (use demo_cache demo_flights run in simp_all)
  have soon: "idem_now (traced demo_venv) s1 < idem_now (traced demo_venv) demo_state + ic_ttl (vs_idem demo_state)"
    by (simp add: demo_now demo_state_def idem_init_def)
  have wf: "idem_wf (vs_idem demo_state)" by (simp add: demo_state_def idem_wf_ops)
  have "vs_px s3 = vs_px s1"
    by (rule retried_verb_is_not_repeated [OF demo_steady wf run [unfolded demo_run_def] demo_logs(1) _ sent second refl
          demo_gate demo_gate refl soon sees]) simp
  with sent run second show ?thesis by simp
qed


subsection \<open>Observation: what NetBox has to answer\<close>

text \<open>
  The id of the write-ahead entry is taken from the field \<^verbatim>\<open>data\<close> of NetBox's answer. An answer without such an
  object, which is what the route \<^verbatim>\<open>journal-entries/\<close> returns, counts as a failure to write it: the entry
  exists, and the verb is refused.
\<close>

definition plain_answers :: "'w netenv \<Rightarrow> bool" where
  "plain_answers E = (\<forall>rq body entry. answers E rq (PDict body) \<longrightarrow> obj_get body ''data'' \<noteq> PDict entry)"

definition refusing :: "('w, 'p) venv \<Rightarrow> verb_request \<Rightarrow> ('w \<times> request_log, 'p \<times> px_log) vst \<Rightarrow> bool" where
  "refusing V r s = (plain_answers (nb_env V) \<and> vr_verb r \<in> set audit_required_verbs \<and> sent s = [])"

lemma plain_writeahead:
  assumes plain: "plain_answers E" and V: "nb_env V = logged E" and c: "has_target c" "vx_verb c \<in> set audit_required_verbs"
    and run: "create_writeahead V c s = (Inr None, s')"
  shows False
proof -
  from c obtain vm where vm: "vx_vm c = Some vm" by (auto simp: has_target_def)
  let ?t = "comments_of c ''in_progress'' None None"
  obtain x s1 where x: "write_verb_journal_entry V vm ''info'' ?t s = (x, s1)" by force
  with run vm c obtain entry where e: "x = Inr entry" "journal_entry_id entry \<noteq> None"
    by (auto simp: create_writeahead_def split: if_splits sum.splits)
  from write_entry_success [OF V] x e(1) obtain body
    where "answers E (create_rq journal_path (journal_payload vm ''info'' ?t)) (PDict body)"
      "entry = (case obj_get body ''data'' of PDict d \<Rightarrow> Some d | _ \<Rightarrow> None)" by blast
  with plain e(2) show False by (auto simp: plain_answers_def journal_entry_id_def split: pyval.splits)
qed

interpretation refusal: verb_stages "traced V" "refusing V" "refusing V" "\<lambda>r c l s. False" "\<lambda>r l res s. sent s = []"
  for V :: "('w, 'p) venv"
proof (unfold_locales, goal_cases)
  case (1 r s k cached s')
  with sent_audit [OF traced_cached [OF 1(3)]] show ?case by (auto simp: refusing_def split: sum.splits option.splits)
next
  case (4 r s ep err p)
  with sent_open [OF 4(2)] show ?case by (simp add: refusing_def)
next
  case (5 r s rq out s')
  with sent_send [OF 5(3)] show ?case by (simp add: refusing_def)
next
  case (6 r s c target s')
  with sent_audit [OF audit_of_nb [OF traced_target [OF 6(3)]]] show ?case by (simp add: refusing_def)
next
  case (9 r s c written s')
  have "written \<noteq> Inr None"
    using 9 plain_writeahead [OF _ traced_env(1) 9(3)] by (auto simp: refusing_def)
  with sent_audit [OF traced_writeahead [OF 9(4)]] 9(1) show ?case by (auto simp: refusing_def split: sum.splits option.splits)
next
  case (14 r l e s c u x)
  with sent_audit [OF traced_unexpected [where V = V and s = s and c = c and e = e and u = u and x = x]] show ?case by simp
qed (auto simp: refusing_def)


text \<open>The same machine, behind a NetBox that answers with the created entry itself.\<close>

definition plain_netbox :: "unit netenv" where
  "plain_netbox =
     demo_netbox\<lparr>request := (\<lambda>rq w. (if rq_method rq = ''POST'' then Inr (json_response 201 (PDict [(''id'', PInt 5)]))
       else demo_answer rq, w))\<rparr>"

definition plain_run :: "verb_call \<Rightarrow> (base_exc + reply) \<times> (unit \<times> request_log, unit \<times> px_log) vst" where
  "plain_run v = handle_verb (traced (demo_venv\<lparr>nb_env := plain_netbox\<rparr>)) v Qemu 100 (Some 1) None ''ops'' demo_state"


end
