(* ===== verification/Log_Buffer.thy ===== *)
theory Log_Buffer
  imports Log_Scrubbing
begin

text \<open>
  The in-memory log buffer behind the log endpoints (\<^verbatim>\<open>log_buffer.py\<close>) and the event stream built on
  it (\<^verbatim>\<open>routes/admin/logs.py\<close>). The buffer is a \<^verbatim>\<open>deque\<close> of bounded length and a counter for the
  ids; \<open>emit\<close>, \<open>clear_buffer\<close> and \<open>get_logs\<close> are its operations.

  A \<^verbatim>\<open>LogRecord\<close> comes with the text \<^verbatim>\<open>_resolve_log_record_message\<close> made of it and the text of its
  traceback; the interpolation of arguments and the JSON form of an answer are not modelled. The
  abstract specification is the history of records emitted since the last clear: \<open>retained\<close> says
  which entries of it the buffer holds and \<open>page_of\<close> what an answer is in terms of them.
\<close>

datatype log_level = DEBUG | INFO | WARNING | ERROR | CRITICAL

definition level_of_python :: "int \<Rightarrow> log_level" where
  "level_of_python n =
     (if n \<ge> 50 then CRITICAL else if n \<ge> 40 then ERROR else if n \<ge> 30 then WARNING
      else if n \<ge> 20 then INFO else DEBUG)"

fun level_name :: "log_level \<Rightarrow> string" where
  "level_name DEBUG = ''DEBUG''"
| "level_name INFO = ''INFO''"
| "level_name WARNING = ''WARNING''"
| "level_name ERROR = ''ERROR''"
| "level_name CRITICAL = ''CRITICAL''"

fun level_to_python :: "log_level \<Rightarrow> int" where
  "level_to_python DEBUG = 10"
| "level_to_python INFO = 20"
| "level_to_python WARNING = 30"
| "level_to_python ERROR = 40"
| "level_to_python CRITICAL = 50"

text \<open>\<^verbatim>\<open>LogLevel.from_string\<close>; \<open>None\<close> is the \<^verbatim>\<open>ValueError\<close> of the enumeration.\<close>

definition level_of_string :: "string \<Rightarrow> log_level option" where
  "level_of_string s =
     find (\<lambda>l. py_lower (level_name l) = py_lower s) [DEBUG, INFO, WARNING, ERROR, CRITICAL]"

record log_entry =
  le_id :: string
  le_time :: seconds
  le_level :: log_level
  le_module :: string
  le_message :: string
  le_operation_id :: pyval
  le_operation :: pyval
  le_phase :: pyval
  le_resource_type :: pyval
  le_resource_id :: pyval
  le_expandable :: "pyobj option"

text \<open>What a record carries: the standard attributes, and those given as \<^verbatim>\<open>extra\<close>.\<close>

record log_record =
  lr_levelno :: int
  lr_created :: seconds
  lr_module :: string
  lr_text :: string
  lr_extra :: pyobj
  lr_traceback :: "string option"


subsection \<open>Redaction\<close>

text \<open>The first of several words at the head of the text, without regard to case.\<close>

fun drop_first_word :: "string list \<Rightarrow> string \<Rightarrow> string option" where
  "drop_first_word [] s = None"
| "drop_first_word (w # ws) s = (case drop_word w s of Some r \<Rightarrow> Some r | None \<Rightarrow> drop_first_word ws s)"

text \<open>A pattern is its match at one position: the text after the match.\<close>

type_synonym matcher = "string \<Rightarrow> string option"

definition match_assignment :: matcher where
  "match_assignment s =
     (case drop_first_word [''token'', ''password'', ''secret'', ''key'', ''auth''] s of
        None \<Rightarrow> None
      | Some [] \<Rightarrow> None
      | Some (c # r) \<Rightarrow>
          if c = CHR ''='' \<or> c = CHR '':'' then
            (let q = skip_quote (dropWhile py_space r);
                 p = (\<lambda>x. alnum x \<or> x = CHR ''_'' \<or> x = CHR ''-'')
             in if length (takeWhile p q) \<ge> 8 then Some (skip_quote (dropWhile p q)) else None)
          else None)"

definition match_scheme :: "string \<Rightarrow> (char \<Rightarrow> bool) \<Rightarrow> matcher" where
  "match_scheme w p s =
     (if py_startswith w s then
        (let r = drop (length w) s; q = dropWhile py_space r
         in if takeWhile py_space r \<noteq> [] \<and> takeWhile p q \<noteq> [] then Some (dropWhile p q) else None)
      else None)"

definition match_api_key :: matcher where
  "match_api_key s =
     (case drop_word ''x-proxbox-api-key:'' s of
        None \<Rightarrow> None
      | Some r \<Rightarrow>
          (let q = dropWhile py_space r in if takeWhile alnum q \<noteq> [] then Some (dropWhile alnum q) else None))"

definition pii_patterns :: "(matcher \<times> string) list" where
  "pii_patterns =
     [(match_assignment, ''[REDACTED]''),
      (match_scheme ''Bearer'' (\<lambda>x. alnum x \<or> x \<in> {CHR ''_'', CHR ''-'', CHR ''.''}), ''Bearer [REDACTED]''),
      (match_scheme ''Basic'' (\<lambda>x. alnum x \<or> x \<in> {CHR ''+'', CHR ''/'', CHR ''=''}), ''Basic [REDACTED]''),
      (match_api_key, ''X-Proxbox-API-Key: [REDACTED]'')]"

text \<open>
  \<^verbatim>\<open>pattern.sub(repl, text)\<close> for a pattern that matches no empty text: leftmost matches, left to
  right. The fuel is the number of characters still to read.
\<close>

fun re_sub :: "nat \<Rightarrow> matcher \<Rightarrow> string \<Rightarrow> string \<Rightarrow> string" where
  "re_sub 0 m repl s = s"
| "re_sub (Suc n) m repl [] = []"
| "re_sub (Suc n) m repl (c # s) =
     (case m (c # s) of None \<Rightarrow> c # re_sub n m repl s | Some r \<Rightarrow> repl @ re_sub n m repl r)"

definition redact_pii :: "string \<Rightarrow> string" where
  "redact_pii s = foldl (\<lambda>t (m, repl). re_sub (length t) m repl t) s pii_patterns"

text \<open>\<^verbatim>\<open>_ERROR_MESSAGE_RE.search\<close>: one of the words between word boundaries.\<close>

definition error_words :: "string list" where
  "error_words = [''error'', ''failed'', ''failure'', ''exception'', ''traceback'', ''fatal'', ''critical'']"

fun error_word_in :: "bool \<Rightarrow> string \<Rightarrow> bool" where
  "error_word_in after_word [] = False"
| "error_word_in after_word (c # s) =
     ((\<not> after_word \<and>
       (\<exists>w \<in> set error_words. case drop_word w (c # s) of
          None \<Rightarrow> False | Some [] \<Rightarrow> True | Some (x # _) \<Rightarrow> \<not> word_char x)) \<or>
      error_word_in (word_char c) s)"

definition entry_is_error_related :: "log_entry \<Rightarrow> bool" where
  "entry_is_error_related e =
     (le_level e = ERROR \<or> le_level e = CRITICAL \<or>
      (case le_expandable e of
         None \<Rightarrow> False | Some d \<Rightarrow> d \<noteq> [] \<and> truthy (obj_get d ''traceback'')) \<or>
      error_word_in False (le_message e))"


subsection \<open>The handler\<close>

text \<open>A subscriber is an event loop and an event of it, both by identity.\<close>

record log_handler =
  lh_capacity :: nat
  lh_buffer :: "log_entry list"
  lh_counter :: nat
  lh_subscribers :: "(nat \<times> nat) list"

definition log_handler_init :: "nat \<Rightarrow> log_handler" where
  "log_handler_init cap =
     \<lparr>lh_capacity = cap, lh_buffer = [], lh_counter = 0, lh_subscribers = []\<rparr>"

definition next_log_id :: "log_handler \<Rightarrow> string \<times> log_handler" where
  "next_log_id h = (let n = lh_counter h + 1 in (nat_str n, h\<lparr>lh_counter := n\<rparr>))"

text \<open>\<^verbatim>\<open>deque(maxlen=n).append\<close>.\<close>

definition deque_append :: "nat \<Rightarrow> 'a list \<Rightarrow> 'a \<Rightarrow> 'a list" where
  "deque_append n xs x = drop (length xs + 1 - n) (xs @ [x])"

definition log_entry_of :: "string \<Rightarrow> log_record \<Rightarrow> log_entry" where
  "log_entry_of i r =
     \<lparr>le_id = i, le_time = lr_created r, le_level = level_of_python (lr_levelno r),
      le_module = lr_module r, le_message = redact_pii (lr_text r),
      le_operation_id =
        py_or (obj_get (lr_extra r) ''operation_id'') (obj_get (lr_extra r) ''uuid''),
      le_operation = obj_get (lr_extra r) ''operation'',
      le_phase = obj_get (lr_extra r) ''phase'',
      le_resource_type = obj_get (lr_extra r) ''resource_type'',
      le_resource_id = obj_get (lr_extra r) ''resource_id'',
      le_expandable =
        map_option (\<lambda>t. [(''traceback'', PStr (redact_pii t))]) (lr_traceback r)\<rparr>"

definition append_log_entry :: "log_entry \<Rightarrow> log_handler \<Rightarrow> log_handler" where
  "append_log_entry e h = h\<lparr>lh_buffer := deque_append (lh_capacity h) (lh_buffer h) e\<rparr>"

text \<open>The events set by \<^verbatim>\<open>_notify_subscribers\<close>: those whose loop is still open.\<close>

definition notify_subscribers :: "(nat \<Rightarrow> bool) \<Rightarrow> log_handler \<Rightarrow> nat list" where
  "notify_subscribers is_open h = map snd (filter (\<lambda>(loop, ev). is_open loop) (lh_subscribers h))"

definition emit :: "log_record \<Rightarrow> log_handler \<Rightarrow> log_handler" where
  "emit r h = (let (i, h1) = next_log_id h in append_log_entry (log_entry_of i r) h1)"

definition emit_notifies :: "(nat \<Rightarrow> bool) \<Rightarrow> log_record \<Rightarrow> log_handler \<Rightarrow> nat list \<times> log_handler" where
  "emit_notifies is_open r h = (let h1 = emit r h in (notify_subscribers is_open h1, h1))"

definition subscribe :: "nat \<Rightarrow> nat \<Rightarrow> log_handler \<Rightarrow> log_handler" where
  "subscribe loop ev h = h\<lparr>lh_subscribers := lh_subscribers h @ [(loop, ev)]\<rparr>"

definition unsubscribe :: "nat \<Rightarrow> log_handler \<Rightarrow> log_handler" where
  "unsubscribe ev h = h\<lparr>lh_subscribers := filter (\<lambda>(lp, e). e \<noteq> ev) (lh_subscribers h)\<rparr>"

definition clear_buffer :: "log_handler \<Rightarrow> log_handler" where
  "clear_buffer h = h\<lparr>lh_buffer := [], lh_counter := 0\<rparr>"

definition log_count :: "log_handler \<Rightarrow> nat" where
  "log_count h = length (lh_buffer h)"

definition latest_id :: "log_handler \<Rightarrow> nat" where
  "latest_id h = lh_counter h"


subsection \<open>Reading\<close>

datatype level_arg = NoLevel | LevelValue log_level | LevelText string

record log_query =
  lq_level :: level_arg
  lq_errors_only :: bool
  lq_newer_than :: pyval
  lq_older_than :: pyval
  lq_limit :: int
  lq_offset :: int
  lq_since :: "seconds option"
  lq_operation_id :: string

definition log_query_default :: log_query where
  "log_query_default =
     \<lparr>lq_level = NoLevel, lq_errors_only = False, lq_newer_than = PNone, lq_older_than = PNone,
      lq_limit = 200, lq_offset = 0, lq_since = None, lq_operation_id = []\<rparr>"

record log_page =
  lp_logs :: "log_entry list"
  lp_total :: nat
  lp_has_more :: bool

definition entry_sort_key :: "log_entry \<Rightarrow> int" where
  "entry_sort_key e = (case py_int (le_id e) of Some i \<Rightarrow> i | None \<Rightarrow> -1)"

definition parse_cursor_id :: "pyval \<Rightarrow> int option" where
  "parse_cursor_id v = (if v = PNone then None else py_int_of v)"

text \<open>The level the filter compares with; the outer \<open>None\<close> is the \<^verbatim>\<open>ValueError\<close> of an unknown name.\<close>

fun level_filter :: "level_arg \<Rightarrow> log_level option option" where
  "level_filter NoLevel = Some None"
| "level_filter (LevelValue l) = Some (Some l)"
| "level_filter (LevelText s) = (if s = [] then Some None else map_option Some (level_of_string s))"

definition page_limit :: "int \<Rightarrow> int" where
  "page_limit limit = (let l = min limit 5000 in if l \<le> 0 then 200 else l)"

text \<open>\<^verbatim>\<open>xs.sort(key=f, reverse=True)\<close>, which keeps equal elements in order.\<close>

definition sort_descending :: "('a \<Rightarrow> int) \<Rightarrow> 'a list \<Rightarrow> 'a list" where
  "sort_descending f xs = rev (sort_key f (rev xs))"

text \<open>\<^verbatim>\<open>xs[a:b]\<close>: negative bounds count from the end, bounds beyond the list are its ends.\<close>

definition slice_bound :: "nat \<Rightarrow> int \<Rightarrow> nat" where
  "slice_bound n i = (if i < 0 then nat (int n + i) else min n (nat i))"

definition py_slice :: "'a list \<Rightarrow> int \<Rightarrow> int \<Rightarrow> 'a list" where
  "py_slice xs a b = take (slice_bound (length xs) b - slice_bound (length xs) a) (drop (slice_bound (length xs) a) xs)"

text \<open>The tests of the loop of \<^verbatim>\<open>get_logs\<close>, in their order: \<open>False\<close> is a \<^verbatim>\<open>continue\<close>.\<close>

definition log_matches :: "log_query \<Rightarrow> log_level option \<Rightarrow> log_entry \<Rightarrow> bool" where
  "log_matches q lf e =
     (if (case parse_cursor_id (lq_newer_than q) of None \<Rightarrow> False | Some k \<Rightarrow> entry_sort_key e \<le> k) then False
      else if (case parse_cursor_id (lq_older_than q) of None \<Rightarrow> False | Some k \<Rightarrow> entry_sort_key e \<ge> k) then False
      else if \<not> lq_errors_only q \<and> lf \<noteq> None \<and> Some (le_level e) \<noteq> lf then False
      else if (case lq_since q of None \<Rightarrow> False | Some t \<Rightarrow> le_time e \<le> t) then False
      else if lq_operation_id q \<noteq> [] \<and> le_operation_id e \<noteq> PStr (lq_operation_id q) then False
      else if lq_errors_only q \<and> \<not> entry_is_error_related e then False
      else True)"

definition get_logs :: "log_query \<Rightarrow> log_handler \<Rightarrow> log_page option" where
  "get_logs q h =
     (case level_filter (lq_level q) of
        None \<Rightarrow> None
      | Some lf \<Rightarrow>
          (let limit = page_limit (lq_limit q);
               logs = sort_descending entry_sort_key (lh_buffer h);
               filtered = filter (log_matches q lf) logs;
               total = length filtered;
               end_idx = lq_offset q + limit
           in Some \<lparr>lp_logs = py_slice filtered (lq_offset q) end_idx, lp_total = total,
                    lp_has_more = (end_idx < int total)\<rparr>))"

text \<open>
  One round of \<^verbatim>\<open>stream_backend_logs\<close>: the newest entries above the cursor, sent oldest first, and the
  cursor moved to the highest id sent.
\<close>

definition advance_cursor :: "int option \<Rightarrow> log_entry \<Rightarrow> int option" where
  "advance_cursor cursor e =
     (case py_int (le_id e) of
        None \<Rightarrow> cursor
      | Some i \<Rightarrow> (case cursor of None \<Rightarrow> Some i | Some c \<Rightarrow> if i > c then Some i else cursor))"

record log_stream =
  ls_level :: "log_level option"
  ls_errors_only :: bool
  ls_operation_id :: string

definition stream_query :: "log_stream \<Rightarrow> int option \<Rightarrow> log_query" where
  "stream_query f cursor =
     log_query_default\<lparr>lq_level := (case ls_level f of None \<Rightarrow> NoLevel | Some l \<Rightarrow> LevelValue l),
       lq_errors_only := ls_errors_only f, lq_operation_id := ls_operation_id f,
       lq_newer_than := (case cursor of None \<Rightarrow> PNone | Some c \<Rightarrow> PInt c), lq_limit := 200\<rparr>"

definition stream_round :: "log_stream \<Rightarrow> log_handler \<Rightarrow> int option \<Rightarrow> log_entry list \<times> int option" where
  "stream_round f h cursor =
     (case get_logs (stream_query f cursor) h of
        None \<Rightarrow> ([], cursor)
      | Some page \<Rightarrow> (rev (lp_logs page), foldl advance_cursor cursor (rev (lp_logs page))))"

text \<open>
  A connection: each round first sees the records emitted since the one before it. (A record that
  arrives while a round sends is read in the next round, which starts at the latest with the
  keepalive after 15 seconds.)
\<close>

fun stream_logs :: "log_stream \<Rightarrow> log_record list list \<Rightarrow> log_handler \<Rightarrow> int option \<Rightarrow> log_entry list" where
  "stream_logs f [] h cursor = []"
| "stream_logs f (rs # rss) h cursor =
     (let h1 = fold emit rs h; (sent, cursor1) = stream_round f h1 cursor
      in sent @ stream_logs f rss h1 cursor1)"


subsection \<open>The abstract history\<close>

datatype log_op = Emit log_record | Clear

fun apply_log_op :: "log_op \<Rightarrow> log_handler \<Rightarrow> log_handler" where
  "apply_log_op (Emit r) h = emit r h"
| "apply_log_op Clear h = clear_buffer h"

fun since_clear_step :: "log_op \<Rightarrow> log_record list \<Rightarrow> log_record list" where
  "since_clear_step (Emit r) rs = rs @ [r]"
| "since_clear_step Clear rs = []"

definition since_clear :: "log_op list \<Rightarrow> log_record list" where
  "since_clear ops = fold since_clear_step ops []"

fun numbered :: "nat \<Rightarrow> log_record list \<Rightarrow> log_entry list" where
  "numbered k [] = []"
| "numbered k (r # rs) = log_entry_of (nat_str k) r # numbered (Suc k) rs"

definition retained :: "nat \<Rightarrow> log_record list \<Rightarrow> log_entry list" where
  "retained cap rs = drop (length rs - cap) (numbered 1 rs)"

definition log_refines :: "nat \<Rightarrow> log_record list \<Rightarrow> log_handler \<Rightarrow> bool" where
  "log_refines cap rs h =
     (lh_capacity h = cap \<and> lh_counter h = length rs \<and> lh_buffer h = retained cap rs)"

text \<open>
  The answer of a query: the entries asked for, newest first, cut to the page. (The routes admit no negative
  offset; a slice with one counts from the end.)
\<close>

definition wanted :: "log_query \<Rightarrow> log_level option \<Rightarrow> log_entry \<Rightarrow> bool" where
  "wanted q lf e \<longleftrightarrow>
     (\<forall>k. parse_cursor_id (lq_newer_than q) = Some k \<longrightarrow> k < entry_sort_key e) \<and>
     (\<forall>k. parse_cursor_id (lq_older_than q) = Some k \<longrightarrow> entry_sort_key e < k) \<and>
     (\<forall>t. lq_since q = Some t \<longrightarrow> t < le_time e) \<and>
     (lq_operation_id q = [] \<or> le_operation_id e = PStr (lq_operation_id q)) \<and>
     (if lq_errors_only q then entry_is_error_related e else lf \<in> {None, Some (le_level e)})"

definition page_of :: "log_query \<Rightarrow> log_level option \<Rightarrow> log_entry list \<Rightarrow> log_page" where
  "page_of q lf es =
     (let found = rev (filter (wanted q lf) es); offset = lq_offset q; limit = page_limit (lq_limit q)
      in \<lparr>lp_logs = (if 0 \<le> offset then take (nat limit) (drop (nat offset) found)
            else py_slice found offset (offset + limit)),
          lp_total = length found, lp_has_more = (offset + limit < int (length found))\<rparr>)"

named_theorems log_simps \<open>the handler on the abstract history\<close>

lemma log_matches_wanted: "log_matches q lf = wanted q lf"
  by (rule ext) (auto simp: log_matches_def wanted_def not_le not_less split: option.splits if_splits)

lemma page_limit_pos: "0 < page_limit n"
  by (auto simp: page_limit_def Let_def)

lemma py_slice_page:
  assumes "0 \<le> a" "0 \<le> n"
  shows "py_slice xs a (a + n) = take (nat n) (drop (nat a) xs)"
proof -
  have "slice_bound (length xs) (a + n) - slice_bound (length xs) a = min (nat n) (length xs - nat a)"
    and "drop (slice_bound (length xs) a) xs = drop (nat a) xs"
    using assms by (auto simp: slice_bound_def nat_add_distrib min_def)
  then show ?thesis by (simp add: py_slice_def min_def)
qed

lemma length_numbered [simp]: "length (numbered k rs) = length rs"
  by (induction rs arbitrary: k) auto

lemma numbered_append: "numbered k (rs @ rs') = numbered k rs @ numbered (k + length rs) rs'"
  by (induction rs arbitrary: k) auto

lemma le_id_log_entry_of [simp]: "le_id (log_entry_of i r) = i"
  by (simp add: log_entry_of_def)

lemma numbered_nth: "j < length rs \<Longrightarrow> numbered k rs ! j = log_entry_of (nat_str (k + j)) (rs ! j)"
proof (induction rs arbitrary: k j)
  case (Cons r rs)
  then show ?case by (cases j) auto
qed simp

lemma py_int_nat_str [simp]: "py_int (nat_str n) = Some (int n)"
  using py_int_int_str [of "int n"] by (simp add: int_str_def)

lemma entry_sort_key_of [simp]: "entry_sort_key (log_entry_of (nat_str n) r) = int n"
  by (simp add: entry_sort_key_def)

lemma keys_numbered: "map entry_sort_key (numbered k rs) = map int [k..<k + length rs]"
  by (induction rs arbitrary: k) (auto simp: upt_conv_Cons simp del: upt_Suc)

lemma keys_retained: "map entry_sort_key (retained cap rs) = map int [Suc (length rs - cap)..<Suc (length rs)]"
  by (simp add: retained_def drop_map [symmetric] keys_numbered) (simp add: drop_map del: upt_Suc, arith)

lemma deque_append_suffix:
  "deque_append n (drop (length xs - n) xs) x = drop (length xs + 1 - n) (xs @ [x])"
proof (cases "length xs \<le> n")
  case True
  then show ?thesis by (simp add: deque_append_def)
next
  case False
  then have "length xs + 1 - n = Suc 0 + (length xs - n)" by simp
  with False show ?thesis by (cases n) (simp_all add: deque_append_def)
qed

lemma emit_refines [log_simps]: "log_refines cap rs h \<Longrightarrow> log_refines cap (rs @ [r]) (emit r h)"
  using deque_append_suffix [of cap "numbered 1 rs"]
  by (simp add: log_refines_def emit_def next_log_id_def append_log_entry_def retained_def
      numbered_append Let_def)

lemma clear_refines [log_simps]: "log_refines cap rs h \<Longrightarrow> log_refines cap [] (clear_buffer h)"
  by (simp add: log_refines_def clear_buffer_def retained_def)

lemma init_refines [log_simps]: "log_refines cap [] (log_handler_init cap)"
  by (simp add: log_refines_def log_handler_init_def retained_def)

lemma fold_emit_refines [log_simps]: "log_refines cap rs h \<Longrightarrow> log_refines cap (rs @ rs') (fold emit rs' h)"
proof (induction rs' arbitrary: rs h)
  case (Cons r rs')
  then show ?case using Cons.IH [OF emit_refines [OF Cons.prems, of r]] by simp
qed simp

lemma run_refines: "log_refines cap rs h \<Longrightarrow> log_refines cap (fold since_clear_step ops rs) (fold apply_log_op ops h)"
proof (induction ops arbitrary: rs h)
  case (Cons op' ops)
  then show ?case by (cases op') (auto intro: log_simps)
qed simp

lemma insort_greatest: "\<forall>y \<in> set xs. f y < (f x :: int) \<Longrightarrow> insort_key f x xs = xs @ [x]"
  by (induction xs) auto

lemma sort_descending_strict: "sorted_wrt (<) (map f xs) \<Longrightarrow> sort_descending f xs = rev xs"
proof -
  have "sorted_wrt (<) (map f xs) \<Longrightarrow> sort_key f (rev xs) = xs"
    by (induction xs rule: rev_induct) (auto simp: sorted_wrt_append insort_greatest)
  then show "sorted_wrt (<) (map f xs) \<Longrightarrow> ?thesis" by (simp add: sort_descending_def)
qed

lemma keys_ascend: "sorted_wrt (<) (map entry_sort_key (retained cap rs))"
  by (simp add: keys_retained sorted_wrt_map del: upt_Suc)

lemma get_logs_refines:
  "log_refines cap rs h \<Longrightarrow>
     get_logs q h = map_option (\<lambda>lf. page_of q lf (retained cap rs)) (level_filter (lq_level q))"
  by (simp add: get_logs_def page_of_def log_refines_def sort_descending_strict [OF keys_ascend]
      log_matches_wanted py_slice_page [OF _ less_imp_le [OF page_limit_pos]] rev_filter Let_def
      split: option.split)


subsection \<open>The event stream\<close>

definition stream_wants :: "log_stream \<Rightarrow> log_entry \<Rightarrow> bool" where
  "stream_wants f e = log_matches (stream_query f None) (ls_level f) e"

definition past_cursor :: "int option \<Rightarrow> log_entry \<Rightarrow> bool" where
  "past_cursor cursor e = (case cursor of None \<Rightarrow> True | Some c \<Rightarrow> c < entry_sort_key e)"

definition stream_backlog :: "log_stream \<Rightarrow> int option \<Rightarrow> log_entry list \<Rightarrow> log_entry list" where
  "stream_backlog f cursor es = filter (\<lambda>e. past_cursor cursor e \<and> stream_wants f e) es"

definition newest :: "nat \<Rightarrow> 'a list \<Rightarrow> 'a list" where
  "newest n xs = drop (length xs - n) xs"

lemma newest_short [simp]: "length xs \<le> n \<Longrightarrow> newest n xs = xs"
  by (simp add: newest_def)

lemma set_newest_subset: "set (newest n xs) \<subseteq> set xs"
  by (simp add: newest_def set_drop_subset)

lemma level_filter_stream [simp]: "level_filter (lq_level (stream_query f c)) = Some (ls_level f)"
  by (simp add: stream_query_def log_query_default_def split: option.split)

lemma log_matches_stream:
  "log_matches (stream_query f cursor) (ls_level f) = (\<lambda>e. past_cursor cursor e \<and> stream_wants f e)"
  by (auto simp: fun_eq_iff log_matches_def stream_wants_def stream_query_def log_query_default_def
      past_cursor_def parse_cursor_id_def split: option.splits)

lemma stream_query_bounds [simp]:
  "lq_offset (stream_query f c) = 0" "page_limit (lq_limit (stream_query f c)) = 200"
  by (simp_all add: stream_query_def log_query_default_def page_limit_def Let_def)

lemma lp_logs_page_of_stream:
  "rev (lp_logs (page_of (stream_query f cursor) (ls_level f) es)) = newest 200 (stream_backlog f cursor es)"
  by (simp add: page_of_def Let_def log_matches_wanted [symmetric] log_matches_stream stream_backlog_def newest_def take_rev)

definition id_shown :: "log_entry \<Rightarrow> bool" where
  "id_shown e = (\<exists>n. le_id e = nat_str n)"

lemma advance_shown: "id_shown e \<Longrightarrow> past_cursor cursor e \<Longrightarrow> advance_cursor cursor e = Some (entry_sort_key e)"
  by (auto simp: id_shown_def advance_cursor_def past_cursor_def entry_sort_key_def split: option.splits)

lemma advance_ascending:
  assumes "sorted_wrt (<) (map entry_sort_key es)" "list_all id_shown es" "list_all (past_cursor cursor) es"
  shows "foldl advance_cursor cursor es = (if es = [] then cursor else Some (entry_sort_key (last es)))"
  using assms
proof (induction es arbitrary: cursor)
  case (Cons e es)
  then have "advance_cursor cursor e = Some (entry_sort_key e)" by (simp add: advance_shown)
  moreover have "list_all (past_cursor (Some (entry_sort_key e))) es"
    using Cons.prems by (auto simp: past_cursor_def list_all_iff)
  ultimately show ?case using Cons by simp
qed simp

lemma id_shown_numbered: "list_all id_shown (numbered k rs)"
  by (induction rs arbitrary: k) (auto simp: id_shown_def)

lemma set_retained_subset: "set (retained cap rs) \<subseteq> set (numbered 1 rs)"
  unfolding retained_def by (rule set_drop_subset)

lemma sorted_wrt_filter_map: "sorted_wrt (<) (map f xs) \<Longrightarrow> sorted_wrt (<) (map f (filter P xs))"
  for f :: "'a \<Rightarrow> int"
  by (induction xs) auto

lemma sorted_wrt_newest: "sorted_wrt (<) (map f xs) \<Longrightarrow> sorted_wrt (<) (map f (newest n xs))"
  for f :: "'a \<Rightarrow> int"
  by (simp add: newest_def drop_map [symmetric] sorted_wrt_drop)

lemma backlog_ascends: "sorted_wrt (<) (map entry_sort_key (stream_backlog f c (retained cap rs)))"
  unfolding stream_backlog_def by (rule sorted_wrt_filter_map [OF keys_ascend])

text \<open>One round, exactly: the newest 200 of the backlog, in order of their ids.\<close>

lemma stream_round_sends:
  assumes "log_refines cap rs h"
  shows "stream_round f h cursor =
    (let sent = newest 200 (stream_backlog f cursor (retained cap rs))
     in (sent, if sent = [] then cursor else Some (entry_sort_key (last sent))))"
proof -
  let ?b = "stream_backlog f cursor (retained cap rs)"
  have sub: "set (newest 200 ?b) \<subseteq> set ?b" by (rule set_newest_subset)
  have shown: "list_all id_shown (newest 200 ?b)"
    using sub id_shown_numbered [of 1 rs] set_retained_subset [of cap rs]
    by (auto simp: list_all_iff stream_backlog_def)
  have past: "list_all (past_cursor cursor) (newest 200 ?b)"
    using sub by (auto simp: list_all_iff stream_backlog_def)
  from advance_ascending [OF sorted_wrt_newest [OF backlog_ascends] shown past]
  show ?thesis
    by (simp add: stream_round_def get_logs_refines [OF assms] lp_logs_page_of_stream Let_def)
qed


lemma past_cursor_last:
  "sorted_wrt (<) (map entry_sort_key es) \<Longrightarrow> e \<in> set es \<Longrightarrow> \<not> past_cursor (Some (entry_sort_key (last es))) e"
proof (induction es)
  case (Cons a es)
  show ?case
  proof (cases "es = []")
    case False
    then have "entry_sort_key a < entry_sort_key (last es)" using Cons.prems(1) last_in_set [of es] by simp
    then have "\<not> past_cursor (Some (entry_sort_key (last es))) a" by (simp add: past_cursor_def)
    moreover have "\<not> past_cursor (Some (entry_sort_key (last es))) e" if "e \<in> set es"
      using Cons.IH that Cons.prems(1) by simp
    ultimately show ?thesis using False Cons.prems(2) by auto
  qed (use Cons.prems in \<open>simp add: past_cursor_def\<close>)
qed simp

lemma stream_logs_ascend:
  assumes "log_refines cap rs h"
  shows "sorted_wrt (<) (map entry_sort_key (stream_logs f rss h cursor)) \<and>
    set (stream_logs f rss h cursor)
      \<subseteq> set (stream_backlog f cursor (numbered 1 (rs @ concat rss)))"
  using assms
proof (induction rss arbitrary: rs h cursor)
  case Nil
  then show ?case by simp
next
  case (Cons rs1 rss)
  let ?es = "retained cap (rs @ rs1)"
  define sent where "sent = newest 200 (stream_backlog f cursor ?es)"
  define cursor1 where "cursor1 = (if sent = [] then cursor else Some (entry_sort_key (last sent)))"
  let ?rest = "stream_logs f rss (fold emit rs1 h) cursor1"
  have ref: "log_refines cap (rs @ rs1) (fold emit rs1 h)" by (rule fold_emit_refines [OF Cons.prems])
  have unf: "stream_logs f (rs1 # rss) h cursor = sent @ ?rest"
    by (simp add: stream_round_sends [OF ref] sent_def cursor1_def Let_def)
  from Cons.IH [OF ref, of cursor1] have
    ih: "sorted_wrt (<) (map entry_sort_key ?rest)"
      "set ?rest \<subseteq> set (stream_backlog f cursor1 (numbered 1 (rs @ concat (rs1 # rss))))"
    by simp_all
  have sub: "set sent \<subseteq> set (stream_backlog f cursor (numbered 1 (rs @ rs1)))"
    using set_newest_subset [of 200 "stream_backlog f cursor ?es"] set_retained_subset [of cap "rs @ rs1"]
    by (auto simp: sent_def stream_backlog_def)
  have asc: "sorted_wrt (<) (map entry_sort_key sent)"
    unfolding sent_def by (rule sorted_wrt_newest [OF backlog_ascends])
  have past: "past_cursor cursor e" if "past_cursor cursor1 e" for e
  proof (cases "sent = []")
    case False
    with sub have "past_cursor cursor (last sent)"
      using subsetD [OF sub last_in_set [OF False]] by (simp add: stream_backlog_def)
    with that False show ?thesis by (auto simp: cursor1_def past_cursor_def split: option.splits)
  qed (use that in \<open>simp add: cursor1_def\<close>)
  have below: "entry_sort_key a < entry_sort_key b" if "a \<in> set sent" "b \<in> set ?rest" for a b
  proof -
    from that(2) ih(2) have "past_cursor cursor1 b" by (auto simp: stream_backlog_def)
    moreover from that(1) have "cursor1 = Some (entry_sort_key (last sent))" by (auto simp: cursor1_def)
    ultimately show ?thesis using past_cursor_last [OF asc that(1)] by (auto simp: past_cursor_def)
  qed
  show ?case
  proof
    from asc ih(1) below show "sorted_wrt (<) (map entry_sort_key (stream_logs f (rs1 # rss) h cursor))"
      unfolding unf by (auto simp: sorted_wrt_append)
    from sub ih(2) past
    show "set (stream_logs f (rs1 # rss) h cursor)
        \<subseteq> set (stream_backlog f cursor (numbered 1 (rs @ concat (rs1 # rss))))"
      unfolding unf by (auto simp: stream_backlog_def numbered_append)
  qed
qed

lemma backlog_append [simp]:
  "stream_backlog f c (es @ es') = stream_backlog f c es @ stream_backlog f c es'"
  by (simp add: stream_backlog_def)

lemma backlog_empty_drop: "stream_backlog f c es = [] \<Longrightarrow> stream_backlog f c (drop k es) = []"
  by (auto simp: stream_backlog_def filter_empty_conv dest: in_set_dropD)

lemma numbered_past: "c < int k \<Longrightarrow> stream_backlog f (Some c) (numbered k rs) = filter (stream_wants f) (numbered k rs)"
proof (induction rs arbitrary: k)
  case (Cons r rs)
  then show ?case by (simp add: stream_backlog_def past_cursor_def)
qed (simp add: stream_backlog_def)

lemma numbered_keys_below: "e \<in> set (numbered k rs) \<Longrightarrow> entry_sort_key e < int (k + length rs)"
  by (induction rs arbitrary: k) fastforce+

lemma retained_append:
  "length rs' \<le> cap \<Longrightarrow>
     \<exists>k. retained cap (rs @ rs') = drop k (numbered 1 rs) @ numbered (Suc (length rs)) rs'"
  by (rule exI [of _ "length rs + length rs' - cap"]) (simp add: retained_def numbered_append)

lemma stream_logs_complete:
  assumes "log_refines cap rs h" "c \<le> int (length rs)" "stream_backlog f (Some c) (numbered 1 rs) = []"
    and "list_all (\<lambda>rs'. length rs' \<le> min 200 cap) rss"
  shows "stream_logs f rss h (Some c) = filter (stream_wants f) (numbered (Suc (length rs)) (concat rss))"
  using assms
proof (induction rss arbitrary: rs h c)
  case Nil
  then show ?case by simp
next
  case (Cons rs1 rss)
  have ref: "log_refines cap (rs @ rs1) (fold emit rs1 h)" by (rule fold_emit_refines [OF Cons.prems(1)])
  define sent where "sent = filter (stream_wants f) (numbered (Suc (length rs)) rs1)"
  define c1 where "c1 = (if sent = [] then c else entry_sort_key (last sent))"
  obtain k where k: "retained cap (rs @ rs1) = drop k (numbered 1 rs) @ numbered (Suc (length rs)) rs1"
    using retained_append [of rs1 cap rs] Cons.prems(4) by auto
  have past: "stream_backlog f (Some c) (numbered (Suc (length rs)) rs1) = sent"
    unfolding sent_def by (rule numbered_past) (use Cons.prems(2) in simp)
  have backlog: "stream_backlog f (Some c) (retained cap (rs @ rs1)) = sent"
    using backlog_empty_drop [OF Cons.prems(3), of k] by (simp add: k past)
  have "length sent \<le> 200"
    unfolding sent_def by (rule order_trans [OF length_filter_le]) (use Cons.prems(4) in simp)
  with backlog have round: "stream_round f (fold emit rs1 h) (Some c) = (sent, Some c1)"
    by (simp add: stream_round_sends [OF ref] c1_def Let_def)
  have asc: "sorted_wrt (<) (map entry_sort_key sent)"
    by (metis backlog backlog_ascends)
  have above: "c \<le> c1"
  proof (cases "sent = []")
    case False
    then have "last sent \<in> set (stream_backlog f (Some c) (retained cap (rs @ rs1)))"
      using backlog by simp
    then show ?thesis using False by (auto simp: c1_def stream_backlog_def past_cursor_def)
  qed (simp add: c1_def)
  have "c1 \<le> int (length (rs @ rs1))"
  proof (cases "sent = []")
    case False
    then have "last sent \<in> set (numbered (Suc (length rs)) rs1)"
      using last_in_set [of sent] by (auto simp: sent_def)
    then show ?thesis using False numbered_keys_below [of "last sent"] by (fastforce simp: c1_def)
  qed (use Cons.prems(2) in \<open>simp add: c1_def\<close>)
  moreover have "stream_backlog f (Some c1) (numbered 1 (rs @ rs1)) = []"
  proof -
    have "\<not> past_cursor (Some c1) e" if "e \<in> set sent" for e
      using past_cursor_last [OF asc that] that by (auto simp: c1_def)
    then have "stream_backlog f (Some c1) (numbered (Suc (length rs)) rs1) = []"
      by (auto simp: stream_backlog_def filter_empty_conv sent_def)
    moreover have "stream_backlog f (Some c1) (numbered 1 rs) = []"
      using Cons.prems(3) above by (auto simp: stream_backlog_def filter_empty_conv past_cursor_def)
    ultimately show ?thesis by (simp add: numbered_append)
  qed
  ultimately have "stream_logs f rss (fold emit rs1 h) (Some c1)
      = filter (stream_wants f) (numbered (Suc (length (rs @ rs1))) (concat rss))"
    using Cons.IH [OF ref] Cons.prems(4) by simp
  then show ?case by (simp add: round numbered_append sent_def)
qed


subsection \<open>Properties\<close>

text \<open>
  \<^bold>\<open>C32.\<close> The handler refines the history of the log: after any sequence of records and clears it
  holds exactly the last \<open>capacity\<close> records since the last clear, numbered from one, and a query
  answers from these alone, the entries its filters want, newest first and cut to its page, or with the error of an
  unknown level name.
\<close>

theorem log_buffer_refines_history:
  "log_refines cap (since_clear ops) (fold apply_log_op ops (log_handler_init cap)) \<and>
   get_logs q (fold apply_log_op ops (log_handler_init cap)) =
     map_option (\<lambda>lf. page_of q lf (retained cap (since_clear ops))) (level_filter (lq_level q))"
  using run_refines [OF init_refines, of cap ops] get_logs_refines [of cap "since_clear ops" _ q]
  unfolding since_clear_def by simp

text \<open>
  An event stream opened on a log with any history, with any cursor, sends only entries
  emitted by then that pass its filters and lie above the cursor, each at most once and in the
  order of their ids.
\<close>

theorem stream_sends_each_once:
  "sorted_wrt (<) (map entry_sort_key
       (stream_logs f rss (fold apply_log_op ops (log_handler_init cap)) cursor)) \<and>
   set (stream_logs f rss (fold apply_log_op ops (log_handler_init cap)) cursor)
     \<subseteq> {e \<in> set (numbered 1 (since_clear ops @ concat rss)). past_cursor cursor e \<and> stream_wants f e}"
  using stream_logs_ascend [OF run_refines [OF init_refines, of cap ops]]
  by (auto simp: since_clear_def stream_backlog_def)

text \<open>
  A stream opened at the latest id of a log loses nothing as long as no more records than 200,
  and than the buffer holds, arrive between two rounds: it sends exactly the later entries that pass
  its filters, in order.
\<close>

theorem stream_delivers_all:
  assumes "list_all (\<lambda>rs. length rs \<le> min 200 cap) rss"
    and "h = fold apply_log_op ops (log_handler_init cap)"
  shows "stream_logs f rss h (Some (int (latest_id h)))
    = filter (stream_wants f) (numbered (Suc (length (since_clear ops))) (concat rss))"
proof -
  have ref: "log_refines cap (since_clear ops) h"
    unfolding assms(2) since_clear_def by (rule run_refines [OF init_refines])
  then have latest: "latest_id h = length (since_clear ops)" by (simp add: log_refines_def latest_id_def)
  have "stream_backlog f (Some (int (latest_id h))) (numbered 1 (since_clear ops)) = []"
    using numbered_keys_below [of _ 1 "since_clear ops"]
    by (fastforce simp: latest stream_backlog_def filter_empty_conv past_cursor_def)
  with stream_logs_complete [OF ref _ _ assms(1)] show ?thesis by (simp add: latest)
qed

definition sample_record :: log_record where
  "sample_record =
     \<lparr>lr_levelno = 20, lr_created = 0, lr_module = ''sync'', lr_text = ''done'', lr_extra = [],
      lr_traceback = None\<rparr>"

definition sample_stream :: log_stream where
  "sample_stream = \<lparr>ls_level = None, ls_errors_only = False, ls_operation_id = []\<rparr>"

lemma stream_delivers_all_witness:
  "stream_logs sample_stream [[sample_record], [sample_record, sample_record]]
     (fold apply_log_op [Emit sample_record, Clear, Emit sample_record] (log_handler_init 2))
     (Some 1) = map (\<lambda>n. log_entry_of (nat_str n) sample_record) [2, 3, 4]"
proof -
  let ?h = "fold apply_log_op [Emit sample_record, Clear, Emit sample_record] (log_handler_init 2)"
  have "latest_id ?h = 1"
    by (simp add: latest_id_def emit_def next_log_id_def append_log_entry_def clear_buffer_def Let_def)
  moreover have "stream_wants sample_stream (log_entry_of (nat_str n) sample_record)" for n
    by (simp add: stream_wants_def log_matches_def stream_query_def sample_stream_def
        log_query_default_def parse_cursor_id_def)
  ultimately show ?thesis
    using stream_delivers_all [of 2 "[[sample_record], [sample_record, sample_record]]" ?h
        "[Emit sample_record, Clear, Emit sample_record]" sample_stream]
    by (simp add: since_clear_def eval_nat_numeral)
qed

text \<open>
  A burst of more than 200 wanted records between two rounds is cut to its newest 200: the older ones
  are never sent, since the cursor moves past them.
\<close>

lemma stream_burst_loses:
  assumes "log_refines cap rs h" "length rs' \<le> cap" "list_all (stream_wants f) (numbered (Suc (length rs)) rs')"
    and "stream_backlog f (Some c) (numbered 1 rs) = []" "c \<le> int (length rs)" "200 < length rs'"
  shows "stream_logs f [rs', []] h (Some c) = drop (length rs' - 200) (numbered (Suc (length rs)) rs')"
proof -
  let ?new = "numbered (Suc (length rs)) rs'"
  have ref: "log_refines cap (rs @ rs') (fold emit rs' h)" by (rule fold_emit_refines [OF assms(1)])
  obtain k where k: "retained cap (rs @ rs') = drop k (numbered 1 rs) @ ?new"
    using retained_append [OF assms(2)] by auto
  have "stream_backlog f (Some c) ?new = ?new"
    using numbered_past [of c "Suc (length rs)" f rs'] assms(3,5)
    by (simp add: filter_id_conv list_all_iff)
  with backlog_empty_drop [OF assms(4), of k]
  have backlog: "stream_backlog f (Some c) (retained cap (rs @ rs')) = ?new" by (simp add: k)
  let ?sent = "drop (length rs' - 200) ?new"
  have ne: "?sent \<noteq> []" using assms(6) by simp
  have round: "stream_round f (fold emit rs' h) (Some c) = (?sent, Some (entry_sort_key (last ?new)))"
    using ne assms(6) by (simp add: stream_round_sends [OF ref] backlog newest_def Let_def last_drop)
  have "?new \<noteq> []" using assms(6) by (cases rs') auto
  then have "last (retained cap (rs @ rs')) = last ?new" by (simp add: k)
  then have "stream_backlog f (Some (entry_sort_key (last ?new))) (retained cap (rs @ rs')) = []"
    using past_cursor_last [OF keys_ascend, of _ cap "rs @ rs'"]
    by (auto simp: stream_backlog_def filter_empty_conv)
  with stream_round_sends [OF ref]
  have "stream_round f (fold emit rs' h) (Some (entry_sort_key (last ?new)))
      = ([], Some (entry_sort_key (last ?new)))" by (simp add: Let_def)
  with round show ?thesis by simp
qed

text \<open>
  After a clear the ids start again from one, so a stream whose cursor is older stays silent until
  the counter has passed it.
\<close>

lemma stream_silent_after_clear:
  assumes "log_refines cap rs h" "int (length rs) \<le> c"
  shows "stream_round f h (Some c) = ([], Some c)"
proof -
  have "stream_backlog f (Some c) (retained cap rs) = []"
    using numbered_keys_below [of _ 1 rs] set_retained_subset [of cap rs] assms(2)
    by (fastforce simp: stream_backlog_def filter_empty_conv past_cursor_def)
  then show ?thesis by (simp add: stream_round_sends [OF assms(1)] Let_def)
qed

text \<open>What the redaction leaves: a secret in a JSON or dictionary text, and one after a token scheme.\<close>

lemma redaction_misses_quoted_keys: "redact_pii ''{'password': 'hunter2hunter2'}'' = ''{'password': 'hunter2hunter2'}''"
  by code_simp

lemma redaction_misses_token_scheme: "redact_pii ''Authorization: Token 0123456789abcdef'' = ''Authorization: Token 0123456789abcdef''"
  by code_simp

lemma redaction_examples:
  "redact_pii ''token=abcdefgh1 ok'' = ''[REDACTED] ok''"
  "redact_pii ''Bearer a.b-c, x'' = ''Bearer [REDACTED], x''"
  by code_simp+

text \<open>
  The id is drawn before the lock of the buffer is taken, so a clear between the two leaves an entry
  whose id the restarted counter gives out again.
\<close>

lemma clear_race_repeats_id:
  "map le_id (lh_buffer
     (let (i, h1) = next_log_id (log_handler_init 5);
          h2 = append_log_entry (log_entry_of i sample_record) (clear_buffer h1)
      in emit sample_record h2)) = [''1'', ''1'']"
  by code_simp

end
