(* ===== verification/Active_Sync.thy ===== *)
theory Active_Sync
  imports Py_Prelude "HOL-Library.Multiset"
begin

text \<open>
  The registry of running syncs (\<^verbatim>\<open>app/sync_state.py\<close>). The registry is a list of dictionaries with
  three texts each, here a record; \<^verbatim>\<open>list.remove\<close> takes the first entry that is equal, not the same
  object. \<open>sync_step\<close> lets any number of tasks enter and leave \<^verbatim>\<open>register_active_sync\<close> in any order;
  the abstract state is the list of running tasks, oldest first, with what each registered. The lock
  is held across one list operation only, so each operation is one step.
\<close>

record active_entry =
  ae_id :: string
  ae_kind :: string
  ae_started_at :: string

type_synonym active_runs = "active_entry list"

definition acquire_active_sync ::
    "string \<Rightarrow> string \<Rightarrow> string \<Rightarrow> active_runs \<Rightarrow> active_entry \<times> active_runs" where
  "acquire_active_sync operation_id kind now rs =
     (let e = \<lparr>ae_id = operation_id, ae_kind = kind, ae_started_at = now\<rparr> in (e, rs @ [e]))"

definition release_active_sync :: "active_entry \<Rightarrow> active_runs \<Rightarrow> active_runs" where
  "release_active_sync e rs = remove1 e rs"

record active_answer =
  aa_active :: bool
  aa_started_at :: "string option"
  aa_id :: "string option"
  aa_kind :: "string option"
  aa_runs :: active_runs

definition get_active_sync :: "active_runs \<Rightarrow> active_answer" where
  "get_active_sync rs =
     (case rs of
        [] \<Rightarrow> \<lparr>aa_active = False, aa_started_at = None, aa_id = None, aa_kind = None, aa_runs = []\<rparr>
      | e # _ \<Rightarrow>
          \<lparr>aa_active = True, aa_started_at = Some (ae_started_at e), aa_id = Some (ae_id e),
           aa_kind = Some (ae_kind e), aa_runs = rs\<rparr>)"

definition is_active :: "active_runs \<Rightarrow> bool" where
  "is_active rs = (rs \<noteq> [])"

text \<open>
  A task enters the block once at a time and leaves it however its body ends: with a result, an
  exception or a cancellation.
\<close>

record sync_world =
  sw_runs :: active_runs
  sw_running :: "(nat \<times> active_entry) list"

inductive sync_step :: "sync_world \<Rightarrow> sync_world \<Rightarrow> bool" where
  enter: "map_of (sw_running w) t = None \<Longrightarrow> acquire_active_sync i k now (sw_runs w) = (e, rs) \<Longrightarrow>
     sync_step w \<lparr>sw_runs = rs, sw_running = sw_running w @ [(t, e)]\<rparr>"
| leave: "map_of (sw_running w) t = Some e \<Longrightarrow>
     sync_step w \<lparr>sw_runs = release_active_sync e (sw_runs w), sw_running = dict_pop t (sw_running w)\<rparr>"

definition sync_idle :: sync_world where
  "sync_idle = \<lparr>sw_runs = [], sw_running = []\<rparr>"

definition sync_refines :: "sync_world \<Rightarrow> bool" where
  "sync_refines w = (dict_wf (sw_running w) \<and> mset (sw_runs w) = mset (map snd (sw_running w)))"

lemma mset_dict_pop:
  "dict_wf d \<Longrightarrow> map_of d k = Some v \<Longrightarrow> mset (map snd (dict_pop k d)) = mset (map snd d) - {#v#}"
proof (induction d)
  case (Cons x d)
  show ?case
  proof (cases "fst x = k")
    case True
    with Cons.prems have "k \<notin> fst ` set d" by (auto simp: dict_wf_def)
    then have "dict_pop k d = d" by simp
    with True Cons.prems show ?thesis by (cases x) simp
  next
    case False
    with Cons.prems have wf: "dict_wf d" and v: "map_of d k = Some v"
      by (auto simp: dict_wf_def split: if_splits)
    from v have "v \<in># mset (map snd d)" by (force dest: map_of_SomeD)
    with Cons.IH [OF wf v] False show ?thesis by (cases x) simp
  qed
qed simp

lemma sync_step_refines: "sync_step w w' \<Longrightarrow> sync_refines w \<Longrightarrow> sync_refines w'"
proof (induction rule: sync_step.induct)
  case (enter w t i k now e rs)
  then show ?case
    by (auto simp: sync_refines_def acquire_active_sync_def Let_def dict_wf_def map_of_eq_None_iff)
next
  case (leave w t e)
  then show ?case
    by (simp add: sync_refines_def release_active_sync_def mset_dict_pop del: mset_map)
qed

lemma sync_reach_refines: "sync_step\<^sup>*\<^sup>* sync_idle w \<Longrightarrow> sync_refines w"
proof (induction rule: rtranclp_induct)
  case base
  then show ?case by (simp add: sync_idle_def sync_refines_def)
qed (rule sync_step_refines)

lemma remove1_map_snd:
  "distinct (map snd d) \<Longrightarrow> dict_wf d \<Longrightarrow> map_of d t = Some e \<Longrightarrow> remove1 e (map snd d) = map snd (dict_pop t d)"
proof (induction d)
  case (Cons x d)
  show ?case
  proof (cases "fst x = t")
    case True
    with Cons.prems have "t \<notin> fst ` set d" by (auto simp: dict_wf_def)
    then have "dict_pop t d = d" by simp
    with True Cons.prems show ?thesis by (cases x) simp
  next
    case False
    with Cons.prems have e: "map_of d t = Some e" by (auto split: if_splits)
    then have "e \<in> snd ` set d" by (force dest: map_of_SomeD)
    with Cons.prems have "snd x \<noteq> e" by auto
    with Cons.IH e Cons.prems False show ?thesis by (cases x) (simp add: dict_wf_def)
  qed
qed simp


text \<open>
  With operation ids that do not repeat the registry is the running syncs in the order they started,
  so the probe names the oldest.
\<close>

lemma active_sync_oldest_first:
  assumes "(\<lambda>w w'. sync_step w w' \<and> distinct (map snd (sw_running w')))\<^sup>*\<^sup>* sync_idle w"
  shows "sw_runs w = map snd (sw_running w) \<and> dict_wf (sw_running w) \<and> distinct (map snd (sw_running w))"
  using assms
proof (induction rule: rtranclp_induct)
  case (step v w)
  then have "sync_step v w" by simp
  then show ?case
  proof cases
    case (enter t i k now e rs)
    with step show ?thesis
      by (auto simp: acquire_active_sync_def Let_def dict_wf_def map_of_eq_None_iff)
  next
    case (leave t e)
    with step show ?thesis by (auto simp: release_active_sync_def remove1_map_snd)
  qed
qed (simp add: sync_idle_def)


end
