(* ===== verification/Ceph_Plan.thy ===== *)
theory Ceph_Plan
  imports Py_Values "HOL-Library.Product_Lexorder"
begin

text \<open>
  Planning in the Ceph control plane (\<^verbatim>\<open>ceph/v2_engine.py\<close>): redaction of secrets, validation of a
  request, normalization and ordering of its operations, \<open>build_plan\<close>, and the bounded store of plans.

  A provider adapter is a record of functions over a world of its own; an exception it raises is a
  value. Pydantic objects are records of the fields the engine reads; the JSON dump pydantic makes of a
  request comes with it. The readings of \<^verbatim>\<open>uuid4\<close> and \<^verbatim>\<open>time.time\<close> are the values of two functions at
  successive ticks, \<^verbatim>\<open>uuid5\<close> is a function of the text, and the reading of a metric snapshot from a
  dictionary (pydantic) is a parameter.
\<close>

subsection \<open>Redaction\<close>

definition secret_key_fragments :: "string list" where
  "secret_key_fragments = [''password'', ''secret'', ''token'', ''private_key'', ''access_key'']"

definition secret_key :: "string \<Rightarrow> bool" where
  "secret_key k = list_ex (\<lambda>f. py_contains f (py_lower k)) secret_key_fragments"

definition credential_ref_key :: "string \<Rightarrow> bool" where
  "credential_ref_key k = (py_lower k = ''credential_ref'')"

fun redact_secrets :: "pyval \<Rightarrow> pyval" where
  "redact_secrets (PDict d) =
     PDict (map (\<lambda>(k, v). (k,
       if credential_ref_key k then v
       else if secret_key k then PStr ''[REDACTED]''
       else redact_secrets v)) d)"
| "redact_secrets (PList xs) = PList (map redact_secrets xs)"
| "redact_secrets v = v"

text \<open>The type of redacted values: below no key that names a secret is anything but the mark.\<close>

fun secret_free :: "pyval \<Rightarrow> bool" where
  "secret_free (PDict d) =
     list_all (\<lambda>(k, v). credential_ref_key k \<or>
       (if secret_key k then v = PStr ''[REDACTED]'' else secret_free v)) d"
| "secret_free (PList xs) = list_all secret_free xs"
| "secret_free v = True"

lemma redact_secret_free [simp]: "secret_free (redact_secrets v)"
proof (induction v rule: redact_secrets.induct)
  case (1 d)
  have "secret_free (redact_secrets v)"
    if "(k, v) \<in> set d" "\<not> credential_ref_key k" "\<not> secret_key k" for k v
    using "1.IH" [OF that(1) refl that(2,3)] .
  then show ?case by (auto simp: list_all_iff split: if_splits)
next
  case (2 xs)
  then show ?case by (auto simp: list_all_iff)
qed auto

lemma redact_of_secret_free: "secret_free v \<Longrightarrow> redact_secrets v = v"
proof (induction v rule: secret_free.induct)
  case (1 d)
  then have "map (\<lambda>(k, v). (k, if credential_ref_key k then v
      else if secret_key k then PStr ''[REDACTED]'' else redact_secrets v)) d = d"
    by (intro map_idI) (fastforce simp: list_all_iff)
  then show ?case by simp
next
  case (2 xs)
  then show ?case by (auto simp: list_all_iff intro: map_idI)
qed auto

lemma redact_idem: "redact_secrets (redact_secrets v) = redact_secrets v"
  by (simp add: redact_of_secret_free)


subsection \<open>Requests, operations and plans\<close>

record desired_object =
  do_kind :: string
  do_target_ref :: "string option"
  do_name :: "string option"
  do_action :: string
  do_payload :: pyobj

record desired_bundle =
  db_objects :: "desired_object list"
  db_scope :: pyobj

record provider_op =
  po_id :: "string option"
  po_provider :: string
  po_kind :: string
  po_target_ref :: string
  po_action :: string
  po_destructive :: bool
  po_supported :: bool
  po_blocked_reason :: "string option"
  po_before :: pyobj
  po_after :: pyobj
  po_metadata :: pyobj
  po_extra :: pyobj

record plan_request =
  pq_provider :: string
  pq_desired :: desired_bundle
  pq_operations :: "provider_op list"
  pq_scope :: pyobj
  pq_actor :: "string option"
  pq_netbox_branch :: "string option"
  pq_source_branch :: "string option"
  pq_dump :: pyval

record capabilities =
  cp_provider :: string
  cp_supported :: bool
  cp_plan :: bool
  cp_apply :: bool
  cp_operation_kinds :: "(string, bool) pydict"
  cp_notes :: "string list"

datatype severity = Info | Warning | Error

record validation_result =
  vr_severity :: severity
  vr_code :: string
  vr_message :: string
  vr_target :: "string option"

record metric_snapshot =
  ms_health :: string
  ms_recovering :: "int option"
  ms_degraded :: "int option"
  ms_misplaced :: "int option"

record ceph_plan =
  pl_id :: string
  pl_provider :: string
  pl_branch :: "string option"
  pl_operations :: "provider_op list"
  pl_validations :: "validation_result list"
  pl_warnings :: "string list"
  pl_blocked :: "provider_op list"
  pl_created_at :: seconds
  pl_live_summary :: pyval
  pl_request_summary :: pyval

datatype adapter_exc = Unsupported string | Other_Exc string

fun exc_text :: "adapter_exc \<Rightarrow> string" where
  "exc_text (Unsupported s) = s"
| "exc_text (Other_Exc s) = s"

type_synonym ('w, 'a) adapter_op = "'w \<Rightarrow> (adapter_exc + 'a) \<times> 'w"

record 'w ceph_adapter =
  ad_capabilities :: "('w, capabilities) adapter_op"
  ad_read_state :: "pyobj \<Rightarrow> ('w, pyobj) adapter_op"
  ad_diff :: "desired_bundle \<Rightarrow> pyobj \<Rightarrow> ('w, provider_op list) adapter_op"
  ad_plan :: "provider_op list \<Rightarrow> ('w, provider_op list) adapter_op"
  ad_apply :: "provider_op \<Rightarrow> bool \<Rightarrow> ('w, pyobj) adapter_op"
  ad_reconcile :: "pyobj \<Rightarrow> ('w, pyobj) adapter_op"

text \<open>\<^verbatim>\<open>a or b\<close> for optional texts.\<close>

definition text_or :: "string option \<Rightarrow> string option \<Rightarrow> string option" where
  "text_or a b = (case a of Some s \<Rightarrow> if s \<noteq> [] then a else b | None \<Rightarrow> b)"

definition some_text :: "string option \<Rightarrow> bool" where
  "some_text a = (case a of Some s \<Rightarrow> s \<noteq> [] | None \<Rightarrow> False)"

definition branch_schema_id :: "plan_request \<Rightarrow> string option" where
  "branch_schema_id r = text_or (pq_netbox_branch r) (pq_source_branch r)"


subsection \<open>Validation\<close>

definition validation_results_for_request :: "plan_request \<Rightarrow> validation_result list" where
  "validation_results_for_request r =
     map (\<lambda>d. \<lparr>vr_severity = Error, vr_code = ''target_ref_required'',
         vr_message = ''Desired Ceph objects require target_ref, ref, name, or payload.name.'',
         vr_target = Some (do_kind d)\<rparr>)
       (filter (\<lambda>d. \<not> some_text (text_or (do_target_ref d) (do_name d))) (db_objects (pq_desired r))) @
     map (\<lambda>p. \<lparr>vr_severity = Error, vr_code = ''target_ref_required'',
         vr_message = ''Provider operations require target_ref, ref, target, or name.'',
         vr_target = Some (po_kind p)\<rparr>)
       (filter (\<lambda>p. po_target_ref p = []) (pq_operations r))"

definition opt_nonzero :: "int option \<Rightarrow> bool" where
  "opt_nonzero v = (case v of Some n \<Rightarrow> n \<noteq> 0 | None \<Rightarrow> False)"

definition opt_zero :: "int option \<Rightarrow> int" where
  "opt_zero v = (case v of Some n \<Rightarrow> n | None \<Rightarrow> 0)"

definition is_degraded :: "metric_snapshot \<Rightarrow> bool" where
  "is_degraded m =
     (ms_health m \<in> {''HEALTH_WARN'', ''HEALTH_ERR''} \<or>
      opt_nonzero (ms_degraded m) \<or> opt_nonzero (ms_misplaced m) \<or> opt_nonzero (ms_recovering m))"

definition degraded_reason :: "metric_snapshot \<Rightarrow> string" where
  "degraded_reason m =
     ''cluster health is '' @ ms_health m @
     (if opt_nonzero (ms_recovering m) \<or> opt_nonzero (ms_degraded m) \<or> opt_nonzero (ms_misplaced m)
      then '' (recovering='' @ int_str (opt_zero (ms_recovering m)) @ '', degraded='' @
        int_str (opt_zero (ms_degraded m)) @ '', misplaced='' @ int_str (opt_zero (ms_misplaced m)) @ '')''
      else [])"

definition metric_safety_validations ::
    "metric_snapshot option \<Rightarrow> provider_op list \<Rightarrow> validation_result list" where
  "metric_safety_validations snap ops =
     (case snap of
        None \<Rightarrow> []
      | Some m \<Rightarrow>
          if \<not> is_degraded m then []
          else map (\<lambda>p. \<lparr>vr_severity = Warning, vr_code = ''cluster_degraded'',
              vr_message = ''Destructive operation while '' @ degraded_reason m @
                ''; proceed only with explicit confirmation.'',
              vr_target = Some (if po_target_ref p \<noteq> [] then po_target_ref p else po_kind p)\<rparr>)
            (filter po_destructive ops))"


subsection \<open>Normalization\<close>

definition destructive_actions :: "string list" where
  "destructive_actions = [''delete'', ''destroy'', ''purge'', ''remove'', ''zap'']"

definition destructive_kinds :: "string list" where
  "destructive_kinds =
     [''osd'', ''pool'', ''rbd'', ''rbd_image'', ''rgw_bucket'', ''crush'', ''crush_rule'', ''key'', ''user'']"

definition norm_kind :: "string \<Rightarrow> string" where
  "norm_kind k = map (\<lambda>c. if c = CHR ''-'' then CHR ''_'' else c) (py_lower (py_strip k))"

definition norm_action :: "string \<Rightarrow> string" where
  "norm_action a = py_lower (py_strip a)"

definition is_destructive :: "provider_op \<Rightarrow> bool" where
  "is_destructive p =
     (norm_action (po_action p) \<in> set destructive_actions \<or>
      (norm_kind (po_kind p) \<in> set destructive_kinds \<and>
       norm_action (po_action p) \<in> set destructive_actions))"

text \<open>The content that identifies an operation: everything but its id and the verdict on it.\<close>

definition op_payload :: "provider_op \<Rightarrow> pyobj" where
  "op_payload p =
     [(''provider'', PStr (po_provider p)), (''kind'', PStr (po_kind p)),
      (''target_ref'', PStr (po_target_ref p)), (''action'', PStr (po_action p)),
      (''is_destructive'', PBool (po_destructive p)), (''before_summary'', PDict (po_before p)),
      (''after_summary'', PDict (po_after p)), (''metadata'', PDict (po_metadata p))] @
     filter (\<lambda>(k, v). v \<noteq> PNone) (po_extra p)"

definition stable_operation_id :: "(string \<Rightarrow> string) \<Rightarrow> provider_op \<Rightarrow> string" where
  "stable_operation_id uuid5 p = uuid5 (json_dumps True '','' '':'' (PDict (op_payload p)))"

definition provider_supports :: "capabilities \<Rightarrow> provider_op \<Rightarrow> bool" where
  "provider_supports c p =
     (if po_action p = ''noop'' then True
      else
        (case List.map_filter (map_of (cp_operation_kinds c))
            [po_kind p @ '':'' @ po_action p, po_kind p @ '':*'', po_action p, po_kind p] of
           b # _ \<Rightarrow> b
         | [] \<Rightarrow> cp_apply c))"

definition block :: "string \<Rightarrow> provider_op \<Rightarrow> provider_op" where
  "block reason p = p\<lparr>po_supported := False, po_blocked_reason := Some reason\<rparr>"

definition normalize_fields :: "(string \<Rightarrow> string) \<Rightarrow> capabilities \<Rightarrow> provider_op \<Rightarrow> provider_op" where
  "normalize_fields uuid5 c operation =
     (let a = norm_action (po_action operation);
          p1 = operation\<lparr>po_provider := cp_provider c, po_kind := norm_kind (po_kind operation),
                po_action := (if a = [] then ''ensure'' else a)\<rparr>;
          p2 = p1\<lparr>po_destructive := (po_destructive p1 \<or> is_destructive p1)\<rparr>
      in p2\<lparr>po_id := (if some_text (po_id p2) then po_id p2 else Some (stable_operation_id uuid5 p2))\<rparr>)"

definition normalize_verdict :: "capabilities \<Rightarrow> provider_op \<Rightarrow> provider_op" where
  "normalize_verdict c p =
     (if po_target_ref p = [] then block ''target_ref is required for Ceph provider operations.'' p
      else if \<not> cp_supported c then
        block (''provider '' @ str_repr (cp_provider c) @ '' is not implemented.'') p
      else if po_supported p \<and> \<not> provider_supports c p then
        block (''provider '' @ str_repr (cp_provider c) @ '' does not support '' @ po_action p @
          '' for '' @ po_kind p @ ''.'') p
      else if \<not> po_supported p \<and> \<not> some_text (po_blocked_reason p) then
        p\<lparr>po_blocked_reason := Some ''provider operation is marked unsupported.''\<rparr>
      else p)"

definition normalize_operation :: "(string \<Rightarrow> string) \<Rightarrow> capabilities \<Rightarrow> provider_op \<Rightarrow> provider_op" where
  "normalize_operation uuid5 c operation = normalize_verdict c (normalize_fields uuid5 c operation)"

definition action_priority :: "string \<Rightarrow> int" where
  "action_priority a =
     (case map_of [(''noop'', 0), (''create'', 10), (''ensure'', 20), (''update'', 30), (''set'', 30),
        (''delete'', 90), (''destroy'', 90), (''purge'', 90), (''remove'', 90), (''zap'', 90)] a of
        Some n \<Rightarrow> n | None \<Rightarrow> 50)"

definition operation_priority :: "provider_op \<Rightarrow> int \<times> string \<times> string \<times> string" where
  "operation_priority p =
     (action_priority (po_action p), po_kind p, po_target_ref p,
      case po_id p of Some i \<Rightarrow> i | None \<Rightarrow> [])"

text \<open>\<^verbatim>\<open>sorted\<close> on the normalized operations.\<close>

definition normalized_operations ::
    "(string \<Rightarrow> string) \<Rightarrow> capabilities \<Rightarrow> provider_op list \<Rightarrow> provider_op list" where
  "normalized_operations uuid5 c ops = sort_key operation_priority (map (normalize_operation uuid5 c) ops)"

definition generic_operation :: "string \<Rightarrow> desired_object \<Rightarrow> provider_op" where
  "generic_operation provider d =
     \<lparr>po_id = None, po_provider = provider, po_kind = do_kind d,
      po_target_ref = (case text_or (do_target_ref d) (do_name d) of Some t \<Rightarrow> t | None \<Rightarrow> []),
      po_action = do_action d, po_destructive = False, po_supported = True, po_blocked_reason = None,
      po_before = [], po_after = do_payload d, po_metadata = [], po_extra = []\<rparr>"

definition generic_operations_from_desired :: "plan_request \<Rightarrow> string \<Rightarrow> provider_op list" where
  "generic_operations_from_desired r provider = map (generic_operation provider) (db_objects (pq_desired r))"


subsection \<open>The engine and its plans\<close>

record ceph_env =
  ce_uuid4 :: "nat \<Rightarrow> string"
  ce_uuid5 :: "string \<Rightarrow> string"
  ce_clock :: "nat \<Rightarrow> seconds"
  ce_snapshot :: "pyval \<Rightarrow> metric_snapshot option"

record ceph_run =
  rn_id :: string
  rn_plan_id :: "string option"
  rn_status :: string
  rn_actor :: "string option"
  rn_branch :: "string option"
  rn_provider :: string
  rn_request_summary :: pyval
  rn_task_refs :: "string list"
  rn_created_at :: seconds
  rn_updated_at :: seconds
  rn_warnings :: "string list"
  rn_errors :: "string list"
  rn_result_summary :: pyval

text \<open>
  The state: the plan store with the order of its insertions, the table of runs, the world behind the
  adapters, the next tick, and the record of all calls of an adapter's \<^verbatim>\<open>apply\<close>.
\<close>

record 'w ceph_state =
  cs_store :: "(string, ceph_plan) pydict"
  cs_order :: "string list"
  cs_runs :: "ceph_run list"
  cs_world :: 'w
  cs_tick :: nat
  cs_calls :: "(string \<times> provider_op \<times> bool) list"

definition plan_store_limit :: nat where
  "plan_store_limit = 512"

fun trim_store :: "string list \<Rightarrow> (string, ceph_plan) pydict \<Rightarrow> string list \<times> (string, ceph_plan) pydict" where
  "trim_store [] store = ([], store)"
| "trim_store (i # order) store =
     (if length (i # order) > plan_store_limit then trim_store order (dict_pop i store)
      else (i # order, store))"

definition remember_plan :: "ceph_plan \<Rightarrow> 'w ceph_state \<Rightarrow> 'w ceph_state" where
  "remember_plan p s =
     (let (order, store) = trim_store (cs_order s @ [pl_id p]) (dict_set (pl_id p) p (cs_store s))
      in s\<lparr>cs_order := order, cs_store := store\<rparr>)"

definition get_plan :: "string \<Rightarrow> 'w ceph_state \<Rightarrow> ceph_plan option" where
  "get_plan i s = map_of (cs_store s) i"

definition on_world :: "('w, 'a) adapter_op \<Rightarrow> 'w ceph_state \<Rightarrow> (adapter_exc + 'a) \<times> 'w ceph_state" where
  "on_world f s = (let (r, w) = f (cs_world s) in (r, s\<lparr>cs_world := w\<rparr>))"

definition raw_operations ::
    "plan_request \<Rightarrow> 'w ceph_adapter \<Rightarrow> capabilities \<Rightarrow> 'w ceph_state \<Rightarrow>
     (adapter_exc + provider_op list \<times> pyobj) \<times> 'w ceph_state" where
  "raw_operations r ad c s =
     (if pq_operations r \<noteq> [] then (Inr (pq_operations r, []), s)
      else if \<not> cp_supported c then (Inr (generic_operations_from_desired r (cp_provider c), []), s)
      else
        (case on_world (ad_read_state ad (if pq_scope r \<noteq> [] then pq_scope r else db_scope (pq_desired r))) s of
           (Inl e, s1) \<Rightarrow> (Inl e, s1)
         | (Inr live, s1) \<Rightarrow>
             (case on_world (ad_diff ad (pq_desired r) live) s1 of
                (Inl e, s2) \<Rightarrow> (Inl e, s2)
              | (Inr ops, s2) \<Rightarrow> (Inr (ops, live), s2))))"

text \<open>The body of the \<^verbatim>\<open>try\<close> of \<^verbatim>\<open>build_plan\<close>.\<close>

definition planned_operations ::
    "plan_request \<Rightarrow> 'w ceph_adapter \<Rightarrow> capabilities \<Rightarrow> 'w ceph_state \<Rightarrow>
     (adapter_exc + provider_op list \<times> pyobj) \<times> 'w ceph_state" where
  "planned_operations r ad c s =
     (case raw_operations r ad c s of
        (Inl e, s1) \<Rightarrow> (Inl e, s1)
      | (Inr (ops, live), s1) \<Rightarrow>
          if cp_supported c \<and> cp_plan c then
            (case on_world (ad_plan ad ops) s1 of
               (Inl e, s2) \<Rightarrow> (Inl e, s2)
             | (Inr ops', s2) \<Rightarrow> (Inr (ops', live), s2))
          else (Inr (ops, live), s1))"

definition snapshot_from_request ::
    "ceph_env \<Rightarrow> plan_request \<Rightarrow> metric_snapshot option \<Rightarrow> metric_snapshot option" where
  "snapshot_from_request E r snap =
     (case snap of
        Some m \<Rightarrow> Some m
      | None \<Rightarrow>
          (case obj_get (pq_scope r) ''metric_snapshot'' of
             PDict d \<Rightarrow> ce_snapshot E (PDict d)
           | _ \<Rightarrow> None))"

definition has_errors :: "validation_result list \<Rightarrow> bool" where
  "has_errors vs = list_ex (\<lambda>v. vr_severity v = Error) vs"

definition get_default :: "pyobj \<Rightarrow> string \<Rightarrow> pyval \<Rightarrow> pyval" where
  "get_default d k v = (case map_of d k of Some u \<Rightarrow> u | None \<Rightarrow> v)"

definition make_plan ::
    "ceph_env \<Rightarrow> plan_request \<Rightarrow> capabilities \<Rightarrow> metric_snapshot option \<Rightarrow> validation_result list \<Rightarrow>
     string list \<Rightarrow> provider_op list \<Rightarrow> pyobj \<Rightarrow> nat \<Rightarrow> ceph_plan" where
  "make_plan E r c snap validations warnings ops live tick =
     (let norm = normalized_operations (ce_uuid5 E) c ops
      in \<lparr>pl_id = ce_uuid4 E tick, pl_provider = cp_provider c, pl_branch = branch_schema_id r,
          pl_operations = norm,
          pl_validations = validations @ metric_safety_validations (snapshot_from_request E r snap) norm,
          pl_warnings = warnings, pl_blocked = filter (\<lambda>p. \<not> po_supported p) norm,
          pl_created_at = ce_clock E tick,
          pl_live_summary = get_default live ''summary'' (PDict []),
          pl_request_summary = redact_secrets (pq_dump r)\<rparr>)"

definition build_plan ::
    "ceph_env \<Rightarrow> plan_request \<Rightarrow> 'w ceph_adapter \<Rightarrow> metric_snapshot option \<Rightarrow> 'w ceph_state \<Rightarrow>
     (adapter_exc + ceph_plan) \<times> 'w ceph_state" where
  "build_plan E r ad snap s =
     (case on_world (ad_capabilities ad) s of
        (Inl e, s1) \<Rightarrow> (Inl e, s1)
      | (Inr c, s1) \<Rightarrow>
          (let validations = validation_results_for_request r;
               (planned, s2) =
                 (if has_errors validations then (Inr (cp_notes c, [], []), s1)
                  else
                    (case planned_operations r ad c s1 of
                       (Inr (ops, live), s2) \<Rightarrow> (Inr (cp_notes c, ops, live), s2)
                     | (Inl (Unsupported m), s2) \<Rightarrow>
                         (Inr (cp_notes c @ [m], generic_operations_from_desired r (cp_provider c), []), s2)
                     | (Inl (Other_Exc m), s2) \<Rightarrow> (Inl (Other_Exc m), s2)))
           in case planned of
                Inl e \<Rightarrow> (Inl e, s2)
              | Inr (warnings, ops, live) \<Rightarrow>
                  (let plan = make_plan E r c snap validations warnings ops live (cs_tick s2)
                   in (Inr plan, remember_plan plan (s2\<lparr>cs_tick := Suc (cs_tick s2)\<rparr>)))))"

text \<open>\<^verbatim>\<open>_build_and_remember\<close> of the routes, with the adapter resolved: the plan is remembered again.\<close>

definition build_and_remember ::
    "ceph_env \<Rightarrow> plan_request \<Rightarrow> 'w ceph_adapter \<Rightarrow> 'w ceph_state \<Rightarrow> (adapter_exc + ceph_plan) \<times> 'w ceph_state" where
  "build_and_remember E r ad s =
     (case build_plan E r ad None s of
        (Inl e, s1) \<Rightarrow> (Inl e, s1)
      | (Inr plan, s1) \<Rightarrow> (Inr plan, remember_plan plan s1))"


subsection \<open>What a plan guarantees\<close>

text \<open>The type of a planned operation: the verdict on it is consistent with the capabilities.\<close>

definition planned_op_ok :: "capabilities \<Rightarrow> provider_op \<Rightarrow> bool" where
  "planned_op_ok c p =
     (po_provider p = cp_provider c \<and> po_action p \<noteq> [] \<and> po_id p \<noteq> None \<and>
      (po_action p \<in> set destructive_actions \<longrightarrow> po_destructive p) \<and>
      (if po_supported p then po_target_ref p \<noteq> [] \<and> cp_supported c \<and> provider_supports c p
       else some_text (po_blocked_reason p)))"

definition plan_ok :: "capabilities \<Rightarrow> ceph_plan \<Rightarrow> bool" where
  "plan_ok c p =
     (pl_provider p = cp_provider c \<and> list_all (planned_op_ok c) (pl_operations p) \<and>
      sorted (map operation_priority (pl_operations p)) \<and>
      pl_blocked p = filter (\<lambda>q. \<not> po_supported q) (pl_operations p) \<and>
      secret_free (pl_request_summary p))"

lemma norm_action_fixed: "a \<in> set destructive_actions \<Longrightarrow> norm_action a = a"
proof -
  have "list_all (\<lambda>a. norm_action a = a) destructive_actions" by code_simp
  then show "a \<in> set destructive_actions \<Longrightarrow> ?thesis" by (simp add: list_all_iff)
qed

lemma provider_supports_cong:
  "po_action p = po_action q \<Longrightarrow> po_kind p = po_kind q \<Longrightarrow> provider_supports c p = provider_supports c q"
  by (simp add: provider_supports_def)

lemma normalize_verdict_fields:
  "po_provider (normalize_verdict c p) = po_provider p" "po_action (normalize_verdict c p) = po_action p"
  "po_id (normalize_verdict c p) = po_id p" "po_kind (normalize_verdict c p) = po_kind p"
  "po_target_ref (normalize_verdict c p) = po_target_ref p"
  "po_destructive (normalize_verdict c p) = po_destructive p"
  by (simp_all add: normalize_verdict_def block_def)

lemma normalize_verdict_ok:
  "if po_supported (normalize_verdict c p)
   then po_target_ref p \<noteq> [] \<and> cp_supported c \<and> provider_supports c p
   else some_text (po_blocked_reason (normalize_verdict c p))"
  by (simp add: normalize_verdict_def block_def some_text_def)

lemma normalize_fields_ok:
  "po_provider (normalize_fields uuid5 c p) = cp_provider c" "po_action (normalize_fields uuid5 c p) \<noteq> []"
  "po_id (normalize_fields uuid5 c p) \<noteq> None"
  "po_action (normalize_fields uuid5 c p) \<in> set destructive_actions \<Longrightarrow> po_destructive (normalize_fields uuid5 c p)"
  using norm_action_fixed [of "po_action (normalize_fields uuid5 c p)"]
  by (simp_all add: normalize_fields_def is_destructive_def some_text_def Let_def split: option.split)

lemma normalize_operation_ok: "planned_op_ok c (normalize_operation uuid5 c p)"
proof -
  let ?p = "normalize_fields uuid5 c p"
  have "provider_supports c (normalize_verdict c ?p) = provider_supports c ?p"
    by (rule provider_supports_cong) (simp_all add: normalize_verdict_fields)
  with normalize_verdict_ok [of c ?p] show ?thesis
    by (simp add: planned_op_ok_def normalize_operation_def normalize_verdict_fields normalize_fields_ok)
qed

lemma make_plan_ok: "plan_ok c (make_plan E r c snap vs ws ops live n)"
  by (auto simp: plan_ok_def make_plan_def normalized_operations_def list_all_iff Let_def
      normalize_operation_ok)

lemma remember_plan_simps [simp]:
  "cs_runs (remember_plan p s) = cs_runs s" "cs_world (remember_plan p s) = cs_world s"
  "cs_tick (remember_plan p s) = cs_tick s" "cs_calls (remember_plan p s) = cs_calls s"
  by (simp_all add: remember_plan_def Let_def split: prod.split)

lemma on_world_frame:
  "cs_runs (snd (on_world f s)) = cs_runs s \<and> cs_tick (snd (on_world f s)) = cs_tick s \<and>
   cs_calls (snd (on_world f s)) = cs_calls s \<and> cs_store (snd (on_world f s)) = cs_store s \<and>
   cs_order (snd (on_world f s)) = cs_order s"
  by (simp add: on_world_def split: prod.split)

lemma on_worldD:
  "on_world f s = (x, s') \<Longrightarrow> cs_runs s' = cs_runs s \<and> cs_tick s' = cs_tick s \<and> cs_calls s' = cs_calls s \<and>
   cs_store s' = cs_store s \<and> cs_order s' = cs_order s"
  using on_world_frame [of f s] by simp

lemma raw_operationsD:
  "raw_operations r ad c s = (x, s') \<Longrightarrow> cs_runs s' = cs_runs s \<and> cs_tick s' = cs_tick s \<and>
   cs_calls s' = cs_calls s \<and> cs_store s' = cs_store s \<and> cs_order s' = cs_order s"
  by (auto simp: raw_operations_def split: if_splits prod.splits sum.splits dest!: on_worldD)

lemma planned_operationsD:
  "planned_operations r ad c s = (x, s') \<Longrightarrow> cs_runs s' = cs_runs s \<and> cs_tick s' = cs_tick s \<and>
   cs_calls s' = cs_calls s \<and> cs_store s' = cs_store s \<and> cs_order s' = cs_order s"
  by (auto simp: planned_operations_def split: if_splits prod.splits sum.splits
      dest!: on_worldD raw_operationsD)

text \<open>What \<open>build_plan\<close> does with its state and its result, in one elimination.\<close>

lemma build_planE:
  assumes "build_plan E r ad snap s = (Inr plan, s')"
  obtains c s1 s2 vs ws ops live where "on_world (ad_capabilities ad) s = (Inr c, s1)"
    "plan = make_plan E r c snap vs ws ops live (cs_tick s)"
    "cs_runs s2 = cs_runs s" "cs_tick s2 = cs_tick s" "cs_calls s2 = cs_calls s"
    "cs_store s2 = cs_store s" "cs_order s2 = cs_order s"
    "s' = remember_plan plan (s2\<lparr>cs_tick := Suc (cs_tick s)\<rparr>)"
    "vs = validation_results_for_request r" "has_errors vs \<longrightarrow> ops = []"
proof -
  obtain x s1 where cap: "on_world (ad_capabilities ad) s = (x, s1)" by fastforce
  with assms obtain c where c: "x = Inr c" by (cases x) (auto simp: build_plan_def)
  note f1 = on_worldD [OF cap]
  show thesis
  proof (cases "has_errors (validation_results_for_request r)")
    case True
    with assms cap c f1 show thesis
      by (intro that [of c s1 "validation_results_for_request r" "cp_notes c" "[]" "[]" s1])
        (auto simp: build_plan_def Let_def)
  next
    case False
    obtain y s2 where pl: "planned_operations r ad c s1 = (y, s2)" by fastforce
    note f2 = planned_operationsD [OF pl]
    show thesis
    proof (cases y)
      case (Inr ol)
      obtain ops live where "ol = (ops, live)" by fastforce
      with Inr assms cap c f1 f2 pl False show thesis
        by (intro that [of c s1 "validation_results_for_request r" "cp_notes c" ops live s2])
          (auto simp: build_plan_def Let_def)
    next
      case (Inl e)
      with assms cap c pl False obtain m where e: "e = Unsupported m"
        by (cases e) (auto simp: build_plan_def Let_def)
      with Inl assms cap c f1 f2 pl False show thesis
        by (intro that [of c s1 "validation_results_for_request r" "cp_notes c @ [m]"
              "generic_operations_from_desired r (cp_provider c)" "[]" s2])
          (auto simp: build_plan_def Let_def)
    qed
  qed
qed

text \<open>Without a result nothing is remembered, run or applied.\<close>

lemma build_plan_error:
  assumes "build_plan E r ad snap s = (Inl e, s')"
  shows "cs_runs s' = cs_runs s \<and> cs_tick s' = cs_tick s \<and> cs_calls s' = cs_calls s \<and>
    cs_store s' = cs_store s \<and> cs_order s' = cs_order s"
proof -
  obtain x s1 where cap: "on_world (ad_capabilities ad) s = (x, s1)" by fastforce
  show ?thesis
  proof (cases x)
    case (Inl e')
    with assms cap on_worldD [OF cap] show ?thesis by (simp add: build_plan_def)
  next
    case (Inr c)
    obtain y s2 where pl: "planned_operations r ad c s1 = (y, s2)" by fastforce
    from assms cap Inr pl on_worldD [OF cap] planned_operationsD [OF pl] show ?thesis
      by (cases y; cases "projl y"; cases "has_errors (validation_results_for_request r)")
        (auto simp: build_plan_def Let_def split: prod.splits)
  qed
qed

end
