(* ===== verification/Ceph_Apply.thy ===== *)
theory Ceph_Apply
  imports Ceph_Plan
begin

text \<open>
  Applying plans in the Ceph control plane: the persisted runs, \<open>apply_plan\<close> with its gates, the
  reconcile request, and the routes that reach them (\<^verbatim>\<open>ceph/v2_engine.py\<close>, \<^verbatim>\<open>ceph/v2_routes.py\<close>), with the
  resolution of the adapter left to the caller. Database calls succeed; a request is one step, and what
  two overlapping requests can do is stated separately. Ties in the order of completed runs are broken by
  insertion.
\<close>

record apply_request =
  aq_provider :: string
  aq_plan_id :: "string option"
  aq_desired :: "desired_bundle option"
  aq_operations :: "provider_op list"
  aq_scope :: pyobj
  aq_actor :: "string option"
  aq_netbox_branch :: "string option"
  aq_source_branch :: "string option"
  aq_confirm_destructive :: bool
  aq_confirmation_token :: "string option"

record reconcile_request =
  rq_scope :: pyobj
  rq_actor :: "string option"
  rq_netbox_branch :: "string option"
  rq_source_branch :: "string option"

text \<open>\<^verbatim>\<open>CephApplyError\<close>: the status, the detail and the run that records the refusal.\<close>

record apply_error =
  ap_status :: int
  ap_detail :: pyobj
  ap_run :: ceph_run


subsection \<open>Runs\<close>

definition create_run ::
    "ceph_env \<Rightarrow> ceph_plan option \<Rightarrow> string \<Rightarrow> string option \<Rightarrow> string option \<Rightarrow> pyval \<Rightarrow> string \<Rightarrow>
     string list \<Rightarrow> string list \<Rightarrow> pyval \<Rightarrow> 'w ceph_state \<Rightarrow> ceph_run \<times> 'w ceph_state" where
  "create_run E plan provider actor branch summary status warnings errors result s =
     (let run =
        \<lparr>rn_id = ce_uuid4 E (cs_tick s), rn_plan_id = map_option pl_id plan, rn_status = status,
         rn_actor = actor, rn_branch = branch, rn_provider = provider,
         rn_request_summary = redact_secrets summary, rn_task_refs = [],
         rn_created_at = ce_clock E (cs_tick s), rn_updated_at = ce_clock E (cs_tick s),
         rn_warnings = warnings, rn_errors = errors, rn_result_summary = result\<rparr>
      in (run, s\<lparr>cs_runs := cs_runs s @ [run], cs_tick := Suc (cs_tick s)\<rparr>))"

definition update_run ::
    "ceph_env \<Rightarrow> ceph_run \<Rightarrow> string \<Rightarrow> string list option \<Rightarrow> string list \<Rightarrow> string list \<Rightarrow> pyval \<Rightarrow>
     'w ceph_state \<Rightarrow> ceph_run \<times> 'w ceph_state" where
  "update_run E run status refs warnings errors result s =
     (let run' = run\<lparr>rn_status := status, rn_updated_at := ce_clock E (cs_tick s),
            rn_task_refs := (case refs of None \<Rightarrow> rn_task_refs run | Some l \<Rightarrow> l),
            rn_warnings := warnings, rn_errors := errors, rn_result_summary := redact_secrets result\<rparr>
      in (run', s\<lparr>cs_runs := map (\<lambda>x. if rn_id x = rn_id run then run' else x) (cs_runs s),
                  cs_tick := Suc (cs_tick s)\<rparr>))"

definition mark_replay :: "pyval \<Rightarrow> pyval" where
  "mark_replay v = (case v of PDict d \<Rightarrow> PDict (dict_set ''idempotent_replay'' (PBool True) d) | _ \<Rightarrow> v)"

definition completed_run_for_plan :: "string \<Rightarrow> 'w ceph_state \<Rightarrow> ceph_run option" where
  "completed_run_for_plan i s =
     (case sort_key (\<lambda>r. - rn_created_at r)
         (filter (\<lambda>r. rn_plan_id r = Some i \<and> rn_status r = ''completed'') (cs_runs s)) of
        [] \<Rightarrow> None
      | r # _ \<Rightarrow> Some (r\<lparr>rn_result_summary := mark_replay (rn_result_summary r)\<rparr>))"


subsection \<open>Applying\<close>

definition confirmation_satisfied :: "ceph_plan \<Rightarrow> apply_request \<Rightarrow> bool" where
  "confirmation_satisfied plan r =
     (if aq_confirm_destructive r then True
      else aq_confirmation_token r \<in>
        {Some (pl_id plan), Some (''confirm:'' @ pl_id plan), Some (''confirm-destructive:'' @ pl_id plan)})"

definition task_refs_from_result :: "pyobj \<Rightarrow> string list" where
  "task_refs_from_result d =
     (let ref = obj_get d ''provider_task_ref''; upid = obj_get d ''upid'' in
      (if truthy ref then [py_str ref] else []) @
      (case obj_get d ''provider_task_refs'' of PList xs \<Rightarrow> map py_str (filter truthy xs) | _ \<Rightarrow> []) @
      (if truthy upid then [py_str upid] else []))"

definition opt_text :: "string option \<Rightarrow> pyval" where
  "opt_text a = (case a of Some s \<Rightarrow> PStr s | None \<Rightarrow> PNone)"

text \<open>\<^verbatim>\<open>operation.model_dump(mode="json")\<close>.\<close>

definition op_dump :: "provider_op \<Rightarrow> pyval" where
  "op_dump p = PDict
     ([(''id'', opt_text (po_id p)), (''provider'', PStr (po_provider p)), (''kind'', PStr (po_kind p)),
       (''target_ref'', PStr (po_target_ref p)), (''action'', PStr (po_action p)),
       (''is_destructive'', PBool (po_destructive p)), (''supported'', PBool (po_supported p)),
       (''blocked_reason'', opt_text (po_blocked_reason p)), (''before_summary'', PDict (po_before p)),
       (''after_summary'', PDict (po_after p)), (''metadata'', PDict (po_metadata p))] @ po_extra p)"

definition apply_branch :: "apply_request \<Rightarrow> ceph_plan \<Rightarrow> string option" where
  "apply_branch r plan = text_or (text_or (aq_netbox_branch r) (aq_source_branch r)) (pl_branch plan)"

definition raise_with_run ::
    "ceph_env \<Rightarrow> ceph_plan \<Rightarrow> apply_request \<Rightarrow> int \<Rightarrow> string \<Rightarrow> string \<Rightarrow> string list \<Rightarrow>
     'w ceph_state \<Rightarrow> (apply_error + ceph_run) \<times> 'w ceph_state" where
  "raise_with_run E plan r status_code status reason errors s =
     (let (run, s1) = create_run E (Some plan) (pl_provider plan) (aq_actor r) (apply_branch r plan)
            (PDict [(''plan_id'', PStr (pl_id plan)), (''reason'', PStr reason),
                    (''operations'', PList (map op_dump (pl_operations plan)))])
            status (pl_warnings plan) errors
            (PDict [(''reason'', PStr reason), (''applied'', PInt 0),
                    (''total'', PInt (int (length (pl_operations plan))))]) s
      in (Inl \<lparr>ap_status = status_code,
               ap_detail = [(''reason'', PStr reason),
                 (''detail'', PStr (case errors of e # _ \<Rightarrow> e | [] \<Rightarrow> reason)),
                 (''operation_run_id'', PStr (rn_id run)), (''plan_id'', PStr (pl_id plan))],
               ap_run = run\<rparr>, s1))"

definition call_apply ::
    "'w ceph_adapter \<Rightarrow> string \<Rightarrow> provider_op \<Rightarrow> bool \<Rightarrow> 'w ceph_state \<Rightarrow> (adapter_exc + pyobj) \<times> 'w ceph_state" where
  "call_apply ad i p confirm s = on_world (ad_apply ad p confirm) (s\<lparr>cs_calls := cs_calls s @ [(i, p, confirm)]\<rparr>)"

text \<open>
  The loop over the operations: task references, redacted results and the error that ended it.
\<close>

fun apply_operations ::
    "'w ceph_adapter \<Rightarrow> string \<Rightarrow> bool \<Rightarrow> provider_op list \<Rightarrow> 'w ceph_state \<Rightarrow>
     (string list \<times> pyval list \<times> string list) \<times> 'w ceph_state" where
  "apply_operations ad i confirm [] s = (([], [], []), s)"
| "apply_operations ad i confirm (p # ps) s =
     (case call_apply ad i p confirm s of
        (Inl e, s1) \<Rightarrow>
          (([], [], [po_action p @ '' '' @ po_kind p @ '' '' @ po_target_ref p @ '': '' @ exc_text e]), s1)
      | (Inr res, s1) \<Rightarrow>
          (let ((refs, results, errors), s2) = apply_operations ad i confirm ps s1
           in ((task_refs_from_result res @ refs, redact_secrets (PDict res) # results, errors), s2)))"

text \<open>The refusals before anything runs, in their order.\<close>

definition apply_refusal ::
    "ceph_plan \<Rightarrow> apply_request \<Rightarrow> (int \<times> string \<times> string \<times> string list) option" where
  "apply_refusal plan r =
     (let errors = map vr_message (filter (\<lambda>v. vr_severity v = Error) (pl_validations plan));
          blockers = filter (\<lambda>p. \<not> po_supported p) (pl_operations plan)
      in if errors \<noteq> [] then Some (422, ''failed'', ''plan_validation_failed'', errors)
         else if blockers \<noteq> [] then
           Some (409, ''blocked'', ''plan_has_blocked_operations'',
             map (\<lambda>p. if some_text (po_blocked_reason p) then the (po_blocked_reason p)
                      else ''provider operation is blocked'') blockers)
         else if list_ex po_destructive (pl_operations plan) \<and> \<not> confirmation_satisfied plan r then
           Some (409, ''failed'', ''destructive_confirmation_required'',
             [''Destructive Ceph operations require confirm_destructive=true or '' @
              ''confirmation_token='' @ [CHR 0x27] @ ''confirm-destructive:'' @ pl_id plan @ [CHR 0x27, CHR ''.'']])
         else None)"

text \<open>From the creation of the run to its last update.\<close>

definition execute_plan ::
    "ceph_env \<Rightarrow> ceph_plan \<Rightarrow> apply_request \<Rightarrow> 'w ceph_adapter \<Rightarrow> 'w ceph_state \<Rightarrow> ceph_run \<times> 'w ceph_state" where
  "execute_plan E plan r ad s =
     (let ops = pl_operations plan;
          (run, s1) = create_run E (Some plan) (pl_provider plan) (aq_actor r) (apply_branch r plan)
            (PDict [(''plan_id'', PStr (pl_id plan)), (''operations'', PList (map op_dump ops))])
            ''running'' (pl_warnings plan) [] (PDict []) s;
          ((refs, results, errors), s2) =
            apply_operations ad (pl_id plan) (confirmation_satisfied plan r) ops s1;
          applied = PInt (int (length results)); total = PInt (int (length ops))
      in if errors \<noteq> [] then
           update_run E run ''failed'' (Some refs) (pl_warnings plan) errors
             (PDict [(''applied'', applied), (''total'', total), (''results'', PList results)]) s2
         else
           update_run E run ''completed'' (Some refs) (pl_warnings plan) []
             (PDict [(''applied'', applied),
                (''noop'', PInt (int (length (filter (\<lambda>p. po_action p = ''noop'') ops)))),
                (''total'', total),
                (''destructive'', PInt (int (length (filter po_destructive ops)))),
                (''results'', PList results)]) s2)"

definition apply_plan ::
    "ceph_env \<Rightarrow> ceph_plan \<Rightarrow> apply_request \<Rightarrow> 'w ceph_adapter \<Rightarrow> 'w ceph_state \<Rightarrow>
     (apply_error + ceph_run) \<times> 'w ceph_state" where
  "apply_plan E plan r ad s =
     (case completed_run_for_plan (pl_id plan) s of
        Some run \<Rightarrow> (Inr run, s)
      | None \<Rightarrow>
          (case apply_refusal plan r of
             Some (code, status, reason, errors) \<Rightarrow> raise_with_run E plan r code status reason errors s
           | None \<Rightarrow> (let (run, s1) = execute_plan E plan r ad s in (Inr run, s1))))"

definition reconcile_provider ::
    "ceph_env \<Rightarrow> reconcile_request \<Rightarrow> 'w ceph_adapter \<Rightarrow> 'w ceph_state \<Rightarrow> (adapter_exc + ceph_run) \<times> 'w ceph_state" where
  "reconcile_provider E r ad s =
     (case on_world (ad_capabilities ad) s of
        (Inl e, s1) \<Rightarrow> (Inl e, s1)
      | (Inr c, s1) \<Rightarrow>
          (let (run, s2) = create_run E None (cp_provider c) (rq_actor r)
                 (text_or (rq_netbox_branch r) (rq_source_branch r))
                 (PDict [(''scope'', PDict (rq_scope r)), (''operation'', PStr ''reconcile'')])
                 ''running'' (cp_notes c) [] (PDict []) s1
           in case on_world (ad_reconcile ad (rq_scope r)) s2 of
                (Inl e, s3) \<Rightarrow>
                  (let (run', s4) = update_run E run ''failed'' None (cp_notes c) [exc_text e]
                     (PDict [(''operation'', PStr ''reconcile''), (''result'', PStr ''failed'')]) s3
                   in (Inr run', s4))
              | (Inr res, s3) \<Rightarrow>
                  (let (run', s4) = update_run E run ''completed'' None (cp_notes c) [] (redact_secrets (PDict res)) s3
                   in (Inr run', s4))))"


subsection \<open>Routes\<close>

text \<open>\<^verbatim>\<open>POST /plans/{plan_id}/apply\<close>; the outer \<open>None\<close> is the 404 of an unknown plan.\<close>

definition apply_route ::
    "ceph_env \<Rightarrow> string \<Rightarrow> apply_request \<Rightarrow> (string \<Rightarrow> 'w ceph_adapter) \<Rightarrow> 'w ceph_state \<Rightarrow>
     (apply_error + ceph_run) option \<times> 'w ceph_state" where
  "apply_route E i r adapter_for s =
     (case get_plan i s of
        None \<Rightarrow> (None, s)
      | Some plan \<Rightarrow> (let (res, s1) = apply_plan E plan r (adapter_for (pl_provider plan)) s in (Some res, s1)))"

text \<open>
  \<^verbatim>\<open>POST /apply\<close>: a new plan is built from the payload and applied. The dump of the plan request
  is pydantic's, a function of the request.
\<close>

definition compat_plan_request :: "(apply_request \<Rightarrow> pyval) \<Rightarrow> apply_request \<Rightarrow> plan_request" where
  "compat_plan_request dump r =
     \<lparr>pq_provider = aq_provider r,
      pq_desired = (case aq_desired r of Some b \<Rightarrow> b | None \<Rightarrow> \<lparr>db_objects = [], db_scope = []\<rparr>),
      pq_operations = aq_operations r, pq_scope = aq_scope r, pq_actor = aq_actor r,
      pq_netbox_branch = aq_netbox_branch r, pq_source_branch = aq_source_branch r,
      pq_dump = dump (r\<lparr>aq_plan_id := None, aq_confirm_destructive := False, aq_confirmation_token := None\<rparr>)\<rparr>"

definition apply_compat ::
    "ceph_env \<Rightarrow> (apply_request \<Rightarrow> pyval) \<Rightarrow> apply_request \<Rightarrow> (string \<Rightarrow> 'w ceph_adapter) \<Rightarrow> 'w ceph_state \<Rightarrow>
     (adapter_exc + (apply_error + ceph_run)) \<times> 'w ceph_state" where
  "apply_compat E dump r adapter_for s =
     (case build_and_remember E (compat_plan_request dump r) (adapter_for (aq_provider r)) s of
        (Inl e, s1) \<Rightarrow> (Inl e, s1)
      | (Inr plan, s1) \<Rightarrow>
          (let r1 = (if aq_plan_id r = None then r\<lparr>aq_plan_id := Some (pl_id plan)\<rparr> else r);
               (res, s2) = apply_plan E plan r1 (adapter_for (pl_provider plan)) s1
           in (Inr res, s2)))"

text \<open>One request to the control plane, with any payload and any adapters.\<close>

inductive ceph_step :: "ceph_env \<Rightarrow> 'w ceph_state \<Rightarrow> 'w ceph_state \<Rightarrow> bool" for E where
  make: "build_and_remember E r ad s = (res, s') \<Longrightarrow> ceph_step E s s'"
| stored: "apply_route E i r adapter_for s = (res, s') \<Longrightarrow> ceph_step E s s'"
| flat: "apply_compat E dump r adapter_for s = (res, s') \<Longrightarrow> ceph_step E s s'"
| reconcile: "reconcile_provider E r ad s = (res, s') \<Longrightarrow> ceph_step E s s'"

definition ceph_start :: "'w \<Rightarrow> 'w ceph_state" where
  "ceph_start w = \<lparr>cs_store = [], cs_order = [], cs_runs = [], cs_world = w, cs_tick = 0, cs_calls = []\<rparr>"


subsection \<open>The invariant of the engine\<close>

definition run_ok :: "ceph_env \<Rightarrow> nat \<Rightarrow> ceph_run \<Rightarrow> bool" where
  "run_ok E n r =
     ((\<exists>k < n. rn_id r = ce_uuid4 E k) \<and> secret_free (rn_request_summary r) \<and>
      secret_free (rn_result_summary r))"

text \<open>What is known of every call of an adapter's \<^verbatim>\<open>apply\<close>.\<close>

definition call_ok :: "string \<times> provider_op \<times> bool \<Rightarrow> bool" where
  "call_ok call =
     (case call of (i, p, confirm) \<Rightarrow>
        po_supported p \<and> po_target_ref p \<noteq> [] \<and> (po_destructive p \<longrightarrow> confirm) \<and>
        (po_action p \<in> set destructive_actions \<longrightarrow> confirm))"

definition plan_typed :: "ceph_plan \<Rightarrow> bool" where
  "plan_typed p = (\<exists>c. plan_ok c p)"

definition ceph_inv :: "ceph_env \<Rightarrow> 'w ceph_state \<Rightarrow> bool" where
  "ceph_inv E s =
     (distinct (map rn_id (cs_runs s)) \<and> list_all (run_ok E (cs_tick s)) (cs_runs s) \<and>
      list_all (\<lambda>(i, p). pl_id p = i \<and> plan_typed p) (cs_store s) \<and> list_all call_ok (cs_calls s))"

definition ids_fresh :: "ceph_env \<Rightarrow> bool" where
  "ids_fresh E = inj (ce_uuid4 E)"

lemma run_ok_mono: "run_ok E n r \<Longrightarrow> n \<le> m \<Longrightarrow> run_ok E m r"
  by (auto simp: run_ok_def intro: less_le_trans)

lemma runs_ok_mono: "list_all (run_ok E n) rs \<Longrightarrow> n \<le> m \<Longrightarrow> list_all (run_ok E m) rs"
  by (auto simp: list_all_iff intro: run_ok_mono)

text \<open>The runs after an operation: those before, and one more with a fresh id.\<close>

definition adds_run :: "ceph_env \<Rightarrow> 'w ceph_state \<Rightarrow> 'w ceph_state \<Rightarrow> ceph_run \<Rightarrow> bool" where
  "adds_run E s s' run =
     (cs_runs s' = cs_runs s @ [run] \<and> cs_tick s < cs_tick s' \<and> rn_id run = ce_uuid4 E (cs_tick s) \<and>
      cs_store s' = cs_store s \<and> cs_order s' = cs_order s \<and>
      secret_free (rn_request_summary run) \<and> secret_free (rn_result_summary run))"

lemma id_fresh:
  assumes "ids_fresh E" "ceph_inv E s"
  shows "ce_uuid4 E (cs_tick s) \<notin> rn_id ` set (cs_runs s)"
proof
  assume "ce_uuid4 E (cs_tick s) \<in> rn_id ` set (cs_runs s)"
  then obtain x k where "x \<in> set (cs_runs s)" "rn_id x = ce_uuid4 E (cs_tick s)" "rn_id x = ce_uuid4 E k"
    "k < cs_tick s"
    using assms(2) by (force simp: ceph_inv_def list_all_iff run_ok_def)
  with assms(1) show False by (simp add: ids_fresh_def inj_eq)
qed

lemma adds_run_inv:
  assumes "ids_fresh E" "ceph_inv E s" "adds_run E s s' run" "list_all call_ok (cs_calls s')"
  shows "ceph_inv E s'"
proof -
  have "run_ok E (cs_tick s') run" using assms(3) by (auto simp: adds_run_def run_ok_def)
  moreover have "list_all (run_ok E (cs_tick s')) (cs_runs s)"
  proof (rule runs_ok_mono)
    show "list_all (run_ok E (cs_tick s)) (cs_runs s)" using assms(2) by (simp add: ceph_inv_def)
    show "cs_tick s \<le> cs_tick s'" using assms(3) by (simp add: adds_run_def)
  qed
  ultimately have "list_all (run_ok E (cs_tick s')) (cs_runs s')" using assms(3) by (simp add: adds_run_def)
  moreover have "distinct (map rn_id (cs_runs s'))"
    using assms(2,3) id_fresh [OF assms(1,2)] by (simp add: adds_run_def ceph_inv_def)
  moreover have "cs_store s' = cs_store s" using assms(3) by (simp add: adds_run_def)
  ultimately show ?thesis using assms(2,4) by (simp add: ceph_inv_def)
qed

lemma update_last_run:
  "rn_id run \<notin> rn_id ` set rs \<Longrightarrow>
     map (\<lambda>x. if rn_id x = rn_id run then run' else x) (rs @ [run]) = rs @ [run']"
  by (auto simp: image_iff intro!: map_idI)

lemma call_applyD:
  "call_apply ad i p confirm s = (x, s') \<Longrightarrow> cs_runs s' = cs_runs s \<and> cs_tick s' = cs_tick s \<and>
   cs_calls s' = cs_calls s @ [(i, p, confirm)] \<and> cs_store s' = cs_store s \<and> cs_order s' = cs_order s"
  by (auto simp: call_apply_def dest!: on_worldD)

text \<open>The loop calls the adapter for a prefix of the operations, in order, and for all of them without an error.\<close>

lemma apply_operations_calls:
  "apply_operations ad i confirm ps s = ((refs, results, errors), s') \<Longrightarrow>
   cs_runs s' = cs_runs s \<and> cs_tick s' = cs_tick s \<and> cs_store s' = cs_store s \<and> cs_order s' = cs_order s \<and>
   length errors \<le> 1 \<and> length results + length errors \<le> length ps \<and>
   cs_calls s' = cs_calls s @ map (\<lambda>p. (i, p, confirm)) (take (length results + length errors) ps) \<and>
   (errors = [] \<longrightarrow> length results = length ps) \<and> list_all secret_free results"
proof (induction ps arbitrary: s s' refs results errors)
  case Nil
  then show ?case by simp
next
  case (Cons p ps)
  obtain x s1 where c: "call_apply ad i p confirm s = (x, s1)" by fastforce
  show ?case
  proof (cases x)
    case (Inl e)
    with Cons.prems c call_applyD [OF c] show ?thesis by auto
  next
    case (Inr res)
    obtain refs1 results1 errors1 s2 where r: "apply_operations ad i confirm ps s1 = ((refs1, results1, errors1), s2)"
      by (metis prod_cases3 surj_pair)
    from Cons.prems c Inr r have "results = redact_secrets (PDict res) # results1" "errors = errors1" "s' = s2"
      by (auto simp: Let_def)
    with Cons.IH [OF r] call_applyD [OF c] show ?thesis by (auto simp del: redact_secrets.simps)
  qed
qed

lemma create_runE:
  assumes "create_run E plan provider actor branch summary status warnings errors result s = (run, s')"
    "secret_free result"
  shows "adds_run E s s' run \<and> rn_plan_id run = map_option pl_id plan \<and> rn_status run = status \<and>
    rn_result_summary run = result \<and> cs_calls s' = cs_calls s \<and> cs_world s' = cs_world s"
  using assms by (auto simp: create_run_def adds_run_def Let_def)

lemma plain_keys [simp]:
  "\<not> secret_key ''reason''" "\<not> secret_key ''applied''" "\<not> secret_key ''total''"
  by code_simp+

lemma refusal_summary_free: "secret_free (PDict [(''reason'', PStr reason), (''applied'', PInt a), (''total'', PInt b)])"
  by simp

lemma raise_with_runE:
  assumes "raise_with_run E plan r code status reason errors s = (x, s')"
  obtains err run where "x = Inl err" "ap_status err = code" "adds_run E s s' run" "rn_status run = status"
    "cs_calls s' = cs_calls s"
proof -
  obtain run s1 where c: "create_run E (Some plan) (pl_provider plan) (aq_actor r) (apply_branch r plan)
      (PDict [(''plan_id'', PStr (pl_id plan)), (''reason'', PStr reason),
              (''operations'', PList (map op_dump (pl_operations plan)))])
      status (pl_warnings plan) errors
      (PDict [(''reason'', PStr reason), (''applied'', PInt 0),
              (''total'', PInt (int (length (pl_operations plan))))]) s = (run, s1)"
    by fastforce
  from create_runE [OF c refusal_summary_free] c assms that show thesis
    by (fastforce simp: raise_with_run_def Let_def)
qed

lemma update_runE:
  assumes "update_run E run status refs warnings errors result s = (run', s')"
    and "cs_runs s = rs @ [run]" "rn_id run \<notin> rn_id ` set rs"
  shows "cs_runs s' = rs @ [run'] \<and> rn_id run' = rn_id run \<and> rn_status run' = status \<and>
    rn_plan_id run' = rn_plan_id run \<and> cs_tick s' = Suc (cs_tick s) \<and> cs_calls s' = cs_calls s \<and>
    cs_store s' = cs_store s \<and> cs_order s' = cs_order s \<and>
    rn_request_summary run' = rn_request_summary run \<and> secret_free (rn_result_summary run')"
  using assms update_last_run [OF assms(3)] by (auto simp: update_run_def Let_def simp del: map_append)

lemma execute_planE:
  assumes "execute_plan E plan r ad s = (run, s')" "ids_fresh E" "ceph_inv E s"
  obtains n where "adds_run E s s' run" "rn_plan_id run = Some (pl_id plan)"
    "rn_status run = ''completed'' \<or> rn_status run = ''failed''"
    "n \<le> length (pl_operations plan)"
    "rn_status run = ''completed'' \<longrightarrow> n = length (pl_operations plan)"
    "cs_calls s' = cs_calls s @
       map (\<lambda>p. (pl_id plan, p, confirmation_satisfied plan r)) (take n (pl_operations plan))"
proof -
  let ?ops = "pl_operations plan"
  obtain run1 s1 where c: "create_run E (Some plan) (pl_provider plan) (aq_actor r) (apply_branch r plan)
      (PDict [(''plan_id'', PStr (pl_id plan)), (''operations'', PList (map op_dump ?ops))])
      ''running'' (pl_warnings plan) [] (PDict []) s = (run1, s1)" by fastforce
  have a1: "adds_run E s s1 run1" "rn_plan_id run1 = Some (pl_id plan)" "cs_calls s1 = cs_calls s"
    using create_runE [OF c] by auto
  obtain refs results errors s2 where o: "apply_operations ad (pl_id plan) (confirmation_satisfied plan r) ?ops s1
      = ((refs, results, errors), s2)" by (metis prod_cases3 surj_pair)
  note o' = apply_operations_calls [OF o]
  define status where "status = (if errors \<noteq> [] then ''failed'' else ''completed'')"
  obtain summary errs where u: "update_run E run1 status (Some refs) (pl_warnings plan) errs summary s2 = (run, s')"
    using assms(1) c o unfolding execute_plan_def status_def Let_def
    by (cases "errors = []") auto
  have runs: "cs_runs s2 = cs_runs s @ [run1]" using a1(1) o' by (simp add: adds_run_def)
  have fresh: "rn_id run1 \<notin> rn_id ` set (cs_runs s)"
    using id_fresh [OF assms(2,3)] a1(1) by (simp add: adds_run_def)
  note u' = update_runE [OF u runs fresh]
  show thesis
  proof (rule that [of "length results + length errors"])
    show "adds_run E s s' run" using a1 o' u' by (auto simp: adds_run_def)
    show "rn_plan_id run = Some (pl_id plan)" using a1 u' by simp
    show "rn_status run = ''completed'' \<or> rn_status run = ''failed''" using u' by (simp add: status_def)
    show "length results + length errors \<le> length ?ops" using o' by simp
    show "rn_status run = ''completed'' \<longrightarrow> length results + length errors = length ?ops"
      using u' o' by (auto simp: status_def split: if_splits)
    show "cs_calls s' = cs_calls s @ map (\<lambda>p. (pl_id plan, p, confirmation_satisfied plan r))
        (take (length results + length errors) ?ops)"
      using a1 o' u' by simp
  qed
qed


lemma trim_store_subset: "set (snd (trim_store order store)) \<subseteq> set store"
proof (induction order arbitrary: store)
  case (Cons i order)
  have "set (dict_pop i store) \<subseteq> set store" by (auto simp: AList.delete_eq)
  with Cons.IH [of "dict_pop i store"] show ?case by auto
qed simp

lemma set_dict_set_subset: "set (dict_set k v d) \<subseteq> insert (k, v) (set d)"
  by (induction d) auto

lemma remember_store_subset: "set (cs_store (remember_plan p s)) \<subseteq> insert (pl_id p, p) (set (cs_store s))"
  using trim_store_subset [of "cs_order s @ [pl_id p]" "dict_set (pl_id p) p (cs_store s)"]
    set_dict_set_subset [of "pl_id p" p "cs_store s"]
  by (auto simp: remember_plan_def Let_def split: prod.split)

lemma ceph_inv_transfer:
  assumes "ceph_inv E s" "cs_runs s' = cs_runs s" "cs_tick s \<le> cs_tick s'"
    "set (cs_store s') \<subseteq> insert (pl_id p, p) (set (cs_store s))" "plan_typed p" "cs_calls s' = cs_calls s"
  shows "ceph_inv E s'"
proof -
  have "list_all (run_ok E (cs_tick s')) (cs_runs s')"
    using assms(1,2) runs_ok_mono [OF _ assms(3)] by (simp add: ceph_inv_def)
  with assms show ?thesis by (fastforce simp: ceph_inv_def list_all_iff)
qed

lemma ceph_inv_same:
  assumes "ceph_inv E s" "cs_runs s' = cs_runs s" "cs_tick s' = cs_tick s" "cs_store s' = cs_store s"
    "cs_calls s' = cs_calls s"
  shows "ceph_inv E s'"
  using assms by (simp add: ceph_inv_def)

lemma build_plan_inv:
  assumes "build_plan E r ad snap s = (x, s')" "ceph_inv E s"
  shows "ceph_inv E s' \<and> cs_runs s' = cs_runs s \<and> cs_calls s' = cs_calls s \<and>
    (\<forall>plan. x = Inr plan \<longrightarrow> plan_typed plan)"
proof (cases x)
  case (Inl e)
  with assms build_plan_error [of E r ad snap s e s'] ceph_inv_same [OF assms(2), of s'] show ?thesis by simp
next
  case (Inr plan)
  from build_planE [OF assms(1) [unfolded Inr]] obtain c s2 vs ws ops live where
    p: "plan = make_plan E r c snap vs ws ops live (cs_tick s)" and
    f: "cs_runs s2 = cs_runs s" "cs_calls s2 = cs_calls s" "cs_store s2 = cs_store s" and
    s': "s' = remember_plan plan (s2\<lparr>cs_tick := Suc (cs_tick s)\<rparr>)" by metis
  have typed: "plan_typed plan" unfolding p plan_typed_def by (rule exI, rule make_plan_ok)
  have "ceph_inv E s'"
    by (rule ceph_inv_transfer [OF assms(2) _ _ _ typed])
      (use remember_store_subset [of plan "s2\<lparr>cs_tick := Suc (cs_tick s)\<rparr>"] in \<open>auto simp: s' f\<close>)
  with typed Inr show ?thesis by (simp add: s' f)
qed

lemma build_and_remember_inv:
  assumes "build_and_remember E r ad s = (x, s')" "ceph_inv E s"
  shows "ceph_inv E s' \<and> cs_runs s' = cs_runs s \<and> cs_calls s' = cs_calls s \<and>
    (\<forall>plan. x = Inr plan \<longrightarrow> plan_typed plan)"
proof -
  obtain y s1 where b: "build_plan E r ad None s = (y, s1)" by fastforce
  note i = build_plan_inv [OF b assms(2)]
  show ?thesis
  proof (cases y)
    case (Inl e)
    with assms b i show ?thesis by (simp add: build_and_remember_def)
  next
    case (Inr plan)
    with assms b have s': "s' = remember_plan plan s1" "x = Inr plan" by (simp_all add: build_and_remember_def)
    have "ceph_inv E s'"
      by (rule ceph_inv_transfer [of E s1 s' plan]) (use i Inr remember_store_subset [of plan s1] s' in auto)
    with i Inr s' show ?thesis by simp
  qed
qed

text \<open>Everything a request to apply can do to the state, and what it answers.\<close>

lemma apply_planE:
  assumes "apply_plan E plan r ad s = (x, s')" "ids_fresh E" "ceph_inv E s"
  obtains (replay) run where "completed_run_for_plan (pl_id plan) s = Some run" "x = Inr run" "s' = s"
  | (refused) code status reason errors err run where "completed_run_for_plan (pl_id plan) s = None"
      "apply_refusal plan r = Some (code, status, reason, errors)" "x = Inl err" "ap_status err = code"
      "adds_run E s s' run" "rn_status run = status" "cs_calls s' = cs_calls s"
  | (executed) run n where "completed_run_for_plan (pl_id plan) s = None" "apply_refusal plan r = None"
      "x = Inr run" "adds_run E s s' run" "rn_plan_id run = Some (pl_id plan)"
      "rn_status run = ''completed'' \<or> rn_status run = ''failed''"
      "n \<le> length (pl_operations plan)"
      "rn_status run = ''completed'' \<longrightarrow> n = length (pl_operations plan)"
      "cs_calls s' = cs_calls s @
         map (\<lambda>p. (pl_id plan, p, confirmation_satisfied plan r)) (take n (pl_operations plan))"
proof (cases "completed_run_for_plan (pl_id plan) s")
  case (Some run)
  with assms(1) have "x = Inr run" "s' = s" by (simp_all add: apply_plan_def)
  with Some show thesis by (rule replay)
next
  case None
  show thesis
  proof (cases "apply_refusal plan r")
    case (Some f)
    obtain code status reason errors where f: "f = (code, status, reason, errors)" by (metis prod_cases4)
    with assms(1) None Some have "raise_with_run E plan r code status reason errors s = (x, s')"
      by (simp add: apply_plan_def)
    then obtain err run where "x = Inl err" "ap_status err = code" "adds_run E s s' run"
      "rn_status run = status" "cs_calls s' = cs_calls s" by (rule raise_with_runE)
    with None Some f show thesis by (intro refused) simp_all
  next
    assume nf: "apply_refusal plan r = None"
    obtain run s1 where e: "execute_plan E plan r ad s = (run, s1)" by fastforce
    with assms(1) None nf have "x = Inr run" "s' = s1" by (simp_all add: apply_plan_def)
    with e have "execute_plan E plan r ad s = (run, s')" by simp
    then obtain n where "adds_run E s s' run" "rn_plan_id run = Some (pl_id plan)"
      "rn_status run = ''completed'' \<or> rn_status run = ''failed''" "n \<le> length (pl_operations plan)"
      "rn_status run = ''completed'' \<longrightarrow> n = length (pl_operations plan)"
      "cs_calls s' = cs_calls s @
         map (\<lambda>p. (pl_id plan, p, confirmation_satisfied plan r)) (take n (pl_operations plan))"
      using assms(2,3) by (rule execute_planE) blast
    with \<open>x = Inr run\<close> None nf show thesis by (intro executed) simp_all
  qed
qed

lemma no_refusalD:
  assumes "apply_refusal plan r = None"
  shows "\<not> has_errors (pl_validations plan)" "list_all po_supported (pl_operations plan)"
    "list_ex po_destructive (pl_operations plan) \<longrightarrow> confirmation_satisfied plan r"
  using assms
  by (auto simp: apply_refusal_def has_errors_def filter_empty_conv list_all_iff list_ex_iff Let_def
      split: if_splits)

lemma planned_calls_ok:
  assumes "plan_typed plan" "apply_refusal plan r = None"
  shows "list_all call_ok (map (\<lambda>p. (pl_id plan, p, confirmation_satisfied plan r)) (take n (pl_operations plan)))"
proof -
  from assms(1) obtain c where ok: "list_all (planned_op_ok c) (pl_operations plan)"
    by (auto simp: plan_typed_def plan_ok_def)
  have "call_ok (pl_id plan, p, confirmation_satisfied plan r)" if "p \<in> set (pl_operations plan)" for p
    using that ok no_refusalD [OF assms(2)]
    by (auto simp: call_ok_def planned_op_ok_def list_all_iff list_ex_iff)
  then show ?thesis by (auto simp: list_all_iff dest: in_set_takeD)
qed

lemma apply_plan_inv:
  assumes "apply_plan E plan r ad s = (x, s')" "ids_fresh E" "ceph_inv E s" "plan_typed plan"
  shows "ceph_inv E s' \<and> prefix (cs_runs s) (cs_runs s')"
proof (cases rule: apply_planE [OF assms(1-3), case_names replay refused executed])
  case replay
  with assms show ?thesis by simp
next
  case (refused code status reason errors err run)
  then have "list_all call_ok (cs_calls s')" using assms(3) by (simp add: ceph_inv_def)
  with adds_run_inv [OF assms(2,3) refused(5)] refused(5) show ?thesis by (auto simp: adds_run_def)
next
  case (executed run n)
  then have "list_all call_ok (cs_calls s')"
    using assms(3) planned_calls_ok [OF assms(4) executed(2)] by (simp add: ceph_inv_def)
  with adds_run_inv [OF assms(2,3) executed(4)] executed(4) show ?thesis by (auto simp: adds_run_def)
qed

lemma reconcile_provider_inv:
  assumes "reconcile_provider E r ad s = (x, s')" "ids_fresh E" "ceph_inv E s"
  shows "ceph_inv E s' \<and> prefix (cs_runs s) (cs_runs s') \<and> cs_calls s' = cs_calls s"
proof -
  obtain y s1 where cap: "on_world (ad_capabilities ad) s = (y, s1)" by fastforce
  note f1 = on_worldD [OF cap]
  have i1: "ceph_inv E s1" by (rule ceph_inv_same [OF assms(3)]) (use f1 in simp_all)
  show ?thesis
  proof (cases y)
    case (Inl e)
    with assms(1) cap f1 i1 show ?thesis by (simp add: reconcile_provider_def)
  next
    case (Inr c)
    obtain run s2 where cr: "create_run E None (cp_provider c) (rq_actor r)
        (text_or (rq_netbox_branch r) (rq_source_branch r))
        (PDict [(''scope'', PDict (rq_scope r)), (''operation'', PStr ''reconcile'')])
        ''running'' (cp_notes c) [] (PDict []) s1 = (run, s2)" by fastforce
    have a: "adds_run E s1 s2 run" "cs_calls s2 = cs_calls s1" using create_runE [OF cr] by auto
    obtain z s3 where rc: "on_world (ad_reconcile ad (rq_scope r)) s2 = (z, s3)" by fastforce
    note f3 = on_worldD [OF rc]
    obtain status errs summary run' where u:
      "update_run E run status None (cp_notes c) errs summary s3 = (run', s')"
      using assms(1) cap Inr cr rc by (cases z) (auto simp: reconcile_provider_def Let_def split: prod.splits)
    have runs: "cs_runs s3 = cs_runs s1 @ [run]" using a f3 by (simp add: adds_run_def)
    have "rn_id run \<notin> rn_id ` set (cs_runs s1)"
      using id_fresh [OF assms(2) i1] a by (simp add: adds_run_def)
    note u' = update_runE [OF u runs this]
    have "adds_run E s1 s' run'" using a f3 u' by (auto simp: adds_run_def)
    moreover have "list_all call_ok (cs_calls s')" using assms(3) f1 f3 a u' by (simp add: ceph_inv_def)
    ultimately have "ceph_inv E s'" by (rule adds_run_inv [OF assms(2) i1])
    with f1 f3 a u' show ?thesis by (auto simp: adds_run_def)
  qed
qed

lemma ceph_step_inv:
  assumes "ceph_step E s s'" "ids_fresh E" "ceph_inv E s"
  shows "ceph_inv E s' \<and> prefix (cs_runs s) (cs_runs s')"
  using assms(1)
proof cases
  case (make r ad res)
  then show ?thesis using build_and_remember_inv [OF _ assms(3)] by (metis prefix_order.refl)
next
  case (stored i r adapter_for res)
  show ?thesis
  proof (cases "get_plan i s")
    case None
    with stored assms show ?thesis by (simp add: apply_route_def)
  next
    case (Some plan)
    with stored obtain y where "apply_plan E plan r (adapter_for (pl_provider plan)) s = (y, s')"
      by (auto simp: apply_route_def Let_def split: prod.splits)
    moreover have "plan_typed plan"
      using Some assms(3) by (auto simp: get_plan_def ceph_inv_def list_all_iff dest: map_of_SomeD)
    ultimately show ?thesis by (rule apply_plan_inv [OF _ assms(2,3)])
  qed
next
  case (flat dump r adapter_for res)
  obtain y s1 where b: "build_and_remember E (compat_plan_request dump r) (adapter_for (aq_provider r)) s = (y, s1)"
    by fastforce
  note i = build_and_remember_inv [OF b assms(3)]
  show ?thesis
  proof (cases y)
    case (Inl e)
    with flat b i show ?thesis by (simp add: apply_compat_def)
  next
    case (Inr plan)
    obtain r1 z s2 where a: "apply_plan E plan r1 (adapter_for (pl_provider plan)) s1 = (z, s2)" "s' = s2"
      using flat b Inr by (simp add: apply_compat_def Let_def split: prod.splits)
    have "x = Inr plan \<Longrightarrow> plan_typed plan" for x using Inr i by simp
    with apply_plan_inv [OF a(1) assms(2)] i a(2) Inr show ?thesis by simp
  qed
next
  case (reconcile r ad res)
  from reconcile_provider_inv [OF this assms(2,3)] show ?thesis by simp
qed

lemma ceph_steps_inv:
  assumes "(ceph_step E)\<^sup>*\<^sup>* s s'" "ids_fresh E" "ceph_inv E s"
  shows "ceph_inv E s' \<and> prefix (cs_runs s) (cs_runs s')"
  using assms(1)
proof (induction rule: rtranclp_induct)
  case base
  then show ?case using assms(3) by simp
next
  case (step y z)
  then show ?case using ceph_step_inv [OF step.hyps(2) assms(2)] by (meson prefix_order.trans)
qed

lemma ceph_start_inv [simp]: "ceph_inv E (ceph_start w)"
  by (simp add: ceph_inv_def ceph_start_def)

end
