(* ===== verification/Ceph_Safety.thy ===== *)
theory Ceph_Safety
  imports Ceph_Apply
begin

text \<open>
  What the Ceph control plane guarantees: which calls reach an adapter, that a completed plan is not
  applied again, what is stored of a request, and how long a plan can be found.
\<close>

subsection \<open>Calls of the adapter\<close>




subsection \<open>Completed plans\<close>

lemma completed_run_for_planI:
  assumes "run \<in> set (cs_runs s)" "rn_plan_id run = Some i" "rn_status run = ''completed''"
  shows "\<exists>r0 \<in> set (cs_runs s). rn_plan_id r0 = Some i \<and> rn_status r0 = ''completed'' \<and>
    completed_run_for_plan i s = Some (r0\<lparr>rn_result_summary := mark_replay (rn_result_summary r0)\<rparr>)"
proof -
  let ?l = "sort_key (\<lambda>r. - rn_created_at r)
      (filter (\<lambda>r. rn_plan_id r = Some i \<and> rn_status r = ''completed'') (cs_runs s))"
  have "run \<in> set ?l" using assms by simp
  then obtain y ys where y: "?l = y # ys" by (cases ?l) auto
  then have "y \<in> set ?l" by simp
  then have "y \<in> set (cs_runs s)" "rn_plan_id y = Some i" "rn_status y = ''completed''" by auto
  with y show ?thesis by (intro bexI [of _ y]) (simp_all add: completed_run_for_plan_def)
qed

lemma completed_run_for_planD:
  assumes "completed_run_for_plan i s = Some run"
  shows "\<exists>r0 \<in> set (cs_runs s). rn_plan_id r0 = Some i \<and> rn_status r0 = ''completed''"
proof -
  let ?l = "sort_key (\<lambda>r. - rn_created_at r)
      (filter (\<lambda>r. rn_plan_id r = Some i \<and> rn_status r = ''completed'') (cs_runs s))"
  from assms obtain y ys where y: "?l = y # ys"
    by (auto simp: completed_run_for_plan_def split: list.splits)
  then have "y \<in> set ?l" by simp
  then show ?thesis by auto
qed

text \<open>
  \<^bold>\<open>C35.\<close> Once an application of a plan has completed, no later request to apply that plan calls an
  adapter or changes anything, whatever was requested in between: it answers with a completed run of
  the plan, marked as a replay.
\<close>

theorem ceph_completed_plan_not_reapplied:
  assumes "ids_fresh E" and "(ceph_step E)\<^sup>*\<^sup>* (ceph_start w) s"
    and "apply_plan E plan r ad s = (Inr run, s1)" and "rn_status run = ''completed''" and "plan_typed plan"
    and "(ceph_step E)\<^sup>*\<^sup>* s1 s2"
    and "apply_plan E plan' r' ad' s2 = (x, s3)" and "pl_id plan' = pl_id plan"
  shows "s3 = s2 \<and> (\<exists>r0. r0 \<in> set (cs_runs s2) \<and> rn_plan_id r0 = Some (pl_id plan) \<and>
    rn_status r0 = ''completed'' \<and> x = Inr (r0\<lparr>rn_result_summary := mark_replay (rn_result_summary r0)\<rparr>))"
proof -
  have inv: "ceph_inv E s" using ceph_steps_inv [OF assms(2,1) ceph_start_inv] by simp
  have "\<exists>r0 \<in> set (cs_runs s1). rn_plan_id r0 = Some (pl_id plan) \<and> rn_status r0 = ''completed''"
  proof (cases rule: apply_planE [OF assms(3,1) inv, case_names replay refused executed])
    case (replay run')
    then show ?thesis using completed_run_for_planD by metis
  next
    case (executed run' n)
    with assms(4) show ?thesis by (auto simp: adds_run_def)
  qed simp
  then obtain r0 where r0: "r0 \<in> set (cs_runs s1)" "rn_plan_id r0 = Some (pl_id plan)" "rn_status r0 = ''completed''"
    by blast
  have "ceph_inv E s1" using apply_plan_inv [OF assms(3,1) inv assms(5)] by simp
  then have "prefix (cs_runs s1) (cs_runs s2)" using ceph_steps_inv [OF assms(6,1)] by simp
  with r0 have "r0 \<in> set (cs_runs s2)" by (meson set_mono_prefix subsetD)
  from completed_run_for_planI [OF this r0(2,3)] assms(7,8) show ?thesis by (auto simp: apply_plan_def)
qed

definition always_applies :: "'w ceph_adapter \<Rightarrow> bool" where
  "always_applies ad = (\<forall>p c w. isl (fst (ad_apply ad p c w)) = False)"

lemma apply_operations_succeed:
  "always_applies ad \<Longrightarrow> snd (snd (fst (apply_operations ad i c ps t))) = []"
proof (induction ps arbitrary: t)
  case (Cons p ps)
  obtain x t1 where a: "call_apply ad i p c t = (x, t1)" by fastforce
  then have "x = fst (ad_apply ad p c (cs_world t))"
    by (auto simp: call_apply_def on_world_def split: prod.splits)
  with Cons.prems have "\<not> isl x" by (simp add: always_applies_def)
  then obtain res where "x = Inr res" by (cases x) auto
  with a Cons.IH [OF Cons.prems, of t1] show ?case by (auto simp: Let_def split: prod.splits)
qed simp

lemma execute_plan_completes:
  assumes "always_applies ad" "execute_plan E plan r ad t = (run, t')"
  shows "rn_status run = ''completed''"
proof -
  obtain run1 t1 where c: "create_run E (Some plan) (pl_provider plan) (aq_actor r) (apply_branch r plan)
      (PDict [(''plan_id'', PStr (pl_id plan)), (''operations'', PList (map op_dump (pl_operations plan)))])
      ''running'' (pl_warnings plan) [] (PDict []) t = (run1, t1)" by fastforce
  obtain refs results errors t2 where o': "apply_operations ad (pl_id plan) (confirmation_satisfied plan r)
      (pl_operations plan) t1 = ((refs, results, errors), t2)" by (metis prod_cases3 surj_pair)
  then have "errors = []"
    using apply_operations_succeed [OF assms(1), of "pl_id plan" "confirmation_satisfied plan r" "pl_operations plan" t1]
    by simp
  with assms(2) c o' show ?thesis by (auto simp: execute_plan_def update_run_def Let_def)
qed

text \<open>
  This speaks of requests one after the other. Two that both looked for a completed run before either
  had executed apply every operation twice; nothing between the check and the execution holds them apart.
\<close>

lemma overlapping_applies_run_twice:
  assumes "always_applies ad"
    and "execute_plan E plan r ad s = (run1, s1)" and "execute_plan E plan r ad s1 = (run2, s2)"
    and "ids_fresh E" and "ceph_inv E s" and "ceph_inv E s1"
  shows "cs_calls s2 = cs_calls s @
    map (\<lambda>p. (pl_id plan, p, confirmation_satisfied plan r)) (pl_operations plan @ pl_operations plan)"
proof -
  from execute_planE [OF assms(2,4,5)] execute_plan_completes [OF assms(1,2)]
  have a: "cs_calls s1 = cs_calls s @
      map (\<lambda>p. (pl_id plan, p, confirmation_satisfied plan r)) (pl_operations plan)" by (metis take_all_iff order_refl)
  from execute_planE [OF assms(3,4,6)] execute_plan_completes [OF assms(1,3)]
  have b: "cs_calls s2 = cs_calls s1 @
      map (\<lambda>p. (pl_id plan, p, confirmation_satisfied plan r)) (pl_operations plan)" by (metis take_all_iff order_refl)
  from a b show ?thesis by simp
qed

text \<open>The flat path plans anew and never looks at the plan it was asked to apply.\<close>

lemma flat_apply_ignores_plan_id:
  "apply_compat E dump (r\<lparr>aq_plan_id := i\<rparr>) adapter_for s = apply_compat E dump (r\<lparr>aq_plan_id := j\<rparr>) adapter_for s"
proof -
  have conf: "confirmation_satisfied plan (r\<lparr>aq_plan_id := i\<rparr>) = confirmation_satisfied plan r"
    for plan i and r :: apply_request by (simp add: confirmation_satisfied_def)
  have refusal: "apply_refusal plan (r\<lparr>aq_plan_id := i\<rparr>) = apply_refusal plan r" for plan i and r :: apply_request
    unfolding apply_refusal_def conf ..
  have exec: "execute_plan E plan (r\<lparr>aq_plan_id := i\<rparr>) ad s = execute_plan E plan r ad s"
    for plan i ad s and r :: apply_request
    by (simp add: execute_plan_def conf apply_branch_def)
  have raise: "raise_with_run E plan (r\<lparr>aq_plan_id := i\<rparr>) c st re er s = raise_with_run E plan r c st re er s"
    for plan i c st re er s and r :: apply_request
    by (simp add: raise_with_run_def apply_branch_def)
  have ap: "apply_plan E plan (r\<lparr>aq_plan_id := i\<rparr>) ad s = apply_plan E plan r ad s"
    for plan i ad s and r :: apply_request
    unfolding apply_plan_def refusal exec raise ..
  have "apply_compat E dump (r\<lparr>aq_plan_id := i\<rparr>) adapter_for s =
      (case build_and_remember E (compat_plan_request dump r) (adapter_for (aq_provider r)) s of
         (Inl e, s1) \<Rightarrow> (Inl e, s1)
       | (Inr plan, s1) \<Rightarrow> map_prod Inr id (apply_plan E plan r (adapter_for (pl_provider plan)) s1))" for i
    by (auto simp: apply_compat_def compat_plan_request_def ap Let_def split: sum.split prod.split)
  then show ?thesis by simp
qed


subsection \<open>How long a plan is found\<close>

text \<open>\<^verbatim>\<open>build_plan\<close> remembers a plan and the route remembers it again.\<close>

definition remember_built :: "ceph_plan \<Rightarrow> 'w ceph_state \<Rightarrow> 'w ceph_state" where
  "remember_built p s = remember_plan p (remember_plan p s)"

lemma build_and_remember_stores:
  assumes "build_and_remember E r ad s = (Inr plan, s')"
  shows "\<exists>s2. cs_store s2 = cs_store s \<and> cs_order s2 = cs_order s \<and> s' = remember_built plan s2"
proof -
  obtain y s1 where b: "build_plan E r ad None s = (y, s1)" by fastforce
  with assms have y: "y = Inr plan" "s' = remember_plan plan s1"
    by (cases y; simp add: build_and_remember_def)+
  from build_planE [OF b [unfolded y(1)]] obtain s2 where
    "cs_store s2 = cs_store s" "cs_order s2 = cs_order s" "s1 = remember_plan plan (s2\<lparr>cs_tick := Suc (cs_tick s)\<rparr>)"
    by metis
  with y(2) show ?thesis
    by (intro exI [of _ "s2\<lparr>cs_tick := Suc (cs_tick s)\<rparr>"]) (simp add: remember_built_def)
qed


definition newest_plans :: "nat \<Rightarrow> ceph_plan list \<Rightarrow> ceph_plan list" where
  "newest_plans n ps = drop (length ps - n) ps"

definition doubled :: "ceph_plan list \<Rightarrow> string list" where
  "doubled ps = concat (map (\<lambda>p. [pl_id p, pl_id p]) ps)"

definition plan_pairs :: "ceph_plan list \<Rightarrow> (string, ceph_plan) pydict" where
  "plan_pairs ps = map (\<lambda>p. (pl_id p, p)) ps"

lemma length_doubled [simp]: "length (doubled ps) = 2 * length ps"
  by (induction ps) (simp_all add: doubled_def)

lemma trim_store_short: "length order \<le> plan_store_limit \<Longrightarrow> trim_store order store = (order, store)"
  by (cases order) auto

lemma dict_set_new: "k \<notin> fst ` set d \<Longrightarrow> dict_set k v d = d @ [(k, v)]"
  by (induction d) auto

lemma dict_set_last: "k \<notin> fst ` set d \<Longrightarrow> dict_set k v (d @ [(k, v)]) = d @ [(k, v)]"
  by (induction d) auto

lemma dict_pop_absent: "k \<notin> fst ` set d \<Longrightarrow> dict_pop k d = d"
  by simp

text \<open>The state of the store: the plans it holds, each twice in the order of eviction.\<close>

definition store_holds :: "ceph_plan list \<Rightarrow> 'w ceph_state \<Rightarrow> bool" where
  "store_holds ps s = (cs_order s = doubled ps \<and> cs_store s = plan_pairs ps)"

lemma fst_plan_pairs [simp]: "fst ` set (plan_pairs ps) = pl_id ` set ps"
  by (force simp: plan_pairs_def)

lemma remember_built_holds:
  assumes "store_holds ps s" "distinct (map pl_id (ps @ [p]))" "length ps \<le> 256"
  shows "store_holds (newest_plans 256 (ps @ [p])) (remember_built p s)"
proof -
  have new: "dict_set (pl_id p) p (plan_pairs ps) = plan_pairs (ps @ [p])"
    using assms(2) dict_set_new [of "pl_id p" "plan_pairs ps"] by (simp add: plan_pairs_def image_image)
  have again: "dict_set (pl_id p) p (plan_pairs (qs @ [p])) = plan_pairs (qs @ [p])" if "pl_id p \<notin> pl_id ` set qs" for qs
    using that dict_set_last [of "pl_id p" "plan_pairs qs" p] by (simp add: plan_pairs_def image_image)
  show ?thesis
  proof (cases "length ps < 256")
    case True
    have "trim_store (doubled ps @ [pl_id p]) (plan_pairs (ps @ [p])) = (doubled ps @ [pl_id p], plan_pairs (ps @ [p]))"
      "trim_store (doubled ps @ [pl_id p, pl_id p]) (plan_pairs (ps @ [p])) = (doubled (ps @ [p]), plan_pairs (ps @ [p]))"
      using True by (simp_all add: trim_store_short plan_store_limit_def doubled_def [of "ps @ [p]"])
        (simp_all add: doubled_def)
    with True assms again [of ps] show ?thesis
      by (simp add: store_holds_def remember_built_def remember_plan_def new newest_plans_def)
  next
    case False
    with assms(3) obtain q qs where ps: "ps = q # qs" and len: "length qs = 255" by (cases ps) auto
    have q: "pl_id q \<noteq> pl_id p" "pl_id q \<notin> pl_id ` set qs" "pl_id p \<notin> pl_id ` set qs"
      using assms(2) by (auto simp: ps)
    have d: "doubled ps = pl_id q # pl_id q # doubled qs" by (simp add: ps doubled_def)
    have pairs: "plan_pairs (ps @ [p]) = (pl_id q, q) # plan_pairs (qs @ [p])" by (simp add: ps plan_pairs_def)
    have popped: "dict_pop (pl_id q) (plan_pairs (ps @ [p])) = plan_pairs (qs @ [p])"
      "dict_pop (pl_id q) (plan_pairs (qs @ [p])) = plan_pairs (qs @ [p])"
      using q by (simp_all add: pairs)
    have t1: "trim_store (doubled ps @ [pl_id p]) (plan_pairs (ps @ [p]))
        = (pl_id q # doubled qs @ [pl_id p], plan_pairs (qs @ [p]))"
      using len by (simp add: d popped plan_store_limit_def trim_store_short)
    have t2: "trim_store (pl_id q # doubled qs @ [pl_id p, pl_id p]) (plan_pairs (qs @ [p]))
        = (doubled (qs @ [p]), plan_pairs (qs @ [p]))"
      using len by (simp add: popped plan_store_limit_def trim_store_short) (simp add: doubled_def)
    have "newest_plans 256 (ps @ [p]) = qs @ [p]" using len by (simp add: newest_plans_def ps)
    with t1 t2 assms(1) again [OF q(3)] show ?thesis
      by (simp add: store_holds_def remember_built_def remember_plan_def new del: trim_store.simps)
  qed
qed

lemma newest_plans_append: "newest_plans n (newest_plans n ps @ [p]) = newest_plans n (ps @ [p])"
proof (cases "length ps \<le> n")
  case False
  then have "Suc (length ps) - n = Suc (length ps - n)" by simp
  with False show ?thesis by (cases n) (simp_all add: newest_plans_def Suc_diff_Suc)
qed (simp add: newest_plans_def)

lemma remember_all_holds:
  "distinct (map pl_id ps) \<Longrightarrow>
     store_holds (newest_plans 256 ps) (fold remember_built ps (ceph_start w))"
proof (induction ps rule: rev_induct)
  case Nil
  then show ?case by (simp add: store_holds_def ceph_start_def newest_plans_def doubled_def plan_pairs_def)
next
  case (snoc p ps)
  have "set (newest_plans 256 ps) \<subseteq> set ps" by (simp add: newest_plans_def set_drop_subset)
  then have "pl_id p \<notin> pl_id ` set (newest_plans 256 ps)" using snoc.prems by auto
  moreover have "distinct (map pl_id (newest_plans 256 ps))"
    using snoc.prems by (simp add: newest_plans_def drop_map [symmetric])
  ultimately have "distinct (map pl_id (newest_plans 256 ps @ [p]))" by simp
  moreover have "length (newest_plans 256 ps) \<le> 256" by (simp add: newest_plans_def)
  ultimately show ?case
    using remember_built_holds [of "newest_plans 256 ps" "fold remember_built ps (ceph_start w)" p] snoc by (simp add: newest_plans_append)
qed

lemma map_of_plan_pairs:
  "distinct (map pl_id ps) \<Longrightarrow> map_of (plan_pairs ps) (pl_id p) = Some p \<longleftrightarrow> p \<in> set ps"
  by (induction ps) (auto simp: plan_pairs_def rev_image_eqI)

text \<open>
  Of the plans built one after the other exactly the last 256 can still be found, half of what
  the limit of the store says, since every plan is entered in the order of eviction twice. An older plan
  is gone: asked to apply it, the service answers that it does not know it.
\<close>

theorem plan_found_while_recent:
  assumes "distinct (map pl_id ps)" and "p \<in> set ps"
  shows "get_plan (pl_id p) (fold remember_built ps (ceph_start w)) =
    (if p \<in> set (drop (length ps - 256) ps) then Some p else None)"
proof -
  let ?qs = "newest_plans 256 ps"
  have st: "cs_store (fold remember_built ps (ceph_start w)) = plan_pairs ?qs"
    using remember_all_holds [OF assms(1), of w] by (simp add: store_holds_def)
  have d: "distinct (map pl_id ?qs)" using assms(1) by (simp add: newest_plans_def drop_map [symmetric])
  show ?thesis
  proof (cases "p \<in> set ?qs")
    case True
    with map_of_plan_pairs [OF d] show ?thesis by (simp add: get_plan_def st newest_plans_def)
  next
    case False
    have "pl_id p \<notin> pl_id ` set ?qs"
    proof
      assume "pl_id p \<in> pl_id ` set ?qs"
      then obtain q where "q \<in> set ?qs" "pl_id q = pl_id p" by force
      moreover from this have "q \<in> set ps" by (auto simp: newest_plans_def dest: in_set_dropD)
      ultimately show False using False assms by (metis distinct_map inj_onD)
    qed
    then have "map_of (plan_pairs ?qs) (pl_id p) = None" by (simp add: map_of_eq_None_iff)
    with False show ?thesis by (simp add: get_plan_def st newest_plans_def)
  qed
qed


subsection \<open>Instances\<close>

definition sample_op :: provider_op where
  "sample_op =
     \<lparr>po_id = None, po_provider = ''proxmox'', po_kind = ''pool'', po_target_ref = ''rbd'', po_action = ''delete'',
      po_destructive = False, po_supported = True, po_blocked_reason = None, po_before = [], po_after = [],
      po_metadata = [], po_extra = []\<rparr>"

definition sample_adapter :: "unit ceph_adapter" where
  "sample_adapter =
     \<lparr>ad_capabilities = Pair (Inr \<lparr>cp_provider = ''proxmox'', cp_supported = True, cp_plan = True,
        cp_apply = True, cp_operation_kinds = [], cp_notes = []\<rparr>),
      ad_read_state = (\<lambda>_. Pair (Inr [])), ad_diff = (\<lambda>_ _. Pair (Inr [])), ad_plan = (\<lambda>ops. Pair (Inr ops)),
      ad_apply = (\<lambda>_ _. Pair (Inr [])), ad_reconcile = (\<lambda>_. Pair (Inr []))\<rparr>"

definition sample_env :: ceph_env where
  "sample_env = \<lparr>ce_uuid4 = nat_str, ce_uuid5 = id, ce_clock = real, ce_snapshot = (\<lambda>_. None)\<rparr>"

definition sample_plan :: ceph_plan where
  "sample_plan = make_plan sample_env
     \<lparr>pq_provider = ''proxmox'', pq_desired = \<lparr>db_objects = [], db_scope = []\<rparr>, pq_operations = [sample_op],
      pq_scope = [], pq_actor = None, pq_netbox_branch = None, pq_source_branch = None,
      pq_dump = PDict [(''token'', PStr ''abc'')]\<rparr>
     \<lparr>cp_provider = ''proxmox'', cp_supported = True, cp_plan = True, cp_apply = True,
      cp_operation_kinds = [], cp_notes = []\<rparr> None [] [] [sample_op] [] 7"

definition sample_apply :: apply_request where
  "sample_apply =
     \<lparr>aq_provider = ''proxmox'', aq_plan_id = None, aq_desired = None, aq_operations = [], aq_scope = [],
      aq_actor = None, aq_netbox_branch = None, aq_source_branch = None, aq_confirm_destructive = True,
      aq_confirmation_token = None\<rparr>"

lemma sample_ids: "ids_fresh sample_env"
  by (simp add: ids_fresh_def sample_env_def inj_def nat_str_inj)

lemma sample_typed: "plan_typed sample_plan"
  unfolding sample_plan_def plan_typed_def by (rule exI, rule make_plan_ok)

lemma sample_completes:
  "\<exists>run s1. apply_plan sample_env sample_plan sample_apply sample_adapter (ceph_start ()) = (Inr run, s1) \<and>
     rn_status run = ''completed''"
proof -
  obtain run s1 where e: "execute_plan sample_env sample_plan sample_apply sample_adapter (ceph_start ()) = (run, s1)"
    by fastforce
  have "always_applies sample_adapter" by (simp add: always_applies_def sample_adapter_def)
  then have "rn_status run = ''completed''" using e by (rule execute_plan_completes)
  moreover have "completed_run_for_plan (pl_id sample_plan) (ceph_start ()) = None"
    by (simp add: completed_run_for_plan_def ceph_start_def)
  moreover have "apply_refusal sample_plan sample_apply = None" by code_simp
  ultimately show ?thesis using e by (simp add: apply_plan_def)
qed



lemma ceph_completed_plan_not_reapplied_witness:
  "\<exists>run s1. apply_plan sample_env sample_plan sample_apply sample_adapter (ceph_start ()) = (Inr run, s1) \<and>
     rn_status run = ''completed'' \<and>
     snd (apply_plan sample_env sample_plan sample_apply sample_adapter s1) = s1"
proof -
  from sample_completes obtain run s1 where
    a: "apply_plan sample_env sample_plan sample_apply sample_adapter (ceph_start ()) = (Inr run, s1)"
    "rn_status run = ''completed''" by blast
  obtain x s3 where b: "apply_plan sample_env sample_plan sample_apply sample_adapter s1 = (x, s3)" by fastforce
  have "s3 = s1"
    using ceph_completed_plan_not_reapplied [OF sample_ids rtranclp.rtrancl_refl a sample_typed
        rtranclp.rtrancl_refl b refl] by simp
  with a b show ?thesis by simp
qed

lemma plan_found_while_recent_witness:
  "get_plan ''7'' (fold remember_built [sample_plan\<lparr>pl_id := ''7''\<rparr>, sample_plan\<lparr>pl_id := ''8''\<rparr>] (ceph_start ()))
     = Some (sample_plan\<lparr>pl_id := ''7''\<rparr>)"
  using plan_found_while_recent [of "[sample_plan\<lparr>pl_id := ''7''\<rparr>, sample_plan\<lparr>pl_id := ''8''\<rparr>]"
      "sample_plan\<lparr>pl_id := ''7''\<rparr>" "()"]
  by simp

end
