(* ===== verification/Intent_Payload.thy ===== *)
theory Intent_Payload
  imports Verb_Frames
begin

text \<open>
  What an intent asks of Proxmox: the payloads of \<^verbatim>\<open>routes/intent/schemas.py\<close>, the cloud-init arguments of
  \<^verbatim>\<open>routes/intent/cloud_init.py\<close>, the parameters of a create and the changes of an update
  (\<^verbatim>\<open>routes/intent/dispatchers/\<close>). Everything here is a function of values; \<^verbatim>\<open>yaml.safe_dump\<close> is the parameter \<open>yaml\<close>. An answer of Proxmox is a JSON value.

  The two payload classes share all but their last fields; the names of the shared ones differ in
  \<^verbatim>\<open>name\<close> against \<^verbatim>\<open>hostname\<close>.
\<close>

record cloud_init =
  ci_user :: "string option"
  ci_password :: "string option"
  ci_ssh_keys :: "string list option"
  ci_user_data :: "(string + pyobj) option"
  ci_network :: "pyobj option"
  ci_search_domain :: "string option"
  ci_dns_servers :: "string list option"

record vm_intent =
  vi_vmid :: int
  vi_node :: string
  vi_name :: "string option"
  vi_cores :: "int option"
  vi_memory_mib :: "int option"
  vi_storage :: "string option"
  vi_disks :: "pyobj list"
  vi_nics :: "pyobj list"
  vi_tags :: "string list"
  vi_cloud_init :: "cloud_init option"
  vi_fields_set :: "string list"

record qemu_intent = vm_intent +
  qi_template_vmid :: "int option"

record lxc_intent = vm_intent +
  li_ostemplate :: "string option"
  li_password :: "string option"


subsection \<open>Cloud-init arguments\<close>

text \<open>\<^verbatim>\<open>urllib.parse.quote(s, safe="")\<close> on ASCII.\<close>

definition upper_hex :: "nat \<Rightarrow> char" where
  "upper_hex n = (if n < 10 then digit_char n else char_of (55 + n))"

definition quote_url_char :: "char \<Rightarrow> string" where
  "quote_url_char c =
     (if alnum c \<or> c \<in> {CHR ''_'', CHR ''.'', CHR ''-'', CHR ''~''} then [c]
      else let n = (of_char c :: nat) in [CHR ''%'', upper_hex (n div 16), upper_hex (n mod 16)])"

definition quote_url :: "string \<Rightarrow> string" where
  "quote_url s = concat (map quote_url_char s)"

definition build_cicustom :: "(pyobj \<Rightarrow> string) \<Rightarrow> string + pyobj \<Rightarrow> string" where
  "build_cicustom yaml user_data =
     (case user_data of
        Inl t \<Rightarrow>
          if list_ex (\<lambda>p. py_startswith p (py_strip t)) [''user='', ''network='', ''vendor='', ''meta=''] then t
          else ''user='' @ t
      | Inr d \<Rightarrow> ''user='' @ yaml d)"

definition build_ipconfig0 :: "pyobj \<Rightarrow> string option" where
  "build_ipconfig0 network =
     (if obj_get network ''ipconfig0'' \<noteq> PNone then Some (py_str (obj_get network ''ipconfig0''))
      else if obj_get network ''ip'' = PNone then None
      else
        (let ip = py_str (obj_get network ''ip'');
             cidr = obj_get network ''cidr'';
             ip_value = (if cidr \<noteq> PNone \<and> CHR ''/'' \<notin> set ip \<and> py_lower ip \<notin> {''dhcp'', ''auto''}
                         then ip @ ''/'' @ py_str cidr else ip);
             gateway = py_or (obj_get network ''gw'') (obj_get network ''gateway'')
         in Some (py_join '','' ([''ip='' @ ip_value] @ (if gateway \<noteq> PNone then [''gw='' @ py_str gateway] else [])))))"

definition opt_arg :: "string \<Rightarrow> 'a option \<Rightarrow> ('a \<Rightarrow> pyval) \<Rightarrow> pyobj" where
  "opt_arg k v f = (case v of None \<Rightarrow> [] | Some x \<Rightarrow> [(k, f x)])"

definition build_proxmox_ci_args :: "(pyobj \<Rightarrow> string) \<Rightarrow> cloud_init \<Rightarrow> pyobj" where
  "build_proxmox_ci_args yaml c =
     opt_arg ''ciuser'' (ci_user c) PStr @
     opt_arg ''cipassword'' (ci_password c) PStr @
     opt_arg ''sshkeys'' (ci_ssh_keys c) (\<lambda>ks. PStr (quote_url (py_join newline ks))) @
     opt_arg ''cicustom'' (ci_user_data c) (\<lambda>u. PStr (build_cicustom yaml u)) @
     opt_arg ''ipconfig0'' (Option.bind (ci_network c) build_ipconfig0) PStr @
     opt_arg ''searchdomain'' (ci_search_domain c) PStr @
     opt_arg ''nameserver'' (case ci_dns_servers c of None \<Rightarrow> None | Some [] \<Rightarrow> None | Some ds \<Rightarrow> Some ds)
       (\<lambda>ds. PStr (py_join '' '' ds))"


subsection \<open>Disks and interfaces\<close>

text \<open>The key and the value of the item at an index; \<open>None\<close> when the item says nothing.\<close>

definition indexed_key :: "string \<Rightarrow> nat \<Rightarrow> pyobj \<Rightarrow> string" where
  "indexed_key default_prefix index item =
     py_str (py_or (py_or (py_or (obj_get item ''key'') (obj_get item ''name'')) (obj_get item ''slot''))
       (PStr (default_prefix @ nat_str index)))"

definition indexed_value :: "pyobj \<Rightarrow> pyval option" where
  "indexed_value item =
     (let value = py_or (obj_get item ''value'') (obj_get item ''config'') in
      if value \<noteq> PNone then Some value
      else case map (\<lambda>(f, v). f @ ''='' @ py_str v)
                  (filter (\<lambda>(f, v). f \<notin> {''key'', ''name'', ''slot''} \<and> v \<noteq> PNone) item) of
             [] \<Rightarrow> None
           | parts \<Rightarrow> Some (PStr (py_join '','' parts)))"

fun merge_indexed_from :: "nat \<Rightarrow> string \<Rightarrow> pyobj list \<Rightarrow> pyobj \<Rightarrow> pyobj" where
  "merge_indexed_from i default_prefix [] params = params"
| "merge_indexed_from i default_prefix (item # items) params =
     merge_indexed_from (Suc i) default_prefix items
       (case indexed_value item of None \<Rightarrow> params | Some v \<Rightarrow> dict_set (indexed_key default_prefix i item) v params)"

definition merge_indexed_items :: "string \<Rightarrow> pyobj list \<Rightarrow> pyobj \<Rightarrow> pyobj" where
  "merge_indexed_items default_prefix items params = merge_indexed_from 0 default_prefix items params"


subsection \<open>Parameters of a create\<close>

definition opt_text_val :: "string option \<Rightarrow> pyval" where
  "opt_text_val v = (case v of None \<Rightarrow> PNone | Some t \<Rightarrow> PStr t)"

definition dict_update :: "pyobj \<Rightarrow> pyobj \<Rightarrow> pyobj" where
  "dict_update d params = fold (\<lambda>(k, v). dict_set k v) d params"

definition tags_to_config :: "string list \<Rightarrow> string" where
  "tags_to_config tags = py_join '';'' tags"

definition ci_items :: "(pyobj \<Rightarrow> string) \<Rightarrow> 'a vm_intent_scheme \<Rightarrow> pyobj" where
  "ci_items yaml p = (case vi_cloud_init p of None \<Rightarrow> [] | Some c \<Rightarrow> build_proxmox_ci_args yaml c)"

definition build_qemu_create_params :: "(pyobj \<Rightarrow> string) \<Rightarrow> qemu_intent \<Rightarrow> pyobj" where
  "build_qemu_create_params yaml p =
     merge_indexed_items ''net'' (vi_nics p)
       (merge_indexed_items ''scsi'' (vi_disks p)
         (dict_update (ci_items yaml p)
           ([(''vmid'', PInt (vi_vmid p)), (''name'', opt_text_val (vi_name p))] @
            opt_arg ''cores'' (vi_cores p) PInt @ opt_arg ''memory'' (vi_memory_mib p) PInt @
            (if vi_tags p \<noteq> [] then [(''tags'', PStr (tags_to_config (vi_tags p)))] else []))))"

definition build_lxc_create_params :: "(pyobj \<Rightarrow> string) \<Rightarrow> lxc_intent \<Rightarrow> pyobj" where
  "build_lxc_create_params yaml p =
     merge_indexed_items ''net'' (vi_nics p)
       (merge_indexed_items ''mp'' (vi_disks p)
         (dict_update (ci_items yaml p)
           ([(''vmid'', PInt (vi_vmid p)), (''hostname'', opt_text_val (vi_name p)),
             (''ostemplate'', opt_text_val (li_ostemplate p))] @
            opt_arg ''cores'' (vi_cores p) PInt @ opt_arg ''memory'' (vi_memory_mib p) PInt @
            opt_arg ''storage'' (vi_storage p) PStr @ opt_arg ''password'' (li_password p) PStr @
            (if vi_tags p \<noteq> [] then [(''tags'', PStr (tags_to_config (vi_tags p)))] else []))))"


subsection \<open>Changes of an update\<close>

definition values_match :: "pyval \<Rightarrow> pyval \<Rightarrow> bool" where
  "values_match current desired =
     (if py_eq current desired then True
      else case desired of
             PInt i \<Rightarrow> py_int (py_str current) = Some i
           | PBool b \<Rightarrow> py_int (py_str current) = Some (of_bool b)
           | PStr t \<Rightarrow> py_str current = t
           | _ \<Rightarrow> False)"

definition set_delta_if_changed :: "pyobj \<Rightarrow> string \<times> pyval \<Rightarrow> pyobj \<Rightarrow> pyobj" where
  "set_delta_if_changed current kv delta =
     (if values_match (obj_get current (fst kv)) (snd kv) then delta else dict_set (fst kv) (snd kv) delta)"

definition merge_indexed_delta :: "string \<Rightarrow> pyobj list \<Rightarrow> pyobj \<Rightarrow> pyobj \<Rightarrow> pyobj" where
  "merge_indexed_delta default_prefix items current delta =
     fold (set_delta_if_changed current) (merge_indexed_items default_prefix items []) delta"

definition name_key :: "vm_kind \<Rightarrow> string" where
  "name_key k = (case k of Qemu \<Rightarrow> ''name'' | Lxc \<Rightarrow> ''hostname'')"

definition disk_prefix :: "vm_kind \<Rightarrow> string" where
  "disk_prefix k = (case k of Qemu \<Rightarrow> ''scsi'' | Lxc \<Rightarrow> ''mp'')"

definition is_set :: "'a vm_intent_scheme \<Rightarrow> string \<Rightarrow> bool" where
  "is_set p field = (field \<in> set (vi_fields_set p))"

text \<open>\<^verbatim>\<open>_build_qemu_update_delta\<close> and \<^verbatim>\<open>_build_lxc_update_delta\<close>, statement by statement.\<close>

definition build_update_delta ::
  "(pyobj \<Rightarrow> string) \<Rightarrow> vm_kind \<Rightarrow> 'a vm_intent_scheme \<Rightarrow> pyobj \<Rightarrow> pyobj" where
  "build_update_delta yaml k p current =
     (let set_if = set_delta_if_changed current;
          opt_set = (\<lambda>field key v f delta. case v of
            None \<Rightarrow> delta | Some x \<Rightarrow> if is_set p field then set_if (key, f x) delta else delta);
          d1 = (case vi_name p of None \<Rightarrow> [] | Some t \<Rightarrow> if is_set p (name_key k) then set_if (name_key k, PStr t) [] else []);
          d2 = opt_set ''cores'' ''cores'' (vi_cores p) PInt d1;
          d3 = opt_set ''memory_mib'' ''memory'' (vi_memory_mib p) PInt d2;
          d4 = (if is_set p ''tags'' then set_if (''tags'', PStr (tags_to_config (vi_tags p))) d3 else d3);
          d5 = (if is_set p ''disks'' then merge_indexed_delta (disk_prefix k) (vi_disks p) current d4 else d4);
          d6 = (if is_set p ''nics'' then merge_indexed_delta ''net'' (vi_nics p) current d5 else d5)
      in case vi_cloud_init p of
           None \<Rightarrow> d6
         | Some c \<Rightarrow> if is_set p ''cloud_init'' then fold set_if (build_proxmox_ci_args yaml c) d6 else d6)"

definition offline_keys :: "string list" where
  "offline_keys = [''cores'', ''memory'']"

definition offline_prefixes :: "vm_kind \<Rightarrow> string list" where
  "offline_prefixes k =
     (case k of Qemu \<Rightarrow> [''scsi'', ''virtio'', ''ide'', ''sata'', ''efidisk''] | Lxc \<Rightarrow> [''mp'', ''rootfs''])"

definition requires_vm_stop :: "vm_kind \<Rightarrow> pyobj \<Rightarrow> bool" where
  "requires_vm_stop k delta =
     list_ex (\<lambda>(key, v). key \<in> set offline_keys \<or> list_ex (\<lambda>p. py_startswith p key) (offline_prefixes k)) delta"


subsection \<open>Reading what Proxmox answers\<close>

definition mapping_from_response :: "pyval \<Rightarrow> pyobj" where
  "mapping_from_response v =
     (case v of
        PDict d \<Rightarrow> (case obj_get d ''data'' of PDict e \<Rightarrow> e | _ \<Rightarrow> d)
      | _ \<Rightarrow> [])"

definition sequence_from_response :: "pyval \<Rightarrow> pyobj list" where
  "sequence_from_response v =
     (let records = (\<lambda>items. filter (\<lambda>r. r \<noteq> []) (map mapping_from_response items)) in
      case v of
        PList items \<Rightarrow> records items
      | PDict d \<Rightarrow>
          (case obj_get d ''data'' of
             PList items \<Rightarrow> records items
           | _ \<Rightarrow> records [PDict d])
      | _ \<Rightarrow> [])"

definition find_vmid_record :: "pyobj list \<Rightarrow> int \<Rightarrow> string \<Rightarrow> pyobj option" where
  "find_vmid_record records vmid k =
     List.find (\<lambda>r. py_int (py_str (obj_get r ''vmid'')) = Some vmid \<and>
                    py_str (py_or (obj_get r ''type'') (PStr k)) = k) records"

definition find_current_node :: "pyobj list \<Rightarrow> int \<Rightarrow> string \<Rightarrow> string" where
  "find_current_node records vmid k =
     (case find_vmid_record records vmid k of
        None \<Rightarrow> ''unknown''
      | Some r \<Rightarrow> if truthy (obj_get r ''node'') then py_str (obj_get r ''node'') else ''unknown'')"

definition status_is_running :: "pyval \<Rightarrow> bool" where
  "status_is_running v = (obj_get (mapping_from_response v) ''status'' = PStr ''running'')"


subsection \<open>What an update changes\<close>

text \<open>
  The settings an update asks for, in the order the code sets them: the abstract reading of a payload,
  independent of the current configuration.
\<close>

definition update_settings :: "(pyobj \<Rightarrow> string) \<Rightarrow> vm_kind \<Rightarrow> 'a vm_intent_scheme \<Rightarrow> pyobj" where
  "update_settings yaml k p =
     (if is_set p (name_key k) then opt_arg (name_key k) (vi_name p) PStr else []) @
     (if is_set p ''cores'' then opt_arg ''cores'' (vi_cores p) PInt else []) @
     (if is_set p ''memory_mib'' then opt_arg ''memory'' (vi_memory_mib p) PInt else []) @
     (if is_set p ''tags'' then [(''tags'', PStr (tags_to_config (vi_tags p)))] else []) @
     (if is_set p ''disks'' then merge_indexed_items (disk_prefix k) (vi_disks p) [] else []) @
     (if is_set p ''nics'' then merge_indexed_items ''net'' (vi_nics p) [] else []) @
     (if is_set p ''cloud_init'' then ci_items yaml p else [])"

definition apply_delta :: "pyobj \<Rightarrow> pyobj \<Rightarrow> pyobj" where
  "apply_delta delta current = dict_update delta current"

lemma fold_opt_arg:
  "(case v of None \<Rightarrow> d | Some x \<Rightarrow> if b then g (key, f x) d else d) = fold g (if b then opt_arg key v f else []) d"
  by (cases v) (simp_all add: opt_arg_def)

lemma fold_when:
  "(if b then g kv d else d) = fold g (if b then [kv] else []) d"
  "(if b then fold g xs d else d) = fold g (if b then xs else []) d"
  by simp_all

lemma fold_ci_items:
  "(case vi_cloud_init p of None \<Rightarrow> d | Some c \<Rightarrow> if b then fold g (build_proxmox_ci_args yaml c) d else d) =
     fold g (if b then ci_items yaml p else []) d"
  by (cases "vi_cloud_init p") (simp_all add: ci_items_def)

lemma build_update_delta_fold:
  "build_update_delta yaml k p current = fold (set_delta_if_changed current) (update_settings yaml k p) []"
  unfolding build_update_delta_def update_settings_def merge_indexed_delta_def Let_def fold_opt_arg fold_ci_items
    fold_append comp_def
  by (simp only: fold_when [of _ "set_delta_if_changed current"])

lemma map_of_delta_fold:
  assumes "distinct (map fst xs)"
  shows "map_of (fold (set_delta_if_changed current) xs d) key =
    (case map_of xs key of
       Some v \<Rightarrow> if values_match (obj_get current key) v then map_of d key else Some v
     | None \<Rightarrow> map_of d key)"
  using assms
proof (induction xs arbitrary: d)
  case (Cons kv xs)
  obtain k v where kv: "kv = (k, v)" by force
  with Cons.prems have "map_of xs k = None" "distinct (map fst xs)" by (auto simp: map_of_eq_None_iff)
  with Cons.IH [of "set_delta_if_changed current kv d"] kv show ?case
    by (auto simp: set_delta_if_changed_def split: option.splits)
qed simp

lemma dict_wf_delta_fold: "dict_wf d \<Longrightarrow> dict_wf (fold (set_delta_if_changed current) xs d)"
  by (induction xs arbitrary: d) (auto simp: set_delta_if_changed_def)

lemma map_of_dict_update: "dict_wf d \<Longrightarrow> map_of (dict_update d c) key = (case map_of d key of Some v \<Rightarrow> Some v | None \<Rightarrow> map_of c key)"
  unfolding dict_update_def
proof (induction d arbitrary: c)
  case (Cons kv d)
  obtain k v where kv: "kv = (k, v)" by force
  with Cons.prems have "map_of d k = None" "dict_wf d" by (auto simp: dict_wf_def map_of_eq_None_iff)
  with Cons.IH [of "dict_set k v c"] kv show ?case by (auto split: option.splits)
qed simp

lemma values_match_refl: "val_wf v \<Longrightarrow> values_match v v"
  by (simp add: values_match_def)

lemma delta_fold_empty:
  "list_all (\<lambda>(k, v). values_match (obj_get current k) v) xs \<Longrightarrow> fold (set_delta_if_changed current) xs d = d"
  by (induction xs) (auto simp: set_delta_if_changed_def)


definition sample_vm :: qemu_intent where
  "sample_vm =
     \<lparr>vi_vmid = 101, vi_node = ''pve1'', vi_name = Some ''web'', vi_cores = Some 4, vi_memory_mib = None, vi_storage = None,
      vi_disks = [[(''key'', PStr ''scsi0''), (''value'', PStr ''local:8'')]], vi_nics = [], vi_tags = [''a'', ''b''],
      vi_cloud_init = None, vi_fields_set = [''vmid'', ''node'', ''name'', ''cores'', ''disks'', ''tags''],
      qi_template_vmid = None\<rparr>"

definition sample_config :: pyobj where
  "sample_config = [(''name'', PStr ''web''), (''cores'', PStr ''2''), (''memory'', PInt 512), (''tags'', PStr ''a;b'')]"

definition no_yaml :: "pyobj \<Rightarrow> string" where
  "no_yaml d = []"

lemma sample_settings:
  "update_settings no_yaml Qemu sample_vm =
     [(''name'', PStr ''web''), (''cores'', PInt 4), (''tags'', PStr ''a;b''), (''scsi0'', PStr ''local:8'')]"
  by code_simp


text \<open>
  The keys have to differ: a disk with the key \<^verbatim>\<open>cores\<close> fights the field, and each update
  changes the value back.
\<close>

definition clashing_vm :: qemu_intent where
  "clashing_vm = sample_vm\<lparr>vi_disks := [[(''key'', PStr ''cores''), (''value'', PStr ''8'')]]\<rparr>"

lemma clashing_update_never_settles:
  "build_update_delta no_yaml Qemu clashing_vm [(''name'', PStr ''web''), (''cores'', PInt 4), (''tags'', PStr ''a;b'')] =
     [(''cores'', PStr ''8'')]"
  "build_update_delta no_yaml Qemu clashing_vm [(''name'', PStr ''web''), (''cores'', PStr ''8''), (''tags'', PStr ''a;b'')] =
     [(''cores'', PInt 4)]"
  by code_simp+

text \<open>The storage of a payload does not reach the create of a QEMU machine, nor any update.\<close>

lemma qemu_storage_ignored:
  "build_qemu_create_params yaml (q\<lparr>vi_storage := st\<rparr>) = build_qemu_create_params yaml q"
  "build_update_delta yaml k (p\<lparr>vi_storage := st\<rparr>) current = build_update_delta yaml k p current"
proof -
  have "is_set (p\<lparr>vi_storage := st\<rparr>) = is_set p" by (simp add: fun_eq_iff is_set_def)
  then show "build_update_delta yaml k (p\<lparr>vi_storage := st\<rparr>) current = build_update_delta yaml k p current"
    by (simp add: build_update_delta_fold update_settings_def ci_items_def)
qed (simp add: build_qemu_create_params_def ci_items_def)

end
