(* ===== verification/Intent_Secrets.thy ===== *)
theory Intent_Secrets
  imports Intent_Payload
begin

text \<open>
  Secrets of a payload in the texts of its failures (\<^verbatim>\<open>routes/intent/dispatchers/common.py\<close>,
  \<^verbatim>\<open>collect_sensitive_values\<close> and \<^verbatim>\<open>scrub_message\<close> with a payload). A text is scrubbed by replacing
  pieces of it with stars; \<open>masks\<close> is that relation, and what holds no star cannot appear through it.
\<close>

definition quotes_stripped :: "string \<Rightarrow> string" where
  "quotes_stripped s = rev (dropWhile quote_char (rev (dropWhile quote_char s)))"

definition line_end :: "char \<Rightarrow> bool" where
  "line_end c = (c = CHR 0x0D \<or> c = CHR 0x0A)"

text \<open>\<^verbatim>\<open>PASSWORD_LINE_VALUE_RE\<close> from the word on: its group and the text after it.\<close>

definition match_password_line :: "string \<Rightarrow> (string \<times> string) option" where
  "match_password_line s =
     (case drop_word ''password'' s of
        None \<Rightarrow> None
      | Some r \<Rightarrow>
          (case dropWhile py_space r of
             [] \<Rightarrow> None
           | c # t \<Rightarrow>
               (let u = dropWhile py_space t; g = takeWhile (\<lambda>x. \<not> line_end x) u in
                if c = CHR '':'' \<and> g \<noteq> [] then Some (g, dropWhile (\<lambda>x. \<not> line_end x) u) else None)))"

lemma match_password_line_length: "match_password_line s = Some (g, r) \<Longrightarrow> length r < length s"
proof -
  assume "match_password_line s = Some (g, r)"
  then obtain v c t where v: "drop_word ''password'' s = Some v" "dropWhile py_space v = c # t"
    "r = dropWhile (\<lambda>x. \<not> line_end x) (dropWhile py_space t)"
    by (auto simp: match_password_line_def Let_def split: option.splits list.splits if_splits)
  have "length r \<le> length t" using v(3) length_dropWhile_le le_trans by metis
  moreover have "length (c # t) \<le> length v" using v(2) length_dropWhile_le [of py_space v] by simp
  ultimately show ?thesis using drop_word_length [OF v(1)] by simp
qed

text \<open>\<^verbatim>\<open>finditer\<close>; the flag says whether a character of a word comes before.\<close>

function password_lines :: "bool \<Rightarrow> string \<Rightarrow> string list" where
  "password_lines after_word s =
     (case s of
        [] \<Rightarrow> []
      | c # cs \<Rightarrow>
          (case (if after_word then None else match_password_line s) of
             None \<Rightarrow> password_lines (word_char c) cs
           | Some (g, r) \<Rightarrow> g # password_lines False r))"
  by pat_completeness auto
termination
  by (relation "measure (length \<circ> snd)") (auto split: if_splits dest: match_password_line_length)

declare password_lines.simps [simp del]

definition text_secrets :: "string \<Rightarrow> string list" where
  "text_secrets s =
     filter (\<lambda>t. t \<noteq> [] \<and> t \<noteq> ''***'') (map (\<lambda>g. quotes_stripped (py_strip g)) (password_lines False s))"

definition own_secret :: "string \<Rightarrow> pyval \<Rightarrow> string option" where
  "own_secret k v =
     (case v of PStr t \<Rightarrow> if py_lower k \<in> set sensitive_keys \<and> t \<noteq> [] then Some t else None | _ \<Rightarrow> None)"

fun collect_sensitive_values :: "pyval \<Rightarrow> string list" where
  "collect_sensitive_values (PDict d) =
     concat (map (\<lambda>(k, v). case own_secret k v of Some t \<Rightarrow> [t] | None \<Rightarrow> collect_sensitive_values v) d)"
| "collect_sensitive_values (PList xs) = concat (map collect_sensitive_values xs)"
| "collect_sensitive_values (PStr s) = text_secrets s"
| "collect_sensitive_values _ = []"

text \<open>\<^verbatim>\<open>s.replace(old, new)\<close> for a nonempty \<^verbatim>\<open>old\<close>.\<close>

function py_replace :: "string \<Rightarrow> string \<Rightarrow> string \<Rightarrow> string" where
  "py_replace old new s =
     (case s of
        [] \<Rightarrow> []
      | c # cs \<Rightarrow>
          if old \<noteq> [] \<and> py_startswith old s then new @ py_replace old new (drop (length old) s)
          else c # py_replace old new cs)"
  by pat_completeness auto
termination by (relation "measure (\<lambda>(old, new, s). length s)") auto

declare py_replace.simps [simp del]

definition scrub_with :: "pyval \<Rightarrow> string \<Rightarrow> string" where
  "scrub_with payload message =
     fold (\<lambda>secret t. py_replace secret ''***'' t) (collect_sensitive_values payload) (scrub_message message)"


subsection \<open>Dumps of payloads\<close>

definition opt_dump :: "'a option \<Rightarrow> ('a \<Rightarrow> pyval) \<Rightarrow> pyval" where
  "opt_dump v f = (case v of None \<Rightarrow> PNone | Some x \<Rightarrow> f x)"

definition cloud_init_dump :: "cloud_init \<Rightarrow> pyval" where
  "cloud_init_dump c = PDict
     [(''user'', opt_dump (ci_user c) PStr), (''password'', opt_dump (ci_password c) PStr),
      (''ssh_keys'', opt_dump (ci_ssh_keys c) (\<lambda>ks. PList (map PStr ks))),
      (''user_data'', opt_dump (ci_user_data c) (\<lambda>u. case u of Inl t \<Rightarrow> PStr t | Inr d \<Rightarrow> PDict d)),
      (''network'', opt_dump (ci_network c) PDict), (''search_domain'', opt_dump (ci_search_domain c) PStr),
      (''dns_servers'', opt_dump (ci_dns_servers c) (\<lambda>ds. PList (map PStr ds)))]"

definition shared_dump :: "vm_kind \<Rightarrow> 'a vm_intent_scheme \<Rightarrow> pyobj" where
  "shared_dump k p =
     [(''vmid'', PInt (vi_vmid p)), (''node'', PStr (vi_node p)), (name_key k, opt_dump (vi_name p) PStr),
      (''cores'', opt_dump (vi_cores p) PInt), (''memory_mib'', opt_dump (vi_memory_mib p) PInt),
      (''storage'', opt_dump (vi_storage p) PStr), (''disks'', PList (map PDict (vi_disks p))),
      (''nics'', PList (map PDict (vi_nics p))), (''tags'', PList (map PStr (vi_tags p))),
      (''cloud_init'', opt_dump (vi_cloud_init p) cloud_init_dump)]"

definition qemu_dump :: "qemu_intent \<Rightarrow> pyval" where
  "qemu_dump p = PDict (shared_dump Qemu p @ [(''template_vmid'', opt_dump (qi_template_vmid p) PInt)])"

definition lxc_dump :: "lxc_intent \<Rightarrow> pyval" where
  "lxc_dump p = PDict (shared_dump Lxc p @
     [(''ostemplate'', opt_dump (li_ostemplate p) PStr), (''password'', opt_dump (li_password p) PStr)])"


subsection \<open>Masking\<close>

inductive masks :: "string \<Rightarrow> string \<Rightarrow> bool" where
  end_of_text: "masks [] []"
| kept: "masks s t \<Longrightarrow> masks (c # s) (c # t)"
| hidden: "masks s t \<Longrightarrow> masks (u @ s) (''***'' @ t)"

lemma masks_append: "masks s t \<Longrightarrow> masks (u @ s) (u @ t)"
  by (induction u) (auto intro: masks.kept)

lemma masks_refl: "masks s s"
  using masks_append [OF masks.end_of_text, of s] by simp

lemma masks_prefix: "masks s t \<Longrightarrow> CHR ''*'' \<notin> set w \<Longrightarrow> py_startswith w t \<Longrightarrow> py_startswith w s"
proof (induction arbitrary: w rule: masks.induct)
  case (kept s t c)
  then show ?case by (cases w) (auto simp: py_startswith_def)
next
  case (hidden s t u)
  then show ?case by (cases w) (auto simp: py_startswith_def)
qed

lemma masks_contains: "masks s t \<Longrightarrow> CHR ''*'' \<notin> set w \<Longrightarrow> py_contains w t \<Longrightarrow> py_contains w s"
proof (induction rule: masks.induct)
  case (kept s t c)
  then show ?case using masks_prefix [OF masks.kept [OF kept.hyps], of w c] by auto
next
  case (hidden s t u)
  show ?case
  proof (cases w)
    case Nil
    then show ?thesis by (cases "u @ s") (simp_all add: py_startswith_def)
  next
    case (Cons c cs)
    then show ?thesis using hidden by (auto simp: py_startswith_def py_contains_suffix)
  qed
qed

text \<open>What a pattern leaves of a text is an end of it.\<close>

lemma drop_word_suffix: "drop_word w s = Some r \<Longrightarrow> suffix r s"
  by (auto simp: drop_word_eq suffix_drop split: if_splits)

lemma skip_quote_suffix: "suffix (skip_quote s) s"
  by (cases s) (auto simp: skip_quote_def intro: suffix_ConsI)

lemma skip_value_suffix: "skip_value k t = Some r \<Longrightarrow> suffix r t"
proof (induction k)
  case 0
  then show ?case using skip_quote_suffix [of t]
    by (subst (asm) skip_value.simps) (auto simp: Let_def split: if_splits)
next
  case (Suc k)
  have "suffix (drop (Suc k) t) t" by (rule suffix_drop)
  moreover have "suffix (skip_quote (drop (Suc k) t)) t"
    using skip_quote_suffix suffix_drop suffix_order.trans by blast
  ultimately show ?case using Suc by (subst (asm) skip_value.simps) (auto simp: Let_def split: if_splits)
qed

lemma after_word_suffix: "dropWhile py_space (skip_quote u) = c # t \<Longrightarrow> suffix t u"
  by (metis skip_quote_suffix suffix_ConsI suffix_dropWhile suffix_order.trans suffix_order.order_refl suffix_ConsD)

lemma after_password_suffix: "after_password s = Some r \<Longrightarrow> suffix r s"
proof -
  assume "after_password s = Some r"
  then obtain u c t where u: "drop_word ''password'' s = Some u" "dropWhile py_space (skip_quote u) = c # t"
    "skip_value (length (takeWhile py_space t)) t = Some r"
    by (auto simp: after_password_def split: option.splits list.splits if_splits)
  then have "suffix r t" "suffix t u" "suffix u s"
    by (auto intro: skip_value_suffix after_word_suffix drop_word_suffix)
  then show ?thesis by (metis suffix_order.trans)
qed

lemma after_key_suffix: "after_key s = Some r \<Longrightarrow> suffix r s"
  by (auto simp: after_key_def split: option.splits dest!: after_password_suffix drop_word_suffix
      intro: suffix_order.trans)

lemma match_password_suffix: "match_password s = Some r \<Longrightarrow> suffix r s"
  by (auto simp: match_password_def split: option.splits list.splits if_splits dest!: after_key_suffix intro: suffix_ConsI)

lemma message_word_suffix: "message_word s = Some r \<Longrightarrow> suffix r s"
  by (auto simp: message_word_def List.map_filter_def split: list.splits if_splits option.splits dest: drop_word_suffix)

lemma match_message_suffix: "match_message s = Some r \<Longrightarrow> suffix r s"
proof -
  assume "match_message s = Some r"
  then obtain u c t where u: "message_word s = Some u" "dropWhile py_space (skip_quote u) = c # t"
    "r = skip_quote (dropWhile py_space t)"
    by (auto simp: match_message_def Let_def split: option.splits list.splits if_splits)
  have "suffix r (dropWhile py_space t)" "suffix (dropWhile py_space t) t" "suffix t u" "suffix u s"
    using u by (auto intro: skip_quote_suffix suffix_dropWhile after_word_suffix message_word_suffix)
  then show ?thesis by (metis suffix_order.trans)
qed

lemma masks_cut:
  assumes "suffix r s" "masks (dropWhile P r) t"
  shows "masks s (take (length s - length r) s @ ''***'' @ t)"
proof -
  obtain u where u: "s = u @ r" using assms(1) by (auto simp: suffix_def)
  from masks.hidden [OF assms(2), of "takeWhile P r"] have "masks r (''***'' @ t)" by simp
  with masks_append [OF this, of u] u show ?thesis by simp
qed

lemma mask_secrets_masks: "masks s (mask_secrets s)"
proof (induction s rule: mask_secrets.induct)
  case (1 s)
  show ?case
  proof (cases s)
    case Nil
    then show ?thesis by (subst mask_secrets.simps) (simp add: masks.end_of_text)
  next
    case (Cons c cs)
    show ?thesis
    proof (cases "match_message s")
      case None
      with 1 Cons show ?thesis by (subst mask_secrets.simps) (auto intro: masks.kept)
    next
      case (Some r)
      note masks_cut [OF match_message_suffix [OF Some] "1.IH"(2) [OF Cons Some]]
      with Some Cons show ?thesis by (subst mask_secrets.simps) simp
    qed
  qed
qed

lemma scrub_text_masks: "masks s (scrub_text s)"
proof (induction s rule: scrub_text.induct)
  case (1 s)
  show ?case
  proof (cases s)
    case Nil
    then show ?thesis by (subst scrub_text.simps) (simp add: masks.end_of_text)
  next
    case (Cons c cs)
    show ?thesis
    proof (cases "match_password s")
      case None
      with 1 Cons show ?thesis by (subst scrub_text.simps) (auto intro: masks.kept)
    next
      case (Some r)
      note masks_cut [OF match_password_suffix [OF Some] "1.IH"(2) [OF Cons Some]]
      with Some Cons show ?thesis by (subst scrub_text.simps) simp
    qed
  qed
qed

lemma py_replace_masks: "masks s (py_replace old ''***'' s)"
proof (induction old "''***''" s rule: py_replace.induct)
  case (1 old s)
  show ?case
  proof (cases "s = [] \<or> \<not> (old \<noteq> [] \<and> py_startswith old s)")
    case True
    with 1 show ?thesis by (subst py_replace.simps) (auto intro: masks.intros split: list.split)
  next
    case False
    then have "masks (drop (length old) s) (py_replace old ''***'' (drop (length old) s))"
      using 1 by (cases s) auto
    from masks.hidden [OF this, of "take (length old) s"] False show ?thesis
      by (subst py_replace.simps) (auto split: list.split)
  qed
qed

lemma py_replace_removes:
  assumes "CHR ''*'' \<notin> set w" "w \<noteq> []"
  shows "\<not> py_contains w (py_replace w ''***'' s)"
  using assms
proof (induction w "''***''" s rule: py_replace.induct)
  case (1 w s)
  show ?case
  proof (cases "s = [] \<or> py_startswith w s")
    case True
    with 1 show ?thesis
      by (subst py_replace.simps) (cases w, auto simp: py_startswith_def split: list.split)
  next
    case False
    then obtain c cs where s: "s = c # cs" by (cases s) auto
    have "py_replace w ''***'' s = c # py_replace w ''***'' cs" using False s by (subst py_replace.simps) simp
    moreover have "\<not> py_startswith w (py_replace w ''***'' s)"
      using masks_prefix [OF py_replace_masks [of s w] "1.prems"(1)] False by blast
    ultimately show ?thesis using 1 s False by simp
  qed
qed


subsection \<open>What a failure shows\<close>

lemma scrub_message_masks: "CHR ''*'' \<notin> set w \<Longrightarrow> py_contains w (scrub_message t) \<Longrightarrow> py_contains w t"
  unfolding scrub_message_def using masks_contains [OF scrub_text_masks] masks_contains [OF mask_secrets_masks] by blast

lemma replaced_stays_out:
  "CHR ''*'' \<notin> set w \<Longrightarrow> py_contains w (fold (\<lambda>x t. py_replace x ''***'' t) xs t) \<Longrightarrow> py_contains w t"
  by (induction xs arbitrary: t) (auto dest: masks_contains [OF py_replace_masks])

lemma replaced_all_out:
  "w \<in> set xs \<Longrightarrow> CHR ''*'' \<notin> set w \<Longrightarrow> w \<noteq> [] \<Longrightarrow> \<not> py_contains w (fold (\<lambda>x t. py_replace x ''***'' t) xs t)"
proof (induction xs arbitrary: t)
  case (Cons x xs)
  show ?case
  proof (cases "w = x")
    case True
    then show ?thesis using replaced_stays_out [of w xs "py_replace x ''***'' t"] py_replace_removes Cons.prems by auto
  qed (use Cons in auto)
qed simp

lemma own_secret_nonempty: "own_secret k v = Some t \<Longrightarrow> t \<noteq> []"
  by (cases v) (simp_all add: own_secret_def split: if_splits)

lemma collected_nonempty: "t \<in> set (collect_sensitive_values v) \<Longrightarrow> t \<noteq> []"
proof (induction v arbitrary: t rule: collect_sensitive_values.induct)
  case (1 d)
  then obtain k u where ku: "(k, u) \<in> set d"
    "t \<in> set (case own_secret k u of Some t \<Rightarrow> [t] | None \<Rightarrow> collect_sensitive_values u)" by auto
  show ?case
  proof (cases "own_secret k u")
    case None
    with ku "1.IH" [OF ku(1) refl None] show ?thesis by simp
  next
    case (Some s)
    with ku own_secret_nonempty show ?thesis by simp
  qed
next
  case (2 xs)
  then show ?case by auto
qed (simp_all add: text_secrets_def)

lemma own_secret_password: "secret \<noteq> [] \<Longrightarrow> own_secret ''password'' (PStr secret) = Some secret"
proof -
  assume "secret \<noteq> []"
  moreover have "py_lower ''password'' \<in> set sensitive_keys" by code_simp
  ultimately show ?thesis by (simp add: own_secret_def)
qed

lemma collected_own: "(k, v) \<in> set d \<Longrightarrow> own_secret k v = Some t \<Longrightarrow> t \<in> set (collect_sensitive_values (PDict d))"
proof -
  assume k: "(k, v) \<in> set d" "own_secret k v = Some t"
  then have "t \<in> set (case own_secret k v of Some t \<Rightarrow> [t] | None \<Rightarrow> collect_sensitive_values v)" by simp
  with k(1) show ?thesis by (simp only: collect_sensitive_values.simps set_concat set_map image_image) (rule UN_I, assumption, simp)
qed

lemma collected_below:
  "(k, PDict e) \<in> set d \<Longrightarrow> t \<in> set (collect_sensitive_values (PDict e)) \<Longrightarrow> t \<in> set (collect_sensitive_values (PDict d))"
proof -
  assume k: "(k, PDict e) \<in> set d" "t \<in> set (collect_sensitive_values (PDict e))"
  have "own_secret k (PDict e) = None" by (simp add: own_secret_def)
  with k show ?thesis
    by (simp only: collect_sensitive_values.simps(1) [of d] set_concat set_map)
      (rule UN_I [OF imageI [OF k(1)]], simp del: collect_sensitive_values.simps)
qed

lemma passwords_collected:
  fixes q :: qemu_intent and l :: lxc_intent
  shows "vi_cloud_init q = Some c \<Longrightarrow> ci_password c = Some t \<Longrightarrow> t \<noteq> [] \<Longrightarrow> t \<in> set (collect_sensitive_values (qemu_dump q))"
    and "li_password l = Some t \<Longrightarrow> t \<noteq> [] \<Longrightarrow> t \<in> set (collect_sensitive_values (lxc_dump l))"
proof -
  assume q: "vi_cloud_init q = Some c" "ci_password c = Some t" "t \<noteq> []"
  have "t \<in> set (collect_sensitive_values (cloud_init_dump c))"
    unfolding cloud_init_dump_def using q
    by (intro collected_own [OF _ own_secret_password]) (simp_all add: opt_dump_def)
  then show "t \<in> set (collect_sensitive_values (qemu_dump q))"
    unfolding qemu_dump_def cloud_init_dump_def
    by (rule collected_below [of "''cloud_init''", rotated])
      (simp add: shared_dump_def opt_dump_def cloud_init_dump_def q(1))
next
  assume "li_password l = Some t" "t \<noteq> []"
  then show "t \<in> set (collect_sensitive_values (lxc_dump l))"
    unfolding lxc_dump_def by (intro collected_own [OF _ own_secret_password]) (simp_all add: opt_dump_def)
qed


definition secret_vm :: qemu_intent where
  "secret_vm = sample_vm\<lparr>vi_cloud_init := Some
     \<lparr>ci_user = Some ''root'', ci_password = Some ''hunter2'', ci_ssh_keys = None, ci_user_data = None, ci_network = None,
      ci_search_domain = None, ci_dns_servers = None\<rparr>\<rparr>"


text \<open>
  A secret with a star can be put together by the replacement of another: here the second password, which
  the error never said.
\<close>

lemma secret_with_star_reappears:
  "scrub_with (PDict [(''password'', PStr ''a***b''), (''token'', PStr ''xyz'')]) ''axyzb'' = ''a***b''"
  by code_simp

end
