(* ===== verification/Intent_Dispatch.thy ===== *)
theory Intent_Dispatch
  imports Intent_Secrets
begin

text \<open>
  The create and update dispatchers of the intent routes (\<^verbatim>\<open>routes/intent/dispatchers/\<close>
  \<^verbatim>\<open>qemu_create.py\<close>, \<^verbatim>\<open>lxc_create.py\<close>, \<^verbatim>\<open>qemu_update.py\<close>, \<^verbatim>\<open>lxc_update.py\<close>) with \<^verbatim>\<open>write_intent_journal\<close>. The state is
  that of the verb routes: NetBox behind its client, Proxmox behind the SDK. The two update dispatchers are
  the same text up to the kind of machine. Log messages have no effect.
\<close>

record endpoint_ctx =
  ec_endpoint_id :: "int option"
  ec_netbox_id :: "int option"

record apply_item =
  ai_netbox_id :: "int option"
  ai_vmid :: int
  ai_op :: string
  ai_kind :: string
  ai_status :: string
  ai_reason :: "string option"
  ai_message :: string
  ai_upid :: "string option"

text \<open>What is fixed during a request: endpoint, actor and run.\<close>

record intent_run =
  ir_ctx :: endpoint_ctx
  ir_actor :: "string option"
  ir_run_uuid :: string

definition intent_item ::
  "intent_run \<Rightarrow> int \<Rightarrow> string \<Rightarrow> string \<Rightarrow> string \<Rightarrow> string option \<Rightarrow> string \<Rightarrow> string option \<Rightarrow> apply_item" where
  "intent_item c vmid op k status reason message upid =
     \<lparr>ai_netbox_id = ec_netbox_id (ir_ctx c), ai_vmid = vmid, ai_op = op, ai_kind = k, ai_status = status,
      ai_reason = reason, ai_message = message, ai_upid = upid\<rparr>"


subsection \<open>Journal\<close>

text \<open>Without a NetBox session the journal goes to a bare \<^verbatim>\<open>object()\<close>.\<close>

definition no_client_error :: py_exc where
  "no_client_error = handle_netbox_error
     (OtherError ([CHR 0x27] @ ''object'' @ [CHR 0x27] @ '' object has no attribute '' @ [CHR 0x27] @ ''client'' @ [CHR 0x27]))
     (''create '' @ journal_path)"

definition intent_endpoint_id :: "intent_run \<Rightarrow> endpoint option \<Rightarrow> int" where
  "intent_endpoint_id c ep =
     (let own = (case ep of None \<Rightarrow> 0 | Some e \<Rightarrow> ep_id e)
      in if own \<noteq> 0 then own else case ec_endpoint_id (ir_ctx c) of None \<Rightarrow> 0 | Some i \<Rightarrow> i)"

definition intent_comments ::
  "('w, 'p) venv \<Rightarrow> intent_run \<Rightarrow> endpoint option \<Rightarrow> string \<Rightarrow> string \<Rightarrow> int \<Rightarrow> string option \<Rightarrow> string option \<Rightarrow>
   ('w, 'p) vst \<Rightarrow> string" where
  "intent_comments V c ep verb result vmid upid err s =
     build_journal_comments verb
       (case ir_actor c of None \<Rightarrow> ''proxbox-api'' | Some a \<Rightarrow> if a = [] then ''proxbox-api'' else a) result
       (case ep of None \<Rightarrow> ''unknown'' | Some e \<Rightarrow> if ep_name e = [] then ''unknown'' else ep_name e)
       (intent_endpoint_id c ep) (now_iso V (nb_world s) (vs_px s)) upid None (map_option scrub_message err) @
     newline @ ''- target_vmid: '' @ int_str vmid @ newline @ ''- run_uuid: '' @ ir_run_uuid c"

definition journal_vm :: "intent_run \<Rightarrow> int \<Rightarrow> int" where
  "journal_vm c vmid = (case ec_netbox_id (ir_ctx c) of None \<Rightarrow> vmid | Some i \<Rightarrow> if i \<noteq> 0 then i else vmid)"

definition write_intent_journal ::
  "('w, 'p) venv \<Rightarrow> intent_run \<Rightarrow> endpoint option \<Rightarrow> string \<Rightarrow> string \<Rightarrow> int \<Rightarrow> string \<Rightarrow> string option \<Rightarrow> string option \<Rightarrow>
   ('w, 'p, unit) verb_op" where
  "write_intent_journal V c ep verb result vmid journal_kind upid err s =
     (case open_netbox V (nb_world s) (vs_px s) of
        Some Cancelled \<Rightarrow> (Inl Cancelled, s)
      | Some _ \<Rightarrow> (Inl (Exc no_client_error), s)
      | None \<Rightarrow>
          bind_op (write_verb_journal_entry V (journal_vm c vmid) journal_kind
              (intent_comments V c ep verb result vmid upid err s)) (\<lambda>_ s. (Inr (), s)) s)"

text \<open>A journal entry, then the result.\<close>

definition journaled ::
  "('w, 'p) venv \<Rightarrow> intent_run \<Rightarrow> endpoint option \<Rightarrow> string \<Rightarrow> string \<Rightarrow> int \<Rightarrow> string \<Rightarrow> string option \<Rightarrow> string option \<Rightarrow>
   'a \<Rightarrow> ('w, 'p, 'a) verb_op" where
  "journaled V c ep verb result vmid journal_kind upid err item =
     bind_op (write_intent_journal V c ep verb result vmid journal_kind upid err) (\<lambda>_ s. (Inr item, s))"


subsection \<open>Calls inside a \<^verbatim>\<open>try\<close>\<close>

definition outcome_exc :: "px_outcome \<Rightarrow> base_exc + pyval" where
  "outcome_exc out =
     (case out of
        PxReturn v \<Rightarrow> Inr v
      | PxTimeout t \<Rightarrow> Inl (Exc (OtherError t))
      | PxConnection t \<Rightarrow> Inl (Exc (OtherError t))
      | PxRaised e \<Rightarrow> Inl e)"

definition px_try :: "('w, 'p) venv \<Rightarrow> px_request \<Rightarrow> ('w, 'p, pyval) verb_op" where
  "px_try V rq s = (case px_send V rq s of (out, s') \<Rightarrow> (outcome_exc out, s'))"

definition open_try :: "('w, 'p) venv \<Rightarrow> endpoint \<Rightarrow> ('w, 'p, unit) verb_op" where
  "open_try V ep s =
     (case open_proxmox V ep (nb_world s) (vs_px s) of
        (Some e, p) \<Rightarrow> (Inl e, s\<lparr>vs_px := p\<rparr>)
      | (None, p) \<Rightarrow> (Inr (), s\<lparr>vs_px := p\<rparr>))"

text \<open>\<^verbatim>\<open>except Exception\<close>: the handler gets every exception but a cancellation.\<close>

definition try_except ::
  "('w, 'p, 'a) verb_op \<Rightarrow> (base_exc \<Rightarrow> ('w, 'p, 'b) verb_op) \<Rightarrow> ('a \<Rightarrow> ('w, 'p, 'b) verb_op) \<Rightarrow> ('w, 'p, 'b) verb_op" where
  "try_except m handler f s =
     (case m s of
        (Inl Cancelled, s') \<Rightarrow> (Inl Cancelled, s')
      | (Inl e, s') \<Rightarrow> handler e s'
      | (Inr v, s') \<Rightarrow> f v s')"

definition px_put :: "string list \<Rightarrow> pyobj \<Rightarrow> px_request" where
  "px_put path params = \<lparr>px_method = ''PUT'', px_path = path, px_params = params\<rparr>"


subsection \<open>Create\<close>

definition create_guest_rq :: "string \<Rightarrow> vm_kind \<Rightarrow> pyobj \<Rightarrow> px_request" where
  "create_guest_rq node k params = px_post [''nodes'', node, kind_str k] params"

text \<open>The part the two create dispatchers share once their checks have passed.\<close>

definition run_create ::
  "('w, 'p) venv \<Rightarrow> intent_run \<Rightarrow> endpoint \<Rightarrow> string \<Rightarrow> vm_kind \<Rightarrow> int \<Rightarrow> string \<Rightarrow> pyobj \<Rightarrow> pyval \<Rightarrow>
   ('w, 'p, apply_item) verb_op" where
  "run_create V c ep verb k vmid node params raw_payload =
     try_except (bind_op (open_try V ep) (\<lambda>_. px_try V (create_guest_rq node k params)))
       (\<lambda>e. let message = scrub_with raw_payload (base_text e) in
            journaled V c (Some ep) verb ''failed'' vmid ''warning'' None (Some message)
              (intent_item c vmid ''create'' (kind_str k) ''failed'' None message None))
       (\<lambda>v. let upid = extract_upid v in
            journaled V c (Some ep) verb ''succeeded'' vmid ''success'' upid None
              (intent_item c vmid ''create'' (kind_str k) ''succeeded'' None [] upid))"

definition refuse_create ::
  "('w, 'p) venv \<Rightarrow> intent_run \<Rightarrow> endpoint option \<Rightarrow> string \<Rightarrow> vm_kind \<Rightarrow> int \<Rightarrow> string \<Rightarrow> string \<Rightarrow> ('w, 'p, apply_item) verb_op" where
  "refuse_create V c ep verb k vmid result message =
     journaled V c ep verb result vmid ''warning'' None (Some message)
       (intent_item c vmid ''create'' (kind_str k) ''failed'' None message None)"

definition dispatch_qemu_create ::
  "('w, 'p) venv \<Rightarrow> (pyobj \<Rightarrow> string) \<Rightarrow> intent_run \<Rightarrow> qemu_intent \<Rightarrow> ('w, 'p, apply_item) verb_op" where
  "dispatch_qemu_create V yaml c p s =
     (let verb = ''intent_create_qemu'' in
      case gate V (ec_endpoint_id (ir_ctx c)) ''endpoint_writes_disabled'' s of
        Inl _ \<Rightarrow> refuse_create V c None verb Qemu (vi_vmid p) ''blocked'' ''writes_disabled_for_endpoint'' s
      | Inr ep \<Rightarrow>
          if vi_name p = None then
            refuse_create V c (Some ep) verb Qemu (vi_vmid p) ''failed'' ''name required for QEMU create'' s
          else if qi_template_vmid p \<noteq> None then
            (Inr (intent_item c (vi_vmid p) ''create'' ''qemu'' ''not_implemented'' None
               ''template clone lands in Sub-PR K'' None), s)
          else run_create V c ep verb Qemu (vi_vmid p) (vi_node p) (build_qemu_create_params yaml p) (qemu_dump p) s)"

definition dispatch_lxc_create ::
  "('w, 'p) venv \<Rightarrow> (pyobj \<Rightarrow> string) \<Rightarrow> intent_run \<Rightarrow> lxc_intent \<Rightarrow> ('w, 'p, apply_item) verb_op" where
  "dispatch_lxc_create V yaml c p s =
     (let verb = ''intent_create_lxc'' in
      case gate V (ec_endpoint_id (ir_ctx c)) ''endpoint_writes_disabled'' s of
        Inl _ \<Rightarrow> refuse_create V c None verb Lxc (vi_vmid p) ''blocked'' ''writes_disabled_for_endpoint'' s
      | Inr ep \<Rightarrow>
          if vi_name p = None then
            refuse_create V c (Some ep) verb Lxc (vi_vmid p) ''failed'' ''hostname required for LXC create'' s
          else if li_ostemplate p = None then
            refuse_create V c (Some ep) verb Lxc (vi_vmid p) ''failed'' ''ostemplate required for LXC create'' s
          else run_create V c ep verb Lxc (vi_vmid p) (vi_node p) (build_lxc_create_params yaml p) (lxc_dump p) s)"


subsection \<open>Update\<close>

definition update_verb :: "vm_kind \<Rightarrow> string" where
  "update_verb k = ''intent_update_'' @ kind_str k"

text \<open>\<^verbatim>\<open>_fail\<close>.\<close>

definition fail_update ::
  "('w, 'p) venv \<Rightarrow> vm_kind \<Rightarrow> intent_run \<Rightarrow> endpoint option \<Rightarrow> int \<Rightarrow> string \<Rightarrow> string option \<Rightarrow> ('w, 'p, apply_item) verb_op" where
  "fail_update V k c ep vmid message reason =
     journaled V c ep (update_verb k) ''failed'' vmid ''warning'' None (Some message)
       (intent_item c vmid ''update'' (kind_str k) ''failed'' reason message None)"

definition guest_list_rq :: "string \<Rightarrow> vm_kind \<Rightarrow> px_request" where
  "guest_list_rq node k = px_get [''nodes'', node, kind_str k] []"

definition guest_config_rq :: "string \<Rightarrow> vm_kind \<Rightarrow> int \<Rightarrow> px_request" where
  "guest_config_rq node k vmid = px_get (vm_path node k vmid [''config'']) []"

definition guest_status_rq :: "string \<Rightarrow> vm_kind \<Rightarrow> int \<Rightarrow> px_request" where
  "guest_status_rq node k vmid = px_get (vm_path node k vmid [''status'', ''current'']) []"

definition update_guest_rq :: "string \<Rightarrow> vm_kind \<Rightarrow> int \<Rightarrow> pyobj \<Rightarrow> px_request" where
  "update_guest_rq node k vmid delta = px_put (vm_path node k vmid [''config'']) delta"

definition kind_label :: "vm_kind \<Rightarrow> string" where
  "kind_label k = (case k of Qemu \<Rightarrow> ''QEMU'' | Lxc \<Rightarrow> ''LXC'')"

definition toctou_message :: "int \<Rightarrow> string \<Rightarrow> string \<Rightarrow> string" where
  "toctou_message vmid node current_node =
     ''TOCTOU mismatch: vmid '' @ int_str vmid @ '' was on node '' @ [CHR 0x27] @ node @ [CHR 0x27] @
     '' at plan, now on '' @ [CHR 0x27] @ current_node @ [CHR 0x27]"

text \<open>The body of the \<^verbatim>\<open>try\<close>: a result it returned itself, or the change that was sent and its task.\<close>

definition update_body ::
  "('w, 'p) venv \<Rightarrow> (pyobj \<Rightarrow> string) \<Rightarrow> vm_kind \<Rightarrow> intent_run \<Rightarrow> endpoint \<Rightarrow> 'a vm_intent_scheme \<Rightarrow>
   ('w, 'p, apply_item + pyobj \<times> string option) verb_op" where
  "update_body V yaml k c ep p =
     (let vmid = vi_vmid p; node = vi_node p;
          returned = (\<lambda>m. bind_op m (\<lambda>item s. (Inr (Inl item), s)))
      in bind_op (open_try V ep) (\<lambda>_.
         bind_op (px_try V (guest_list_rq node k)) (\<lambda>guests.
         if find_vmid_record (sequence_from_response guests) vmid (kind_str k) = None then
           bind_op (px_try V (px_get [''cluster/resources''] [(''type'', PStr ''vm'')])) (\<lambda>resources.
             returned (fail_update V k c (Some ep) vmid
               (toctou_message vmid node (find_current_node (sequence_from_response resources) vmid (kind_str k)))
               (Some ''toctou_mismatch'')))
         else
           bind_op (px_try V (guest_config_rq node k vmid)) (\<lambda>config.
           let delta = build_update_delta yaml k p (mapping_from_response config) in
           if delta = [] then
             returned (journaled V c (Some ep) (update_verb k) ''skipped'' vmid ''info'' None None
               (intent_item c vmid ''update'' (kind_str k) ''skipped'' None
                 (''No '' @ kind_label k @ '' update needed; current Proxmox config already matches payload'') None))
           else
             bind_op (px_try V (guest_status_rq node k vmid)) (\<lambda>status.
             if requires_vm_stop k delta \<and> status_is_running status then
               returned (fail_update V k c (Some ep) vmid
                 (''Update requires VM stop; refusing to auto-stop running VM '' @ int_str vmid)
                 (Some ''update_requires_vm_stop''))
             else
               bind_op (px_try V (update_guest_rq node k vmid delta)) (\<lambda>v s.
                 (Inr (Inr (delta, extract_upid v)), s)))))))"

definition updated_message :: "vm_kind \<Rightarrow> int \<Rightarrow> pyobj \<Rightarrow> string" where
  "updated_message k vmid delta =
     (case k of Qemu \<Rightarrow> ''Updated QEMU VM '' | Lxc \<Rightarrow> ''Updated LXC '') @ int_str vmid @ '': '' @
     py_join '', '' (sort (map fst delta))"

definition dispatch_update ::
  "('w, 'p) venv \<Rightarrow> (pyobj \<Rightarrow> string) \<Rightarrow> vm_kind \<Rightarrow> intent_run \<Rightarrow> 'a vm_intent_scheme \<Rightarrow> pyval \<Rightarrow>
   ('w, 'p, apply_item) verb_op" where
  "dispatch_update V yaml k c p raw_payload s =
     (case gate V (ec_endpoint_id (ir_ctx c)) ''endpoint_writes_disabled'' s of
        Inl _ \<Rightarrow> fail_update V k c None (vi_vmid p) ''writes_disabled_for_endpoint'' (Some ''writes_disabled_for_endpoint'') s
      | Inr ep \<Rightarrow>
          try_except (update_body V yaml k c ep p)
            (\<lambda>e. fail_update V k c (Some ep) (vi_vmid p) (scrub_with raw_payload (base_text e)) None)
            (\<lambda>r. case r of
                   Inl item \<Rightarrow> (\<lambda>s. (Inr item, s))
                 | Inr (delta, upid) \<Rightarrow>
                     journaled V c (Some ep) (update_verb k) ''succeeded'' (vi_vmid p) ''success'' upid None
                       (intent_item c (vi_vmid p) ''update'' (kind_str k) ''succeeded'' None
                         (updated_message k (vi_vmid p) delta) upid)) s)"

definition dispatch_qemu_update ::
  "('w, 'p) venv \<Rightarrow> (pyobj \<Rightarrow> string) \<Rightarrow> intent_run \<Rightarrow> qemu_intent \<Rightarrow> ('w, 'p, apply_item) verb_op" where
  "dispatch_qemu_update V yaml c p = dispatch_update V yaml Qemu c p (qemu_dump p)"

definition dispatch_lxc_update ::
  "('w, 'p) venv \<Rightarrow> (pyobj \<Rightarrow> string) \<Rightarrow> intent_run \<Rightarrow> lxc_intent \<Rightarrow> ('w, 'p, apply_item) verb_op" where
  "dispatch_lxc_update V yaml c p = dispatch_update V yaml Lxc c p (lxc_dump p)"

end
