(* ===== verification/Deletion_Requests.thy ===== *)
theory Deletion_Requests
  imports Intent_Dispatch
begin

text \<open>
  Deletion requests (\<^verbatim>\<open>routes/intent/deletion_requests.py\<close>): approval, rejection and execution, with the
  journal entries of \<^verbatim>\<open>write_deletion_request_journal\<close> and the journaling destroy dispatchers for both
  kinds of machine. The table of requests is a dictionary by id beside the state of the verb routes; each
  request carries the \<^verbatim>\<open>uuid4\<close> it draws. Calls of the database succeed. A handler is one step of a
  sequence here; what two handlers at a time can do is stated at the end.
\<close>

record deletion_record =
  dr_id :: int
  dr_endpoint_id :: int
  dr_vmid :: int
  dr_node :: string
  dr_kind :: string
  dr_state :: string
  dr_created_at :: seconds
  dr_updated_at :: seconds

record deletion_target =
  dt_vmid :: int
  dt_node :: string
  dt_kind :: vm_kind

record ('w, 'p) denv =
  dn_verb :: "('w, 'p) venv"
  dn_time :: "'w \<Rightarrow> 'p \<Rightarrow> seconds"

record ('w, 'p) dst =
  ds_req :: "('w, 'p) vst"
  ds_rows :: "(int, deletion_record) pydict"

text \<open>What a handler raises, and what it returns: the refusal of the gate, the record, or the task.\<close>

datatype del_exc = Http int string | Raised base_exc

datatype del_answer = Gate_Reply reply | Record_Reply deletion_record | Task_Reply "string option" string

type_synonym ('w, 'p, 'a) del_op = "('w, 'p) dst \<Rightarrow> (del_exc + 'a) \<times> ('w, 'p) dst"


subsection \<open>Journal\<close>

text \<open>Without a NetBox session the entry goes to a bare \<^verbatim>\<open>object()\<close>, as in the other intent routes.\<close>

definition deletion_comments ::
  "('w, 'p) venv \<Rightarrow> endpoint option \<Rightarrow> int \<Rightarrow> string \<Rightarrow> string \<Rightarrow> int \<Rightarrow> string \<Rightarrow> string \<Rightarrow> string \<Rightarrow> int option \<Rightarrow>
   string option \<Rightarrow> string option \<Rightarrow> string option \<Rightarrow> ('w, 'p) vst \<Rightarrow> string" where
  "deletion_comments V ep endpoint_id verb result vmid actor run_uuid target_kind request_id upid reason err s =
     build_journal_comments verb (if actor = [] then ''proxbox-api'' else actor) result
       (case ep of Some e \<Rightarrow> if ep_name e = [] then ''unknown'' else ep_name e | None \<Rightarrow> ''unknown'')
       endpoint_id (now_iso V (nb_world s) (vs_px s)) upid None (map_option scrub_message err) @ newline @
     py_join newline
       ([''- target_vmid: '' @ int_str vmid, ''- target_kind: '' @ target_kind, ''- run_uuid: '' @ run_uuid] @
        (case request_id of None \<Rightarrow> [] | Some i \<Rightarrow> [''- deletion_request_id: '' @ int_str i]) @
        (case reason of None \<Rightarrow> [] | Some t \<Rightarrow> [''- reason: '' @ scrub_message t]))"

definition write_deletion_request_journal ::
  "('w, 'p) venv \<Rightarrow> endpoint option \<Rightarrow> int \<Rightarrow> string \<Rightarrow> string \<Rightarrow> int \<Rightarrow> string \<Rightarrow> string \<Rightarrow> string \<Rightarrow> string \<Rightarrow>
   int option \<Rightarrow> string option \<Rightarrow> string option \<Rightarrow> string option \<Rightarrow> ('w, 'p, unit) verb_op" where
  "write_deletion_request_journal V ep endpoint_id verb result vmid actor run_uuid target_kind journal_kind
      request_id upid reason err s =
     (case open_netbox V (nb_world s) (vs_px s) of
        Some Cancelled \<Rightarrow> (Inl Cancelled, s)
      | Some _ \<Rightarrow> (Inl (Exc no_client_error), s)
      | None \<Rightarrow>
          (case write_verb_journal_entry V vmid journal_kind
                  (deletion_comments V ep endpoint_id verb result vmid actor run_uuid target_kind request_id upid
                     reason err s) s of
             (Inl e, s1) \<Rightarrow> (Inl e, s1)
           | (Inr _, s1) \<Rightarrow> (Inr (), s1)))"


subsection \<open>Destroy, with its journal\<close>

definition gated_endpoint :: "('w, 'p) venv \<Rightarrow> int \<Rightarrow> ('w, 'p) vst \<Rightarrow> endpoint option" where
  "gated_endpoint V endpoint_id s =
     (case gate V (Some endpoint_id) ''endpoint_writes_disabled'' s of Inl _ \<Rightarrow> None | Inr ep \<Rightarrow> Some ep)"

definition dispatch_destroy_journaled ::
  "('w, 'p) venv \<Rightarrow> int \<Rightarrow> vm_kind \<Rightarrow> int \<Rightarrow> string \<Rightarrow> string \<Rightarrow> string \<Rightarrow> ('w, 'p) vst \<Rightarrow>
   (del_exc + string option) \<times> ('w, 'p) vst" where
  "dispatch_destroy_journaled V endpoint_id k vmid node run_uuid actor s =
     (let ep = gated_endpoint V endpoint_id s;
          eid = (case ep of None \<Rightarrow> endpoint_id | Some e \<Rightarrow> if ep_id e \<noteq> 0 then ep_id e else endpoint_id);
          journal = (\<lambda>result jkind upid err. write_deletion_request_journal V ep eid ''deletion_request_execute'' result
            vmid actor run_uuid (kind_str k) jkind None upid None err)
      in case dispatch_destroy V endpoint_id k vmid node s of
           (Inl (Inl e), s1) \<Rightarrow> (Inl (Raised e), s1)
         | (Inl (Inr (status, detail)), s1) \<Rightarrow>
             (case journal (if ep = None then ''blocked'' else ''failed'') ''warning'' None (Some detail) s1 of
                (Inl e, s2) \<Rightarrow> (Inl (Raised e), s2)
              | (Inr _, s2) \<Rightarrow> (Inl (Http status detail), s2))
         | (Inr upid, s1) \<Rightarrow>
             (case journal ''succeeded'' ''success'' upid None s1 of
                (Inl e, s2) \<Rightarrow> (Inl (Raised e), s2)
              | (Inr _, s2) \<Rightarrow> (Inr upid, s2)))"


subsection \<open>Handlers\<close>

definition on_verb :: "('w, 'p, 'a) verb_op \<Rightarrow> ('w, 'p, 'a) del_op" where
  "on_verb m s =
     (case m (ds_req s) of
        (Inl e, v) \<Rightarrow> (Inl (Raised e), s\<lparr>ds_req := v\<rparr>)
      | (Inr x, v) \<Rightarrow> (Inr x, s\<lparr>ds_req := v\<rparr>))"

definition deletion_actor :: "string option \<Rightarrow> string" where
  "deletion_actor v = (case v of Some t \<Rightarrow> if t = [] then ''proxbox-api'' else t | None \<Rightarrow> ''proxbox-api'')"

definition gate_reason :: "reply \<Rightarrow> string" where
  "gate_reason r =
     (let reason = obj_get (rp_body r) ''reason'' in if truthy reason then py_str reason else ''gate_rejected'')"

definition save_record :: "('w, 'p) denv \<Rightarrow> deletion_record \<Rightarrow> ('w, 'p) dst \<Rightarrow> deletion_record \<times> ('w, 'p) dst" where
  "save_record E rec s =
     (let r = rec\<lparr>dr_updated_at := dn_time E (nb_world (ds_req s)) (vs_px (ds_req s))\<rparr>
      in (r, s\<lparr>ds_rows := dict_set (dr_id r) r (ds_rows s)\<rparr>))"

definition write_route_journal ::
  "('w, 'p) denv \<Rightarrow> endpoint option \<Rightarrow> deletion_record \<Rightarrow> string \<Rightarrow> string \<Rightarrow> string \<Rightarrow> string \<Rightarrow> string \<Rightarrow>
   string option \<Rightarrow> string option \<Rightarrow> ('w, 'p, unit) del_op" where
  "write_route_journal E ep rec verb result actor run_uuid journal_kind reason err =
     on_verb (write_deletion_request_journal (dn_verb E) ep (dr_endpoint_id rec) verb result (dr_vmid rec) actor
       run_uuid (dr_kind rec) journal_kind (Some (dr_id rec)) None reason err)"

definition target_mismatch :: "deletion_record \<Rightarrow> deletion_target \<Rightarrow> string option" where
  "target_mismatch rec body =
     (if dr_vmid rec \<noteq> dt_vmid body then
        Some (''vmid mismatch: request has '' @ int_str (dr_vmid rec) @ '', body has '' @ int_str (dt_vmid body))
      else if dr_node rec \<noteq> dt_node body then
        Some (''node mismatch: request has '' @ str_repr (dr_node rec) @ '', body has '' @ str_repr (dt_node body))
      else if dr_kind rec \<noteq> kind_str (dt_kind body) then
        Some (''kind mismatch: request has '' @ str_repr (dr_kind rec) @ '', body has '' @
          str_repr (kind_str (dt_kind body)))
      else None)"

definition gated_or_journaled ::
  "('w, 'p) denv \<Rightarrow> deletion_record \<Rightarrow> string \<Rightarrow> string \<Rightarrow> string \<Rightarrow> ('w, 'p, reply + endpoint) del_op" where
  "gated_or_journaled E rec verb actor run_uuid s =
     (case gate (dn_verb E) (Some (dr_endpoint_id rec)) ''endpoint_writes_disabled'' (ds_req s) of
        Inr ep \<Rightarrow> (Inr (Inr ep), s)
      | Inl r \<Rightarrow>
          (let reason = gate_reason r in
           case write_route_journal E None rec verb ''blocked'' actor run_uuid ''warning'' (Some reason) (Some reason) s of
             (Inl e, s1) \<Rightarrow> (Inl e, s1)
           | (Inr _, s1) \<Rightarrow> (Inr (Inl r), s1)))"

text \<open>The start of every handler: the record, then the gate.\<close>

definition with_gated_record ::
  "('w, 'p) denv \<Rightarrow> int \<Rightarrow> string \<Rightarrow> string \<Rightarrow> string \<Rightarrow>
   (deletion_record \<Rightarrow> endpoint \<Rightarrow> ('w, 'p, del_answer) del_op) \<Rightarrow> ('w, 'p, del_answer) del_op" where
  "with_gated_record E i verb actor run_uuid f s =
     (case map_of (ds_rows s) i of
        None \<Rightarrow> (Inl (Http 404 (''No deletion request with id='' @ int_str i @ ''.'')), s)
      | Some rec \<Rightarrow>
          (case gated_or_journaled E rec verb actor run_uuid s of
             (Inl e, s1) \<Rightarrow> (Inl e, s1)
           | (Inr (Inl r), s1) \<Rightarrow> (Inr (Gate_Reply r), s1)
           | (Inr (Inr ep), s1) \<Rightarrow> f rec ep s1))"

text \<open>A refusal after the gate: journaled, then a conflict.\<close>

definition refuse ::
  "('w, 'p) denv \<Rightarrow> deletion_record \<Rightarrow> endpoint \<Rightarrow> string \<Rightarrow> string \<Rightarrow> string \<Rightarrow> string \<Rightarrow> string \<Rightarrow>
   ('w, 'p, del_answer) del_op" where
  "refuse E rec ep verb actor run_uuid reason message s =
     (case write_route_journal E (Some ep) rec verb ''failed'' actor run_uuid ''warning'' (Some reason) (Some message) s of
        (Inl e, s1) \<Rightarrow> (Inl e, s1)
      | (Inr _, s1) \<Rightarrow> (Inl (Http 409 message), s1))"

definition approve_deletion_request ::
  "('w, 'p) denv \<Rightarrow> int \<Rightarrow> deletion_target \<Rightarrow> string option \<Rightarrow> string \<Rightarrow> ('w, 'p, del_answer) del_op" where
  "approve_deletion_request E i body actor run_uuid =
     (let a = deletion_actor actor; verb = ''deletion_request_approve'' in
      with_gated_record E i verb a run_uuid (\<lambda>rec ep s.
        case target_mismatch rec body of
          Some m \<Rightarrow> refuse E rec ep verb a run_uuid ''target_mismatch'' m s
        | None \<Rightarrow>
            if dr_state rec \<notin> {''pending'', ''approved''} then
              refuse E rec ep verb a run_uuid ''invalid_state''
                (''Deletion request is '' @ dr_state rec @ ''; only pending requests can be approved.'') s
            else
              (let (r, s1) = save_record E (rec\<lparr>dr_state := ''approved''\<rparr>) s in
               case write_route_journal E (Some ep) r verb ''succeeded'' a run_uuid ''success'' None None s1 of
                 (Inl e, s2) \<Rightarrow> (Inl e, s2)
               | (Inr _, s2) \<Rightarrow> (Inr (Record_Reply r), s2))))"

definition reject_deletion_request ::
  "('w, 'p) denv \<Rightarrow> int \<Rightarrow> string \<Rightarrow> string option \<Rightarrow> string \<Rightarrow> ('w, 'p, del_answer) del_op" where
  "reject_deletion_request E i reason actor run_uuid =
     (let a = deletion_actor actor; verb = ''deletion_request_reject'' in
      with_gated_record E i verb a run_uuid (\<lambda>rec ep s.
        if dr_state rec \<in> {''executing'', ''succeeded''} then
          refuse E rec ep verb a run_uuid ''invalid_state''
            (''Deletion request is '' @ dr_state rec @ ''; it can no longer be rejected.'') s
        else
          (let (r, s1) = save_record E (rec\<lparr>dr_state := ''rejected''\<rparr>) s in
           case write_route_journal E (Some ep) r verb ''succeeded'' a run_uuid ''warning'' (Some reason) None s1 of
             (Inl e, s2) \<Rightarrow> (Inl e, s2)
           | (Inr _, s2) \<Rightarrow> (Inr (Record_Reply r), s2))))"

text \<open>From the state \<^verbatim>\<open>executing\<close> on. \<^verbatim>\<open>except Exception\<close> does not see a cancellation.\<close>

definition run_approved ::
  "('w, 'p) denv \<Rightarrow> deletion_record \<Rightarrow> deletion_target \<Rightarrow> string \<Rightarrow> string \<Rightarrow> ('w, 'p, del_answer) del_op" where
  "run_approved E rec body a run_uuid s =
     (let (r, s1) = save_record E (rec\<lparr>dr_state := ''executing''\<rparr>) s in
      case dispatch_destroy_journaled (dn_verb E) (dr_endpoint_id r) (dt_kind body) (dt_vmid body) (dt_node body)
             run_uuid a (ds_req s1) of
        (Inl (Raised Cancelled), v) \<Rightarrow> (Inl (Raised Cancelled), s1\<lparr>ds_req := v\<rparr>)
      | (Inl e, v) \<Rightarrow>
          (let (r2, s2) = save_record E (r\<lparr>dr_state := ''failed''\<rparr>) (s1\<lparr>ds_req := v\<rparr>) in (Inl e, s2))
      | (Inr upid, v) \<Rightarrow>
          (let (r2, s2) = save_record E (r\<lparr>dr_state := ''succeeded''\<rparr>) (s1\<lparr>ds_req := v\<rparr>)
           in (Inr (Task_Reply upid run_uuid), s2)))"

definition execute_deletion_request ::
  "('w, 'p) denv \<Rightarrow> int \<Rightarrow> deletion_target \<Rightarrow> string option \<Rightarrow> string \<Rightarrow> ('w, 'p, del_answer) del_op" where
  "execute_deletion_request E i body actor run_uuid =
     (let a = deletion_actor actor; verb = ''deletion_request_execute'' in
      with_gated_record E i verb a run_uuid (\<lambda>rec ep s.
        case target_mismatch rec body of
          Some m \<Rightarrow> refuse E rec ep verb a run_uuid ''target_mismatch'' m s
        | None \<Rightarrow>
            if dr_state rec \<noteq> ''approved'' then
              refuse E rec ep verb a run_uuid ''invalid_state''
                (''Deletion request is '' @ dr_state rec @ ''; execute requires approved.'') s
            else run_approved E rec body a run_uuid s))"

datatype del_request =
    Approve int deletion_target "string option" string
  | Reject int string "string option" string
  | Execute int deletion_target "string option" string

fun handle_deletion :: "('w, 'p) denv \<Rightarrow> del_request \<Rightarrow> ('w, 'p, del_answer) del_op" where
  "handle_deletion E (Approve i body actor u) = approve_deletion_request E i body actor u"
| "handle_deletion E (Reject i reason actor u) = reject_deletion_request E i reason actor u"
| "handle_deletion E (Execute i body actor u) = execute_deletion_request E i body actor u"

definition handle_deletions :: "('w, 'p) denv \<Rightarrow> del_request list \<Rightarrow> ('w, 'p) dst \<Rightarrow> ('w, 'p) dst" where
  "handle_deletions E rqs s = fold (\<lambda>rq s. snd (handle_deletion E rq s)) rqs s"


subsection \<open>What a handler does\<close>

definition same_outside :: "('w, 'p) dst \<Rightarrow> ('w, 'p) dst \<Rightarrow> bool" where
  "same_outside s s' = (ds_rows s' = ds_rows s \<and> vs_px (ds_req s') = vs_px (ds_req s))"

lemma write_journal_px:
  assumes "write_deletion_request_journal V ep eid verb result vmid a u tk jk i upid reason err s = (x, s')"
  shows "vs_px s' = vs_px s"
  using assms
  by (auto simp: write_deletion_request_journal_def write_verb_journal_entry_def on_rest_def
      split: option.splits base_exc.splits prod.splits sum.splits)

lemma route_journal_same:
  "write_route_journal E ep rec verb result a u jk reason err s = (x, s') \<Longrightarrow> same_outside s s'"
  by (auto simp: write_route_journal_def on_verb_def same_outside_def dest!: write_journal_px
      split: prod.splits sum.splits)

lemma refuse_same: "refuse E rec ep verb a u reason m s = (x, s') \<Longrightarrow> same_outside s s'"
  by (auto simp: refuse_def dest!: route_journal_same split: prod.splits sum.splits)

lemma gated_cases:
  assumes "gated_or_journaled E rec verb a u s = (x, s')"
  shows "same_outside s s'" "x = Inr (Inr ep) \<Longrightarrow> s' = s \<and>
    gate (dn_verb E) (Some (dr_endpoint_id rec)) ''endpoint_writes_disabled'' (ds_req s) = Inr ep"
  using assms
  by (auto simp: gated_or_journaled_def same_outside_def Let_def
      dest!: route_journal_same [unfolded same_outside_def] split: sum.splits prod.splits)

lemma with_gated_recordE:
  assumes "with_gated_record E i verb a u f s = (x, s')"
  obtains "same_outside s s'"
  | rec ep where "map_of (ds_rows s) i = Some rec"
      "gate (dn_verb E) (Some (dr_endpoint_id rec)) ''endpoint_writes_disabled'' (ds_req s) = Inr ep"
      "f rec ep s = (x, s')"
proof (cases "map_of (ds_rows s) i")
  case None
  with assms that(1) show thesis by (simp add: with_gated_record_def same_outside_def)
next
  case (Some rec)
  obtain y s1 where g: "gated_or_journaled E rec verb a u s = (y, s1)" by fastforce
  show thesis
  proof (cases "\<exists>ep. y = Inr (Inr ep)")
    case True
    then obtain ep where y: "y = Inr (Inr ep)" by blast
    with gated_cases(2) [OF g y] assms Some g that(2) [of rec ep] show thesis
      by (simp add: with_gated_record_def)
  next
    case False
    with assms Some g have "s' = s1"
      by (auto simp: with_gated_record_def split: sum.splits)
    with gated_cases(1) [OF g] that(1) show thesis by simp
  qed
qed

lemma dict_set_twice [simp]: "dict_set k v (dict_set k u d) = dict_set k v d"
  by (induction d) auto

text \<open>The row of a request before and after: nothing but its state and its time changes.\<close>

definition same_target :: "deletion_record \<Rightarrow> deletion_record \<Rightarrow> bool" where
  "same_target r r' =
     (dr_id r' = dr_id r \<and> dr_endpoint_id r' = dr_endpoint_id r \<and> dr_vmid r' = dr_vmid r \<and>
      dr_node r' = dr_node r \<and> dr_kind r' = dr_kind r)"

definition state_moves :: "string \<Rightarrow> string \<Rightarrow> bool" where
  "state_moves a b =
     (a \<in> {''pending'', ''approved''} \<and> b = ''approved'' \<or> a \<notin> {''executing'', ''succeeded''} \<and> b = ''rejected'')"

definition record_destroy_rq :: "deletion_record \<Rightarrow> px_request" where
  "record_destroy_rq r = px_delete [''nodes'', dr_node r, dr_kind r, int_str (dr_vmid r)] [(''purge'', PInt 1)]"

lemma record_destroy_rq: "target_mismatch r body = None \<Longrightarrow>
    destroy_rq (dt_node body) (dt_kind body) (dt_vmid body) = record_destroy_rq r"
  by (auto simp: target_mismatch_def destroy_rq_def record_destroy_rq_def vm_path_def split: if_splits)

lemma is_write_destroy [simp]: "is_write (destroy_rq node k vmid)"
  by (simp add: is_write_def destroy_rq_def px_delete_def)

lemma save_recordE:
  assumes "save_record E r s = (r', s')"
  shows "ds_req s' = ds_req s" "ds_rows s' = dict_set (dr_id r) r' (ds_rows s)" "same_target r r'"
    "dr_state r' = dr_state r"
  using assms by (auto simp: save_record_def same_target_def Let_def)

lemma destroy_sends:
  assumes "dispatch_destroy (traced V) eid k vmid node s = (x, s')"
  shows "sent s' = sent s \<or> (sent s' = sent s @ [destroy_rq node k vmid] \<and>
    (\<exists>ep. gate (traced V) (Some eid) ''endpoint_writes_disabled'' s = Inr ep))"
proof -
  have sent_px: "sent (s\<lparr>vs_px := p\<rparr>) = sent s"
    if "open_proxmox (traced V) ep (nb_world s) (vs_px s) = (e, p)" for ep e p
    by (rule sent_open [OF that])
  from assms sent_px show ?thesis
    by (auto simp: dispatch_destroy_def dest: sent_send split: sum.splits option.splits base_exc.splits prod.splits)
qed

lemma sent_px_only: "vs_px s' = vs_px s \<Longrightarrow> sent s' = sent s"
  by (simp add: sent_def)

lemma destroy_journaled_sends:
  assumes "dispatch_destroy_journaled (traced V) eid k vmid node u a s = (x, s')"
  shows "sent s' = sent s \<or> (sent s' = sent s @ [destroy_rq node k vmid] \<and>
    (\<exists>ep. gate (traced V) (Some eid) ''endpoint_writes_disabled'' s = Inr ep))"
proof -
  obtain y s1 where d: "dispatch_destroy (traced V) eid k vmid node s = (y, s1)" by fastforce
  with assms have "vs_px s' = vs_px s1"
    unfolding dispatch_destroy_journaled_def Let_def
    by (auto split: sum.splits prod.splits dest!: write_journal_px)
  with destroy_sends [OF d] sent_px_only show ?thesis by metis
qed

text \<open>The effect of one request on the table and on Proxmox.\<close>

definition changes_row :: "('w, 'p) dst \<Rightarrow> ('w, 'p) dst \<Rightarrow> int \<Rightarrow> deletion_record \<Rightarrow> deletion_record \<Rightarrow> bool" where
  "changes_row s s' i r r' =
     (map_of (ds_rows s) i = Some r \<and> same_target r r' \<and> ds_rows s' = dict_set (dr_id r) r' (ds_rows s))"

lemma same_target_simps [simp]:
  "same_target r r" "same_target (r\<lparr>dr_state := st\<rparr>) r' = same_target r r'"
  by (simp_all add: same_target_def)

lemma same_target_trans: "same_target r r' \<Longrightarrow> same_target r' r'' \<Longrightarrow> same_target r r''"
  by (simp add: same_target_def)

lemma same_target_id: "same_target r r' \<Longrightarrow> dr_id r' = dr_id r"
  by (simp add: same_target_def)

lemma approve_effect:
  assumes "approve_deletion_request E i body actor u s = (x, s')"
  shows "same_outside s s' \<or> (\<exists>r r'. changes_row s s' i r r' \<and> dr_state r \<in> {''pending'', ''approved''} \<and>
    dr_state r' = ''approved'' \<and> target_mismatch r body = None \<and> vs_px (ds_req s') = vs_px (ds_req s))"
  using assms [unfolded approve_deletion_request_def Let_def]
proof (rule with_gated_recordE, goal_cases)
  case (2 rec ep)
  show ?case
  proof (cases "target_mismatch rec body = None \<and> dr_state rec \<in> {''pending'', ''approved''}")
    case False
    with 2(3) have "\<exists>reason m. refuse E rec ep ''deletion_request_approve'' (deletion_actor actor) u reason m s = (x, s')"
      by (auto split: option.splits if_splits)
    then show ?thesis using refuse_same by blast
  next
    case True
    obtain r s1 where sv: "save_record E (rec\<lparr>dr_state := ''approved''\<rparr>) s = (r, s1)" by fastforce
    obtain y s2 where j: "write_route_journal E (Some ep) r ''deletion_request_approve'' ''succeeded''
        (deletion_actor actor) u ''success'' None None s1 = (y, s2)" by fastforce
    from 2(3) True sv j have "s' = s2" by (auto split: sum.splits)
    with save_recordE [OF sv] route_journal_same [OF j] 2(1) True show ?thesis
      by (intro disjI2 exI [of _ rec] exI [of _ r])
        (auto simp: changes_row_def same_outside_def state_moves_def)
  qed
qed simp

lemma reject_effect:
  assumes "reject_deletion_request E i reason actor u s = (x, s')"
  shows "same_outside s s' \<or> (\<exists>r r'. changes_row s s' i r r' \<and> state_moves (dr_state r) (dr_state r') \<and>
    vs_px (ds_req s') = vs_px (ds_req s))"
  using assms [unfolded reject_deletion_request_def Let_def]
proof (rule with_gated_recordE, goal_cases)
  case (2 rec ep)
  show ?case
  proof (cases "dr_state rec \<in> {''executing'', ''succeeded''}")
    case True
    with 2(3) have "\<exists>reason m. refuse E rec ep ''deletion_request_reject'' (deletion_actor actor) u reason m s = (x, s')"
      by auto
    then show ?thesis using refuse_same by blast
  next
    case False
    obtain r s1 where sv: "save_record E (rec\<lparr>dr_state := ''rejected''\<rparr>) s = (r, s1)" by fastforce
    obtain y s2 where j: "write_route_journal E (Some ep) r ''deletion_request_reject'' ''succeeded''
        (deletion_actor actor) u ''warning'' (Some reason) None s1 = (y, s2)" by fastforce
    from 2(3) False sv j have "s' = s2" by (auto split: sum.splits)
    with save_recordE [OF sv] route_journal_same [OF j] 2(1) False show ?thesis
      by (intro disjI2 exI [of _ rec] exI [of _ r])
        (auto simp: changes_row_def same_outside_def state_moves_def)
  qed
qed simp

lemma run_approved_effect:
  assumes "run_approved E rec body a u s = (x, s')" "dn_verb E = traced V"
  shows "(\<exists>r'. same_target rec r' \<and> ds_rows s' = dict_set (dr_id rec) r' (ds_rows s) \<and>
      dr_state r' \<in> {''executing'', ''failed'', ''succeeded''}) \<and>
    (sent (ds_req s') = sent (ds_req s) \<or>
     sent (ds_req s') = sent (ds_req s) @ [destroy_rq (dt_node body) (dt_kind body) (dt_vmid body)])"
proof -
  obtain r s1 where sv: "save_record E (rec\<lparr>dr_state := ''executing''\<rparr>) s = (r, s1)" by fastforce
  note sv' = save_recordE [OF sv]
  obtain y v where d: "dispatch_destroy_journaled (traced V) (dr_endpoint_id r) (dt_kind body) (dt_vmid body)
      (dt_node body) u a (ds_req s1) = (y, v)" by fastforce
  have snt: "sent v = sent (ds_req s) \<or> sent v = sent (ds_req s) @ [destroy_rq (dt_node body) (dt_kind body) (dt_vmid body)]"
    using destroy_journaled_sends [OF d] sv'(1) by auto
  have "\<exists>r' st. same_target r r' \<and> ds_rows s' = dict_set (dr_id rec) r' (ds_rows s) \<and>
      dr_state r' \<in> {''executing'', ''failed'', ''succeeded''} \<and> ds_req s' = v"
  proof (cases "y = Inl (Raised Cancelled)")
    case True
    with assms sv d sv' show ?thesis by (intro exI [of _ r]) (auto simp: run_approved_def)
  next
    case False
    obtain st r2 s2 where s2: "save_record E (r\<lparr>dr_state := st\<rparr>) (s1\<lparr>ds_req := v\<rparr>) = (r2, s2)" "s' = s2"
      "st \<in> {''failed'', ''succeeded''}"
      using assms sv d False
      by (auto simp: run_approved_def split: sum.splits del_exc.splits base_exc.splits prod.splits)
    from save_recordE [OF s2(1)] s2(2,3) sv' show ?thesis
      by (intro exI [of _ r2]) (auto simp: same_target_def)
  qed
  with snt sv'(3) show ?thesis by (auto dest: same_target_trans)
qed

lemma execute_effect:
  assumes "execute_deletion_request E i body actor u s = (x, s')" "dn_verb E = traced V"
  shows "same_outside s s' \<or> (\<exists>r r'. changes_row s s' i r r' \<and> dr_state r = ''approved'' \<and>
    dr_state r' \<in> {''executing'', ''failed'', ''succeeded''} \<and> target_mismatch r body = None \<and>
    (\<exists>ep. gate (traced V) (Some (dr_endpoint_id r)) ''endpoint_writes_disabled'' (ds_req s) = Inr ep) \<and>
    (sent (ds_req s') = sent (ds_req s) \<or> sent (ds_req s') = sent (ds_req s) @ [record_destroy_rq r]))"
  using assms(1) [unfolded execute_deletion_request_def Let_def]
proof (rule with_gated_recordE, goal_cases)
  case (2 rec ep)
  show ?case
  proof (cases "target_mismatch rec body = None \<and> dr_state rec = ''approved''")
    case False
    with 2(3) have "\<exists>reason m. refuse E rec ep ''deletion_request_execute'' (deletion_actor actor) u reason m s = (x, s')"
      by (auto split: option.splits if_splits)
    then show ?thesis using refuse_same by blast
  next
    case True
    with 2(3) have "run_approved E rec body (deletion_actor actor) u s = (x, s')" by simp
    from run_approved_effect [OF this assms(2)] obtain r' where
      "same_target rec r'" "ds_rows s' = dict_set (dr_id rec) r' (ds_rows s)"
      "dr_state r' \<in> {''executing'', ''failed'', ''succeeded''}"
      "sent (ds_req s') = sent (ds_req s) \<or>
       sent (ds_req s') = sent (ds_req s) @ [destroy_rq (dt_node body) (dt_kind body) (dt_vmid body)]" by blast
    moreover have "destroy_rq (dt_node body) (dt_kind body) (dt_vmid body) = record_destroy_rq rec"
      using True record_destroy_rq by simp
    ultimately show ?thesis using 2(1,2) True assms(2)
      by (intro disjI2 exI [of _ rec] exI [of _ r']) (simp add: changes_row_def)
  qed
qed simp


subsection \<open>Sequences of requests\<close>

definition traced_denv :: "('w, 'p) denv \<Rightarrow> ('w \<times> request_log, 'p \<times> px_log) denv" where
  "traced_denv E =
     \<lparr>dn_verb = traced (dn_verb E), dn_time = (\<lambda>(w, l) (p, t). dn_time E w p)\<rparr>"

definition keyed :: "(int, deletion_record) pydict \<Rightarrow> bool" where
  "keyed d = list_all (\<lambda>(i, r). dr_id r = i) d"

definition row_state :: "('w, 'p) dst \<Rightarrow> int \<Rightarrow> string option" where
  "row_state s i = map_option dr_state (map_of (ds_rows s) i)"

definition destroy_of_row :: "('w, 'p) dst \<Rightarrow> int \<Rightarrow> px_request option" where
  "destroy_of_row s i = map_option record_destroy_rq (map_of (ds_rows s) i)"

definition may_execute :: "('w, 'p) dst \<Rightarrow> int \<Rightarrow> bool" where
  "may_execute s i = (row_state s i = Some ''pending'' \<or> row_state s i = Some ''approved'')"

lemma keyed_get: "keyed d \<Longrightarrow> map_of d i = Some r \<Longrightarrow> dr_id r = i"
  by (auto simp: keyed_def list_all_iff dest: map_of_SomeD)

lemma keyed_set: "keyed d \<Longrightarrow> dr_id r = i \<Longrightarrow> keyed (dict_set i r d)"
  by (induction d) (auto simp: keyed_def)

lemma changes_rowD:
  assumes "changes_row s s' i r r'" "keyed (ds_rows s)"
  shows "keyed (ds_rows s')" "destroy_of_row s' = destroy_of_row s"
    "row_state s' = (row_state s)(i := Some (dr_state r'))" "row_state s i = Some (dr_state r)"
proof -
  have i: "dr_id r = i" "dr_id r' = i" using assms keyed_get by (auto simp: changes_row_def same_target_def)
  show "keyed (ds_rows s')" using assms i keyed_set by (auto simp: changes_row_def)
  show "destroy_of_row s' = destroy_of_row s"
    using assms i by (auto simp: changes_row_def destroy_of_row_def fun_eq_iff same_target_def record_destroy_rq_def)
  show "row_state s' = (row_state s)(i := Some (dr_state r'))"
    using assms i by (auto simp: changes_row_def row_state_def fun_eq_iff)
  show "row_state s i = Some (dr_state r)" using assms by (simp add: changes_row_def row_state_def)
qed

lemma same_outsideD:
  assumes "same_outside s s'" "keyed (ds_rows s)"
  shows "keyed (ds_rows s')" "destroy_of_row s' = destroy_of_row s" "row_state s' = row_state s"
    "sent (ds_req s') = sent (ds_req s)"
  using assms by (auto simp: same_outside_def destroy_of_row_def row_state_def sent_def fun_eq_iff)

text \<open>One request: nothing that may be executed appears, and what is destroyed may not be executed again.\<close>

lemma handle_deletion_effect:
  assumes "keyed (ds_rows s)"
  shows "keyed (ds_rows (snd (handle_deletion (traced_denv E) rq s))) \<and>
    destroy_of_row (snd (handle_deletion (traced_denv E) rq s)) = destroy_of_row s \<and>
    (\<forall>i. may_execute (snd (handle_deletion (traced_denv E) rq s)) i \<longrightarrow> may_execute s i) \<and>
    (sent (ds_req (snd (handle_deletion (traced_denv E) rq s))) = sent (ds_req s) \<or>
     (\<exists>i. may_execute s i \<and> \<not> may_execute (snd (handle_deletion (traced_denv E) rq s)) i \<and>
        sent (ds_req (snd (handle_deletion (traced_denv E) rq s)))
          = sent (ds_req s) @ [the (destroy_of_row s i)]))"
    (is "?P (snd (handle_deletion ?E rq s))")
proof -
  obtain x s' where h: "handle_deletion ?E rq s = (x, s')" by fastforce
  have V: "dn_verb ?E = traced (dn_verb E)" by (simp add: traced_denv_def)
  have same: "?P s'" if "same_outside s s'"
    using same_outsideD [OF that assms] by (simp add: may_execute_def)
  have moved: "?P s'" if "changes_row s s' i r r'" "state_moves (dr_state r) (dr_state r')"
    "vs_px (ds_req s') = vs_px (ds_req s)" for i r r'
    using changes_rowD [OF that(1) assms] that(2) sent_px_only [OF that(3)]
    by (auto simp: may_execute_def state_moves_def)
  have "?P s'"
  proof (cases rq)
    case (Approve i body actor u)
    with h have "approve_deletion_request ?E i body actor u s = (x, s')" by simp
    from approve_effect [OF this] same moved show ?thesis by (fastforce simp: state_moves_def)
  next
    case (Reject i reason actor u)
    with h have "reject_deletion_request ?E i reason actor u s = (x, s')" by simp
    from reject_effect [OF this] same moved show ?thesis by blast
  next
    case (Execute i body actor u)
    with h have "execute_deletion_request ?E i body actor u s = (x, s')" by simp
    from execute_effect [OF this V] consider "same_outside s s'" | r r' where
      "changes_row s s' i r r'" "dr_state r = ''approved''" "dr_state r' \<in> {''executing'', ''failed'', ''succeeded''}"
      "sent (ds_req s') = sent (ds_req s) \<or> sent (ds_req s') = sent (ds_req s) @ [record_destroy_rq r]"
      by blast
    then show ?thesis
    proof cases
      case 1
      then show ?thesis by (rule same)
    next
      case (2 r r')
      note c = changes_rowD [OF 2(1) assms]
      have "destroy_of_row s i = Some (record_destroy_rq r)"
        using 2(1) by (simp add: changes_row_def destroy_of_row_def)
      moreover have "may_execute s i" "\<not> may_execute s' i" "\<forall>j. may_execute s' j \<longrightarrow> may_execute s j"
        using c 2(2,3) by (auto simp: may_execute_def)
      ultimately show ?thesis using c(1,2) 2(4) by (metis option.sel)
    qed
  qed
  with h show ?thesis by simp
qed

text \<open>
  \<^bold>\<open>C37.\<close> Whatever sequence of approvals, rejections and executions arrives, against any NetBox and any
  Proxmox, the only writes to Proxmox are deletions of machines named by deletion requests that were pending
  or approved, and each deletion request destroys at most once.
\<close>

theorem deletion_request_destroys_once:
  assumes "keyed (ds_rows s)"
  shows "\<exists>is. distinct is \<and> set is \<subseteq> {i. may_execute s i} \<and>
    sent (ds_req (handle_deletions (traced_denv E) rqs s)) =
      sent (ds_req s) @ map (\<lambda>i. the (destroy_of_row s i)) is"
proof -
  have "\<exists>is. distinct is \<and> set is \<subseteq> {i. may_execute s i \<and> \<not> may_execute (handle_deletions (traced_denv E) rqs s) i} \<and>
    sent (ds_req (handle_deletions (traced_denv E) rqs s)) =
      sent (ds_req s) @ map (\<lambda>i. the (destroy_of_row s i)) is \<and>
    keyed (ds_rows (handle_deletions (traced_denv E) rqs s)) \<and>
    destroy_of_row (handle_deletions (traced_denv E) rqs s) = destroy_of_row s \<and>
    (\<forall>i. may_execute (handle_deletions (traced_denv E) rqs s) i \<longrightarrow> may_execute s i)"
  proof (induction rqs rule: rev_induct)
    case Nil
    then show ?case using assms by (intro exI [of _ "[]"]) (simp add: handle_deletions_def)
  next
    case (snoc rq rqs)
    define t where "t = handle_deletions (traced_denv E) rqs s"
    define t' where "t' = snd (handle_deletion (traced_denv E) rq t)"
    have t': "handle_deletions (traced_denv E) (rqs @ [rq]) s = t'"
      by (simp add: handle_deletions_def t_def t'_def)
    from snoc [folded t_def] obtain "is" where i: "distinct is" "set is \<subseteq> {i. may_execute s i \<and> \<not> may_execute t i}"
      "sent (ds_req t) = sent (ds_req s) @ map (\<lambda>i. the (destroy_of_row s i)) is" "keyed (ds_rows t)"
      "destroy_of_row t = destroy_of_row s" "\<forall>i. may_execute t i \<longrightarrow> may_execute s i" by blast
    note e = handle_deletion_effect [OF i(4), of E rq, folded t'_def]
    then consider "sent (ds_req t') = sent (ds_req t)" | j where "may_execute t j" "\<not> may_execute t' j"
      "sent (ds_req t') = sent (ds_req t) @ [the (destroy_of_row t j)]" by blast
    then show ?case
    proof cases
      case 1
      with e i show ?thesis unfolding t' by (intro exI [of _ "is"]) auto
    next
      case (2 j)
      with e i show ?thesis unfolding t' by (intro exI [of _ "is @ [j]"]) auto
    qed
  qed
  then show ?thesis by blast
qed

definition pending_request :: deletion_record where
  "pending_request =
     \<lparr>dr_id = 7, dr_endpoint_id = 1, dr_vmid = 101, dr_node = ''pve1'', dr_kind = ''qemu'', dr_state = ''pending'',
      dr_created_at = 0, dr_updated_at = 0\<rparr>"

lemma deletion_request_destroys_once_witness:
  "\<forall>E v rqs. sent (ds_req (handle_deletions (traced_denv E) rqs \<lparr>ds_req = v, ds_rows = [(7, pending_request)]\<rparr>))
     \<in> {sent v, sent v @ [destroy_rq ''pve1'' Qemu 101]}"
proof (intro allI)
  fix E :: "('w, 'p) denv" and v :: "('w \<times> request_log, 'p \<times> px_log) vst" and rqs
  let ?s = "\<lparr>ds_req = v, ds_rows = [(7, pending_request)]\<rparr> :: ('w \<times> request_log, 'p \<times> px_log) dst"
  have "keyed (ds_rows ?s)" by (simp add: keyed_def pending_request_def)
  from deletion_request_destroys_once [OF this, of E rqs] obtain "is" where i: "distinct is"
    "set is \<subseteq> {i. may_execute ?s i}"
    "sent (ds_req (handle_deletions (traced_denv E) rqs ?s)) = sent v @ map (\<lambda>i. the (destroy_of_row ?s i)) is"
    by auto
  have "{i. may_execute ?s i} = {7}" by (auto simp: may_execute_def row_state_def pending_request_def)
  with i(1,2) have "is = [] \<or> is = [7]" by (cases "is"; cases "tl is") auto
  moreover have "the (destroy_of_row ?s 7) = destroy_rq ''pve1'' Qemu 101"
    by (simp add: destroy_of_row_def pending_request_def record_destroy_rq_def destroy_rq_def vm_path_def kind_str_def)
  ultimately show "sent (ds_req (handle_deletions (traced_denv E) rqs ?s)) \<in> {sent v, sent v @ [destroy_rq ''pve1'' Qemu 101]}"
    using i(3) by auto
qed

text \<open>
  A request to execute changes nothing and sends nothing unless the deletion request is
  approved, its endpoint admits writes and the body names exactly its machine, node and kind; then at most the
  deletion of that machine is sent, and the state is afterwards succeeded, failed, or still executing. An
  approval takes effect only from pending or approved and with the same match.
\<close>

theorem deletion_needs_approval:
  "(case execute_deletion_request (traced_denv E) i body actor u s of (x, s') \<Rightarrow>
      same_outside s s' \<or>
      (\<exists>r r' ep. changes_row s s' i r r' \<and> dr_state r = ''approved'' \<and> target_mismatch r body = None \<and>
         gate (traced (dn_verb E)) (Some (dr_endpoint_id r)) ''endpoint_writes_disabled'' (ds_req s) = Inr ep \<and>
         dr_state r' \<in> {''executing'', ''failed'', ''succeeded''} \<and>
         sent (ds_req s') \<in> {sent (ds_req s), sent (ds_req s) @ [record_destroy_rq r]})) \<and>
   (case approve_deletion_request (traced_denv E) i body actor u s of (x, s') \<Rightarrow>
      same_outside s s' \<or>
      (\<exists>r r'. changes_row s s' i r r' \<and> dr_state r \<in> {''pending'', ''approved''} \<and> dr_state r' = ''approved'' \<and>
         target_mismatch r body = None))"
proof
  have V: "dn_verb (traced_denv E) = traced (dn_verb E)" by (simp add: traced_denv_def)
  show "case execute_deletion_request (traced_denv E) i body actor u s of (x, s') \<Rightarrow>
      same_outside s s' \<or>
      (\<exists>r r' ep. changes_row s s' i r r' \<and> dr_state r = ''approved'' \<and> target_mismatch r body = None \<and>
         gate (traced (dn_verb E)) (Some (dr_endpoint_id r)) ''endpoint_writes_disabled'' (ds_req s) = Inr ep \<and>
         dr_state r' \<in> {''executing'', ''failed'', ''succeeded''} \<and>
         sent (ds_req s') \<in> {sent (ds_req s), sent (ds_req s) @ [record_destroy_rq r]})"
    using execute_effect [OF _ V, of i body actor u s] by (fastforce split: prod.split)
next
  show "case approve_deletion_request (traced_denv E) i body actor u s of (x, s') \<Rightarrow>
      same_outside s s' \<or>
      (\<exists>r r'. changes_row s s' i r r' \<and> dr_state r \<in> {''pending'', ''approved''} \<and> dr_state r' = ''approved'' \<and>
         target_mismatch r body = None)"
    using approve_effect [of "traced_denv E" i body actor u s] by (fastforce split: prod.split)
qed


subsection \<open>What the handlers do not guarantee\<close>

text \<open>
  No request leads out of \<^verbatim>\<open>executing\<close>, where a cancelled execution stays.
\<close>

lemma executing_stays:
  assumes "keyed (ds_rows s)" "row_state s i = Some ''executing''"
  shows "row_state (handle_deletions (traced_denv E) rqs s) i = Some ''executing''"
proof -
  have step: "keyed (ds_rows (snd (handle_deletion (traced_denv E) rq t))) \<and>
      row_state (snd (handle_deletion (traced_denv E) rq t)) i = Some ''executing''"
    if k: "keyed (ds_rows t)" and e: "row_state t i = Some ''executing''" for rq t
  proof -
    obtain x t' where h: "handle_deletion (traced_denv E) rq t = (x, t')" by fastforce
    have V: "dn_verb (traced_denv E) = traced (dn_verb E)" by (simp add: traced_denv_def)
    have same: ?thesis if "same_outside t t'" using same_outsideD [OF that k] e h by simp
    have other: ?thesis if "changes_row t t' j r r'" "dr_state r \<noteq> ''executing''" for j r r'
    proof -
      note c = changes_rowD [OF that(1) k]
      have "j \<noteq> i" using c(4) e that(2) by auto
      with c e h show ?thesis by simp
    qed
    show ?thesis
    proof (cases rq)
      case (Approve j body actor u)
      with h have "approve_deletion_request (traced_denv E) j body actor u t = (x, t')" by simp
      from approve_effect [OF this] same other show ?thesis by fastforce
    next
      case (Reject j reason actor u)
      with h have "reject_deletion_request (traced_denv E) j reason actor u t = (x, t')" by simp
      from reject_effect [OF this] same other show ?thesis by (fastforce simp: state_moves_def)
    next
      case (Execute j body actor u)
      with h have "execute_deletion_request (traced_denv E) j body actor u t = (x, t')" by simp
      from execute_effect [OF this V] same other show ?thesis by fastforce
    qed
  qed
  have "keyed (ds_rows (handle_deletions (traced_denv E) rqs s)) \<and>
      row_state (handle_deletions (traced_denv E) rqs s) i = Some ''executing''"
    by (induction rqs rule: rev_induct) (use assms step in \<open>auto simp: handle_deletions_def\<close>)
  then show ?thesis by simp
qed

text \<open>
  The journal entry is written inside the \<^verbatim>\<open>try\<close> that decides the state: a machine that Proxmox has
  deleted leaves a failed request when NetBox does not take the entry.
\<close>

lemma destroyed_yet_failed:
  assumes "dispatch_destroy (dn_verb E) (dr_endpoint_id rec) (dt_kind body) (dt_vmid body) (dt_node body) (ds_req s)
      = (Inr upid, v)"
    and "open_netbox (dn_verb E) (nb_world v) (vs_px v) = Some (Exc err)"
  shows "row_state (snd (run_approved E rec body a u s)) (dr_id rec) = Some ''failed''"
proof -
  obtain r s1 where sv: "save_record E (rec\<lparr>dr_state := ''executing''\<rparr>) s = (r, s1)" by fastforce
  note sv' = save_recordE [OF sv]
  have "dispatch_destroy_journaled (dn_verb E) (dr_endpoint_id r) (dt_kind body) (dt_vmid body) (dt_node body) u a (ds_req s1)
      = (Inl (Raised (Exc no_client_error)), v)"
    using assms sv' by (auto simp: dispatch_destroy_journaled_def write_deletion_request_journal_def same_target_def Let_def)
  then have "snd (run_approved E rec body a u s) = snd (save_record E (r\<lparr>dr_state := ''failed''\<rparr>) (s1\<lparr>ds_req := v\<rparr>))"
    by (auto simp: run_approved_def sv split: prod.split)
  with sv'(3) show ?thesis by (simp add: save_record_def row_state_def same_target_def Let_def)
qed

text \<open>
  Between the check of the state and its change to \<^verbatim>\<open>executing\<close> the handler awaits: two executions that both
  read an approved request both destroy, and so does one whose request was rejected in between.
\<close>

lemma run_approved_sends:
  assumes "dn_verb E = traced V" "\<And>w p. endpoint_row V (dr_endpoint_id rec) w p = Some ep" "ep_allow_writes ep"
    and "\<And>w p. fst (open_proxmox V ep w p) = None"
  shows "sent (ds_req (snd (run_approved E rec body a u s)))
    = sent (ds_req s) @ [destroy_rq (dt_node body) (dt_kind body) (dt_vmid body)]"
proof -
  obtain r s1 where sv: "save_record E (rec\<lparr>dr_state := ''executing''\<rparr>) s = (r, s1)" by fastforce
  note sv' = save_recordE [OF sv]
  let ?t = "ds_req s1"
  have row: "endpoint_row (traced V) (dr_endpoint_id r) (nb_world ?t) (vs_px ?t) = Some ep"
    using assms(2) sv'(3) by (cases "nb_world ?t"; cases "vs_px ?t") (auto simp: traced_def same_target_def)
  then have g: "gate (traced V) (Some (dr_endpoint_id r)) ''endpoint_writes_disabled'' ?t = Inr ep"
    using assms(3) by (simp add: gate_def)
  obtain e p where o': "open_proxmox (traced V) ep (nb_world ?t) (vs_px ?t) = (e, p)" by (meson surj_pair)
  then have e: "e = None"
    using assms(4) by (cases "nb_world ?t"; cases "vs_px ?t")
      (auto simp: traced_def split: prod.splits, metis fst_conv)
  obtain out v where s: "px_send (traced V) (destroy_rq (dt_node body) (dt_kind body) (dt_vmid body)) (?t\<lparr>vs_px := p\<rparr>) = (out, v)"
    by fastforce
  obtain y v1 where d: "dispatch_destroy (traced V) (dr_endpoint_id r) (dt_kind body) (dt_vmid body) (dt_node body) ?t = (y, v1)"
    by fastforce
  have "v1 = v" using d g o' e s by (auto simp: dispatch_destroy_def split: option.splits sum.splits)
  with sent_send [OF s] sent_open [OF o'] have
    v1: "sent v1 = sent (ds_req s) @ [destroy_rq (dt_node body) (dt_kind body) (dt_vmid body)]"
    using sv'(1) by simp
  obtain z v2 where j: "dispatch_destroy_journaled (traced V) (dr_endpoint_id r) (dt_kind body) (dt_vmid body) (dt_node body)
      u a ?t = (z, v2)" by fastforce
  with d have "vs_px v2 = vs_px v1"
    unfolding dispatch_destroy_journaled_def Let_def by (auto split: sum.splits prod.splits dest!: write_journal_px)
  moreover have "ds_req (snd (run_approved E rec body a u s)) = v2"
    using sv j assms(1) by (auto simp: run_approved_def save_record_def Let_def split: sum.split del_exc.split base_exc.split)
  ultimately show ?thesis using v1 sent_px_only by metis
qed

lemma overlapping_executions_destroy_twice:
  assumes "dn_verb E = traced V" "\<And>w p. endpoint_row V (dr_endpoint_id rec) w p = Some ep" "ep_allow_writes ep"
    and "\<And>w p. fst (open_proxmox V ep w p) = None"
  shows "sent (ds_req (snd (run_approved E rec body b u' (snd (run_approved E rec body a u s)))))
    = sent (ds_req s) @ replicate 2 (destroy_rq (dt_node body) (dt_kind body) (dt_vmid body))"
  using run_approved_sends [OF assms, where s = "snd (run_approved E rec body a u s)"]
    run_approved_sends [OF assms, where s = s]
  by (simp add: numeral_2_eq_2)

end
