(* ===== verification/Firewall_Intent.thy ===== *)
theory Firewall_Intent
  imports Intent_Dispatch
begin

text \<open>
  Firewall intents (\<^verbatim>\<open>services/firewall_intent.py\<close>): the table from an action to a method and a path, and
  the write through \<^verbatim>\<open>_firewall_write\<close> of \<^verbatim>\<open>routes/proxmox/firewall.py\<close> with its own gate. A \<^verbatim>\<open>ValueError\<close> is
  \<open>Inl\<close> its text. The status code of the SDK's \<^verbatim>\<open>ResourceException\<close> is a function of the exception; closing
  the session has no effect here. The table of recorded intents is a list beside the state of the verb routes.
\<close>

record firewall_intent =
  fi_action :: string
  fi_zone :: "string option"
  fi_node :: "string option"
  fi_vmid :: "int option"
  fi_vm_type :: "vm_kind option"
  fi_vnet :: "string option"
  fi_group :: "string option"
  fi_pos :: "int option"
  fi_name :: "string option"
  fi_cidr :: "string option"
  fi_body :: pyobj
  fi_rollback :: pyobj

definition opt_empty :: "string option \<Rightarrow> bool" where
  "opt_empty v = (v \<in> {None, Some []})"

definition fw_zone :: "firewall_intent \<Rightarrow> string" where
  "fw_zone p = (if opt_empty (fi_zone p) then ''datacenter'' else the (fi_zone p))"


subsection \<open>Methods and paths\<close>

definition vm_base :: "firewall_intent \<Rightarrow> string \<Rightarrow> string + string" where
  "vm_base p zone =
     (if opt_empty (fi_node p) \<or> fi_vmid p = None then Inl (zone @ '' firewall intent requires node and vmid'')
      else
        (let vm_type = (if zone = ''vm_qemu'' then Qemu else Lxc) in
         case fi_vm_type p of
           Some k \<Rightarrow>
             if k \<noteq> vm_type then
               Inl (''vm_type '' @ str_repr (kind_str k) @ '' does not match firewall zone '' @ str_repr zone)
             else Inr (''nodes/'' @ the (fi_node p) @ ''/'' @ kind_str vm_type @ ''/'' @ int_str (the (fi_vmid p)) @ ''/firewall'')
         | None \<Rightarrow> Inr (''nodes/'' @ the (fi_node p) @ ''/'' @ kind_str vm_type @ ''/'' @ int_str (the (fi_vmid p)) @ ''/firewall'')))"

definition rule_base :: "firewall_intent \<Rightarrow> string \<Rightarrow> string + string" where
  "rule_base p zone =
     (if zone = ''datacenter'' then Inr ''cluster/firewall/rules''
      else if zone = ''security_group'' then
        (if opt_empty (fi_group p) then Inl ''security_group rule intent requires group''
         else Inr (''cluster/firewall/groups/'' @ the (fi_group p)))
      else if zone = ''node'' then
        (if opt_empty (fi_node p) then Inl ''node rule intent requires node''
         else Inr (''nodes/'' @ the (fi_node p) @ ''/firewall/rules''))
      else if zone \<in> {''vm_qemu'', ''vm_lxc''} then map_sum id (\<lambda>b. b @ ''/rules'') (vm_base p zone)
      else if zone = ''vnet'' then
        (if opt_empty (fi_vnet p) then Inl ''vnet rule intent requires vnet''
         else Inr (''cluster/sdn/vnets/'' @ the (fi_vnet p) @ ''/firewall/rules''))
      else Inl (''Unsupported firewall rule zone: '' @ zone))"

definition scoped_base :: "firewall_intent \<Rightarrow> string \<Rightarrow> string \<Rightarrow> string + string" where
  "scoped_base p zone resource =
     (if zone = ''datacenter'' then Inr (''cluster/firewall/'' @ resource)
      else if zone = ''node'' \<and> resource = ''options'' then
        (if opt_empty (fi_node p) then Inl ''node options intent requires node''
         else Inr (''nodes/'' @ the (fi_node p) @ ''/firewall/options''))
      else if zone \<in> {''vm_qemu'', ''vm_lxc''} then map_sum id (\<lambda>b. b @ ''/'' @ resource) (vm_base p zone)
      else Inl (resource @ '' is not supported for firewall zone '' @ zone))"

text \<open>Method, path, whether to probe first, and the reason given when the surface is missing.\<close>

type_synonym fw_target = "string \<times> string \<times> bool \<times> string"

definition not_supported :: string where
  "not_supported = ''firewall_write_not_supported''"

definition unsupported_reason :: "string \<Rightarrow> string" where
  "unsupported_reason zone = (if zone = ''vnet'' then ''vnet_firewall_not_supported'' else not_supported)"

definition rule_target :: "firewall_intent \<Rightarrow> string \<Rightarrow> string + fw_target" where
  "rule_target p zone =
     (case rule_base p zone of
        Inl e \<Rightarrow> Inl e
      | Inr base \<Rightarrow>
          if py_endswith ''.create'' (fi_action p) then Inr (''POST'', base, zone = ''vnet'', unsupported_reason zone)
          else
            (case fi_pos p of
               None \<Rightarrow> Inl (fi_action p @ '' requires pos'')
             | Some pos \<Rightarrow>
                 Inr (if py_endswith ''.update'' (fi_action p) then ''PUT'' else ''DELETE'',
                      base @ ''/'' @ int_str pos, zone = ''vnet'', unsupported_reason zone)))"

definition ipset_entry_target :: "firewall_intent \<Rightarrow> string \<Rightarrow> string + fw_target" where
  "ipset_entry_target p zone =
     (if opt_empty (fi_name p) then Inl (fi_action p @ '' requires name'')
      else
        (case scoped_base p zone ''ipset'' of
           Inl e \<Rightarrow> Inl e
         | Inr scope \<Rightarrow>
             (let base = scope @ ''/'' @ the (fi_name p) in
              if py_endswith ''.create'' (fi_action p) then Inr (''POST'', base, False, not_supported)
              else if opt_empty (fi_cidr p) then Inl (fi_action p @ '' requires cidr'')
              else Inr (if py_endswith ''.update'' (fi_action p) then ''PUT'' else ''DELETE'',
                        base @ ''/'' @ the (fi_cidr p), False, not_supported))))"

definition ipset_target :: "firewall_intent \<Rightarrow> string \<Rightarrow> string + fw_target" where
  "ipset_target p zone =
     (case scoped_base p zone ''ipset'' of
        Inl e \<Rightarrow> Inl e
      | Inr base \<Rightarrow>
          if py_endswith ''.create'' (fi_action p) then Inr (''POST'', base, False, not_supported)
          else if opt_empty (fi_name p) then Inl (fi_action p @ '' requires name'')
          else Inr (''DELETE'', base @ ''/'' @ the (fi_name p), False, not_supported))"

definition alias_target :: "firewall_intent \<Rightarrow> string \<Rightarrow> string + fw_target" where
  "alias_target p zone =
     (if opt_empty (fi_name p) then Inl (fi_action p @ '' requires name'')
      else
        (case scoped_base p zone ''aliases'' of
           Inl e \<Rightarrow> Inl e
         | Inr base \<Rightarrow>
             if py_endswith ''.create'' (fi_action p) then Inr (''POST'', base, False, not_supported)
             else Inr (if py_endswith ''.delete'' (fi_action p) then ''DELETE'' else ''PUT'',
                       base @ ''/'' @ the (fi_name p), False, not_supported)))"

definition path_for :: "firewall_intent \<Rightarrow> string + fw_target" where
  "path_for p =
     (let action = fi_action p; zone = fw_zone p in
      if action = ''firewall.group.create'' then Inr (''POST'', ''cluster/firewall/groups'', False, not_supported)
      else if action = ''firewall.group.delete'' then
        (if opt_empty (fi_group p) then Inl ''firewall.group.delete requires group''
         else Inr (''DELETE'', ''cluster/firewall/groups/'' @ the (fi_group p), False, not_supported))
      else if py_startswith ''firewall.rule.'' action then rule_target p zone
      else if py_startswith ''firewall.ipset.'' action then
        (if py_startswith ''firewall.ipset.entry.'' action then ipset_entry_target p zone else ipset_target p zone)
      else if py_startswith ''firewall.alias.'' action then alias_target p zone
      else if action = ''firewall.options.update'' then
        map_sum id (\<lambda>base. (''PUT'', base, False, not_supported)) (scoped_base p zone ''options'')
      else Inl (''Unsupported firewall intent action: '' @ action))"


subsection \<open>The write\<close>

record fw_response =
  fr_status :: string
  fr_endpoint_id :: int
  fr_reason :: "string option"
  fr_detail :: "string option"
  fr_task_id :: "string option"

record firewall_row =
  fx_endpoint_id :: int
  fx_actor :: "string option"
  fx_action :: string
  fx_state :: string
  fx_payload :: pyval
  fx_recorded_at :: seconds

record ('w, 'p) ienv =
  ie_verb :: "('w, 'p) venv"
  ie_yaml :: "pyobj \<Rightarrow> string"
  ie_resource_status :: "base_exc \<Rightarrow> int option"
  ie_time :: "'w \<Rightarrow> 'p \<Rightarrow> seconds"
  ie_expose_errors :: bool

record ('w, 'p) ist =
  is_req :: "('w, 'p) vst"
  is_rows :: "firewall_row list"

type_synonym ('w, 'p, 'a) intent_op = "('w, 'p) ist \<Rightarrow> (base_exc + 'a) \<times> ('w, 'p) ist"

definition in_request :: "('w, 'p, 'a) verb_op \<Rightarrow> ('w, 'p, 'a) intent_op" where
  "in_request m s = (case m (is_req s) of (r, v) \<Rightarrow> (r, s\<lparr>is_req := v\<rparr>))"

definition require_actor :: "string option \<Rightarrow> base_exc + string" where
  "require_actor actor =
     (let value = (case actor of None \<Rightarrow> [] | Some a \<Rightarrow> py_strip a)
      in if value = [] then
           Inl (http_exception 422 (py_str (PDict [(''reason'', PStr ''actor_required''),
             (''detail'', PStr ''Firewall writes require X-Proxbox-Actor.'')])))
         else Inr value)"

definition firewall_gate :: "('w, 'p) venv \<Rightarrow> int option \<Rightarrow> ('w, 'p) vst \<Rightarrow> pyobj + endpoint" where
  "firewall_gate V endpoint_id s =
     (case endpoint_id of
        None \<Rightarrow> Inl [(''reason'', PStr ''endpoint_id_required''),
          (''detail'', PStr ''Firewall writes require an explicit endpoint_id query parameter.'')]
      | Some i \<Rightarrow>
          (case endpoint_row V i (nb_world s) (vs_px s) of
             None \<Rightarrow> Inl [(''reason'', PStr ''endpoint_not_found''),
               (''detail'', PStr (''No ProxmoxEndpoint with id='' @ int_str i @ ''.''))]
           | Some ep \<Rightarrow>
               if \<not> ep_allow_writes ep then
                 Inl [(''reason'', PStr ''writes_disabled_for_endpoint''),
                   (''detail'', PStr (''Firewall writes are disabled on this endpoint. Enable '' @
                      ''ProxmoxEndpoint.allow_writes before pushing firewall changes.'')),
                   (''endpoint_id'', PInt (ep_id ep))]
               else Inr ep))"

definition upid_text :: "pyval \<Rightarrow> string option" where
  "upid_text v = (case v of PStr t \<Rightarrow> if py_startswith ''UPID:'' t then Some t else None | _ \<Rightarrow> None)"

definition task_id_of :: "pyval \<Rightarrow> string option" where
  "task_id_of raw =
     (case raw of
        PDict d \<Rightarrow> upid_text (py_or (py_or (obj_get d ''upid'') (obj_get d ''task'')) (obj_get d ''data''))
      | _ \<Rightarrow> upid_text raw)"

definition write_failure :: "string \<Rightarrow> endpoint \<Rightarrow> pyobj \<Rightarrow> base_exc \<Rightarrow> base_exc" where
  "write_failure reason ep extra e =
     http_exception 502 (py_str (PDict ([(''reason'', PStr reason), (''detail'', PStr (base_text e)),
       (''endpoint_id'', PInt (ep_id ep))] @ extra)))"

text \<open>The request, after the probe where there is one.\<close>

definition probe_and_write :: "('w, 'p) venv \<Rightarrow> bool \<Rightarrow> px_request \<Rightarrow> ('w, 'p, pyval) verb_op" where
  "probe_and_write V probe rq =
     (if probe then bind_op (px_try V (px_get (px_path rq) [])) (\<lambda>_. px_try V rq) else px_try V rq)"

definition firewall_write ::
  "('w, 'p) ienv \<Rightarrow> int option \<Rightarrow> string option \<Rightarrow> fw_target \<Rightarrow> pyobj \<Rightarrow> ('w, 'p, pyobj + fw_response) verb_op" where
  "firewall_write E endpoint_id actor target body s =
     (case target of (verb, path, probe, reason) \<Rightarrow>
      case require_actor actor of
        Inl e \<Rightarrow> (Inl e, s)
      | Inr actor_value \<Rightarrow>
          (case firewall_gate (ie_verb E) endpoint_id s of
             Inl refused \<Rightarrow> (Inr (Inl refused), s)
           | Inr ep \<Rightarrow>
               try_except (open_try (ie_verb E) ep)
                 (\<lambda>e s. (Inl (write_failure ''proxmox_session_unreachable'' ep [] e), s))
                 (\<lambda>_. try_except
                    (probe_and_write (ie_verb E) probe \<lparr>px_method = verb, px_path = [path], px_params = body\<rparr>)
                    (\<lambda>e s. if probe \<and> ie_resource_status E e \<in> {Some 404, Some 501} then
                        (Inr (Inr \<lparr>fr_status = ''skipped'', fr_endpoint_id = ep_id ep, fr_reason = Some reason,
                           fr_detail = Some (''Upstream Proxmox returned HTTP '' @
                             int_str (the (ie_resource_status E e)) @ ''.''), fr_task_id = None\<rparr>), s)
                      else
                        (Inl (write_failure ''proxmox_firewall_write_failed'' ep [(''path'', PStr path)] e), s))
                    (\<lambda>raw s. (Inr (Inr \<lparr>fr_status = (if verb = ''DELETE'' then ''deleted'' else ''pushed''),
                       fr_endpoint_id = ep_id ep, fr_reason = None, fr_detail = None, fr_task_id = task_id_of raw\<rparr>), s))) s))"


subsection \<open>Applying\<close>

definition firewall_dump :: "firewall_intent \<Rightarrow> pyval" where
  "firewall_dump p = PDict
     [(''action'', PStr (fi_action p)), (''zone'', opt_dump (fi_zone p) PStr), (''node'', opt_dump (fi_node p) PStr),
      (''vmid'', opt_dump (fi_vmid p) PInt), (''vm_type'', opt_dump (fi_vm_type p) (\<lambda>k. PStr (kind_str k))),
      (''vnet'', opt_dump (fi_vnet p) PStr), (''group'', opt_dump (fi_group p) PStr), (''pos'', opt_dump (fi_pos p) PInt),
      (''name'', opt_dump (fi_name p) PStr), (''cidr'', opt_dump (fi_cidr p) PStr), (''body'', PDict (fi_body p)),
      (''rollback'', PDict (fi_rollback p))]"

definition fw_vmid :: "firewall_intent \<Rightarrow> int" where
  "fw_vmid p = (case fi_vmid p of None \<Rightarrow> 0 | Some i \<Rightarrow> i)"

definition firewall_item ::
  "intent_run \<Rightarrow> string \<Rightarrow> firewall_intent \<Rightarrow> string \<Rightarrow> string option \<Rightarrow> string \<Rightarrow> string option \<Rightarrow> apply_item" where
  "firewall_item c op p status reason message upid =
     intent_item c (fw_vmid p) op ''firewall'' status reason message upid"

definition text_or_default :: "pyval \<Rightarrow> string \<Rightarrow> string" where
  "text_or_default v d = (if truthy v then py_str v else d)"

definition record_firewall_intent ::
  "('w, 'p) ienv \<Rightarrow> intent_run \<Rightarrow> firewall_intent \<Rightarrow> string \<Rightarrow> ('w, 'p) ist \<Rightarrow> ('w, 'p) ist" where
  "record_firewall_intent E c p state s =
     s\<lparr>is_rows := is_rows s @
       [\<lparr>fx_endpoint_id = (case ec_endpoint_id (ir_ctx c) of None \<Rightarrow> 0 | Some i \<Rightarrow> i), fx_actor = ir_actor c,
         fx_action = fi_action p, fx_state = state, fx_payload = firewall_dump p,
         fx_recorded_at = ie_time E (nb_world (is_req s)) (vs_px (is_req s))\<rparr>]\<rparr>"

definition firewall_failure :: "intent_run \<Rightarrow> string \<Rightarrow> firewall_intent \<Rightarrow> string \<Rightarrow> apply_item" where
  "firewall_failure c op p error =
     firewall_item c op p ''failed'' (Some ''firewall_apply_failed'') (scrub_with (firewall_dump p) error) None"

definition apply_firewall_diff ::
  "('w, 'p) ienv \<Rightarrow> intent_run \<Rightarrow> string \<Rightarrow> firewall_intent \<Rightarrow> ('w, 'p, apply_item) intent_op" where
  "apply_firewall_diff E c op p s =
     (case path_for p of
        Inl e \<Rightarrow> (Inr (firewall_failure c op p e), s)
      | Inr target \<Rightarrow>
          (case in_request (firewall_write E (ec_endpoint_id (ir_ctx c)) (ir_actor c) target
                  (if fst target \<noteq> ''DELETE'' then fi_body p else [])) s of
             (Inl Cancelled, s') \<Rightarrow> (Inl Cancelled, s')
           | (Inl e, s') \<Rightarrow> (Inr (firewall_failure c op p (base_text e)), s')
           | (Inr (Inl body), s') \<Rightarrow>
               (Inr (firewall_item c op p ''failed''
                  (Some (text_or_default (obj_get body ''reason'') ''firewall_apply_failed''))
                  (text_or_default (obj_get body ''detail'') (py_str (PDict body))) None), s')
           | (Inr (Inr r), s') \<Rightarrow>
               (Inr (firewall_item c op p (if fr_status r = ''skipped'' then ''skipped'' else ''succeeded'') (fr_reason r)
                  (case fr_detail r of Some d \<Rightarrow> d | None \<Rightarrow> fi_action p @ '' '' @ fr_status r) (fr_task_id r)),
                record_firewall_intent E c p (fr_status r) s')))"


subsection \<open>Actions outside the table\<close>

text \<open>
  A rule action that is neither a create nor an update is a delete, whatever its name, and every action on
  an IP set but its creation deletes the set.
\<close>

lemma other_rule_action_deletes:
  "path_for \<lparr>fi_action = ''firewall.rule.move'', fi_zone = None, fi_node = None, fi_vmid = None, fi_vm_type = None,
     fi_vnet = None, fi_group = None, fi_pos = Some 3, fi_name = None, fi_cidr = None, fi_body = body, fi_rollback = rb\<rparr> =
   Inr (''DELETE'', ''cluster/firewall/rules/3'', False, not_supported)"
  by code_simp

lemma ipset_update_deletes:
  "path_for \<lparr>fi_action = ''firewall.ipset.update'', fi_zone = None, fi_node = None, fi_vmid = None, fi_vm_type = None,
     fi_vnet = None, fi_group = None, fi_pos = None, fi_name = Some ''blocked'', fi_cidr = None, fi_body = body,
     fi_rollback = rb\<rparr> =
   Inr (''DELETE'', ''cluster/firewall/ipset/blocked'', False, not_supported)"
  by code_simp

end
