(* ===== verification/Intent_Apply.thy ===== *)
theory Intent_Apply
  imports Firewall_Intent
begin

text \<open>
  \<^verbatim>\<open>POST /intent/plan\<close> and \<^verbatim>\<open>POST /intent/apply\<close> (\<^verbatim>\<open>routes/intent/plan.py\<close>, \<^verbatim>\<open>routes/intent/apply.py\<close>): the diffs of a
  branch one after the other, each to its dispatcher, and what the run may send to Proxmox. The setting
  \<^verbatim>\<open>expose_internal_errors\<close> is a field of the environment. The payload of a diff is one of the three
  classes whatever its kind says; the checks of \<^verbatim>\<open>isinstance\<close> are branches. The only \<^verbatim>\<open>HTTPException\<close>s below
  the handler are those of the firewall write, which \<^verbatim>\<open>apply_firewall_diff\<close> catches, so its clause for them is
  not reached.
\<close>

datatype diff_op = Create_Diff | Update_Diff | Delete_Diff

datatype diff_kind = Guest_Diff vm_kind | Firewall_Diff

datatype intent_payload = Vm_Payload qemu_intent | Lxc_Payload lxc_intent | Firewall_Payload firewall_intent

record apply_diff =
  ad_op :: diff_op
  ad_kind :: diff_kind
  ad_netbox_id :: "int option"
  ad_payload :: intent_payload

record intent_request =
  it_branch_id :: "int option"
  it_actor :: "string option"
  it_run_uuid :: string
  it_diffs :: "apply_diff list"

definition op_str :: "diff_op \<Rightarrow> string" where
  "op_str op = (case op of Create_Diff \<Rightarrow> ''create'' | Update_Diff \<Rightarrow> ''update'' | Delete_Diff \<Rightarrow> ''delete'')"

definition diff_kind_str :: "diff_kind \<Rightarrow> string" where
  "diff_kind_str k = (case k of Guest_Diff v \<Rightarrow> kind_str v | Firewall_Diff \<Rightarrow> ''firewall'')"


subsection \<open>Plan\<close>

record plan_diff =
  pd_op :: diff_op
  pd_kind :: string
  pd_netbox_id :: "int option"
  pd_extra :: pyobj

record plan_verdict =
  pv_netbox_id :: "int option"
  pv_op :: string
  pv_verdict :: string
  pv_reason :: string
  pv_message :: string

record plan_answer =
  pa_permitted :: bool
  pa_verdicts :: "plan_verdict list"
  pa_summary :: string

text \<open>The attribute \<^verbatim>\<open>type\<close> or \<^verbatim>\<open>action\<close> is an extra field of the diff.\<close>

definition plan_action :: "plan_diff \<Rightarrow> pyval" where
  "plan_action d = py_or (obj_get (pd_extra d) ''type'') (obj_get (pd_extra d) ''action'')"

definition is_firewall_plan_diff :: "plan_diff \<Rightarrow> bool" where
  "is_firewall_plan_diff d =
     (pd_kind d = ''firewall'' \<or> py_startswith ''firewall.'' (py_str (py_or (plan_action d) (PStr []))))"

definition plan_firewall_diff :: "plan_diff \<Rightarrow> plan_verdict" where
  "plan_firewall_diff d =
     \<lparr>pv_netbox_id = pd_netbox_id d, pv_op = op_str (pd_op d), pv_verdict = ''warning'', pv_reason = ''firewall_plan_preview'',
      pv_message = ''Firewall action '' @ py_repr (py_or (plan_action d) (PStr (op_str (pd_op d)))) @
        '' will be re-read and write-gated during /intent/apply.''\<rparr>"

definition verdict_for :: "plan_diff \<Rightarrow> plan_verdict" where
  "verdict_for d =
     (if is_firewall_plan_diff d then plan_firewall_diff d
      else if pd_op d = Delete_Diff then
        \<lparr>pv_netbox_id = pd_netbox_id d, pv_op = op_str (pd_op d), pv_verdict = ''warning'',
         pv_reason = ''delete_routed_to_deletion_request'',
         pv_message = ''DELETE diffs land in a DeletionRequest for separate '' @
           ''authorization (Sub-PR H). The merge will not call Proxmox destroy.''\<rparr>
      else
        \<lparr>pv_netbox_id = pd_netbox_id d, pv_op = op_str (pd_op d), pv_verdict = ''permitted'', pv_reason = ''default_permit'',
         pv_message = ''Plan-time validation accepted. Per-op probes land in Sub-PRs F/G/K.''\<rparr>)"

definition count_op :: "diff_op \<Rightarrow> plan_diff list \<Rightarrow> string" where
  "count_op op ds = nat_str (length (filter (\<lambda>d. pd_op d = op) ds))"

text \<open>The summary of an empty branch has a dash outside ASCII, written here as a hyphen.\<close>

definition plan_intent :: "plan_diff list \<Rightarrow> plan_answer" where
  "plan_intent ds =
     (let verdicts = map verdict_for ds
      in \<lparr>pa_permitted = list_all (\<lambda>v. pv_verdict v \<noteq> ''blocked'') verdicts, pa_verdicts = verdicts,
          pa_summary =
            (if ds = [] then ''No VM/LXC diffs in this branch - merge will be a no-op for Proxmox.''
             else count_op Create_Diff ds @ '' create / '' @ count_op Update_Diff ds @ '' update / '' @
               count_op Delete_Diff ds @ '' delete diff(s) classified.'')\<rparr>)"


subsection \<open>Apply\<close>

definition overall :: "apply_item list \<Rightarrow> string" where
  "overall items =
     (if items = [] then ''no_op''
      else if list_all (\<lambda>i. ai_status i \<in> {''succeeded'', ''skipped''}) items then ''succeeded''
      else if list_all (\<lambda>i. ai_status i = ''failed'') items then ''failed''
      else ''partial'')"

definition payload_vmid :: "intent_payload \<Rightarrow> int" where
  "payload_vmid p = (case p of Vm_Payload q \<Rightarrow> vi_vmid q | Lxc_Payload l \<Rightarrow> vi_vmid l | Firewall_Payload f \<Rightarrow> fw_vmid f)"

definition payload_failure :: "intent_run \<Rightarrow> apply_diff \<Rightarrow> string \<Rightarrow> apply_item" where
  "payload_failure c d message =
     intent_item c (payload_vmid (ad_payload d)) (op_str (ad_op d)) (diff_kind_str (ad_kind d)) ''failed'' None message None"

definition run_of :: "intent_request \<Rightarrow> int option \<Rightarrow> apply_diff \<Rightarrow> intent_run" where
  "run_of rq endpoint_id d =
     \<lparr>ir_ctx = \<lparr>ec_endpoint_id = endpoint_id, ec_netbox_id = ad_netbox_id d\<rparr>, ir_actor = it_actor rq,
      ir_run_uuid = it_run_uuid rq\<rparr>"

definition answer_item :: "apply_item \<Rightarrow> ('w, 'p, apply_item) intent_op" where
  "answer_item i s = (Inr i, s)"

text \<open>One diff: its result. Deletes go to no dispatcher.\<close>

definition dispatch_diff :: "('w, 'p) ienv \<Rightarrow> intent_run \<Rightarrow> apply_diff \<Rightarrow> ('w, 'p, apply_item) intent_op" where
  "dispatch_diff E c d =
     (let V = ie_verb E; yaml = ie_yaml E in
      case (ad_kind d, ad_op d) of
        (Firewall_Diff, op) \<Rightarrow>
          (case ad_payload d of
             Firewall_Payload f \<Rightarrow> apply_firewall_diff E c (op_str op) f
           | _ \<Rightarrow> answer_item (intent_item c 0 (op_str op) ''firewall'' ''failed'' (Some ''invalid_firewall_payload'')
               ''firewall apply requires FirewallIntentPayload'' None))
      | (Guest_Diff Qemu, Create_Diff) \<Rightarrow>
          (case ad_payload d of
             Vm_Payload q \<Rightarrow> in_request (dispatch_qemu_create V yaml c q)
           | _ \<Rightarrow> answer_item (payload_failure c d ''qemu create payload requires VMIntentPayload''))
      | (Guest_Diff Lxc, Create_Diff) \<Rightarrow>
          (case ad_payload d of
             Lxc_Payload l \<Rightarrow> in_request (dispatch_lxc_create V yaml c l)
           | _ \<Rightarrow> answer_item (payload_failure c d ''lxc create payload requires LXCIntentPayload''))
      | (Guest_Diff Qemu, Update_Diff) \<Rightarrow>
          (case ad_payload d of
             Vm_Payload q \<Rightarrow> in_request (dispatch_qemu_update V yaml c q)
           | _ \<Rightarrow> answer_item (payload_failure c d ''qemu update payload requires VMIntentPayload''))
      | (Guest_Diff Lxc, Update_Diff) \<Rightarrow>
          (case ad_payload d of
             Lxc_Payload l \<Rightarrow> in_request (dispatch_lxc_update V yaml c l)
           | _ \<Rightarrow> answer_item (payload_failure c d ''lxc update payload requires LXCIntentPayload''))
      | (Guest_Diff k, Delete_Diff) \<Rightarrow>
          answer_item (intent_item c (payload_vmid (ad_payload d)) ''delete'' (kind_str k) ''not_implemented'' None
            ''DELETE goes through DeletionRequest (Sub-PRs H/I, #385/#386)'' None))"

text \<open>An update that was refused for its endpoint ends the run with the 403 of that refusal.\<close>

definition ends_run :: "apply_diff \<Rightarrow> apply_item \<Rightarrow> bool" where
  "ends_run d i =
     (ad_kind d \<noteq> Firewall_Diff \<and> ad_op d = Update_Diff \<and> ai_reason i = Some ''writes_disabled_for_endpoint'')"

fun apply_diffs ::
  "('w, 'p) ienv \<Rightarrow> intent_request \<Rightarrow> int option \<Rightarrow> apply_diff list \<Rightarrow> ('w, 'p, apply_item + apply_item list) intent_op" where
  "apply_diffs E rq endpoint_id [] s = (Inr (Inr []), s)"
| "apply_diffs E rq endpoint_id (d # ds) s =
     (case dispatch_diff E (run_of rq endpoint_id d) d s of
        (Inl e, s1) \<Rightarrow> (Inl e, s1)
      | (Inr i, s1) \<Rightarrow>
          if ends_run d i then (Inr (Inl i), s1)
          else
            (case apply_diffs E rq endpoint_id ds s1 of
               (Inr (Inr rest), s2) \<Rightarrow> (Inr (Inr (i # rest)), s2)
             | r \<Rightarrow> r))"

definition diff_dump :: "apply_diff \<Rightarrow> pyval" where
  "diff_dump d = PDict
     [(''op'', PStr (op_str (ad_op d))), (''kind'', PStr (diff_kind_str (ad_kind d))),
      (''netbox_id'', opt_dump (ad_netbox_id d) PInt),
      (''payload'', case ad_payload d of
         Vm_Payload q \<Rightarrow> qemu_dump q | Lxc_Payload l \<Rightarrow> lxc_dump l | Firewall_Payload f \<Rightarrow> firewall_dump f)]"

definition request_dump :: "intent_request \<Rightarrow> pyval" where
  "request_dump rq = PDict
     [(''branch_id'', opt_dump (it_branch_id rq) PInt), (''actor'', opt_dump (it_actor rq) PStr),
      (''run_uuid'', PStr (it_run_uuid rq)), (''diffs'', PList (map diff_dump (it_diffs rq)))]"

datatype apply_answer =
    Applied string "apply_item list"
  | Writes_Disabled "string option" string

text \<open>\<^verbatim>\<open>HTTPException\<close> 500 with its detail, or an exception that leaves the handler as it is.\<close>

datatype apply_exc = Internal_Error string | Leaves base_exc

definition apply_intent ::
  "('w, 'p) ienv \<Rightarrow> intent_request \<Rightarrow> int option \<Rightarrow> ('w, 'p) ist \<Rightarrow> (apply_exc + apply_answer) \<times> ('w, 'p) ist" where
  "apply_intent E rq endpoint_id s =
     (case apply_diffs E rq endpoint_id (it_diffs rq) s of
        (Inr (Inr items), s1) \<Rightarrow> (Inr (Applied (overall items) items), s1)
      | (Inr (Inl i), s1) \<Rightarrow> (Inr (Writes_Disabled (ai_reason i) (ai_message i)), s1)
      | (Inl Cancelled, s1) \<Rightarrow> (Inl (Leaves Cancelled), s1)
      | (Inl e, s1) \<Rightarrow>
          (let safe_error = scrub_with (request_dump rq) (base_text e);
               c = \<lparr>ir_ctx = \<lparr>ec_endpoint_id = endpoint_id, ec_netbox_id = None\<rparr>, ir_actor = it_actor rq,
                    ir_run_uuid = it_run_uuid rq\<rparr>
           in case in_request (write_intent_journal (ie_verb E) c None ''intent_apply'' ''failed'' 0 ''warning'' None
                     (Some safe_error)) s1 of
                (Inl x, s2) \<Rightarrow> (Inl (Leaves x), s2)
              | (Inr _, s2) \<Rightarrow>
                  (Inl (Internal_Error (if ie_expose_errors E then safe_error else ''internal_error'')), s2)))"


subsection \<open>What a diff may send\<close>

definition writes_of :: "px_log \<Rightarrow> px_request list" where
  "writes_of l = map fst (filter (\<lambda>(rq, out, n). is_write rq) l)"

definition read_back :: "px_log \<Rightarrow> px_request \<Rightarrow> pyval \<Rightarrow> bool" where
  "read_back l rq v = (\<exists>n. (rq, PxReturn v, n) \<in> set l)"

text \<open>
  An update goes to a guest its node still lists, with the difference between the payload and the
  configuration just read, and if the difference needs a stopped machine the machine was not running.
\<close>

definition update_allowed ::
  "(pyobj \<Rightarrow> string) \<Rightarrow> vm_kind \<Rightarrow> 'a vm_intent_scheme \<Rightarrow> px_log \<Rightarrow> px_request \<Rightarrow> bool" where
  "update_allowed yaml k p l rq =
     (\<exists>guests config status delta.
        read_back l (guest_list_rq (vi_node p) k) guests \<and>
        find_vmid_record (sequence_from_response guests) (vi_vmid p) (kind_str k) \<noteq> None \<and>
        read_back l (guest_config_rq (vi_node p) k (vi_vmid p)) config \<and>
        delta = build_update_delta yaml k p (mapping_from_response config) \<and> delta \<noteq> [] \<and>
        read_back l (guest_status_rq (vi_node p) k (vi_vmid p)) status \<and>
        (requires_vm_stop k delta \<longrightarrow> \<not> status_is_running status) \<and>
        rq = update_guest_rq (vi_node p) k (vi_vmid p) delta)"

definition request_for :: "(pyobj \<Rightarrow> string) \<Rightarrow> apply_diff \<Rightarrow> px_log \<Rightarrow> px_request \<Rightarrow> bool" where
  "request_for yaml d l rq =
     (case (ad_kind d, ad_op d, ad_payload d) of
        (Firewall_Diff, _, Firewall_Payload f) \<Rightarrow>
          (\<exists>verb path probe reason. path_for f = Inr (verb, path, probe, reason) \<and>
             rq = \<lparr>px_method = verb, px_path = [path], px_params = (if verb \<noteq> ''DELETE'' then fi_body f else [])\<rparr>)
      | (Guest_Diff Qemu, Create_Diff, Vm_Payload q) \<Rightarrow>
          vi_name q \<noteq> None \<and> rq = create_guest_rq (vi_node q) Qemu (build_qemu_create_params yaml q)
      | (Guest_Diff Lxc, Create_Diff, Lxc_Payload p) \<Rightarrow>
          vi_name p \<noteq> None \<and> li_ostemplate p \<noteq> None \<and> rq = create_guest_rq (vi_node p) Lxc (build_lxc_create_params yaml p)
      | (Guest_Diff Qemu, Update_Diff, Vm_Payload q) \<Rightarrow> update_allowed yaml Qemu q l rq
      | (Guest_Diff Lxc, Update_Diff, Lxc_Payload p) \<Rightarrow> update_allowed yaml Lxc p l rq
      | _ \<Rightarrow> False)"

definition admitted :: "('w, 'p) venv \<Rightarrow> int option \<Rightarrow> bool" where
  "admitted V endpoint_id =
     (\<exists>i ep w p. endpoint_id = Some i \<and> endpoint_row V i w p = Some ep \<and> ep_allow_writes ep)"

definition diff_allowed :: "('w, 'p) ienv \<Rightarrow> int option \<Rightarrow> apply_diff \<Rightarrow> px_log \<Rightarrow> bool" where
  "diff_allowed E endpoint_id d l =
     (writes_of l = [] \<or>
      (\<exists>rq. writes_of l = [rq] \<and> admitted (ie_verb E) endpoint_id \<and> request_for (ie_yaml E) d l rq))"

definition item_fits :: "apply_diff \<Rightarrow> apply_item \<Rightarrow> px_log \<Rightarrow> bool" where
  "item_fits d i l =
     (ai_netbox_id i = ad_netbox_id d \<and>
      (ai_status i = ''succeeded'' \<longrightarrow> writes_of l \<noteq> []) \<and>
      (ai_status i = ''not_implemented'' \<longrightarrow> l = []) \<and>
      (ai_status i = ''skipped'' \<and> ad_kind d \<noteq> Firewall_Diff \<longrightarrow> writes_of l = []))"

definition traced_ienv :: "('w, 'p) ienv \<Rightarrow> ('w \<times> request_log, 'p \<times> px_log) ienv" where
  "traced_ienv E =
     \<lparr>ie_verb = traced (ie_verb E), ie_yaml = ie_yaml E, ie_resource_status = ie_resource_status E,
      ie_time = (\<lambda>(w, l) (p, t). ie_time E w p), ie_expose_errors = ie_expose_errors E\<rparr>"

end
