(* ===== verification/Intent_Safety.thy ===== *)
theory Intent_Safety
  imports Intent_Apply
begin

text \<open>
  What a run of intents sends to Proxmox. Every operation extends the log of Proxmox calls: \<open>emits m Q\<close> says
  that \<open>Q\<close> holds of the result of \<open>m\<close> and of the calls it added, and one rule for each construct of the
  dispatchers carries it through them. The property puts the extensions of the diffs together.
\<close>

lemma writes_of_append [simp]: "writes_of (l @ l') = writes_of l @ writes_of l'"
  by (simp add: writes_of_def)

lemma writes_of_Nil [simp]: "writes_of [] = []"
  by (simp add: writes_of_def)

lemma writes_of_Cons [simp]:
  "writes_of ((rq, out, n) # l) = (if is_write rq then rq # writes_of l else writes_of l)"
  by (simp add: writes_of_def)

lemma guest_reads [simp]:
  "\<not> is_write (guest_list_rq node k)" "\<not> is_write (guest_config_rq node k i)" "\<not> is_write (guest_status_rq node k i)"
  by (simp_all add: guest_list_rq_def guest_config_rq_def guest_status_rq_def)

lemma guest_writes [simp]: "is_write (create_guest_rq node k ps)" "is_write (update_guest_rq node k i d)"
  by (simp_all add: create_guest_rq_def update_guest_rq_def px_put_def is_write_def px_post_def)

lemma read_back_Cons [simp]:
  "read_back ((rq', out, n) # l) rq v \<longleftrightarrow> (rq' = rq \<and> out = PxReturn v) \<or> read_back l rq v"
  by (auto simp: read_back_def)


subsection \<open>What an operation emits\<close>

definition emits ::
  "('w, 'p \<times> px_log, 'a) verb_op \<Rightarrow> (base_exc + 'a \<Rightarrow> px_log \<Rightarrow> bool) \<Rightarrow> bool" where
  "emits m Q = (\<forall>s. case m s of (r, s') \<Rightarrow> \<exists>l. px_log s' = px_log s @ l \<and> Q r l)"

lemma emitsI:
  assumes "\<And>s r s'. m s = (r, s') \<Longrightarrow> \<exists>l. px_log s' = px_log s @ l \<and> Q r l"
  shows "emits m Q"
  using assms by (simp add: emits_def split: prod.split)

lemma emitsD:
  assumes "emits m Q" "m s = (r, s')"
  obtains l where "px_log s' = px_log s @ l" "Q r l"
proof -
  from assms(1) have "case m s of (r, s') \<Rightarrow> \<exists>l. px_log s' = px_log s @ l \<and> Q r l" by (simp add: emits_def)
  with assms(2) that show thesis by auto
qed

lemma emits_mono:
  assumes "emits m P" "\<And>r l. P r l \<Longrightarrow> Q r l"
  shows "emits m Q"
proof (rule emitsI)
  fix s r s' assume "m s = (r, s')"
  from emitsD [OF assms(1) this] obtain l where "px_log s' = px_log s @ l" "P r l" .
  with assms(2) show "\<exists>l. px_log s' = px_log s @ l \<and> Q r l" by blast
qed

lemma emits_return: "Q (Inr v) [] \<Longrightarrow> emits (\<lambda>s. (Inr v, s)) Q"
  by (simp add: emits_def)

lemma emits_raise: "Q (Inl e) [] \<Longrightarrow> emits (\<lambda>s. (Inl e, s)) Q"
  by (simp add: emits_def)

lemma emits_bind:
  assumes "emits m P" "\<And>e l. P (Inl e) l \<Longrightarrow> Q (Inl e) l"
    and "\<And>v l. P (Inr v) l \<Longrightarrow> emits (f v) (\<lambda>r l'. Q r (l @ l'))"
  shows "emits (bind_op m f) Q"
proof (rule emitsI)
  fix s r s' assume run: "bind_op m f s = (r, s')"
  obtain x s1 where x: "m s = (x, s1)" by force
  from emitsD [OF assms(1) x] obtain l where l: "px_log s1 = px_log s @ l" "P x l" .
  show "\<exists>l. px_log s' = px_log s @ l \<and> Q r l"
  proof (cases x)
    case (Inl e)
    with run x l assms(2) show ?thesis by (auto simp: bind_op_def)
  next
    case (Inr v)
    with run x have "f v s1 = (r, s')" by (simp add: bind_op_def)
    from emitsD [OF assms(3) this] Inr l(2) obtain l' where "px_log s' = px_log s1 @ l'" "Q r (l @ l')" by blast
    with l(1) show ?thesis by auto
  qed
qed

text \<open>The same with what was emitted before.\<close>

lemma emits_next:
  assumes "emits m P" "\<And>e l. P (Inl e) l \<Longrightarrow> Q (Inl e) (l0 @ l)"
    and "\<And>v l. P (Inr v) l \<Longrightarrow> emits (f v) (\<lambda>r l'. Q r ((l0 @ l) @ l'))"
  shows "emits (bind_op m f) (\<lambda>r l. Q r (l0 @ l))"
  by (rule emits_bind [OF assms(1)], erule assms(2)) (use assms(3) in simp)

lemma emits_try:
  assumes "emits m P" "\<And>l. P (Inl Cancelled) l \<Longrightarrow> Q (Inl Cancelled) l"
    and "\<And>e l. P (Inl e) l \<Longrightarrow> emits (h e) (\<lambda>r l'. Q r (l @ l'))"
    and "\<And>v l. P (Inr v) l \<Longrightarrow> emits (f v) (\<lambda>r l'. Q r (l @ l'))"
  shows "emits (try_except m h f) Q"
proof (rule emitsI)
  fix s r s' assume run: "try_except m h f s = (r, s')"
  obtain x s1 where x: "m s = (x, s1)" by force
  from emitsD [OF assms(1) x] obtain l where l: "px_log s1 = px_log s @ l" "P x l" .
  consider (cancelled) "x = Inl Cancelled" | (handled) e where "x = Inl e" "e \<noteq> Cancelled" | (ok) v where "x = Inr v"
    by (cases x) auto
  then show "\<exists>l. px_log s' = px_log s @ l \<and> Q r l"
  proof cases
    case cancelled
    with run x l assms(2) show ?thesis by (auto simp: try_except_def)
  next
    case handled
    with run x have "h e s1 = (r, s')" by (cases e) (simp_all add: try_except_def)
    from emitsD [OF assms(3) this] handled(1) l(2) obtain l' where "px_log s' = px_log s1 @ l'" "Q r (l @ l')" by blast
    with l(1) show ?thesis by auto
  next
    case ok
    with run x have "f v s1 = (r, s')" by (simp add: try_except_def)
    from emitsD [OF assms(4) this] ok l(2) obtain l' where "px_log s' = px_log s1 @ l'" "Q r (l @ l')" by blast
    with l(1) show ?thesis by auto
  qed
qed

lemma emits_px: "emits (px_try (traced V) rq) (\<lambda>r l. \<exists>out n. l = [(rq, out, n)] \<and> r = outcome_exc out)"
proof (rule emitsI)
  fix s r s' assume run: "px_try (traced V) rq s = (r, s')"
  obtain out s1 where o: "px_send (traced V) rq s = (out, s1)" by force
  with run have "s' = s1" "r = outcome_exc out" by (simp_all add: px_try_def)
  with traced_send [OF o]
  show "\<exists>l. px_log s' = px_log s @ l \<and> (\<exists>out n. l = [(rq, out, n)] \<and> r = outcome_exc out)" by auto
qed

lemma emits_open: "emits (open_try (traced V) ep) (\<lambda>r l. l = [])"
proof (rule emitsI)
  fix s r s' assume run: "open_try (traced V) ep s = (r, s')"
  obtain e p where o: "open_proxmox (traced V) ep (nb_world s) (vs_px s) = (e, p)"
    by (cases "open_proxmox (traced V) ep (nb_world s) (vs_px s)") simp
  from run o have "vs_px s' = p" by (cases e) (auto simp: open_try_def)
  with traced_open [OF o] show "\<exists>l. px_log s' = px_log s @ l \<and> l = []" by simp
qed

lemma emits_if:
  assumes "b \<Longrightarrow> emits m Q" "\<not> b \<Longrightarrow> emits m' Q"
  shows "emits (\<lambda>s. if b then m s else m' s) Q" "emits (if b then m else m') Q"
  using assms by (cases b; simp)+

lemma emits_gate:
  assumes "\<And>e. emits (f e) Q" "\<And>ep. admitted V eid \<Longrightarrow> emits (g ep) Q"
  shows "emits (\<lambda>s. case gate (traced V) eid reason s of Inl e \<Rightarrow> f e s | Inr ep \<Rightarrow> g ep s) Q"
proof (rule emitsI)
  fix s r s' assume run: "(case gate (traced V) eid reason s of Inl e \<Rightarrow> f e s | Inr ep \<Rightarrow> g ep s) = (r, s')"
  show "\<exists>l. px_log s' = px_log s @ l \<and> Q r l"
  proof (cases "gate (traced V) eid reason s")
    case (Inl e)
    with run have "f e s = (r, s')" by simp
    from emitsD [OF assms(1) this] show ?thesis by blast
  next
    case (Inr ep)
    then have "admitted V eid"
      by (cases "vs_px s"; cases "nb_world s") (auto simp: gate_def admitted_def traced_def split: option.splits if_splits)
    from assms(2) [OF this] Inr run show ?thesis by (auto elim: emitsD)
  qed
qed

lemma intent_journal_px:
  "write_intent_journal V c ep verb result vmid jk upid err s = (r, s') \<Longrightarrow> vs_px s' = vs_px s"
  by (auto simp: write_intent_journal_def bind_op_def write_verb_journal_entry_def on_rest_def
      split: option.splits base_exc.splits prod.splits sum.splits)

lemma emits_journaled:
  "emits (journaled V c ep verb result vmid jk upid err item) (\<lambda>r l. l = [] \<and> ((\<exists>e. r = Inl e) \<or> r = Inr item))"
proof (rule emitsI)
  fix s r s' assume run: "journaled V c ep verb result vmid jk upid err item s = (r, s')"
  obtain x s1 where x: "write_intent_journal V c ep verb result vmid jk upid err s = (x, s1)" by force
  with run have "s' = s1" "(\<exists>e. r = Inl e) \<or> r = Inr item" by (cases x; simp add: journaled_def bind_op_def; blast)+
  with intent_journal_px [OF x]
  show "\<exists>l. px_log s' = px_log s @ l \<and> l = [] \<and> ((\<exists>e. r = Inl e) \<or> r = Inr item)" by simp
qed

lemma outcome_exc_ok [simp]: "outcome_exc out = Inr v \<longleftrightarrow> out = PxReturn v"
  "Inr v = outcome_exc out \<longleftrightarrow> out = PxReturn v"
  by (auto simp: outcome_exc_def split: px_outcome.splits)

lemma intent_item_fields [simp]:
  "ai_netbox_id (intent_item c v op k st re m u) = ec_netbox_id (ir_ctx c)"
  "ai_status (intent_item c v op k st re m u) = st" "ai_reason (intent_item c v op k st re m u) = re"
  by (simp_all add: intent_item_def)


subsection \<open>Create\<close>

text \<open>At most one write, one that \<open>P\<close> admits, and a result that matches it.\<close>

definition one_write :: "intent_run \<Rightarrow> (px_log \<Rightarrow> px_request \<Rightarrow> bool) \<Rightarrow> base_exc + apply_item \<Rightarrow> px_log \<Rightarrow> bool" where
  "one_write c P r l =
     ((writes_of l = [] \<or> (\<exists>rq. writes_of l = [rq] \<and> P l rq)) \<and>
      (\<forall>i. r = Inr i \<longrightarrow>
         ai_netbox_id i = ec_netbox_id (ir_ctx c) \<and> (ai_status i = ''succeeded'' \<longrightarrow> writes_of l \<noteq> []) \<and>
         (ai_status i = ''not_implemented'' \<longrightarrow> l = []) \<and> (ai_status i = ''skipped'' \<longrightarrow> writes_of l = [])))"

lemma journaled_one_write:
  assumes "writes_of l = [] \<or> (\<exists>rq. writes_of l = [rq] \<and> P l rq)"
    and "st = ''failed'' \<or> st = ''skipped'' \<and> writes_of l = [] \<or> st = ''succeeded'' \<and> writes_of l \<noteq> []"
  shows "emits (journaled V c ep verb result vmid jk upid err (intent_item c v op k st re m u)) (\<lambda>r l'. one_write c P r (l @ l'))"
  by (rule emits_mono [OF emits_journaled]) (use assms in \<open>auto simp: one_write_def\<close>)

lemma run_create_emits:
  "emits (run_create (traced V) c ep verb k vmid node params raw) (one_write c (\<lambda>l rq. rq = create_guest_rq node k params))"
proof -
  let ?rq = "create_guest_rq node k params"
  have sent: "emits (bind_op (open_try (traced V) ep) (\<lambda>_. px_try (traced V) ?rq))
      (\<lambda>r l. writes_of l = [] \<and> (\<exists>e. r = Inl e) \<or> writes_of l = [?rq])"
    by (rule emits_bind [OF emits_open], simp, rule emits_mono [OF emits_px], auto)
  show ?thesis unfolding run_create_def Let_def
    by (rule emits_try [OF sent], fastforce simp: one_write_def) (rule journaled_one_write; auto)+
qed

lemma refuse_create_emits: "emits (refuse_create V c ep verb k vmid result message) (one_write c P)"
  unfolding refuse_create_def by (rule emits_mono [OF emits_journaled]) (auto simp: one_write_def)

lemma one_write_mono:
  assumes "emits m (one_write c P)" "\<And>l rq. P l rq \<Longrightarrow> P' l rq"
  shows "emits m (one_write c P')"
  by (rule emits_mono [OF assms(1)]) (use assms(2) in \<open>auto simp: one_write_def\<close>)

lemma qemu_create_emits:
  "emits (dispatch_qemu_create (traced V) yaml c q)
     (one_write c (\<lambda>l rq. admitted V (ec_endpoint_id (ir_ctx c)) \<and> vi_name q \<noteq> None \<and>
        rq = create_guest_rq (vi_node q) Qemu (build_qemu_create_params yaml q)))"
  unfolding dispatch_qemu_create_def Let_def
proof (rule emits_gate, goal_cases)
  case (2 ep)
  then show ?case
    by (intro emits_if refuse_create_emits one_write_mono [OF run_create_emits] emits_return)
      (simp_all add: one_write_def)
qed (rule refuse_create_emits)

lemma lxc_create_emits:
  "emits (dispatch_lxc_create (traced V) yaml c p)
     (one_write c (\<lambda>l rq. admitted V (ec_endpoint_id (ir_ctx c)) \<and> vi_name p \<noteq> None \<and> li_ostemplate p \<noteq> None \<and>
        rq = create_guest_rq (vi_node p) Lxc (build_lxc_create_params yaml p)))"
  unfolding dispatch_lxc_create_def Let_def
proof (rule emits_gate, goal_cases)
  case (2 ep)
  then show ?case by (intro emits_if refuse_create_emits one_write_mono [OF run_create_emits]) simp
qed (rule refuse_create_emits)


text \<open>A create whose request is answered is reported as done, with the task of the answer, or the journal failed.\<close>

lemma run_create_succeeds:
  assumes "open_proxmox V ep (nb_world s) (vs_px s) = (None, p1)"
    and "proxmox V (create_guest_rq node k params) (nb_world s) p1 = (PxReturn v, p2)"
    and "run_create V c ep verb k vmid node params raw s = (Inr item, s')"
  shows "item = intent_item c vmid ''create'' (kind_str k) ''succeeded'' None [] (extract_upid v)" "vs_px s' = p2"
proof -
  let ?s = "s\<lparr>vs_px := p2\<rparr>"
  have run: "journaled V c (Some ep) verb ''succeeded'' vmid ''success'' (extract_upid v) None
      (intent_item c vmid ''create'' (kind_str k) ''succeeded'' None [] (extract_upid v)) ?s = (Inr item, s')"
    using assms by (simp add: run_create_def try_except_def bind_op_def open_try_def px_try_def px_send_def outcome_exc_def Let_def)
  obtain x s1 where x: "write_intent_journal V c (Some ep) verb ''succeeded'' vmid ''success'' (extract_upid v) None ?s = (x, s1)"
    by force
  with run show "item = intent_item c vmid ''create'' (kind_str k) ''succeeded'' None [] (extract_upid v)"
    by (cases x) (auto simp: journaled_def bind_op_def)
  from run x intent_journal_px [OF x] show "vs_px s' = p2" by (cases x) (auto simp: journaled_def bind_op_def)
qed


subsection \<open>Update\<close>

definition update_body_fits ::
  "(pyobj \<Rightarrow> string) \<Rightarrow> vm_kind \<Rightarrow> intent_run \<Rightarrow> 'a vm_intent_scheme \<Rightarrow>
   base_exc + (apply_item + pyobj \<times> string option) \<Rightarrow> px_log \<Rightarrow> bool" where
  "update_body_fits yaml k c p r l =
     ((writes_of l = [] \<or> (\<exists>rq. writes_of l = [rq] \<and> update_allowed yaml k p l rq)) \<and>
      (\<forall>i. r = Inr (Inl i) \<longrightarrow>
         writes_of l = [] \<and> ai_netbox_id i = ec_netbox_id (ir_ctx c) \<and> ai_status i \<in> {''failed'', ''skipped''}) \<and>
      (\<forall>x. r = Inr (Inr x) \<longrightarrow> writes_of l \<noteq> []))"

lemma returned_fits:
  assumes "writes_of l = []" "st \<in> {''failed'', ''skipped''}"
  shows "emits (bind_op (journaled V c ep verb result vmid jk upid err (intent_item c v op kd st re m u))
      (\<lambda>v s. (Inr (Inl v), s))) (\<lambda>r l'. update_body_fits yaml k c p r (l @ l'))"
proof (rule emits_bind [OF emits_journaled], goal_cases)
  case (2 i l')
  then show ?case using assms by (intro emits_return) (auto simp: update_body_fits_def)
qed (use assms in \<open>simp add: update_body_fits_def\<close>)

lemma fails_fits: "writes_of l = [] \<Longrightarrow> update_body_fits yaml k c p (Inl e) l"
  by (simp add: update_body_fits_def)

lemma update_body_emits:
  "emits (update_body (traced V) yaml k c ep p) (update_body_fits yaml k c p)"
  unfolding update_body_def Let_def fail_update_def
proof (rule emits_bind [OF emits_open], goal_cases)
  case (2 _ l0)
  note l0 = 2
  show ?case
  proof (rule emits_next [OF emits_px], goal_cases)
    case (2 guests l1)
    then obtain n1 where l1: "l1 = [(guest_list_rq (vi_node p) k, PxReturn guests, n1)]" by auto
    show ?case
    proof (rule emits_if(2), goal_cases)
      case 1
      show ?case
      proof (rule emits_next [OF emits_px], goal_cases)
        case (2 v l2)
        with l0 l1 show ?case by (intro returned_fits) auto
      qed (use l0 l1 in \<open>auto intro!: fails_fits\<close>)
    next
      case listed: 2
      show ?case
      proof (rule emits_next [OF emits_px], goal_cases)
        case (2 config l2)
        then obtain n2 where l2: "l2 = [(guest_config_rq (vi_node p) k (vi_vmid p), PxReturn config, n2)]" by auto
        show ?case
        proof (rule emits_if(2), goal_cases)
          case 1
          show ?case using l0 l1 l2 by (intro returned_fits) simp_all
        next
          case delta: 2
          show ?case
          proof (rule emits_next [OF emits_px], goal_cases)
            case (2 status l3)
            then obtain n3 where l3: "l3 = [(guest_status_rq (vi_node p) k (vi_vmid p), PxReturn status, n3)]" by auto
            show ?case
            proof (rule emits_if(2), goal_cases)
              case 1
              show ?case using l0 l1 l2 l3 by (intro returned_fits) simp_all
            next
              case stopped: 2
              let ?delta = "build_update_delta yaml k p (mapping_from_response config)"
              have allowed: "update_allowed yaml k p (((l0 @ l1) @ l2) @ l3 @ l) (update_guest_rq (vi_node p) k (vi_vmid p) ?delta)" for l
              proof -
                let ?l = "((l0 @ l1) @ l2) @ l3 @ l"
                have "read_back ?l (guest_list_rq (vi_node p) k) guests"
                  "read_back ?l (guest_config_rq (vi_node p) k (vi_vmid p)) config"
                  "read_back ?l (guest_status_rq (vi_node p) k (vi_vmid p)) status"
                  by (simp_all add: l0 l1 l2 l3)
                then show ?thesis unfolding update_allowed_def using listed delta stopped by blast
              qed
              show ?case
              proof (rule emits_next [OF emits_px], goal_cases)
                case (1 e l4)
                with l0 l1 l2 l3 allowed [of l4] show ?case by (auto simp: update_body_fits_def)
              next
                case (2 v l4)
                with l0 l1 l2 l3 allowed [of l4] show ?case by (intro emits_return) (auto simp: update_body_fits_def)
              qed
            qed
          qed (use l0 l1 l2 in \<open>auto intro!: fails_fits\<close>)
        qed
      qed (use l0 l1 in \<open>auto intro!: fails_fits\<close>)
    qed
  qed (use l0 in \<open>auto intro!: fails_fits\<close>)
qed (simp add: fails_fits)

lemma update_emits:
  "emits (dispatch_update (traced V) yaml k c p raw)
     (one_write c (\<lambda>l rq. admitted V (ec_endpoint_id (ir_ctx c)) \<and> update_allowed yaml k p l rq))"
  unfolding dispatch_update_def
proof (rule emits_gate, goal_cases)
  case (1 e)
  show ?case unfolding fail_update_def by (rule emits_mono [OF emits_journaled]) (auto simp: one_write_def)
next
  case (2 ep)
  note admitted = 2
  show ?case
  proof (rule emits_try [OF update_body_emits], goal_cases)
    case (1 l)
    with admitted show ?case by (auto simp: one_write_def update_body_fits_def)
  next
    case (2 e l)
    with admitted show ?case unfolding fail_update_def
      by (intro journaled_one_write) (auto simp: update_body_fits_def)
  next
    case (3 v l)
    show ?case
    proof (cases v)
      case (Inl i)
      with 3 show ?thesis by (simp, intro emits_return) (auto simp: one_write_def update_body_fits_def)
    next
      case (Inr x)
      with 3 admitted show ?thesis
        by (cases x) (simp, intro journaled_one_write, auto simp: update_body_fits_def)
    qed
  qed
qed


subsection \<open>Firewall\<close>

lemma path_for_verb:
  assumes "path_for f = Inr (verb, path, probe, reason)"
  shows "verb \<in> {''POST'', ''PUT'', ''DELETE''}"
  using assms
  by (auto simp: path_for_def Let_def rule_target_def ipset_entry_target_def ipset_target_def alias_target_def map_sum_def
      split: if_splits sum.splits option.splits)

lemma emits_firewall_gate:
  assumes "\<And>e. emits (f e) Q" "\<And>ep. admitted V eid \<Longrightarrow> emits (g ep) Q"
  shows "emits (\<lambda>s. case firewall_gate (traced V) eid s of Inl e \<Rightarrow> f e s | Inr ep \<Rightarrow> g ep s) Q"
proof (rule emitsI)
  fix s r s' assume run: "(case firewall_gate (traced V) eid s of Inl e \<Rightarrow> f e s | Inr ep \<Rightarrow> g ep s) = (r, s')"
  show "\<exists>l. px_log s' = px_log s @ l \<and> Q r l"
  proof (cases "firewall_gate (traced V) eid s")
    case (Inl e)
    with run have "f e s = (r, s')" by simp
    from emitsD [OF assms(1) this] show ?thesis by blast
  next
    case (Inr ep)
    then have "admitted V eid"
      by (cases "vs_px s"; cases "nb_world s")
        (auto simp: firewall_gate_def admitted_def traced_def split: option.splits if_splits)
    from assms(2) [OF this] Inr run show ?thesis by (auto elim: emitsD)
  qed
qed

lemma emits_probe_and_write:
  assumes "is_write rq"
  shows "emits (probe_and_write (traced V) probe rq)
     (\<lambda>r l. writes_of l = [] \<and> (\<exists>e. r = Inl e) \<or> writes_of l = [rq])"
  unfolding probe_and_write_def
proof (rule emits_if(2), goal_cases)
  case 1
  show ?case
  proof (rule emits_bind [OF emits_px], goal_cases)
    case (2 v l)
    then show ?case using assms by (intro emits_mono [OF emits_px]) auto
  qed auto
qed (use assms in \<open>auto intro!: emits_mono [OF emits_px]\<close>)

definition firewall_fits ::
  "('w, 'p) ienv \<Rightarrow> int option \<Rightarrow> px_request \<Rightarrow> base_exc + (pyobj + fw_response) \<Rightarrow> px_log \<Rightarrow> bool" where
  "firewall_fits E eid rq r l =
     ((writes_of l = [] \<or> admitted (ie_verb E) eid \<and> writes_of l = [rq]) \<and>
      (\<forall>x. r = Inr (Inr x) \<longrightarrow> fr_status x \<noteq> ''skipped'' \<longrightarrow> writes_of l \<noteq> []))"

lemma emits_firewall_write:
  assumes verb: "verb \<in> {''POST'', ''PUT'', ''DELETE''}"
  shows "emits (firewall_write (traced_ienv E) eid actor (verb, path, probe, reason) body)
     (firewall_fits E eid \<lparr>px_method = verb, px_path = [path], px_params = body\<rparr>)"
proof -
  have env: "ie_verb (traced_ienv E) = traced (ie_verb E)" by (simp add: traced_ienv_def)
  have w: "is_write \<lparr>px_method = verb, px_path = [path], px_params = body\<rparr>" using verb by (auto simp: is_write_def)
  show ?thesis
  proof (cases "require_actor actor")
    case (Inl e)
    then show ?thesis
      unfolding firewall_write_def by (simp, intro emits_raise) (simp add: firewall_fits_def)
  next
    case (Inr a)
    show ?thesis
      unfolding firewall_write_def prod.case Inr sum.case env
    proof (rule emits_firewall_gate, goal_cases)
      case (1 e)
      show ?case by (rule emits_return) (simp add: firewall_fits_def)
    next
      case (2 ep)
      note admitted = 2
      show ?case
      proof (rule emits_try [OF emits_open], goal_cases)
        case (3 v l)
        show ?case
        proof (rule emits_try [OF emits_probe_and_write [OF w]], goal_cases)
          case (2 e l')
          with 3 admitted show ?case
            by (intro emits_if emits_return emits_raise) (auto simp: firewall_fits_def)
        next
          case (3 v' l')
          with \<open>l = []\<close> admitted show ?case by (intro emits_return) (auto simp: firewall_fits_def)
        qed (use 3 admitted in \<open>auto simp: firewall_fits_def\<close>)
      next
        case (2 e l)
        then show ?case by (intro emits_raise) (simp add: firewall_fits_def)
      qed (simp add: firewall_fits_def)
    qed
  qed
qed


subsection \<open>One diff\<close>

definition diff_emits ::
  "('w, 'p) ienv \<Rightarrow> int option \<Rightarrow> apply_diff \<Rightarrow> ('w \<times> request_log, 'p \<times> px_log) ist \<Rightarrow> base_exc + apply_item \<Rightarrow>
   ('w \<times> request_log, 'p \<times> px_log) ist \<Rightarrow> bool" where
  "diff_emits E eid d s r s' =
     (\<exists>l. px_log (is_req s') = px_log (is_req s) @ l \<and> diff_allowed E eid d l \<and> (\<forall>i. r = Inr i \<longrightarrow> item_fits d i l))"

lemma run_of_simps [simp]:
  "ec_endpoint_id (ir_ctx (run_of rq eid d)) = eid" "ec_netbox_id (ir_ctx (run_of rq eid d)) = ad_netbox_id d"
  "ir_actor (run_of rq eid d) = it_actor rq"
  by (simp_all add: run_of_def)

lemma in_request_emits:
  assumes "emits m Q" "in_request m s = (r, s')"
  obtains l where "px_log (is_req s') = px_log (is_req s) @ l" "Q r l"
proof -
  obtain x v where x: "m (is_req s) = (x, v)" by force
  with assms(2) have "r = x" "is_req s' = v" by (auto simp: in_request_def)
  with emitsD [OF assms(1) x] that show thesis by blast
qed

lemma guest_diff_emits:
  assumes "emits m (one_write (run_of rq eid d) P)" "in_request m s = (r, s')"
    and P: "\<And>l rq. P l rq \<Longrightarrow> admitted (ie_verb E) eid \<and> request_for (ie_yaml E) d l rq"
  shows "diff_emits E eid d s r s'"
proof -
  from in_request_emits [OF assms(1,2)] obtain l
    where l: "px_log (is_req s') = px_log (is_req s) @ l" and fits: "one_write (run_of rq eid d) P r l" .
  from fits have "diff_allowed E eid d l" unfolding one_write_def diff_allowed_def using P by blast
  moreover from fits have "\<forall>i. r = Inr i \<longrightarrow> item_fits d i l"
    by (auto simp: one_write_def item_fits_def)
  ultimately show ?thesis using l unfolding diff_emits_def by blast
qed

lemma answer_emits:
  assumes "answer_item i s = (r, s')" "ai_netbox_id i = ad_netbox_id d" "ai_status i \<noteq> ''succeeded''"
  shows "diff_emits E eid d s r s'"
  using assms unfolding diff_emits_def
  by (intro exI [of _ "[]"]) (auto simp: answer_item_def diff_allowed_def item_fits_def)

lemma firewall_diff_emits:
  assumes run: "apply_firewall_diff (traced_ienv E) (run_of rq eid d) op f s = (r, s')"
    and d: "ad_kind d = Firewall_Diff" "ad_payload d = Firewall_Payload f"
  shows "diff_emits E eid d s r s'"
proof (cases "path_for f")
  case (Inl e)
  with run show ?thesis
    by (intro answer_emits [of "firewall_failure (run_of rq eid d) op f e"])
      (auto simp: apply_firewall_diff_def answer_item_def firewall_failure_def firewall_item_def)
next
  case (Inr target)
  obtain verb path probe reason where t: "target = (verb, path, probe, reason)" by (cases target)
  let ?c = "run_of rq eid d"
  let ?body = "if verb \<noteq> ''DELETE'' then fi_body f else []"
  let ?rq = "\<lparr>px_method = verb, px_path = [path], px_params = ?body\<rparr>"
  obtain x s1 where w: "in_request (firewall_write (traced_ienv E) eid (ir_actor ?c) (verb, path, probe, reason) ?body) s = (x, s1)"
    by force
  note target = Inr [unfolded t]
  from in_request_emits [OF emits_firewall_write [OF path_for_verb [OF target]] w] obtain l
    where l: "px_log (is_req s1) = px_log (is_req s) @ l" and fits: "firewall_fits E eid ?rq x l" .
  have run': "(case (x, s1) of
      (Inl Cancelled, s') \<Rightarrow> (Inl Cancelled, s')
    | (Inl e, s') \<Rightarrow> (Inr (firewall_failure ?c op f (base_text e)), s')
    | (Inr (Inl body), s') \<Rightarrow>
        (Inr (firewall_item ?c op f ''failed'' (Some (text_or_default (obj_get body ''reason'') ''firewall_apply_failed''))
           (text_or_default (obj_get body ''detail'') (py_str (PDict body))) None), s')
    | (Inr (Inr y), s') \<Rightarrow>
        (Inr (firewall_item ?c op f (if fr_status y = ''skipped'' then ''skipped'' else ''succeeded'') (fr_reason y)
           (case fr_detail y of Some d \<Rightarrow> d | None \<Rightarrow> fi_action f @ '' '' @ fr_status y) (fr_task_id y)),
         record_firewall_intent (traced_ienv E) ?c f (fr_status y) s')) = (r, s')"
    using run w by (simp add: apply_firewall_diff_def Inr t)
  have req: "is_req s' = is_req s1"
    using run' by (cases x) (auto simp: record_firewall_intent_def split: base_exc.splits sum.splits)
  have "diff_allowed E eid d l"
    using fits d target unfolding diff_allowed_def firewall_fits_def request_for_def by auto
  moreover have "item_fits d i l" if "r = Inr i" for i
    using run' fits that d
    by (cases x)
      (auto simp: item_fits_def firewall_fits_def firewall_failure_def firewall_item_def
        split: base_exc.splits sum.splits if_splits)
  ultimately show ?thesis using l req unfolding diff_emits_def by auto
qed

lemma dispatched_guest_emits:
  "in_request (dispatch_qemu_create (traced (ie_verb E)) (ie_yaml E) (run_of rq eid d) q) s = (r, s') \<Longrightarrow>
   ad_kind d = Guest_Diff Qemu \<Longrightarrow> ad_op d = Create_Diff \<Longrightarrow> ad_payload d = Vm_Payload q \<Longrightarrow> diff_emits E eid d s r s'"
  "in_request (dispatch_lxc_create (traced (ie_verb E)) (ie_yaml E) (run_of rq eid d) p) s = (r, s') \<Longrightarrow>
   ad_kind d = Guest_Diff Lxc \<Longrightarrow> ad_op d = Create_Diff \<Longrightarrow> ad_payload d = Lxc_Payload p \<Longrightarrow> diff_emits E eid d s r s'"
  "in_request (dispatch_qemu_update (traced (ie_verb E)) (ie_yaml E) (run_of rq eid d) q) s = (r, s') \<Longrightarrow>
   ad_kind d = Guest_Diff Qemu \<Longrightarrow> ad_op d = Update_Diff \<Longrightarrow> ad_payload d = Vm_Payload q \<Longrightarrow> diff_emits E eid d s r s'"
  "in_request (dispatch_lxc_update (traced (ie_verb E)) (ie_yaml E) (run_of rq eid d) p) s = (r, s') \<Longrightarrow>
   ad_kind d = Guest_Diff Lxc \<Longrightarrow> ad_op d = Update_Diff \<Longrightarrow> ad_payload d = Lxc_Payload p \<Longrightarrow> diff_emits E eid d s r s'"
  unfolding dispatch_qemu_update_def dispatch_lxc_update_def
  by (erule guest_diff_emits [OF qemu_create_emits] guest_diff_emits [OF lxc_create_emits]
      guest_diff_emits [OF update_emits], simp add: request_for_def)+

lemma dispatch_diff_emits:
  assumes "dispatch_diff (traced_ienv E) (run_of rq eid d) d s = (r, s')"
  shows "diff_emits E eid d s r s'"
proof -
  have env: "ie_verb (traced_ienv E) = traced (ie_verb E)" "ie_yaml (traced_ienv E) = ie_yaml E"
    by (simp_all add: traced_ienv_def)
  note run = assms [unfolded dispatch_diff_def Let_def env]
  show ?thesis
  proof (cases "ad_kind d")
    case Firewall_Diff
    with run show ?thesis
      by (cases "ad_payload d") (simp_all, erule answer_emits, simp_all, erule answer_emits, simp_all add: firewall_diff_emits)
  next
    case (Guest_Diff k)
    show ?thesis
    proof (cases "ad_op d")
      case Create_Diff
      with Guest_Diff run show ?thesis
        by (cases k; cases "ad_payload d"; simp)
          ((erule dispatched_guest_emits answer_emits; simp add: payload_failure_def)+)
    next
      case Update_Diff
      with Guest_Diff run show ?thesis
        by (cases k; cases "ad_payload d"; simp)
          ((erule dispatched_guest_emits answer_emits; simp add: payload_failure_def)+)
    next
      case Delete_Diff
      with Guest_Diff run show ?thesis by (cases k; simp) (erule answer_emits; simp)+
    qed
  qed
qed


subsection \<open>The run\<close>

definition run_fits ::
  "('w, 'p) ienv \<Rightarrow> int option \<Rightarrow> apply_diff list \<Rightarrow> base_exc + (apply_item + apply_item list) \<Rightarrow> px_log list \<Rightarrow> bool" where
  "run_fits E eid ds r ls =
     (length ls \<le> length ds \<and> list_all2 (diff_allowed E eid) (take (length ls) ds) ls \<and>
      (\<forall>items. r = Inr (Inr items) \<longrightarrow>
         length items = length ds \<and> length ls = length ds \<and> list_all2 (\<lambda>(d, i). item_fits d i) (zip ds items) ls))"

lemma apply_diffs_emits:
  assumes "apply_diffs (traced_ienv E) rq eid ds s = (r, s')"
  shows "\<exists>ls. px_log (is_req s') = px_log (is_req s) @ concat ls \<and> run_fits E eid ds r ls"
  using assms
proof (induction ds arbitrary: s r)
  case Nil
  then show ?case by (intro exI [of _ "[]"]) (auto simp: run_fits_def)
next
  case (Cons d ds)
  obtain x s1 where x: "dispatch_diff (traced_ienv E) (run_of rq eid d) d s = (x, s1)" by force
  from dispatch_diff_emits [OF x] obtain l where l: "px_log (is_req s1) = px_log (is_req s) @ l"
    and allowed: "diff_allowed E eid d l" and fits: "\<forall>i. x = Inr i \<longrightarrow> item_fits d i l"
    unfolding diff_emits_def by blast
  consider (error) e where "x = Inl e" | (ended) i where "x = Inr i" "ends_run d i" | (further) i where "x = Inr i" "\<not> ends_run d i"
    by (cases x) auto
  then show ?case
  proof cases
    case error
    with Cons.prems x have "s' = s1" "r = Inl e" by simp_all
    with l allowed show ?thesis by (intro exI [of _ "[l]"]) (simp add: run_fits_def)
  next
    case ended
    with Cons.prems x have "s' = s1" "r = Inr (Inl i)" by simp_all
    with l allowed show ?thesis by (intro exI [of _ "[l]"]) (simp add: run_fits_def)
  next
    case further
    obtain y s2 where y: "apply_diffs (traced_ienv E) rq eid ds s1 = (y, s2)" by force
    with Cons.prems x further have s': "s' = s2" and r: "r = (case y of Inr (Inr rest) \<Rightarrow> Inr (Inr (i # rest)) | _ \<Rightarrow> y)"
      by (auto split: sum.splits)
    from Cons.IH [of s1 y] y s' obtain ls
      where ls: "px_log (is_req s') = px_log (is_req s1) @ concat ls" "run_fits E eid ds y ls" by auto
    have "run_fits E eid (d # ds) r (l # ls)"
      using ls(2) allowed fits further r by (auto simp: run_fits_def split: sum.splits)
    with l ls(1) show ?thesis by (intro exI [of _ "l # ls"]) simp
  qed
qed


end
