(* ===== verification/Spec2Isabelle.thy ===== *)
theory Spec2Isabelle
  imports Idempotency_Cache Name_Collision Access_Middleware Ssrf_Guard Bulk_Reconcile Vm_Selection Orphan_Sweep Vm_Queue Verb_Replay
    Log_Buffer Active_Sync Ceph_Safety Deletion_Requests Intent_Safety
begin

text \<open>
  \<^bold>\<open>proxbox-api: a model of the service's core and the theorems that make it correct.\<close>

  The service stands between NetBox plugins and two REST interfaces: it reads the inventory of Proxmox
  clusters and writes it to NetBox. A request passes the middleware (\<^verbatim>\<open>app/factory.py\<close>), which checks the API
  key (\<^verbatim>\<open>auth.py\<close>, \<^verbatim>\<open>routes/auth.py\<close>); a synchronization then reads NetBox through a cached REST client and
  writes through a reconciler that creates, patches or keeps records (\<^verbatim>\<open>netbox_rest.py\<close>), names and matches
  virtual machines, and at the end of a full run removes the machines it no longer saw. All paths are
  below \<^verbatim>\<open>src/proxbox_api\<close>.

  \<^bold>\<open>Theories and code.\<close> In the order of imports:

  \<^item> \<^verbatim>\<open>Py_Prelude\<close>, \<^verbatim>\<open>Py_Values\<close>: insertion-ordered dictionaries, text functions, numbers, and the JSON values
    with Python's equality, truth, \<^verbatim>\<open>int\<close>, \<^verbatim>\<open>str\<close>, \<^verbatim>\<open>repr\<close> and \<^verbatim>\<open>json.dumps\<close>.
  \<^item> \<^verbatim>\<open>Index_Laws\<close>: the contracts of a grouping and of a first-wins index as locales, interpreted by the snapshot
    indexes, the sidecar names and the orphan candidates; list comprehensions that may raise.
  \<^item> \<^verbatim>\<open>Expiring_Cache\<close>: the contract of a cache with a time to live as a locale, with its theorem about
    histories; \<^verbatim>\<open>Idempotency_Cache\<close> (\<^verbatim>\<open>services/idempotency.py\<close>) and \<^verbatim>\<open>Get_Cache\<close> (the GET cache of
    \<^verbatim>\<open>netbox_rest.py\<close>) interpret it. The single-flight part of the first is a step relation over tasks.
  \<^item> \<^verbatim>\<open>Name_Collision\<close> (\<^verbatim>\<open>services/name_collision.py\<close>): the names virtual machines get in NetBox.
  \<^item> \<^verbatim>\<open>Auth_Keys\<close> (\<^verbatim>\<open>auth.py\<close>, \<^verbatim>\<open>routes/auth.py\<close>, tables of \<^verbatim>\<open>database.py\<close>): lockout, key check, and the key
    routes as a step relation over the workers; \<^verbatim>\<open>Ip_Address\<close>: the part of Python's \<^verbatim>\<open>ipaddress\<close> used;
    \<^verbatim>\<open>Access_Middleware\<close> (\<^verbatim>\<open>app/factory.py\<close>) and \<^verbatim>\<open>Ssrf_Guard\<close> (\<^verbatim>\<open>ssrf.py\<close>).
  \<^item> \<^verbatim>\<open>Transient_Retry\<close> (\<^verbatim>\<open>exception.py\<close>, \<^verbatim>\<open>utils/retry.py\<close>), \<^verbatim>\<open>Rest_Client\<close>, \<^verbatim>\<open>Rest_List\<close>, \<^verbatim>\<open>Rest_Reconcile\<close>,
    \<^verbatim>\<open>Bulk_Reconcile\<close>: \<^verbatim>\<open>netbox_rest.py\<close> from one request with its error handling to the bulk reconciler;
    \<^verbatim>\<open>Runtime_Settings\<close> (\<^verbatim>\<open>runtime_settings.py\<close>): the resolvers of the settings it uses.
  \<^item> \<^verbatim>\<open>Vm_Identity\<close> (\<^verbatim>\<open>services/sync/vmid_helpers.py\<close>, part of \<^verbatim>\<open>vm_helpers.py\<close>): identity of a machine across the
    two systems, and the lookup of selected machines.
  \<^item> \<^verbatim>\<open>Sidecar_State\<close> (\<^verbatim>\<open>services/sync/sync_state_writer.py\<close>, \<^verbatim>\<open>sync_state_reader.py\<close>): the plugin's sidecar rows.
    Its state adds the two memos of unavailable routes to the state of the client.
  \<^item> \<^verbatim>\<open>Vm_Selection\<close> (\<^verbatim>\<open>services/sync/vm_filter.py\<close>), \<^verbatim>\<open>Orphan_Sweep\<close> (\<^verbatim>\<open>services/sync/orphan_sweep.py\<close>) and \<^verbatim>\<open>Vm_Queue\<close>
    (\<^verbatim>\<open>services/sync/reconciliation/\<close> with the create body of \<^verbatim>\<open>proxmox_to_netbox/models.py\<close>).

  \<^bold>\<open>State and effects.\<close> An operation of the REST client is a function from the client's state (the world of
  the SDK and the GET cache) to a result or exception and the new state. The environment record holds
  what lies outside the repository: \<open>request\<close>, any function on any world, sleeping, clock, jitter. The
  theorems quantify over it, so they hold against every server, also one that fails at any point. An
  environment can be \<open>logged\<close>; the theorems about what is written to NetBox speak of that log. Python
  exceptions are values of \<open>py_exc\<close>; a raise is \<open>Inl\<close>. Concurrency is modelled where state is shared: tasks
  of the single-flight cache and workers of the key routes are interleaved step by step.

  \<^bold>\<open>What the theorems show.\<close> Caches: single flight is exclusive, a read was written to the same key less
  than the time to live ago, limits hold, no stale read follows a write (C1--C4, C18--C20). Names are
  free, distinct and respect operator renames (C5--C7). Keys: one bootstrap, the last active key stays,
  exactly the right requests are authorized, guessing is bounded (C8--C11). Middleware and SSRF guard:
  rate window, unspoofable client address, guarded paths, admissible hosts (C12--C16). Client: outcome of
  retries, what is repeated, all-or-nothing listing that returns the collection (C17, C21--C25).
  Settings give a workable configuration (C26, C27). Reconcilers: minimal patches that converge, which
  writes are sent, the bulk plan and its counts (C28--C31). Virtual machines: the selector round trip
  and exact coverage (C32, C33), identity that is unique or refused (C34), one-pass names as the
  individual ones (C35), selection neither widened nor narrowed (C36), a sweep that deletes only its
  own candidates (C37), indexes that find what a scan finds, sound operations, and an answer that does
  not depend on the engine (C38--C40). Lemmas named as observations record where the code does not do what it says.

  \<^bold>\<open>Bounds and fuel.\<close> There is no fuel: the retry loops count down \<open>max_retries\<close>, the listing loop is
  total because each round counts a page against the code's hard limit of pages, a duplicate is fetched
  again at most three times, and the chunks of a selected lookup have 100 ids; every other loop runs over
  a list. The listing theorem C25 is stated up to the code's own limit of 10000 records.

  \<^bold>\<open>Assumptions.\<close> Text is ASCII. Clock readings and delays are real numbers. A JSON float is a finite
  decimal. Records of the SDK are \<open>RestRecord\<close> objects or the dictionaries of their fields, and sessions and
  cluster rows are dictionaries of their fields, so the coercions of other object shapes are left out.
  Pydantic schemas and normalizers passed to the reconciler are parameters; the create body of a
  virtual machine is modelled with pydantic's reading of an \<^verbatim>\<open>int\<close> field as a parameter. Password hashing,
  the Rust engine and name resolution are parameters too. Log messages have no effect and are left out.

  \<^bold>\<open>Not modelled.\<close> Generated code and its generator; HTTP handlers that only forward to an SDK; sessions and
  credentials; SSH and websocket I/O; provisioning, Ceph, PBS and PDM; output formatting. These are calls
  to third-party libraries or separate products. Planned next, in this order: the guest network helpers
  of \<^verbatim>\<open>vm_helpers.py\<close> with IP and MAC ownership, the individual and per-object sync services over the
  reconciler, the run lock and log buffer, the settings cache, the intent dispatchers and the Proxmox
  actions with their idempotency, and \<^verbatim>\<open>ceph/v2_engine.py\<close>.
\<close>

end
